(* ===== verification/Prelude.thy ===== *)
theory Prelude
  imports "HOL-Library.Word" "HOL-Library.AList" "HOL-Library.Sublist"
begin

text \<open>
  Shared vocabulary of the development.

  A Go \<open>[]byte\<close> is a list of 8-bit words, a Go \<open>string\<close> (a byte sequence) is an Isabelle
  \<open>string\<close>, whose characters are bytes. A Go \<open>map\<close> that the code iterates over is an
  association list with distinct keys: the order of the list stands for the iteration order, which
  Go leaves open, and a theorem about every such list is a theorem about every order. Times are
  integers counting nanoseconds, as \<open>time.Time\<close> and \<open>time.Duration\<close> do.
\<close>

named_theorems go_defs \<open>definitions that model Go's standard library\<close>
named_theorems byte_simps \<open>rewrite rules for byte encodings\<close>

type_synonym byte = "8 word"
type_synonym bytes = "8 word list"
type_synonym gotime = int

section \<open>Strings and bytes\<close>

definition bytes_of :: "string \<Rightarrow> bytes" where
  "bytes_of s = map of_char s"

definition str_of :: "bytes \<Rightarrow> string" where
  "str_of bs = map (\<lambda>b. char_of (unat b)) bs"

lemma of_char_byte: "(of_char c :: byte) = word_of_nat (of_char c)"
  by (metis of_nat_of_char)

lemma unat_of_char_byte [simp]: "unat (of_char c :: byte) = of_char c"
  by (simp add: of_char_byte unat_of_nat)

lemma of_char_char_of_byte [simp]: "of_char (char_of (unat b)) = (b :: byte)"
proof -
  have "unat b < 256" using unsigned_less [of b, where ?'a = nat] by simp
  then show ?thesis by (simp add: of_char_byte)
qed

lemma str_of_bytes_of [simp]: "str_of (bytes_of s) = s"
  by (simp add: str_of_def bytes_of_def comp_def)

lemma bytes_of_str_of [simp]: "bytes_of (str_of bs) = bs"
  by (simp add: str_of_def bytes_of_def comp_def)

lemma length_bytes_of [simp]: "length (bytes_of s) = length s"
  by (simp add: bytes_of_def)

lemma length_str_of [simp]: "length (str_of bs) = length bs"
  by (simp add: str_of_def)

lemma bytes_of_inject [simp]: "bytes_of s = bytes_of t \<longleftrightarrow> s = t"
  by (metis str_of_bytes_of)

lemma str_of_inject [simp]: "str_of a = str_of b \<longleftrightarrow> a = b"
  by (metis bytes_of_str_of)

text \<open>\<open>strings.HasPrefix\<close>, \<open>strings.HasSuffix\<close>, \<open>strings.TrimPrefix\<close>,
  \<open>strings.TrimSuffix\<close>, \<open>strings.ContainsAny\<close> and \<open>strings.Split\<close> on one separator.\<close>

definition has_prefix :: "'a list \<Rightarrow> 'a list \<Rightarrow> bool" where
  "has_prefix s p \<longleftrightarrow> take (length p) s = p"

definition has_suffix :: "'a list \<Rightarrow> 'a list \<Rightarrow> bool" where
  "has_suffix s p \<longleftrightarrow> length p \<le> length s \<and> drop (length s - length p) s = p"

definition trim_prefix :: "'a list \<Rightarrow> 'a list \<Rightarrow> 'a list" where
  "trim_prefix s p = (if has_prefix s p then drop (length p) s else s)"

definition trim_suffix :: "'a list \<Rightarrow> 'a list \<Rightarrow> 'a list" where
  "trim_suffix s p = (if has_suffix s p then take (length s - length p) s else s)"

definition contains_any :: "'a list \<Rightarrow> 'a list \<Rightarrow> bool" where
  "contains_any s cs \<longleftrightarrow> list_ex (\<lambda>c. List.member cs c) s"

fun split_on :: "'a \<Rightarrow> 'a list \<Rightarrow> 'a list list" where
  "split_on sep [] = [[]]"
| "split_on sep (c # cs) =
     (if c = sep then [] # split_on sep cs
      else case split_on sep cs of [] \<Rightarrow> [[c]] | w # ws \<Rightarrow> (c # w) # ws)"

lemma has_prefix_append: "has_prefix s p \<longleftrightarrow> (\<exists>t. s = p @ t)"
  unfolding has_prefix_def
  by (metis append_eq_conv_conj append_take_drop_id)

lemma has_prefix_self [simp]: "has_prefix s s" "has_prefix s []"
  by (simp_all add: has_prefix_def)

lemma has_suffix_append: "has_suffix s p \<longleftrightarrow> (\<exists>t. s = t @ p)"
proof
  assume "has_suffix s p"
  then have "s = take (length s - length p) s @ p"
    unfolding has_suffix_def by (metis append_take_drop_id)
  then show "\<exists>t. s = t @ p" ..
qed (auto simp: has_suffix_def)

lemma contains_any_iff: "contains_any s cs \<longleftrightarrow> set s \<inter> set cs \<noteq> {}"
  by (auto simp: contains_any_def list_ex_iff)

lemma split_on_not_Nil [simp]: "split_on sep s \<noteq> []"
  by (induction s) (auto split: list.splits)

lemma split_on_no_sep: "w \<in> set (split_on sep s) \<Longrightarrow> sep \<notin> set w"
  by (induction s arbitrary: w) (auto split: if_splits list.splits)

section \<open>Big-endian integers\<close>

text \<open>\<open>binary.BigEndian.PutUintN\<close> and \<open>UintN\<close>, on naturals.\<close>

fun be_bytes :: "nat \<Rightarrow> nat \<Rightarrow> bytes" where
  "be_bytes 0 v = []"
| "be_bytes (Suc n) v = be_bytes n (v div 256) @ [word_of_nat v]"

definition be_val :: "bytes \<Rightarrow> nat" where
  "be_val bs = foldl (\<lambda>a b. a * 256 + unat b) 0 bs"

lemma length_be_bytes [simp, byte_simps]: "length (be_bytes n v) = n"
  by (induction n arbitrary: v) auto

lemma be_val_Nil [simp]: "be_val [] = 0"
  by (simp add: be_val_def)

lemma be_val_snoc [simp]: "be_val (bs @ [b]) = be_val bs * 256 + unat b"
  by (simp add: be_val_def)

lemma unat_byte_of_nat [byte_simps]: "unat (word_of_nat v :: byte) = v mod 256"
  by (simp add: unat_of_nat)

lemma be_val_be_bytes [byte_simps]: "be_val (be_bytes n v) = v mod 256 ^ n"
proof (induction n arbitrary: v)
  case 0
  then show ?case by simp
next
  case (Suc n)
  have "be_val (be_bytes (Suc n) v) = v div 256 mod 256 ^ n * 256 + v mod 256"
    by (simp add: Suc.IH unat_byte_of_nat)
  also have "\<dots> = v mod (256 * 256 ^ n)"
    by (simp add: mod_mult2_eq mult.commute add.commute)
  finally show ?case by simp
qed

lemma be_bytes_be_val: "be_bytes (length bs) (be_val bs) = bs"
proof (induction bs rule: rev_induct)
  case Nil
  then show ?case by simp
next
  case (snoc b bs)
  have "(be_val bs * 256 + unat b) div 256 = be_val bs"
    using unsigned_less [of b, where ?'a = nat] by simp
  moreover have "(word_of_nat (be_val bs * 256 + unat b) :: byte) = b"
  proof -
    have "unat (word_of_nat (be_val bs * 256 + unat b) :: byte) = unat b"
      using unsigned_less [of b, where ?'a = nat] by (simp only: unat_byte_of_nat) simp
    then show ?thesis by (simp only: word_unat_eq_iff)
  qed
  ultimately show ?case by (simp add: snoc)
qed

lemma be_val_bound: "be_val bs < 256 ^ length bs"
proof (induction bs rule: rev_induct)
  case Nil
  then show ?case by simp
next
  case (snoc b bs)
  have "unat b < 256" using unsigned_less [of b, where ?'a = nat] by simp
  with snoc show ?case by simp
qed

definition be_put16 :: "16 word \<Rightarrow> bytes" where
  "be_put16 w = be_bytes 2 (unat w)"

definition be_get16 :: "bytes \<Rightarrow> 16 word" where
  "be_get16 bs = word_of_nat (be_val bs)"

definition be_put64 :: "64 word \<Rightarrow> bytes" where
  "be_put64 w = be_bytes 8 (unat w)"

definition be_get64 :: "bytes \<Rightarrow> 64 word" where
  "be_get64 bs = word_of_nat (be_val bs)"

lemma length_be_put [simp]: "length (be_put16 w) = 2" "length (be_put64 v) = 8"
  by (simp_all add: be_put16_def be_put64_def)

lemma be_get_put16 [simp]: "be_get16 (be_put16 w) = w"
proof -
  have "unat w < 256 ^ 2" using unsigned_less [of w, where ?'a = nat] by simp
  then show ?thesis by (simp add: be_get16_def be_put16_def be_val_be_bytes del: be_bytes.simps)
qed

lemma be_get_put64 [simp]: "be_get64 (be_put64 w) = w"
proof -
  have "unat w < 256 ^ 8" using unsigned_less [of w, where ?'a = nat] by simp
  then show ?thesis by (simp add: be_get64_def be_put64_def be_val_be_bytes del: be_bytes.simps)
qed

lemma be_put_get16:
  assumes "length bs = 2" shows "be_put16 (be_get16 bs) = bs"
proof -
  have "be_val bs < 2 ^ 16" using be_val_bound [of bs] assms by simp
  then have "unat (be_get16 bs) = be_val bs" by (simp add: be_get16_def unat_of_nat)
  then show ?thesis using be_bytes_be_val [of bs] assms by (simp add: be_put16_def del: be_bytes.simps)
qed

lemma be_put64_inject [simp]: "be_put64 a = be_put64 b \<longleftrightarrow> a = b"
  by (metis be_get_put64)

lemma be_put16_inject [simp]: "be_put16 a = be_put16 b \<longleftrightarrow> a = b"
  by (metis be_get_put16)

section \<open>Go maps as association lists\<close>

type_synonym ('k, 'v) gomap = "('k \<times> 'v) list"

abbreviation wf_map :: "('k, 'v) gomap \<Rightarrow> bool" where
  "wf_map m \<equiv> distinct (map fst m)"

lemma wf_map_update [simp]: "wf_map m \<Longrightarrow> wf_map (AList.update k v m)"
  by (rule distinct_update)

lemma wf_map_delete [simp]: "wf_map m \<Longrightarrow> wf_map (AList.delete k m)"
  by (rule distinct_delete)

lemma length_update_absent:
  "map_of m k = None \<Longrightarrow> length (AList.update k v m) = Suc (length m)"
  by (induction m) (auto split: if_splits)

lemma update_absent: "map_of m k = None \<Longrightarrow> AList.update k v m = m @ [(k, v)]"
  by (induction m) (auto split: if_splits)

lemma delete_filter: "AList.delete k m = filter (\<lambda>p. fst p \<noteq> k) m"
  by (auto simp: AList.delete_eq intro: filter_cong)

lemma set_update:
  "wf_map m \<Longrightarrow> set (AList.update k v m) = insert (k, v) {p \<in> set m. fst p \<noteq> k}"
  by (induction m) (auto simp: image_iff)

lemma wf_map_mem: "wf_map m \<Longrightarrow> (k, v) \<in> set m \<longleftrightarrow> map_of m k = Some v"
  by simp

text \<open>How many values of a map satisfy a predicate, and how updates and deletions change that.\<close>

definition vcount :: "('v \<Rightarrow> bool) \<Rightarrow> ('k, 'v) gomap \<Rightarrow> nat" where
  "vcount P m = length (filter P (map snd m))"

definition hit :: "('v \<Rightarrow> bool) \<Rightarrow> 'v option \<Rightarrow> nat" where
  "hit P o' = (case o' of None \<Rightarrow> 0 | Some v \<Rightarrow> if P v then 1 else 0)"

lemma hit_simps [simp]: "hit P None = 0" "hit P (Some v) = (if P v then 1 else 0)"
  by (simp_all add: hit_def)

lemma vcount_Nil [simp]: "vcount P [] = 0"
  by (simp add: vcount_def)

lemma vcount_Cons [simp]: "vcount P ((k, v) # m) = hit P (Some v) + vcount P m"
  by (simp add: vcount_def)

lemma delete_absent: "map_of m k = None \<Longrightarrow> AList.delete k m = m"
  by (induction m) (auto split: if_splits)

lemma vcount_delete: "wf_map m \<Longrightarrow> vcount P (AList.delete k m) + hit P (map_of m k) = vcount P m"
proof (induction m)
  case (Cons e m)
  obtain c v where [simp]: "e = (c, v)" by (cases e)
  show ?case
  proof (cases "c = k")
    case True
    with Cons.prems have "map_of m k = None" by (auto simp: map_of_eq_None_iff)
    with True show ?thesis by (simp add: delete_absent del: hit_simps)
  next
    case False
    with Cons show ?thesis by (simp del: hit_simps)
  qed
qed simp

lemma vcount_update:
  "wf_map m \<Longrightarrow> vcount P (AList.update k v m) + hit P (map_of m k) = vcount P m + hit P (Some v)"
proof (induction m)
  case (Cons e m)
  obtain c w where [simp]: "e = (c, w)" by (cases e)
  from Cons show ?case by (cases "c = k") (simp_all del: hit_simps)
qed simp

lemma vcount_delete_le: "vcount P (AList.delete k m) \<le> vcount P m"
  by (induction m) (auto simp: vcount_def)

lemma vcount_le_length: "vcount P m \<le> length m"
  by (simp add: vcount_def order_trans [OF length_filter_le])

lemma vcount_split: "vcount P m + vcount (\<lambda>v. \<not> P v) m = length m"
  using sum_length_filter_compl [of P "map snd m"] by (simp only: vcount_def length_map)

lemma vcount_True: "vcount (\<lambda>_. True) m = length m"
  by (simp add: vcount_def)

end
