(* ===== verification/Interfaces.thy ===== *)
theory Interfaces
  imports Prelude
begin

text \<open>
  The contracts that components rely on, as locales. Each is interpreted on the model's own
  definitions in the theory of the component that provides it.
\<close>

section \<open>Codecs\<close>

locale codec =
  fixes enc :: "'a \<Rightarrow> 'b"
    and dec :: "'b \<Rightarrow> 'a option"
    and ok :: "'a \<Rightarrow> bool"
  assumes dec_enc: "ok x \<Longrightarrow> dec (enc x) = Some x"
begin

lemma enc_inject: "ok x \<Longrightarrow> ok y \<Longrightarrow> enc x = enc y \<longleftrightarrow> x = y"
  by (metis dec_enc option.inject)

lemma dec_enc_iff: "ok x \<Longrightarrow> dec (enc x) = Some y \<longleftrightarrow> x = y"
  by (simp add: dec_enc)

lemma enc_inj_on: "inj_on enc {x. ok x}"
  by (auto simp: inj_on_def enc_inject)

end

text \<open>A codec that accepts only the images of its encoder.\<close>

locale strict_codec = codec +
  assumes enc_dec: "dec y = Some x \<Longrightarrow> enc x = y \<and> ok x"
begin

lemma dec_inject: "dec y = Some x \<Longrightarrow> dec z = Some x \<Longrightarrow> y = z"
  using enc_dec by blast

lemma dec_eq_iff: "dec y = Some x \<longleftrightarrow> ok x \<and> enc x = y"
  using enc_dec dec_enc by blast

end

section \<open>Machines with an invariant\<close>

text \<open>A component whose operations are events of a deterministic step function, together with
  the invariant that every operation keeps.\<close>

locale machine =
  fixes step :: "'e \<Rightarrow> 's \<Rightarrow> 's"
    and inv :: "'s \<Rightarrow> bool"
  assumes step_inv: "inv s \<Longrightarrow> inv (step e s)"
begin

lemma run_inv: "inv s \<Longrightarrow> inv (fold step es s)"
  by (induction es arbitrary: s) (auto intro: step_inv)

lemma run_inv_prefix: "inv s \<Longrightarrow> inv (fold step (take n es) s)"
  by (rule run_inv)

end

section \<open>Bounded slot pools\<close>

locale slot_pool =
  fixes acq :: "'p \<Rightarrow> 'p option"
    and give :: "'p \<Rightarrow> 'p"
    and used :: "'p \<Rightarrow> nat"
    and cap :: "'p \<Rightarrow> nat"
  assumes acq_full: "acq p = None \<longleftrightarrow> cap p \<le> used p"
    and acq_used: "acq p = Some q \<Longrightarrow> used q = Suc (used p)"
    and acq_cap: "acq p = Some q \<Longrightarrow> cap q = cap p"
    and give_used: "used p \<noteq> 0 \<Longrightarrow> used (give p) = used p - 1"
    and give_cap: "cap (give p) = cap p"
begin

lemma acq_bounded: "acq p = Some q \<Longrightarrow> used q \<le> cap q"
  by (metis acq_full acq_used acq_cap not_less_eq_eq option.distinct(1))

lemma give_after_acq: "acq p = Some q \<Longrightarrow> used (give q) = used p \<and> cap (give q) = cap p"
  by (simp add: acq_used give_used give_cap acq_cap)

lemma give_bounded: "used p \<noteq> 0 \<Longrightarrow> used p \<le> cap p \<Longrightarrow> used (give p) < cap (give p)"
  by (simp add: give_used give_cap)

lemma acq_after_give: "used p \<noteq> 0 \<Longrightarrow> used p \<le> cap p \<Longrightarrow> acq (give p) \<noteq> None"
  using give_bounded acq_full by (metis not_le)

end

section \<open>Trust registries\<close>

text \<open>What the admission logic relies on: only \<open>add\<close> inserts, and a removed device stays
  untrusted until it is added again.\<close>

locale trust_registry =
  fixes trusted :: "'s \<Rightarrow> 'd \<Rightarrow> bool"
    and add :: "'d \<Rightarrow> 's \<Rightarrow> 's"
    and touch :: "'d \<Rightarrow> 's \<Rightarrow> 's"
    and remv :: "'d \<Rightarrow> 's \<Rightarrow> 's"
    and invar :: "'s \<Rightarrow> bool"
  assumes trusted_add: "invar s \<Longrightarrow> trusted (add d s) e \<longleftrightarrow> e = d \<or> trusted s e"
    and trusted_touch: "invar s \<Longrightarrow> trusted (touch d s) e \<longleftrightarrow> trusted s e"
    and trusted_drop: "invar s \<Longrightarrow> trusted (remv d s) e \<longleftrightarrow> e \<noteq> d \<and> trusted s e"
    and invar_add: "invar s \<Longrightarrow> invar (add d s)"
    and invar_touch: "invar s \<Longrightarrow> invar (touch d s)"
    and invar_drop: "invar s \<Longrightarrow> invar (remv d s)"

datatype 'd trust_op = TAdd 'd | TTouch 'd | TDrop 'd

fun trust_apply ::
  "('d \<Rightarrow> 's \<Rightarrow> 's) \<Rightarrow> ('d \<Rightarrow> 's \<Rightarrow> 's) \<Rightarrow> ('d \<Rightarrow> 's \<Rightarrow> 's) \<Rightarrow> 'd trust_op \<Rightarrow> 's \<Rightarrow> 's" where
  "trust_apply add touch remv (TAdd d) s = add d s"
| "trust_apply add touch remv (TTouch d) s = touch d s"
| "trust_apply add touch remv (TDrop d) s = remv d s"

context trust_registry
begin

lemma invar_apply: "invar s \<Longrightarrow> invar (trust_apply add touch remv x s)"
  by (cases x) (auto intro: invar_add invar_touch invar_drop)

lemma untrusted_stays:
  assumes "invar s" "\<not> trusted s d" "TAdd d \<notin> set xs"
  shows "\<not> trusted (fold (trust_apply add touch remv) xs s) d"
  using assms
proof (induction xs arbitrary: s)
  case (Cons x xs)
  have "invar (trust_apply add touch remv x s)" using Cons.prems(1) by (rule invar_apply)
  moreover have "\<not> trusted (trust_apply add touch remv x s) d"
    using Cons.prems by (cases x) (auto simp: trusted_add trusted_touch trusted_drop)
  ultimately show ?case using Cons by simp
qed simp

lemma dropped_stays_untrusted:
  assumes "invar s" "TAdd d \<notin> set xs"
  shows "\<not> trusted (fold (trust_apply add touch remv) xs (remv d s)) d"
  using assms by (intro untrusted_stays) (auto simp: trusted_drop invar_drop)

end

section \<open>Tables of channel incarnations\<close>

text \<open>Relay and bridge both keep a table of live channels whose numbers are reused; a close names
  the incarnation by its token. An empty token is the wire form of an older peer.\<close>

locale incarnation_table =
  fixes find :: "'t \<Rightarrow> 'c \<Rightarrow> 'e option"
    and tok :: "'e \<Rightarrow> string"
    and close :: "'c \<Rightarrow> string \<Rightarrow> 't \<Rightarrow> 't"
    and invar :: "'t \<Rightarrow> bool"
  assumes find_close: "invar t \<Longrightarrow> find (close c k t) d =
      (if d = c \<and> (\<exists>e. find t c = Some e \<and> (k = [] \<or> tok e = k)) then None else find t d)"
begin

lemma close_stale: "invar t \<Longrightarrow> find t c = Some e \<Longrightarrow> k \<noteq> [] \<Longrightarrow> tok e \<noteq> k \<Longrightarrow>
    find (close c k t) d = find t d"
  by (auto simp: find_close)

lemma close_named: "invar t \<Longrightarrow> find t c = Some e \<Longrightarrow> find (close c (tok e) t) c = None"
  by (auto simp: find_close)

lemma close_other: "invar t \<Longrightarrow> d \<noteq> c \<Longrightarrow> find (close c k t) d = find t d"
  by (auto simp: find_close)

end

end
