(* ===== verification/Encoding.thy ===== *)
theory Encoding
  imports Interfaces
begin

text \<open>
  Go's \<open>encoding/base64\<close> (RawURLEncoding) and \<open>encoding/hex\<close> as the sources use them, and the
  definitions of internal/protocol/device.go built on them. Decoding follows Go: carriage returns
  and newlines are skipped, a dangling single character is an error, and unused trailing bits are
  ignored (RawURLEncoding is not \<open>Strict\<close>).
\<close>

section \<open>base64.RawURLEncoding\<close>

definition b64_char :: "nat \<Rightarrow> char" where
  "b64_char n =
     (if n < 26 then char_of (n + 65)
      else if n < 52 then char_of (n + 71)
      else if n < 62 then char_of (n - 4)
      else if n = 62 then CHR ''-'' else CHR ''_'')"

definition b64_val :: "char \<Rightarrow> nat option" where
  "b64_val c =
     (let v = (of_char c :: nat) in
      if 65 \<le> v \<and> v \<le> 90 then Some (v - 65)
      else if 97 \<le> v \<and> v \<le> 122 then Some (v - 71)
      else if 48 \<le> v \<and> v \<le> 57 then Some (v + 4)
      else if v = 45 then Some 62
      else if v = 95 then Some 63
      else None)"

fun b64_encode :: "bytes \<Rightarrow> string" where
  "b64_encode [] = []"
| "b64_encode [a] = [b64_char (unat a div 4), b64_char (unat a mod 4 * 16)]"
| "b64_encode [a, b] =
     [b64_char (unat a div 4), b64_char (unat a mod 4 * 16 + unat b div 16),
      b64_char (unat b mod 16 * 4)]"
| "b64_encode (a # b # c # rest) =
     b64_char (unat a div 4) # b64_char (unat a mod 4 * 16 + unat b div 16) #
     b64_char (unat b mod 16 * 4 + unat c div 64) # b64_char (unat c mod 64) # b64_encode rest"

fun b64_quanta :: "nat list \<Rightarrow> bytes option" where
  "b64_quanta [] = Some []"
| "b64_quanta [w] = None"
| "b64_quanta [w, x] = Some [word_of_nat (w * 4 + x div 16)]"
| "b64_quanta [w, x, y] =
     Some [word_of_nat (w * 4 + x div 16), word_of_nat (x mod 16 * 16 + y div 4)]"
| "b64_quanta (w # x # y # z # rest) =
     map_option (\<lambda>bs. word_of_nat (w * 4 + x div 16) # word_of_nat (x mod 16 * 16 + y div 4) #
       word_of_nat (y mod 4 * 64 + z) # bs) (b64_quanta rest)"

definition b64_decode :: "string \<Rightarrow> bytes option" where
  "b64_decode s =
     (let t = filter (\<lambda>c. c \<noteq> CHR 0x0A \<and> c \<noteq> CHR 0x0D) s in
      if list_all (\<lambda>c. b64_val c \<noteq> None) t then b64_quanta (map (the \<circ> b64_val) t) else None)"

lemma of_char_inj_nat: "c = d \<longleftrightarrow> of_char c = (of_char d :: nat)"
  by (simp add: of_char_eq_iff)

lemma b64_val_char:
  "n < 64 \<Longrightarrow> b64_val (b64_char n) = Some n \<and> b64_char n \<noteq> CHR 0x0A \<and> b64_char n \<noteq> CHR 0x0D"
  by (auto simp: b64_val_def b64_char_def Let_def of_char_inj_nat)

lemma byte_less [simp]: "unat (b :: byte) < 256"
  using unsigned_less [of b, where ?'a = nat] by simp

lemma byte_parts [simp]:
  "unat (b :: byte) div 4 < 64" "unat (b :: byte) div 16 < 16" "unat (b :: byte) div 64 < 4"
  using byte_less [of b] by linarith+

lemma b64_encode_decode_aux:
  "list_all (\<lambda>c. b64_val c \<noteq> None \<and> c \<noteq> CHR 0x0A \<and> c \<noteq> CHR 0x0D) (b64_encode bs) \<and>
   b64_quanta (map (the \<circ> b64_val) (b64_encode bs)) = Some bs"
proof (induction bs rule: b64_encode.induct)
  case 1
  then show ?case by simp
next
  case (2 a)
  have "unat a div 4 < 64" "unat a mod 4 * 16 < 64" using byte_less [of a] by linarith+
  then show ?case by (simp add: b64_val_char del: of_nat_add of_nat_mult)
next
  case (3 a b)
  have "unat a div 4 < 64" "unat a mod 4 * 16 + unat b div 16 < 64" "unat b mod 16 * 4 < 64"
    using byte_less [of a] byte_less [of b] by linarith+
  then show ?case by (simp add: b64_val_char del: of_nat_add of_nat_mult)
next
  case (4 a b c rest)
  have "unat a div 4 < 64" "unat a mod 4 * 16 + unat b div 16 < 64"
      "unat b mod 16 * 4 + unat c div 64 < 64" "unat c mod 64 < 64"
    using byte_less [of a] byte_less [of b] byte_less [of c] by linarith+
  with 4 show ?case by (simp add: b64_val_char del: of_nat_add of_nat_mult)
qed

lemma b64_decode_encode: "b64_decode (b64_encode bs) = Some bs"
proof -
  have "filter (\<lambda>c. c \<noteq> CHR 0x0A \<and> c \<noteq> CHR 0x0D) (b64_encode bs) = b64_encode bs"
    using b64_encode_decode_aux [of bs] by (simp add: filter_id_conv list_all_iff)
  then show ?thesis
    using b64_encode_decode_aux [of bs] by (simp add: b64_decode_def list_all_iff)
qed

text \<open>\<open>RawURLEncoding.DecodedLen\<close> and the length of an encoding.\<close>

definition b64_decoded_len :: "nat \<Rightarrow> nat" where
  "b64_decoded_len n = n div 4 * 3 + n mod 4 * 6 div 8"

lemma length_b64_encode: "length (b64_encode bs) = (length bs * 8 + 5) div 6"
  by (induction bs rule: b64_encode.induct) auto

interpretation b64: codec b64_encode b64_decode "\<lambda>_. True"
  by unfold_locales (simp add: b64_decode_encode)

section \<open>encoding/hex\<close>

definition hex_digit :: "nat \<Rightarrow> char" where
  "hex_digit n = (if n < 10 then char_of (n + 48) else char_of (n + 87))"

definition hex_val :: "char \<Rightarrow> nat option" where
  "hex_val c =
     (let v = (of_char c :: nat) in
      if 48 \<le> v \<and> v \<le> 57 then Some (v - 48)
      else if 97 \<le> v \<and> v \<le> 102 then Some (v - 87)
      else if 65 \<le> v \<and> v \<le> 70 then Some (v - 55)
      else None)"

fun hex_encode :: "bytes \<Rightarrow> string" where
  "hex_encode [] = []"
| "hex_encode (b # bs) = hex_digit (unat b div 16) # hex_digit (unat b mod 16) # hex_encode bs"

fun hex_decode :: "string \<Rightarrow> bytes option" where
  "hex_decode [] = Some []"
| "hex_decode [c] = None"
| "hex_decode (c # d # rest) =
     (case (hex_val c, hex_val d) of
        (Some h, Some l) \<Rightarrow> map_option (\<lambda>bs. word_of_nat (h * 16 + l) # bs) (hex_decode rest)
      | _ \<Rightarrow> None)"

lemma hex_val_digit: "n < 16 \<Longrightarrow> hex_val (hex_digit n) = Some n"
  by (auto simp: hex_val_def hex_digit_def Let_def)

lemma hex_decode_encode: "hex_decode (hex_encode bs) = Some bs"
proof (induction bs)
  case (Cons b bs)
  have "unat b div 16 < 16" "unat b mod 16 < 16" using byte_less [of b] by linarith+
  moreover have "unat b div 16 * 16 + unat b mod 16 = unat b" by simp
  ultimately show ?case using Cons by (simp add: hex_val_digit del: of_nat_add of_nat_mult)
qed simp

lemma length_hex_encode [simp]: "length (hex_encode bs) = 2 * length bs"
  by (induction bs) auto

interpretation hex: codec hex_encode hex_decode "\<lambda>_. True"
  by unfold_locales (simp add: hex_decode_encode)

section \<open>Device ids (internal/protocol/device.go)\<close>

definition DeviceID :: "bytes \<Rightarrow> string" where
  "DeviceID phonePub = b64_encode phonePub"

definition DecodeDeviceID :: "string \<Rightarrow> bytes option" where
  "DecodeDeviceID text = b64_decode text"

lemma DecodeDeviceID_DeviceID [simp]: "DecodeDeviceID (DeviceID p) = Some p"
  by (simp add: DecodeDeviceID_def DeviceID_def b64_decode_encode)

lemma DeviceID_inject [simp]: "DeviceID p = DeviceID q \<longleftrightarrow> p = q"
  by (simp add: DeviceID_def b64.enc_inject)

end
