(* ===== verification/GoText.thy ===== *)
theory GoText
  imports Encoding
begin

text \<open>
  The text functions of Go's standard library that the sources rely on: UTF-8 decoding as
  \<open>unicode/utf8\<close> and \<open>range\<close> over a string do it (an invalid byte is the rune U+FFFD of width
  one), \<open>utf8.ValidString\<close>, \<open>unicode.IsControl\<close>, \<open>unicode.IsSpace\<close> and
  \<open>strings.TrimSpace\<close>.
\<close>

section \<open>UTF-8\<close>

definition rune_error :: nat where "rune_error = 65533"

definition cont_byte :: "nat \<Rightarrow> bool" where
  "cont_byte b \<longleftrightarrow> 128 \<le> b \<and> b < 192"

text \<open>\<open>utf8.DecodeRune\<close> on a non-empty byte sequence: the rune and its width.\<close>

definition decode_rune :: "nat list \<Rightarrow> nat \<times> nat" where
  "decode_rune s =
     (case s of
        [] \<Rightarrow> (rune_error, 0)
      | a # t \<Rightarrow>
          if a < 128 then (a, 1)
          else if 194 \<le> a \<and> a < 224 then
            (case t of b # _ \<Rightarrow> if cont_byte b then ((a - 192) * 64 + (b - 128), 2) else (rune_error, 1)
             | _ \<Rightarrow> (rune_error, 1))
          else if 224 \<le> a \<and> a < 240 then
            (case t of b # c # _ \<Rightarrow>
               if (if a = 224 then 160 else 128) \<le> b \<and> b < (if a = 237 then 160 else 192) \<and> cont_byte c
               then ((a - 224) * 4096 + (b - 128) * 64 + (c - 128), 3) else (rune_error, 1)
             | _ \<Rightarrow> (rune_error, 1))
          else if 240 \<le> a \<and> a < 245 then
            (case t of b # c # d # _ \<Rightarrow>
               if (if a = 240 then 144 else 128) \<le> b \<and> b < (if a = 244 then 144 else 192) \<and>
                  cont_byte c \<and> cont_byte d
               then ((a - 240) * 262144 + (b - 128) * 4096 + (c - 128) * 64 + (d - 128), 4)
               else (rune_error, 1)
             | _ \<Rightarrow> (rune_error, 1))
          else (rune_error, 1))"

function byte_runes :: "nat list \<Rightarrow> (nat \<times> nat) list" where
  "byte_runes s =
     (if s = [] then [] else let (r, w) = decode_rune s in (r, w) # byte_runes (drop (max 1 w) s))"
  by pat_completeness auto
termination by (relation "measure length") auto

declare byte_runes.simps [simp del]

definition string_bytes :: "string \<Rightarrow> nat list" where
  "string_bytes s = map of_char s"

definition runes :: "string \<Rightarrow> (nat \<times> nat) list" where
  "runes s = byte_runes (string_bytes s)"

definition valid_utf8 :: "string \<Rightarrow> bool" where
  "valid_utf8 s \<longleftrightarrow> (rune_error, 1) \<notin> set (runes s)"

lemma byte_runes_Nil [simp]: "byte_runes [] = []"
  by (simp add: byte_runes.simps)

lemma runes_Nil [simp]: "runes [] = []"
  by (simp add: runes_def string_bytes_def)

lemma byte_runes_ascii [simp]: "a < 128 \<Longrightarrow> byte_runes (a # s) = (a, 1) # byte_runes s"
  by (simp add: byte_runes.simps [of "a # s"] decode_rune_def)

lemma runes_ascii_Cons [simp]: "(of_char c :: nat) < 128 \<Longrightarrow> runes (c # s) = (of_char c, 1) # runes s"
  by (simp add: runes_def string_bytes_def)

lemma runes_ascii:
  "\<forall>c \<in> set s. (of_char c :: nat) < 128 \<Longrightarrow> runes s = map (\<lambda>c. (of_char c, 1)) s"
  by (induction s) auto

lemma valid_utf8_ascii: "\<forall>c \<in> set s. (of_char c :: nat) < 128 \<Longrightarrow> valid_utf8 s"
  by (auto simp: valid_utf8_def runes_ascii rune_error_def)

lemma decode_rune_ascii: "s \<noteq> [] \<Longrightarrow> fst (decode_rune s) < 128 \<Longrightarrow> fst (decode_rune s) = hd s \<and> snd (decode_rune s) = 1"
  by (cases s) (auto simp: decode_rune_def rune_error_def cont_byte_def split: if_splits list.splits)

lemma decode_rune_shape:
  "snd (decode_rune (a # t)) = 1 \<or>
   (\<exists>b u. t = b # u \<and> snd (decode_rune (a # t)) = 2 \<and> 128 \<le> b) \<or>
   (\<exists>b c u. t = b # c # u \<and> snd (decode_rune (a # t)) = 3 \<and> 128 \<le> b \<and> 128 \<le> c) \<or>
   (\<exists>b c d u. t = b # c # d # u \<and> snd (decode_rune (a # t)) = 4 \<and> 128 \<le> b \<and> 128 \<le> c \<and> 128 \<le> d)"
  by (auto simp: decode_rune_def cont_byte_def split: list.splits)

text \<open>An ASCII byte of a string is one of its runes: no multi-byte sequence swallows it.\<close>

lemma decode_rune_width:
  assumes "s \<noteq> []"
  shows "1 \<le> snd (decode_rune s) \<and> snd (decode_rune s) \<le> length s \<and>
    (\<forall>i. 0 < i \<and> i < snd (decode_rune s) \<longrightarrow> 128 \<le> s ! i)"
proof (cases s)
  case (Cons a t)
  have nums: "i < 2 \<longleftrightarrow> i = 0 \<or> i = 1" "i < 3 \<longleftrightarrow> i = 0 \<or> i = 1 \<or> i = 2"
    "i < 4 \<longleftrightarrow> i = 0 \<or> i = 1 \<or> i = 2 \<or> i = 3" for i :: nat by auto
  from decode_rune_shape [of a t] show ?thesis
    unfolding Cons by (elim disjE exE) (auto simp: nums)
qed (use assms in simp)

lemma byte_runes_ascii_mem:
  "(a, w) \<in> set (byte_runes s) \<Longrightarrow> a < 128 \<Longrightarrow> a \<in> set s \<and> w = 1"
proof (induction s rule: byte_runes.induct)
  case (1 s)
  show ?case
  proof (cases "s = []")
    case False
    obtain r v where d: "decode_rune s = (r, v)" by (cases "decode_rune s")
    from False d have "byte_runes s = (r, v) # byte_runes (drop (max 1 v) s)"
      by (simp add: byte_runes.simps [of s])
    with "1.prems" consider "(a, w) = (r, v)" | "(a, w) \<in> set (byte_runes (drop (max 1 v) s))" by auto
    then show ?thesis
    proof cases
      case 1
      with decode_rune_ascii [OF False] d "1.prems"(2) False show ?thesis by auto
    next
      case 2
      with "1.IH" [OF False d [symmetric] refl] "1.prems"(2) show ?thesis by (meson in_set_dropD)
    qed
  qed (use "1.prems" in simp)
qed

lemma ascii_mem_byte_runes:
  "a \<in> set s \<Longrightarrow> a < 128 \<Longrightarrow> (a, 1) \<in> set (byte_runes s)"
proof (induction s rule: byte_runes.induct)
  case (1 s)
  from "1.prems"(1) have ne: "s \<noteq> []" by auto
  obtain r v where d: "decode_rune s = (r, v)" by (cases "decode_rune s")
  have w: "1 \<le> v" "v \<le> length s" "\<And>i. 0 < i \<Longrightarrow> i < v \<Longrightarrow> 128 \<le> s ! i"
    using decode_rune_width [OF ne] d by auto
  have eq: "byte_runes s = (r, v) # byte_runes (drop (max 1 v) s)"
    using ne d by (simp add: byte_runes.simps [of s])
  obtain i where i: "i < length s" "s ! i = a" using "1.prems"(1) by (auto simp: in_set_conv_nth)
  show ?case
  proof (cases "i < v")
    case True
    with w(3) i(2) "1.prems"(2) have "i = 0" by (metis not_le gr0I)
    with i ne have "hd s = a" by (simp add: hd_conv_nth)
    with ne "1.prems"(2) have "decode_rune s = (a, 1)" by (cases s) (auto simp: decode_rune_def)
    with d eq show ?thesis by simp
  next
    case False
    then have "drop v s ! (i - v) = a" "i - v < length (drop v s)" using i by simp_all
    then have "a \<in> set (drop v s)" by (metis nth_mem)
    with "1.IH" [OF ne d [symmetric] refl] "1.prems"(2) w(1) eq show ?thesis by (simp add: max_def)
  qed
qed

lemma ascii_rune_iff:
  assumes "(of_char c :: nat) < 128"
  shows "(\<exists>w. (of_char c, w) \<in> set (runes s)) \<longleftrightarrow> c \<in> set s"
proof
  assume "\<exists>w. (of_char c, w) \<in> set (runes s)"
  then have "of_char c \<in> set (string_bytes s)"
    using byte_runes_ascii_mem [of "of_char c"] assms by (auto simp: runes_def)
  then show "c \<in> set s" by (auto simp: string_bytes_def of_char_eq_iff)
next
  assume "c \<in> set s"
  then have "of_char c \<in> set (string_bytes s)" by (simp add: string_bytes_def)
  then show "\<exists>w. (of_char c, w) \<in> set (runes s)"
    using ascii_mem_byte_runes assms by (auto simp: runes_def)
qed

section \<open>Character classes and trimming\<close>

definition is_control :: "nat \<Rightarrow> bool" where
  "is_control r \<longleftrightarrow> r < 32 \<or> (127 \<le> r \<and> r < 160)"

definition is_space :: "nat \<Rightarrow> bool" where
  "is_space r \<longleftrightarrow> List.member ([9, 10, 11, 12, 13, 32, 133, 160, 5760, 8232, 8233, 8239, 8287, 12288] @ [8192..<8203]) r"

text \<open>The UTF-8 encodings of the white-space runes. \<open>strings.TrimSpace\<close> removes runes for which
  \<open>unicode.IsSpace\<close> holds from both ends; a string starts (ends) with such a rune exactly when it
  starts (ends) with its encoding.\<close>

definition space_encodings :: "string list" where
  "space_encodings = map (map char_of)
     ([[9], [10], [11], [12], [13], [32], [194, 133], [194, 160], [225, 154, 128 :: nat]] @
      map (\<lambda>b. [226, 128, b]) [128..<139] @
      [[226, 128, 168], [226, 128, 169], [226, 128, 175], [226, 129, 159], [227, 128, 128]])"

function trim_front :: "string list \<Rightarrow> string \<Rightarrow> string" where
  "trim_front encs s =
     (if s = [] then []
      else case find (has_prefix s) encs of
          None \<Rightarrow> s
        | Some e \<Rightarrow> trim_front encs (drop (max 1 (length e)) s))"
  by pat_completeness auto
termination by (relation "measure (length \<circ> snd)") auto

declare trim_front.simps [simp del]

definition TrimSpace :: "string \<Rightarrow> string" where
  "TrimSpace s =
     rev (trim_front (map rev space_encodings) (rev (trim_front space_encodings s)))"

lemma trim_front_Nil [simp]: "trim_front encs [] = []"
  by (simp add: trim_front.simps)

lemma trim_front_suffix: "\<exists>t. s = t @ trim_front encs s"
proof (induction encs s rule: trim_front.induct)
  case (1 encs s)
  show ?case
  proof (cases "find (has_prefix s) encs")
    case None
    then show ?thesis by (cases "s = []") (simp_all add: trim_front.simps [of encs s])
  next
    case (Some e)
    show ?thesis
    proof (cases "s = []")
      case False
      from "1.IH" [OF False Some] obtain t where
        "drop (max 1 (length e)) s = t @ trim_front encs (drop (max 1 (length e)) s)" by blast
      then have "s = (take (max 1 (length e)) s @ t) @ trim_front encs (drop (max 1 (length e)) s)"
        by (metis append.assoc append_take_drop_id)
      moreover have "trim_front encs s = trim_front encs (drop (max 1 (length e)) s)"
        using False Some by (simp add: trim_front.simps [of encs s])
      ultimately show ?thesis by metis
    qed simp
  qed
qed

lemma set_TrimSpace: "set (TrimSpace s) \<subseteq> set s"
proof -
  obtain t where t: "s = t @ trim_front space_encodings s" using trim_front_suffix by blast
  let ?r = "rev (trim_front space_encodings s)"
  obtain u where "?r = u @ trim_front (map rev space_encodings) ?r" using trim_front_suffix by blast
  then have "set (trim_front (map rev space_encodings) ?r) \<subseteq> set ?r" by (metis Un_upper2 set_append)
  moreover have "set ?r \<subseteq> set s" using t by (metis Un_upper2 set_append set_rev)
  ultimately show ?thesis by (auto simp: TrimSpace_def)
qed

end
