(* ===== verification/JsonText.thy ===== *)
theory JsonText
  imports GoText
begin

text \<open>
  \<open>encoding/json\<close> as the sources use it: the text of a JSON value, its parser, and the rules by which
  an object fills a Go struct. Numbers keep their literal text, since the sources read them only
  into integers. A decoding that Go reports as an error is \<open>None\<close>: every caller discards the
  partly filled value.
\<close>

section \<open>Values\<close>

datatype json =
    JNull
  | JBool bool
  | JNum string
  | JStr string
  | JArr "json list"
  | JObj "(string \<times> json) list"

abbreviation chr :: "nat \<Rightarrow> char" where "chr n \<equiv> char_of n"
abbreviation ord :: "char \<Rightarrow> nat" where "ord c \<equiv> of_char c"

text \<open>\<open>utf8.AppendRune\<close>.\<close>

definition encode_rune :: "nat \<Rightarrow> string" where
  "encode_rune r0 =
     (let r = (if (55296 \<le> r0 \<and> r0 < 57344) \<or> 1114111 < r0 then rune_error else r0) in
      if r < 128 then [chr r]
      else if r < 2048 then [chr (192 + r div 64), chr (128 + r mod 64)]
      else if r < 65536 then
        [chr (224 + r div 4096), chr (128 + r div 64 mod 64), chr (128 + r mod 64)]
      else [chr (240 + r div 262144), chr (128 + r div 4096 mod 64), chr (128 + r div 64 mod 64),
            chr (128 + r mod 64)])"

section \<open>Parsing\<close>

definition is_ws :: "char \<Rightarrow> bool" where
  "is_ws c \<longleftrightarrow> c = CHR 0x20 \<or> c = CHR 0x09 \<or> c = CHR 0x0A \<or> c = CHR 0x0D"

definition skip_ws :: "string \<Rightarrow> string" where
  "skip_ws s = dropWhile is_ws s"

definition is_digit :: "char \<Rightarrow> bool" where
  "is_digit c \<longleftrightarrow> 48 \<le> ord c \<and> ord c \<le> 57"

text \<open>Four hexadecimal digits.\<close>

definition hex4 :: "string \<Rightarrow> nat option" where
  "hex4 s =
     (if length s < 4 then None
      else case map hex_val (take 4 s) of
          [Some a, Some b, Some c, Some d] \<Rightarrow> Some (a * 4096 + b * 256 + c * 16 + d)
        | _ \<Rightarrow> None)"

definition simple_escape :: "char \<Rightarrow> string option" where
  "simple_escape c =
     (if c = CHR 0x22 \<or> c = CHR 0x5C \<or> c = CHR ''/'' then Some [c]
      else if c = CHR ''b'' then Some [CHR 0x08]
      else if c = CHR ''f'' then Some [CHR 0x0C]
      else if c = CHR ''n'' then Some [CHR 0x0A]
      else if c = CHR ''r'' then Some [CHR 0x0D]
      else if c = CHR ''t'' then Some [CHR 0x09]
      else None)"

text \<open>The rest of a \<open>\uXXXX\<close> escape whose code unit is \<open>u\<close>: a high surrogate followed by an escaped
  low surrogate is one rune, any other surrogate is U+FFFD. The result is the rune and how many
  further characters it consumed.\<close>

definition join_surrogate :: "nat \<Rightarrow> string \<Rightarrow> nat \<times> nat" where
  "join_surrogate u rest =
     (if \<not> (55296 \<le> u \<and> u < 57344) then (u, 0)
      else if u < 56320 \<and> take 2 rest = [CHR 0x5C, CHR ''u''] then
        (case hex4 (drop 2 rest) of
           Some v \<Rightarrow> if 56320 \<le> v \<and> v < 57344
             then (65536 + (u - 55296) * 1024 + (v - 56320), 6) else (rune_error, 0)
         | None \<Rightarrow> (rune_error, 0))
      else (rune_error, 0))"

text \<open>The contents of a string after its opening quote, and the text after its closing quote.\<close>

function parse_string :: "string \<Rightarrow> (string \<times> string) option" where
  "parse_string s =
     (case s of
        [] \<Rightarrow> None
      | c # t \<Rightarrow>
          if c = CHR 0x22 then Some ([], t)
          else if ord c < 32 then None
          else if c = CHR 0x5C then
            (case t of
               [] \<Rightarrow> None
             | e # u \<Rightarrow>
                 if e = CHR ''u'' then
                   (case hex4 u of
                      None \<Rightarrow> None
                    | Some v \<Rightarrow> let (r, n) = join_surrogate v (drop 4 u) in
                        map_option (\<lambda>(x, y). (encode_rune r @ x, y)) (parse_string (drop (4 + n) u)))
                 else (case simple_escape e of
                      None \<Rightarrow> None
                    | Some x \<Rightarrow> map_option (\<lambda>(y, z). (x @ y, z)) (parse_string u)))
          else if ord c < 128 then map_option (\<lambda>(x, y). (c # x, y)) (parse_string t)
          else let (r, w) = decode_rune (string_bytes (take 4 s)) in
            map_option (\<lambda>(x, y). (encode_rune r @ x, y)) (parse_string (drop (max 1 w) s)))"
  by pat_completeness auto
termination by (relation "measure length") auto

declare parse_string.simps [simp del]

text \<open>A number literal and the rest of the text.\<close>

definition parse_digits :: "string \<Rightarrow> (string \<times> string) option" where
  "parse_digits s = (if takeWhile is_digit s = [] then None
     else Some (takeWhile is_digit s, dropWhile is_digit s))"

definition parse_fraction :: "string \<Rightarrow> (string \<times> string) option" where
  "parse_fraction s =
     (case s of
        c # t \<Rightarrow> if c = CHR ''.'' then map_option (\<lambda>(d, r). (c # d, r)) (parse_digits t) else Some ([], s)
      | [] \<Rightarrow> Some ([], []))"

definition parse_exponent :: "string \<Rightarrow> (string \<times> string) option" where
  "parse_exponent s =
     (case s of
        c # t \<Rightarrow>
          if c = CHR ''e'' \<or> c = CHR ''E'' then
            (case t of
               d # u \<Rightarrow> if d = CHR ''+'' \<or> d = CHR ''-''
                 then map_option (\<lambda>(x, r). (c # d # x, r)) (parse_digits u)
                 else map_option (\<lambda>(x, r). (c # x, r)) (parse_digits t)
             | [] \<Rightarrow> None)
          else Some ([], s)
      | [] \<Rightarrow> Some ([], []))"

definition parse_int_part :: "string \<Rightarrow> (string \<times> string) option" where
  "parse_int_part s =
     (case s of
        c # t \<Rightarrow> if c = CHR ''0'' then Some ([c], t) else parse_digits s
      | [] \<Rightarrow> None)"

definition parse_number :: "string \<Rightarrow> (string \<times> string) option" where
  "parse_number s =
     (let (sign, t) = (case s of c # u \<Rightarrow> if c = CHR ''-'' then ([c], u) else ([], s) | [] \<Rightarrow> ([], [])) in
      case parse_int_part t of None \<Rightarrow> None | Some (i, u) \<Rightarrow>
      case parse_fraction u of None \<Rightarrow> None | Some (f, v) \<Rightarrow>
      case parse_exponent v of None \<Rightarrow> None | Some (e, w) \<Rightarrow> Some (sign @ i @ f @ e, w))"

text \<open>Values, array elements and object members. The first argument is fuel, the second how much
  deeper values may nest (Go allows 10000 levels).\<close>

fun parse_value :: "nat \<Rightarrow> nat \<Rightarrow> string \<Rightarrow> (json \<times> string) option"
  and parse_elems :: "nat \<Rightarrow> nat \<Rightarrow> string \<Rightarrow> (json list \<times> string) option"
  and parse_members :: "nat \<Rightarrow> nat \<Rightarrow> string \<Rightarrow> ((string \<times> json) list \<times> string) option"
where
  "parse_value 0 d s = None"
| "parse_value (Suc n) d s =
     (case skip_ws s of
        [] \<Rightarrow> None
      | c # t \<Rightarrow>
          if c = CHR 0x22 then map_option (\<lambda>(x, r). (JStr x, r)) (parse_string t)
          else if c = CHR ''{'' then
            (if d = 0 then None
             else case skip_ws t of
               [] \<Rightarrow> None
             | e # u \<Rightarrow> if e = CHR ''}'' then Some (JObj [], u)
                 else map_option (\<lambda>(ms, r). (JObj ms, r)) (parse_members n (d - 1) (e # u)))
          else if c = CHR ''['' then
            (if d = 0 then None
             else case skip_ws t of
               [] \<Rightarrow> None
             | e # u \<Rightarrow> if e = CHR '']'' then Some (JArr [], u)
                 else map_option (\<lambda>(vs, r). (JArr vs, r)) (parse_elems n (d - 1) (e # u)))
          else if has_prefix (c # t) ''true'' then Some (JBool True, drop 4 (c # t))
          else if has_prefix (c # t) ''false'' then Some (JBool False, drop 5 (c # t))
          else if has_prefix (c # t) ''null'' then Some (JNull, drop 4 (c # t))
          else map_option (\<lambda>(x, r). (JNum x, r)) (parse_number (c # t)))"
| "parse_elems 0 d s = None"
| "parse_elems (Suc n) d s =
     (case parse_value n d s of
        None \<Rightarrow> None
      | Some (v, t) \<Rightarrow>
          (case skip_ws t of
             [] \<Rightarrow> None
           | c # u \<Rightarrow> if c = CHR '']'' then Some ([v], u)
               else if c = CHR '','' then map_option (\<lambda>(vs, r). (v # vs, r)) (parse_elems n d u)
               else None))"
| "parse_members 0 d s = None"
| "parse_members (Suc n) d s =
     (case skip_ws s of
        [] \<Rightarrow> None
      | q # s1 \<Rightarrow> if q \<noteq> CHR 0x22 then None
          else case parse_string s1 of
            None \<Rightarrow> None
          | Some (k, s2) \<Rightarrow>
              (case skip_ws s2 of
                 [] \<Rightarrow> None
               | c # s3 \<Rightarrow> if c \<noteq> CHR '':'' then None
                   else case parse_value n d s3 of
                     None \<Rightarrow> None
                   | Some (v, s4) \<Rightarrow>
                       (case skip_ws s4 of
                          [] \<Rightarrow> None
                        | e # s5 \<Rightarrow> if e = CHR ''}'' then Some ([(k, v)], s5)
                            else if e = CHR '','' then
                              map_option (\<lambda>(ms, r). ((k, v) # ms, r)) (parse_members n d s5)
                            else None)))"

text \<open>\<open>json.Unmarshal\<close> to a value: one value and nothing but white space after it. Every call of
  the parser consumes a character or follows one that did, so twice the length is enough fuel.\<close>

definition parse_json :: "string \<Rightarrow> json option" where
  "parse_json s =
     (case parse_value (2 * length s + 2) 10000 s of
        Some (v, r) \<Rightarrow> if skip_ws r = [] then Some v else None
      | None \<Rightarrow> None)"

section \<open>Printing\<close>

definition hex4_text :: "nat \<Rightarrow> string" where
  "hex4_text r = [CHR 0x5C, CHR ''u'', hex_digit (r div 4096), hex_digit (r div 256 mod 16),
     hex_digit (r div 16 mod 16), hex_digit (r mod 16)]"

text \<open>\<open>appendString\<close> with HTML escaping, the default of \<open>json.Marshal\<close>.\<close>

definition quote_ascii :: "char \<Rightarrow> string" where
  "quote_ascii c =
     (if c = CHR 0x22 \<or> c = CHR 0x5C then [CHR 0x5C, c]
      else if c = CHR 0x08 then [CHR 0x5C, CHR ''b'']
      else if c = CHR 0x0C then [CHR 0x5C, CHR ''f'']
      else if c = CHR 0x0A then [CHR 0x5C, CHR ''n'']
      else if c = CHR 0x0D then [CHR 0x5C, CHR ''r'']
      else if c = CHR 0x09 then [CHR 0x5C, CHR ''t'']
      else if ord c < 32 \<or> c = CHR ''<'' \<or> c = CHR ''>'' \<or> c = CHR ''&'' then hex4_text (ord c)
      else [c])"

function quote_body :: "string \<Rightarrow> string" where
  "quote_body s =
     (case s of
        [] \<Rightarrow> []
      | c # t \<Rightarrow>
          if ord c < 128 then quote_ascii c @ quote_body t
          else let (r, w) = decode_rune (string_bytes (take 4 s)) in
            (if r = rune_error \<and> w = 1 then hex4_text 65533
             else if r = 8232 \<or> r = 8233 then hex4_text r
             else take w s) @ quote_body (drop (max 1 w) s))"
  by pat_completeness auto
termination by (relation "measure length") auto

declare quote_body.simps [simp del]

definition json_string :: "string \<Rightarrow> string" where
  "json_string s = CHR 0x22 # quote_body s @ [CHR 0x22]"

fun render :: "json \<Rightarrow> string"
  and render_elems :: "json list \<Rightarrow> string"
  and render_members :: "(string \<times> json) list \<Rightarrow> string"
where
  "render JNull = ''null''"
| "render (JBool b) = (if b then ''true'' else ''false'')"
| "render (JNum l) = l"
| "render (JStr s) = json_string s"
| "render (JArr vs) = ''['' @ (case vs of [] \<Rightarrow> '']'' | _ \<Rightarrow> render_elems vs)"
| "render (JObj ms) = ''{'' @ (case ms of [] \<Rightarrow> ''}'' | _ \<Rightarrow> render_members ms)"
| "render_elems [] = []"
| "render_elems (v # vs) = render v @ (case vs of [] \<Rightarrow> '']'' | _ \<Rightarrow> '','' @ render_elems vs)"
| "render_members [] = []"
| "render_members (m # ms) =
     json_string (fst m) @ '':'' @ render (snd m) @
     (case ms of [] \<Rightarrow> ''}'' | _ \<Rightarrow> '','' @ render_members ms)"

section \<open>Integers\<close>

definition digit_char :: "nat \<Rightarrow> char" where
  "digit_char n = chr (48 + n mod 10)"

fun nat_lit :: "nat \<Rightarrow> string" where
  "nat_lit n = (if n < 10 then [digit_char n] else nat_lit (n div 10) @ [digit_char n])"

declare nat_lit.simps [simp del]

definition int_lit :: "int \<Rightarrow> string" where
  "int_lit i = (if i < 0 then CHR ''-'' # nat_lit (nat (- i)) else nat_lit (nat i))"

definition digits_val :: "string \<Rightarrow> nat" where
  "digits_val s = foldl (\<lambda>a c. a * 10 + (ord c - 48)) 0 s"

text \<open>\<open>strconv.ParseInt(s, 10, 64)\<close>, and the same without a width.\<close>

definition parse_decimal :: "string \<Rightarrow> int option" where
  "parse_decimal s =
     (let (neg, t) = (case s of
          c # u \<Rightarrow> if c = CHR ''-'' then (True, u) else if c = CHR ''+'' then (False, u) else (False, s)
        | [] \<Rightarrow> (False, [])) in
      if t = [] \<or> \<not> list_all is_digit t then None
      else Some (if neg then - int (digits_val t) else int (digits_val t)))"

definition parse_int64 :: "string \<Rightarrow> int option" where
  "parse_int64 s =
     (case parse_decimal s of
        None \<Rightarrow> None
      | Some i \<Rightarrow> if - (2 ^ 63) \<le> i \<and> i < 2 ^ 63 then Some i else None)"

section \<open>Filling a struct\<close>

text \<open>A member selects the field with exactly its name, else the first field whose name folds to the
  same text (ASCII letters, and the two runes that fold into ASCII: long s and the Kelvin sign).\<close>

fun fold_name :: "string \<Rightarrow> string" where
  "fold_name (a # b # c # s) =
     (if ord a = 197 \<and> ord b = 191 then CHR ''s'' # fold_name (c # s)
      else if ord a = 226 \<and> ord b = 132 \<and> ord c = 170 then CHR ''k'' # fold_name s
      else (if 65 \<le> ord a \<and> ord a \<le> 90 then chr (ord a + 32) else a) # fold_name (b # c # s))"
| "fold_name [a, b] =
     (if ord a = 197 \<and> ord b = 191 then [CHR ''s'']
      else (if 65 \<le> ord a \<and> ord a \<le> 90 then chr (ord a + 32) else a) # fold_name [b])"
| "fold_name [a] = [if 65 \<le> ord a \<and> ord a \<le> 90 then chr (ord a + 32) else a]"
| "fold_name [] = []"

definition field_of :: "string list \<Rightarrow> string \<Rightarrow> string option" where
  "field_of names k =
     (if List.member names k then Some k else find (\<lambda>n. fold_name n = fold_name k) names)"

fun fill_members :: "string list \<Rightarrow> (string \<Rightarrow> json \<Rightarrow> 'r \<Rightarrow> 'r option) \<Rightarrow>
    (string \<times> json) list \<Rightarrow> 'r \<Rightarrow> 'r option" where
  "fill_members names setf [] r = Some r"
| "fill_members names setf ((k, v) # ms) r =
     (case field_of names k of
        None \<Rightarrow> fill_members names setf ms r
      | Some f \<Rightarrow> (case setf f v r of
            None \<Rightarrow> None
          | Some r' \<Rightarrow> fill_members names setf ms r'))"

definition fill_struct :: "string list \<Rightarrow> (string \<Rightarrow> json \<Rightarrow> 'r \<Rightarrow> 'r option) \<Rightarrow> json \<Rightarrow> 'r \<Rightarrow> 'r option" where
  "fill_struct names setf v r =
     (case v of JNull \<Rightarrow> Some r | JObj ms \<Rightarrow> fill_members names setf ms r | _ \<Rightarrow> None)"

definition unmarshal :: "string list \<Rightarrow> (string \<Rightarrow> json \<Rightarrow> 'r \<Rightarrow> 'r option) \<Rightarrow> 'r \<Rightarrow> string \<Rightarrow> 'r option" where
  "unmarshal names setf zero text =
     (case parse_json text of None \<Rightarrow> None | Some v \<Rightarrow> fill_struct names setf v zero)"

text \<open>How a JSON value fills a field of type string, bool, int64 (or narrower), and of the type
  \<open>protocol.Bytes\<close>. A null leaves a plain field as it is; \<open>Bytes\<close> has its own \<open>UnmarshalJSON\<close>,
  which a null reaches and which then decodes the empty string.\<close>

definition as_string :: "string \<Rightarrow> json \<Rightarrow> string option" where
  "as_string old v = (case v of JStr s \<Rightarrow> Some s | JNull \<Rightarrow> Some old | _ \<Rightarrow> None)"

definition as_bool :: "bool \<Rightarrow> json \<Rightarrow> bool option" where
  "as_bool old v = (case v of JBool b \<Rightarrow> Some b | JNull \<Rightarrow> Some old | _ \<Rightarrow> None)"

definition as_int :: "int \<Rightarrow> int \<Rightarrow> int \<Rightarrow> json \<Rightarrow> int option" where
  "as_int lo hi old v =
     (case v of
        JNull \<Rightarrow> Some old
      | JNum l \<Rightarrow> (case parse_int64 l of
            Some i \<Rightarrow> if lo \<le> i \<and> i \<le> hi then Some i else None
          | None \<Rightarrow> None)
      | _ \<Rightarrow> None)"

abbreviation as_int64 :: "int \<Rightarrow> json \<Rightarrow> int option" where
  "as_int64 \<equiv> as_int (- (2 ^ 63)) (2 ^ 63 - 1)"

definition Bytes_MarshalJSON :: "bytes \<Rightarrow> json" where
  "Bytes_MarshalJSON b = JStr (b64_encode b)"

definition Bytes_UnmarshalJSON :: "json \<Rightarrow> bytes option" where
  "Bytes_UnmarshalJSON v =
     (case as_string [] v of None \<Rightarrow> None | Some s \<Rightarrow> b64_decode s)"

section \<open>Round trip\<close>

text \<open>Text that is printed without escapes.\<close>

definition plain_char :: "char \<Rightarrow> bool" where
  "plain_char c \<longleftrightarrow> 32 \<le> ord c \<and> ord c < 128 \<and> c \<noteq> CHR 0x22 \<and> c \<noteq> CHR 0x5C \<and>
     c \<noteq> CHR ''<'' \<and> c \<noteq> CHR ''>'' \<and> c \<noteq> CHR ''&''"

abbreviation plain :: "string \<Rightarrow> bool" where
  "plain s \<equiv> list_all plain_char s"

lemma quote_body_Nil [simp]: "quote_body [] = []"
  by (simp add: quote_body.simps)

lemma plain_not_low: "plain_char c \<Longrightarrow> ord d < 32 \<Longrightarrow> c \<noteq> d"
  unfolding plain_char_def by clarsimp

lemma quote_ascii_plain:
  assumes "plain_char c" shows "quote_ascii c = [c]"
proof -
  have "c \<noteq> CHR 0x08" "c \<noteq> CHR 0x0C" "c \<noteq> CHR 0x0A" "c \<noteq> CHR 0x0D" "c \<noteq> CHR 0x09"
    by (rule plain_not_low [OF assms], simp)+
  moreover have "\<not> (ord c < 32 \<or> c = CHR ''<'' \<or> c = CHR ''>'' \<or> c = CHR ''&'')"
    "\<not> (c = CHR 0x22 \<or> c = CHR 0x5C)"
    using assms unfolding plain_char_def by (simp_all only: not_less de_Morgan_disj simp_thms)
  ultimately show ?thesis by (simp only: quote_ascii_def if_False)
qed

lemma quote_body_step: "plain_char c \<Longrightarrow> quote_body (c # t) = c # quote_body t"
  by (subst quote_body.simps) (simp add: quote_ascii_plain, simp add: plain_char_def)

lemma quote_body_plain: "plain s \<Longrightarrow> quote_body s = s"
  by (induction s) (simp_all add: quote_body_step)

lemma parse_string_step:
  "plain_char c \<Longrightarrow> parse_string (c # t) = map_option (\<lambda>(x, y). (c # x, y)) (parse_string t)"
  by (subst parse_string.simps) (simp add: plain_char_def)

lemma parse_string_end: "parse_string (CHR 0x22 # r) = Some ([], r)"
  by (subst parse_string.simps) simp

lemma parse_string_plain: "plain s \<Longrightarrow> parse_string (s @ CHR 0x22 # r) = Some (s, r)"
  by (induction s) (simp_all add: parse_string_step parse_string_end)

lemma json_string_plain: "plain s \<Longrightarrow> json_string s = CHR 0x22 # s @ [CHR 0x22]"
  by (simp add: json_string_def quote_body_plain)

lemma skip_ws_stop [simp]: "\<not> is_ws c \<Longrightarrow> skip_ws (c # s) = c # s"
  by (simp add: skip_ws_def)

lemma skip_ws_Nil [simp]: "skip_ws [] = []"
  by (simp add: skip_ws_def)

text \<open>The values the programs print: plain strings and integer literals, at any depth. A number must
  be followed by something that does not continue it.\<close>

definition int_literal :: "string \<Rightarrow> bool" where
  "int_literal l \<longleftrightarrow> (\<exists>i. l = int_lit i)"

fun plain_json :: "json \<Rightarrow> bool" where
  "plain_json JNull = True"
| "plain_json (JBool b) = True"
| "plain_json (JNum l) = int_literal l"
| "plain_json (JStr s) = plain s"
| "plain_json (JArr vs) = list_all plain_json vs"
| "plain_json (JObj ms) = list_all (\<lambda>m. plain (fst m) \<and> plain_json (snd m)) ms"

fun json_depth :: "json \<Rightarrow> nat" and elems_depth :: "json list \<Rightarrow> nat"
  and members_depth :: "(string \<times> json) list \<Rightarrow> nat" where
  "json_depth (JArr vs) = Suc (elems_depth vs)"
| "json_depth (JObj ms) = Suc (members_depth ms)"
| "json_depth _ = 0"
| "elems_depth [] = 0"
| "elems_depth (v # vs) = max (json_depth v) (elems_depth vs)"
| "members_depth [] = 0"
| "members_depth (m # ms) = max (json_depth (snd m)) (members_depth ms)"

definition num_end :: "string \<Rightarrow> bool" where
  "num_end r \<longleftrightarrow> (case r of [] \<Rightarrow> True | c # _ \<Rightarrow> \<not> is_digit c \<and> c \<noteq> CHR ''.'' \<and> c \<noteq> CHR ''e'' \<and> c \<noteq> CHR ''E'')"

fun json_fuel :: "json \<Rightarrow> nat" and elems_fuel :: "json list \<Rightarrow> nat"
  and members_fuel :: "(string \<times> json) list \<Rightarrow> nat" where
  "json_fuel (JArr vs) = 1 + elems_fuel vs"
| "json_fuel (JObj ms) = 1 + members_fuel ms"
| "json_fuel _ = 1"
| "elems_fuel [] = 0"
| "elems_fuel (v # vs) = 1 + json_fuel v + elems_fuel vs"
| "members_fuel [] = 0"
| "members_fuel (m # ms) = 1 + json_fuel (snd m) + members_fuel ms"

lemma nat_lit_digits: "list_all is_digit (nat_lit n) \<and> nat_lit n \<noteq> []"
proof (induction n rule: nat_lit.induct)
  case (1 n)
  have "ord (digit_char n) = 48 + n mod 10" by (simp add: digit_char_def)
  then have "is_digit (digit_char n)" by (simp add: is_digit_def)
  with 1 show ?case by (subst nat_lit.simps, subst (2) nat_lit.simps) simp
qed

lemma nat_lit_hd: "n \<noteq> 0 \<Longrightarrow> hd (nat_lit n) \<noteq> CHR ''0''"
proof (induction n rule: nat_lit.induct)
  case (1 n)
  show ?case
  proof (cases "n < 10")
    case True
    then have "ord (digit_char n) = 48 + n" by (simp add: digit_char_def)
    with 1(2) have "digit_char n \<noteq> CHR ''0''" by (auto)
    with True show ?thesis by (subst nat_lit.simps) simp
  next
    case False
    then have "hd (nat_lit n) = hd (nat_lit (n div 10))"
      using nat_lit_digits [of "n div 10"] by (subst nat_lit.simps) simp
    with 1(1) False show ?thesis by simp
  qed
qed

lemma nat_lit_0: "nat_lit 0 = ''0''"
  by (simp add: nat_lit.simps digit_char_def char_of_eq_iff)

lemma span_digits:
  assumes "list_all is_digit l" "num_end r"
  shows "takeWhile is_digit (l @ r) = l \<and> dropWhile is_digit (l @ r) = r"
  using assms by (induction l) (auto simp: num_end_def split: list.splits)

lemma num_end_rest: "num_end r \<Longrightarrow> parse_fraction r = Some ([], r) \<and> parse_exponent r = Some ([], r)"
  by (auto simp: num_end_def parse_fraction_def parse_exponent_def split: list.splits)

lemma parse_int_part_lit:
  assumes "num_end r"
  shows "parse_int_part (nat_lit n @ r) = Some (nat_lit n, r)"
proof (cases "n = 0")
  case False
  obtain c l where l: "nat_lit n = c # l" using nat_lit_digits [of n] by (cases "nat_lit n") auto
  with nat_lit_hd [OF False] have "c \<noteq> CHR ''0''" by simp
  moreover have "parse_digits (nat_lit n @ r) = Some (nat_lit n, r)"
    using span_digits [OF _ assms, of "nat_lit n"] nat_lit_digits [of n] by (simp add: parse_digits_def)
  ultimately show ?thesis using l by (simp add: parse_int_part_def)
qed (simp add: nat_lit_0 parse_int_part_def)

lemma parse_number_lit:
  assumes "num_end r"
  shows "parse_number (int_lit i @ r) = Some (int_lit i, r)"
proof (cases "i < 0")
  case True
  then show ?thesis
    by (simp add: parse_number_def int_lit_def parse_int_part_lit [OF assms] num_end_rest [OF assms])
next
  case False
  obtain c l where l: "nat_lit (nat i) = c # l"
    using nat_lit_digits [of "nat i"] by (cases "nat_lit (nat i)") auto
  with nat_lit_digits [of "nat i"] have "is_digit c" by simp
  then have c: "c \<noteq> CHR ''-''" by (auto simp: is_digit_def)
  have "parse_int_part (c # l @ r) = Some (c # l, r)"
    using parse_int_part_lit [OF assms, of "nat i"] l by simp
  with False l c show ?thesis
    by (simp add: parse_number_def int_lit_def num_end_rest [OF assms])
qed

lemma int_lit_hd: "\<exists>c l. int_lit i = c # l \<and> (is_digit c \<or> c = CHR ''-'')"
proof (cases "i < 0")
  case False
  then show ?thesis
    using nat_lit_digits [of "nat i"] by (cases "nat_lit (nat i)") (auto simp: int_lit_def)
qed (simp add: int_lit_def)

text \<open>No printed value starts with white space or with a closing bracket.\<close>

definition value_start :: "char \<Rightarrow> bool" where
  "value_start c \<longleftrightarrow> \<not> is_ws c \<and> c \<noteq> CHR '']'' \<and> c \<noteq> CHR ''}''"

lemma render_start: "plain_json v \<Longrightarrow> \<exists>c t. render v = c # t \<and> value_start c"
proof (cases v)
  case (JNum l)
  assume "plain_json v"
  with JNum obtain i where "l = int_lit i" by (auto simp: int_literal_def)
  with int_lit_hd [of i] JNum show ?thesis
    by (auto simp: value_start_def is_ws_def is_digit_def)
qed (auto simp: value_start_def is_ws_def json_string_def)

lemma num_end_stop: "c = CHR '','' \<or> c = CHR '']'' \<or> c = CHR ''}'' \<Longrightarrow> num_end (c # r)"
  by (auto simp: num_end_def is_digit_def)

lemma is_ws_stop [simp]: "\<not> is_ws CHR '',''" "\<not> is_ws CHR '']''" "\<not> is_ws CHR ''}''" "\<not> is_ws CHR '':''"
    "\<not> is_ws CHR 0x22" "\<not> is_ws CHR ''{''" "\<not> is_ws CHR ''[''"
  by (simp_all add: is_ws_def)

lemma parse_value_num:
  assumes "num_end r" shows "parse_value (Suc n) d (int_lit i @ r) = Some (JNum (int_lit i), r)"
proof -
  obtain c l where l: "int_lit i = c # l" "is_digit c \<or> c = CHR ''-''" using int_lit_hd by blast
  then have "\<not> is_ws c" "c \<noteq> CHR 0x22" "c \<noteq> CHR ''{''" "c \<noteq> CHR ''[''" "c \<noteq> CHR ''t''" "c \<noteq> CHR ''f''"
      "c \<noteq> CHR ''n''"
    by (auto simp: is_ws_def is_digit_def)
  with parse_number_lit [OF assms, of i] l(1) show ?thesis by (simp add: has_prefix_def)
qed

lemma parse_value_str: "plain s \<Longrightarrow> parse_value (Suc n) d (json_string s @ r) = Some (JStr s, r)"
  by (simp add: json_string_plain parse_string_plain)

lemma parse_render:
  "plain_json v \<Longrightarrow> num_end r \<Longrightarrow> json_fuel v \<le> n \<Longrightarrow> json_depth v \<le> d \<Longrightarrow>
     parse_value n d (render v @ r) = Some (v, r)"
  "list_all plain_json vs \<Longrightarrow> vs \<noteq> [] \<Longrightarrow> elems_fuel vs \<le> n \<Longrightarrow> elems_depth vs \<le> d \<Longrightarrow>
     parse_elems n d (render_elems vs @ r) = Some (vs, r)"
  "list_all (\<lambda>m. plain (fst m) \<and> plain_json (snd m)) ms \<Longrightarrow> ms \<noteq> [] \<Longrightarrow> members_fuel ms \<le> n \<Longrightarrow>
     members_depth ms \<le> d \<Longrightarrow> parse_members n d (render_members ms @ r) = Some (ms, r)"
proof (induction v and vs and ms arbitrary: n d r and n d r and n d r
    rule: render_render_elems_render_members.induct)
  case 1
  then show ?case by (cases n) (simp_all add: has_prefix_def is_ws_def)
next
  case (2 b)
  then show ?case by (cases n) (simp_all add: has_prefix_def is_ws_def)
next
  case (3 l)
  then obtain i where "l = int_lit i" by (auto simp: int_literal_def)
  with 3 show ?case by (cases n) (simp_all add: parse_value_num del: parse_value.simps)
next
  case (4 s)
  then show ?case by (cases n) (simp_all add: parse_value_str del: parse_value.simps)
next
  case (5 vs)
  then obtain m where n: "n = Suc m" by (cases n) auto
  show ?case
  proof (cases vs)
    case Nil
    with 5 n show ?thesis by simp
  next
    case (Cons w ws)
    with 5(2) obtain c t where c: "render w = c # t" "value_start c" using render_start [of w] by auto
    have "parse_elems m (d - 1) (render_elems vs @ r) = Some (vs, r)"
      using 5(2,4,5) Cons n by (intro 5(1)) auto
    then show ?thesis using c Cons n 5(5) by (auto simp: value_start_def)
  qed
next
  case (6 ms)
  then obtain m where n: "n = Suc m" by (cases n) auto
  show ?case
  proof (cases ms)
    case Nil
    with 6 n show ?thesis by simp
  next
    case (Cons w ws)
    have "parse_members m (d - 1) (render_members ms @ r) = Some (ms, r)"
      using 6(2,4,5) Cons n by (intro 6(1)) auto
    moreover obtain t where t: "render_members ms = CHR 0x22 # t" using Cons by (simp add: json_string_def)
    ultimately have "parse_members m (d - 1) (CHR 0x22 # t @ r) = Some (ms, r)" by simp
    moreover have "render (JObj ms) @ r = CHR ''{'' # CHR 0x22 # t @ r" using Cons t by simp
    ultimately show ?thesis using Cons n 6(5) by (simp del: render.simps)
  qed
next
  case 7
  then show ?case by simp
next
  case (8 v vs)
  then obtain m where n: "n = Suc m" by (cases n) auto
  have v: "parse_value m d (render v @ c # x) = Some (v, c # x)" if "c = CHR '','' \<or> c = CHR '']''" for c x
    using 8 n that by (intro 8(1)) (auto intro: num_end_stop)
  show ?case
  proof (cases vs)
    case Nil
    with v n show ?thesis by simp
  next
    case (Cons w ws)
    have "parse_elems m d (render_elems vs @ r) = Some (vs, r)"
      using 8 n Cons by (intro 8(2)) auto
    with v n Cons show ?thesis by simp
  qed
next
  case 9
  then show ?case by simp
next
  case (10 a ms)
  then obtain m where n: "n = Suc m" by (cases n) auto
  have k: "parse_string (fst a @ CHR 0x22 # x) = Some (fst a, x)" "json_string (fst a) = CHR 0x22 # fst a @ [CHR 0x22]" for x
    using 10(3) by (auto simp: parse_string_plain json_string_plain)
  have v: "parse_value m d (render (snd a) @ c # x) = Some (snd a, c # x)" if "c = CHR '','' \<or> c = CHR ''}''" for c x
    using 10 n that by (intro 10(1)) (auto intro: num_end_stop)
  show ?case
  proof (cases ms)
    case Nil
    with k v n show ?thesis by simp
  next
    case (Cons w ws)
    have "parse_members m d (render_members ms @ r) = Some (ms, r)"
      using 10 n Cons by (intro 10(2)) auto
    with k v n Cons show ?thesis by simp
  qed
qed

lemma json_fuel_bound:
  "plain_json v \<Longrightarrow> json_fuel v \<le> 2 * length (render v)"
  "list_all plain_json vs \<Longrightarrow> elems_fuel vs \<le> 2 * length (render_elems vs)"
  "list_all (\<lambda>m. plain (fst m) \<and> plain_json (snd m)) ms \<Longrightarrow> members_fuel ms \<le> 2 * length (render_members ms)"
proof (induction v and vs and ms rule: render_render_elems_render_members.induct)
  case (3 l)
  then show ?case using render_start [of "JNum l"] by (cases l) auto
next
  case (5 vs)
  then show ?case by (cases vs) simp_all
next
  case (6 ms)
  then show ?case by (cases ms) simp_all
next
  case (8 v vs)
  then show ?case by (cases vs) auto
next
  case (10 m ms)
  then show ?case by (cases ms) auto
qed (simp_all add: json_string_def)

theorem parse_json_render:
  assumes "plain_json v" "json_depth v \<le> 10000"
  shows "parse_json (render v) = Some v"
proof -
  have "parse_value (2 * length (render v) + 2) 10000 (render v @ []) = Some (v, [])"
    using assms json_fuel_bound(1) [of v] by (intro parse_render(1)) (auto simp: num_end_def)
  then show ?thesis by (simp add: parse_json_def)
qed

interpretation json_text: codec render parse_json "\<lambda>v. plain_json v \<and> json_depth v \<le> 10000"
  by unfold_locales (blast intro: parse_json_render)

section \<open>Reading integers back\<close>

lemma ord_digit_char [simp]: "ord (digit_char n) = 48 + n mod 10"
  by (simp add: digit_char_def)

lemma digits_val_nat_lit: "digits_val (nat_lit n) = n"
proof (induction n rule: nat_lit.induct)
  case (1 n)
  show ?case
  proof (cases "n < 10")
    case False
    then have "digits_val (nat_lit n) = digits_val (nat_lit (n div 10)) * 10 + n mod 10"
      by (subst nat_lit.simps) (simp add: digits_val_def)
    with 1 False show ?thesis by simp
  qed (subst nat_lit.simps, simp add: digits_val_def)
qed

lemma parse_decimal_int_lit: "parse_decimal (int_lit i) = Some i"
proof (cases "i < 0")
  case True
  then show ?thesis
    using nat_lit_digits [of "nat (- i)"] by (simp add: parse_decimal_def int_lit_def digits_val_nat_lit)
next
  case False
  obtain c l where l: "nat_lit (nat i) = c # l"
    using nat_lit_digits [of "nat i"] by (cases "nat_lit (nat i)") auto
  with nat_lit_digits [of "nat i"] have "is_digit c" by simp
  then have "c \<noteq> CHR ''-''" "c \<noteq> CHR ''+''" by (auto simp: is_digit_def)
  with False l nat_lit_digits [of "nat i"] digits_val_nat_lit [of "nat i"] show ?thesis
    by (simp add: parse_decimal_def int_lit_def)
qed

lemma parse_int64_int_lit: "- (2 ^ 63) \<le> i \<Longrightarrow> i < 2 ^ 63 \<Longrightarrow> parse_int64 (int_lit i) = Some i"
  by (simp add: parse_int64_def parse_decimal_int_lit)

lemma as_int_int_lit: "lo \<le> i \<Longrightarrow> i \<le> hi \<Longrightarrow> - (2 ^ 63) \<le> i \<Longrightarrow> i < 2 ^ 63 \<Longrightarrow>
    as_int lo hi old (JNum (int_lit i)) = Some i"
  by (simp add: as_int_def parse_int64_int_lit)

lemma as_int_nat_lit: "0 \<le> i \<Longrightarrow> i \<le> hi \<Longrightarrow> hi < 2 ^ 63 \<Longrightarrow> as_int 0 hi old (JNum (int_lit i)) = Some i"
  by (rule as_int_int_lit) simp_all

lemma int_literal_int_lit [simp]: "int_literal (int_lit i)"
  by (auto simp: int_literal_def)

text \<open>A text that begins and ends with a graphic ASCII character has nothing to trim.\<close>

lemma space_encodings_hd:
  "list_all (\<lambda>e. e \<noteq> [] \<and> (ord (hd e) < 33 \<or> 127 < ord (hd e)) \<and> (ord (last e) < 33 \<or> 127 < ord (last e)))
     space_encodings"
  by (simp add: space_encodings_def)

lemma trim_front_graphic:
  assumes "list_all (\<lambda>e. e \<noteq> [] \<and> (ord (hd e) < 33 \<or> 127 < ord (hd e))) encs" "32 < ord c" "ord c < 128"
  shows "trim_front encs (c # s) = c # s"
proof -
  have "find (has_prefix (c # s)) encs = None"
    using assms by (auto simp: find_None_iff list_all_iff has_prefix_def neq_Nil_conv)
  then show ?thesis by (simp add: trim_front.simps)
qed

lemma TrimSpace_graphic:
  assumes "32 < ord c" "ord c < 128" "32 < ord d" "ord d < 128"
  shows "TrimSpace (c # s @ [d]) = c # s @ [d]"
proof -
  have "list_all (\<lambda>e. e \<noteq> [] \<and> (ord (hd e) < 33 \<or> 127 < ord (hd e))) (map rev space_encodings)"
    using space_encodings_hd by (auto simp: list_all_iff hd_rev)
  then have "trim_front (map rev space_encodings) (d # rev s @ [c]) = d # rev s @ [c]"
    using assms(3,4) by (rule trim_front_graphic)
  moreover have "trim_front space_encodings (c # s @ [d]) = c # s @ [d]"
    using space_encodings_hd assms(1,2) by (intro trim_front_graphic) (auto simp: list_all_iff)
  ultimately show ?thesis by (simp add: TrimSpace_def)
qed

end
