(* ===== verification/RelayFrames.thy ===== *)
theory RelayFrames
  imports JsonText
begin

text \<open>
  internal/protocol/relay.go: the multiplexed frames that bridge and relay exchange, and the
  control messages of channel 0.
\<close>

definition RelayControlChannel :: "16 word" where "RelayControlChannel = 0"
definition RelayKindText :: byte where "RelayKindText = 0"
definition RelayKindBinary :: byte where "RelayKindBinary = 1"
definition RelayHeaderSize :: nat where "RelayHeaderSize = 3"
definition RelayMaxPhones :: nat where "RelayMaxPhones = 4"
definition RelayCloseNoBridge :: nat where "RelayCloseNoBridge = 4404"
definition RelayCloseFull :: nat where "RelayCloseFull = 4429"
definition RelayCloseBadAttach :: nat where "RelayCloseBadAttach = 4401"
definition RelayCloseReplaced :: nat where "RelayCloseReplaced = 4409"
definition RelayCloseAdmissionTimeout :: nat where "RelayCloseAdmissionTimeout = 4408"

record RelayControl =
  rcT :: string
  rcC :: "16 word"
  rcToken :: string
  rcReason :: string

definition RelayFrame :: "16 word \<Rightarrow> byte \<Rightarrow> bytes \<Rightarrow> bytes" where
  "RelayFrame channel kind payload = be_put16 channel @ [kind] @ payload"

definition ParseRelayFrame :: "bytes \<Rightarrow> (16 word \<times> byte \<times> bytes) option" where
  "ParseRelayFrame frame =
     (if length frame < RelayHeaderSize then None
      else Some (be_get16 (take 2 frame), frame ! 2, drop RelayHeaderSize frame))"

lemma ParseRelayFrame_RelayFrame: "ParseRelayFrame (RelayFrame ch k p) = Some (ch, k, p)"
  by (simp add: ParseRelayFrame_def RelayFrame_def RelayHeaderSize_def nth_append)

lemma RelayFrame_ParseRelayFrame:
  assumes "ParseRelayFrame f = Some (ch, k, p)"
  shows "RelayFrame ch k p = f"
proof -
  from assms have len: "3 \<le> length f" and
    "ch = be_get16 (take 2 f)" "k = f ! 2" "p = drop 3 f"
    by (auto simp: ParseRelayFrame_def RelayHeaderSize_def not_less split: if_splits)
  moreover have "take 2 f @ f ! 2 # drop 3 f = f"
    using len id_take_nth_drop [of 2 f] by (simp add: numeral_3_eq_3 numeral_2_eq_2)
  ultimately show ?thesis
    by (simp add: RelayFrame_def be_put_get16)
qed

interpretation relay_frames: strict_codec
  "\<lambda>(ch, k, p). RelayFrame ch k p" ParseRelayFrame "\<lambda>_. True"
  by unfold_locales (auto simp: ParseRelayFrame_RelayFrame dest: RelayFrame_ParseRelayFrame)

section \<open>Control messages as JSON\<close>

definition zero_control :: RelayControl where
  "zero_control = \<lparr>rcT = [], rcC = 0, rcToken = [], rcReason = []\<rparr>"

definition control_set :: "string \<Rightarrow> json \<Rightarrow> RelayControl \<Rightarrow> RelayControl option" where
  "control_set f v r =
     (if f = ''t'' then map_option (\<lambda>x. r\<lparr>rcT := x\<rparr>) (as_string (rcT r) v)
      else if f = ''c'' then map_option (\<lambda>x. r\<lparr>rcC := word_of_int x\<rparr>) (as_int 0 65535 (uint (rcC r)) v)
      else if f = ''token'' then map_option (\<lambda>x. r\<lparr>rcToken := x\<rparr>) (as_string (rcToken r) v)
      else map_option (\<lambda>x. r\<lparr>rcReason := x\<rparr>) (as_string (rcReason r) v))"

definition UnmarshalRelayControl :: "bytes \<Rightarrow> RelayControl option" where
  "UnmarshalRelayControl payload =
     unmarshal [''t'', ''c'', ''token'', ''reason''] control_set zero_control (str_of payload)"

definition omit_empty :: "string \<Rightarrow> string \<Rightarrow> (string \<times> json) list" where
  "omit_empty name s = (if s = [] then [] else [(name, JStr s)])"

definition control_json :: "RelayControl \<Rightarrow> json" where
  "control_json c = JObj ([(''t'', JStr (rcT c)), (''c'', JNum (int_lit (uint (rcC c))))] @
     omit_empty ''token'' (rcToken c) @ omit_empty ''reason'' (rcReason c))"

definition MarshalRelayControl :: "RelayControl \<Rightarrow> bytes" where
  "MarshalRelayControl c = bytes_of (render (control_json c))"

lemma UnmarshalRelayControl_Marshal:
  assumes "plain (rcT c)" "plain (rcToken c)" "plain (rcReason c)"
  shows "UnmarshalRelayControl (MarshalRelayControl c) = Some c"
proof -
  have "plain_json (control_json c)" "json_depth (control_json c) \<le> 10000"
    using assms by (auto simp: control_json_def omit_empty_def plain_char_def)
  then have p: "parse_json (render (control_json c)) = Some (control_json c)" by (rule parse_json_render)
  have u: "uint (rcC c) \<le> 65535" using unsigned_less [of "rcC c", where ?'a = int] by simp
  have n: "as_int 0 65535 old (JNum (int_lit (uint (rcC c)))) = Some (uint (rcC c))" for old
    by (rule as_int_nat_lit [OF uint_ge_0 u]) simp
  show ?thesis
    unfolding UnmarshalRelayControl_def MarshalRelayControl_def unmarshal_def str_of_bytes_of p
    by (simp add: control_json_def omit_empty_def fill_struct_def field_of_def control_set_def
        zero_control_def as_string_def n)
qed

interpretation relay_control_json: codec MarshalRelayControl UnmarshalRelayControl
  "\<lambda>c. plain (rcT c) \<and> plain (rcToken c) \<and> plain (rcReason c)"
  by unfold_locales (blast intro: UnmarshalRelayControl_Marshal)

end
