(* ===== verification/RelaySession.thy ===== *)
theory RelaySession
  imports RelayFrames
begin

text \<open>
  internal/relay/relay.go, one session: the phones connected to one bridge, their admission, the
  pending-connection limits with displacement, vouching, and the ways a phone is closed. Each
  operation is what the code does while it holds \<open>sess.mu\<close>. A Go pointer to a \<open>phone\<close> is
  represented by \<open>pid\<close>, its identity. \<open>phones\<close> is the Go map; the order of the list is the
  iteration order (\<open>displacementVictim\<close> iterates over a second map, whose keys are taken in order of
  first appearance: every choice of oldest phones and key order arises from some order of
  \<open>phones\<close>). Sockets to close are returned as \<open>closing\<close> values.
\<close>

section \<open>State\<close>

record Limits =
  MaxPhonesPerSession :: nat
  MaxPendingPerSession :: nat
  MaxPendingPerIP :: nat

record phone =
  pid :: nat
  ch :: "16 word"
  key :: string
  opened :: gotime
  token :: string
  bridgeFrames :: nat
  admitted :: bool
  vouched :: bool

record session =
  phones :: "(16 word, phone) gomap"
  nextCh :: "16 word"

definition new_phone :: "nat \<Rightarrow> string \<Rightarrow> gotime \<Rightarrow> string \<Rightarrow> phone" where
  "new_phone i k t tok =
     \<lparr>pid = i, ch = 0, key = k, opened = t, token = tok, bridgeFrames = 0, admitted = False,
      vouched = False\<rparr>"

record closing =
  cl_pid :: nat
  cl_code :: nat

definition StatusNormalClosure :: nat where "StatusNormalClosure = 1000"
definition StatusPolicyViolation :: nat where "StatusPolicyViolation = 1008"

definition new_session :: session where
  "new_session = \<lparr>phones = [], nextCh = 0\<rparr>"

section \<open>Counting\<close>

definition all_phones :: "session \<Rightarrow> phone list" where
  "all_phones s = map snd (phones s)"

definition counts :: "session \<Rightarrow> nat \<times> nat" where
  "counts s = (length (phones s), length (filter (\<lambda>p. \<not> admitted p) (all_phones s)))"

definition admittedCount :: "session \<Rightarrow> nat" where
  "admittedCount s = length (filter admitted (all_phones s))"

definition pendingCount :: "session \<Rightarrow> nat" where
  "pendingCount s = length (filter (\<lambda>p. \<not> admitted p) (all_phones s))"

definition pendingOfKey :: "string \<Rightarrow> session \<Rightarrow> nat" where
  "pendingOfKey k s = length (filter (\<lambda>p. \<not> admitted p \<and> key p = k) (all_phones s))"

section \<open>Displacement\<close>

definition evictable :: "phone \<Rightarrow> bool" where
  "evictable p \<longleftrightarrow> \<not> admitted p \<and> \<not> vouched p"

definition older_step :: "string \<Rightarrow> phone \<Rightarrow> phone option \<Rightarrow> phone option" where
  "older_step k p acc =
     (if evictable p \<and> key p = k
      then case acc of None \<Rightarrow> Some p | Some old \<Rightarrow> if opened p < opened old then Some p else acc
      else acc)"

definition oldestByKey :: "session \<Rightarrow> string \<Rightarrow> phone option" where
  "oldestByKey s k = fold (older_step k) (all_phones s) None"

definition eligibleByKey :: "session \<Rightarrow> string \<Rightarrow> nat" where
  "eligibleByKey s k = length (filter (\<lambda>p. evictable p \<and> key p = k) (all_phones s))"

definition eligibleKeys :: "session \<Rightarrow> string list" where
  "eligibleKeys s = remdups (map key (filter evictable (all_phones s)))"

text \<open>The second loop: the state is \<open>(busiestKey, busiestCount, busiestOldest)\<close>, the empty key
  meaning "none yet".\<close>

definition busiest_step ::
  "session \<Rightarrow> string \<Rightarrow> string \<times> nat \<times> gotime \<Rightarrow> string \<times> nat \<times> gotime" where
  "busiest_step s k acc =
     (case acc of (bk, bc, bo) \<Rightarrow>
      case oldestByKey s k of None \<Rightarrow> acc | Some old \<Rightarrow>
        if bk = [] \<or> eligibleByKey s k > bc \<or> (eligibleByKey s k = bc \<and> opened old < bo)
        then (k, eligibleByKey s k, opened old) else acc)"

definition busiestKey :: "session \<Rightarrow> string" where
  "busiestKey s = fst (fold (busiest_step s) (eligibleKeys s) ([], 0, 0))"

definition displacementVictim :: "session \<Rightarrow> string \<Rightarrow> nat \<Rightarrow> nat \<Rightarrow> phone option" where
  "displacementVictim s k maxPerKey maxTotal =
     (if pendingOfKey k s \<ge> maxPerKey then oldestByKey s k
      else if pendingCount s < maxTotal then None
      else if busiestKey s = [] then None
      else oldestByKey s (busiestKey s))"

section \<open>Channel numbers\<close>

definition next_channel :: "16 word \<Rightarrow> 16 word" where
  "next_channel c = (let d = c + 1 in if d = 0 then 1 else d)"

text \<open>The search for a free channel; \<open>None\<close> stands for a search that has not ended within
  \<open>fuel\<close> probes.\<close>

fun free_channel :: "nat \<Rightarrow> (16 word, phone) gomap \<Rightarrow> 16 word \<Rightarrow> 16 word option" where
  "free_channel 0 m c = None"
| "free_channel (Suc fuel) m c =
     (if map_of m c \<noteq> None then free_channel fuel m (next_channel c) else Some c)"

text \<open>One probe more than there are phones: by the pigeonhole principle enough whenever a channel is
  free at all (lemma \<open>free_channel_total\<close>).\<close>

definition channel_fuel :: "(16 word, phone) gomap \<Rightarrow> nat" where
  "channel_fuel m = Suc (length m)"

section \<open>Operations\<close>

datatype arrival = Refused nat | Opened "16 word" "phone option" | Stuck

text \<open>The critical section of \<open>servePhone\<close>: \<open>p\<close> is the new phone, not yet numbered.\<close>

definition arrive :: "Limits \<Rightarrow> phone \<Rightarrow> session \<Rightarrow> arrival \<times> session" where
  "arrive L p s =
     (if admittedCount s \<ge> MaxPhonesPerSession L then (Refused RelayCloseFull, s)
      else let victim = displacementVictim s (key p) (MaxPendingPerIP L) (MaxPendingPerSession L) in
        if (pendingOfKey (key p) s \<ge> MaxPendingPerIP L \<or> pendingCount s \<ge> MaxPendingPerSession L)
           \<and> victim = None
        then (Refused RelayCloseFull, s)
        else let m = (case victim of None \<Rightarrow> phones s | Some v \<Rightarrow> AList.delete (ch v) (phones s)) in
          case free_channel (channel_fuel m) m (next_channel (nextCh s)) of
            None \<Rightarrow> (Stuck, s)
          | Some c \<Rightarrow> (Opened c victim,
              s\<lparr>phones := AList.update c (p\<lparr>ch := c\<rparr>) m, nextCh := c\<rparr>))"

definition countBridgeFrame :: "nat \<Rightarrow> 16 word \<Rightarrow> session \<Rightarrow> (phone option \<times> bool) \<times> session" where
  "countBridgeFrame maxAdmitted c s =
     (case map_of (phones s) c of
        None \<Rightarrow> ((None, False), s)
      | Some p \<Rightarrow>
          let q = p\<lparr>bridgeFrames := bridgeFrames p + 1\<rparr> in
          if bridgeFrames q = 2 \<and> \<not> admitted q then
            (if admittedCount s < maxAdmitted
             then let r = q\<lparr>admitted := True\<rparr> in
               ((Some r, False), s\<lparr>phones := AList.update c r (phones s)\<rparr>)
             else ((Some q, True), s\<lparr>phones := AList.update c q (phones s)\<rparr>))
          else ((Some q, False), s\<lparr>phones := AList.update c q (phones s)\<rparr>))"

definition closePhone :: "16 word \<Rightarrow> nat \<Rightarrow> session \<Rightarrow> closing list \<times> session" where
  "closePhone c code s =
     (case map_of (phones s) c of
        None \<Rightarrow> ([], s\<lparr>phones := AList.delete c (phones s)\<rparr>)
      | Some p \<Rightarrow> ([\<lparr>cl_pid = pid p, cl_code = code\<rparr>], s\<lparr>phones := AList.delete c (phones s)\<rparr>))"

definition closePhoneFromBridge :: "16 word \<Rightarrow> string \<Rightarrow> session \<Rightarrow> closing list \<times> session" where
  "closePhoneFromBridge c tok s =
     (case map_of (phones s) c of
        None \<Rightarrow> ([], s)
      | Some p \<Rightarrow>
          if tok \<noteq> [] \<and> token p \<noteq> tok then ([], s)
          else ([\<lparr>cl_pid = pid p, cl_code = StatusNormalClosure\<rparr>],
                s\<lparr>phones := AList.delete c (phones s)\<rparr>))"

definition closeIfPending :: "phone \<Rightarrow> nat \<Rightarrow> session \<Rightarrow> closing list \<times> session" where
  "closeIfPending p code s =
     (case map_of (phones s) (ch p) of
        None \<Rightarrow> ([], s)
      | Some q \<Rightarrow>
          if pid q \<noteq> pid p \<or> admitted q then ([], s)
          else ([\<lparr>cl_pid = pid p, cl_code = code\<rparr>], s\<lparr>phones := AList.delete (ch p) (phones s)\<rparr>))"

definition closeAllPhones :: "session \<Rightarrow> closing list \<times> session" where
  "closeAllPhones s =
     (map (\<lambda>p. \<lparr>cl_pid = pid p, cl_code = RelayCloseNoBridge\<rparr>) (all_phones s), s\<lparr>phones := []\<rparr>)"

text \<open>The deferred cleanup of \<open>servePhone\<close>: only its own entry is removed.\<close>

definition phoneGone :: "phone \<Rightarrow> session \<Rightarrow> session" where
  "phoneGone p s =
     (case map_of (phones s) (ch p) of
        None \<Rightarrow> s
      | Some q \<Rightarrow> if pid q = pid p then s\<lparr>phones := AList.delete (ch p) (phones s)\<rparr> else s)"

text \<open>The part of \<open>vouch\<close> under \<open>sess.mu\<close>, after the token has been checked to be base64url of
  16 bytes.\<close>

definition vouchPhone :: "16 word \<Rightarrow> string \<Rightarrow> session \<Rightarrow> session" where
  "vouchPhone c tok s =
     (case map_of (phones s) c of
        None \<Rightarrow> s
      | Some p \<Rightarrow>
          if admitted p \<or> bridgeFrames p \<noteq> 0 \<or> vouched p \<or> token p \<noteq> tok then s
          else s\<lparr>phones := AList.update c (p\<lparr>vouched := True\<rparr>) (phones s)\<rparr>)"

section \<open>The session as a machine\<close>

datatype session_event =
    Arrive nat string gotime string
  | BridgeFrame "16 word"
  | CloseChannel "16 word" nat
  | BridgeClose "16 word" string
  | AdmissionTimer phone
  | Vouch "16 word" string
  | Gone phone
  | CloseAll

fun session_step :: "Limits \<Rightarrow> session_event \<Rightarrow> session \<Rightarrow> session" where
  "session_step L (Arrive i k t tok) s = snd (arrive L (new_phone i k t tok) s)"
| "session_step L (BridgeFrame c) s = snd (countBridgeFrame (MaxPhonesPerSession L) c s)"
| "session_step L (CloseChannel c code) s = snd (closePhone c code s)"
| "session_step L (BridgeClose c tok) s = snd (closePhoneFromBridge c tok s)"
| "session_step L (AdmissionTimer p) s = snd (closeIfPending p RelayCloseAdmissionTimeout s)"
| "session_step L (Vouch c tok) s = vouchPhone c tok s"
| "session_step L (Gone p) s = phoneGone p s"
| "session_step L CloseAll s = snd (closeAllPhones s)"

end
