(* ===== verification/RelaySafety.thy ===== *)
theory RelaySafety
  imports RelaySession
begin

text \<open>
  What the relay's session limits guarantee: the invariant of a session under every event, the
  choice of the displaced phone, the channel search, and the rule that a close or a vouch reaches
  only the socket incarnation it names.
\<close>

section \<open>Counting lemmas\<close>

lemma counts_vcount:
  "admittedCount s = vcount admitted (phones s)"
  "pendingCount s = vcount (\<lambda>p. \<not> admitted p) (phones s)"
  "pendingOfKey k s = vcount (\<lambda>p. \<not> admitted p \<and> key p = k) (phones s)"
  by (simp_all add: admittedCount_def pendingCount_def pendingOfKey_def all_phones_def vcount_def)

lemma counts_eq: "counts s = (admittedCount s + pendingCount s, pendingCount s)"
  using vcount_split [of admitted "phones s"] unfolding counts_def counts_vcount(1,2)
  by (simp add: pendingCount_def [symmetric] counts_vcount(2))

section \<open>Displacement\<close>

lemma older_fold:
  assumes "\<forall>p. acc = Some p \<longrightarrow> evictable p \<and> key p = k"
  shows "case fold (older_step k) ps acc of
      None \<Rightarrow> acc = None \<and> (\<forall>p \<in> set ps. \<not> (evictable p \<and> key p = k))
    | Some v \<Rightarrow> (v \<in> set ps \<or> acc = Some v) \<and> evictable v \<and> key v = k \<and>
        (\<forall>p. (p \<in> set ps \<and> evictable p \<and> key p = k) \<or> acc = Some p \<longrightarrow> opened v \<le> opened p)"
  using assms
proof (induction ps arbitrary: acc)
  case Nil
  then show ?case by (cases acc) auto
next
  case (Cons p ps)
  let ?acc = "older_step k p acc"
  have acc: "\<forall>q. ?acc = Some q \<longrightarrow> evictable q \<and> key q = k"
    using Cons.prems by (auto simp: older_step_def split: option.splits if_splits)
  have le: "?acc = Some w \<Longrightarrow> (p = q \<and> evictable p \<and> key p = k) \<or> acc = Some q \<Longrightarrow> opened w \<le> opened q" for w q
    by (auto simp: older_step_def split: option.splits if_splits)
  have none: "?acc = None \<Longrightarrow> acc = None \<and> \<not> (evictable p \<and> key p = k)"
    by (auto simp: older_step_def split: option.splits if_splits)
  have some: "evictable p \<and> key p = k \<or> acc \<noteq> None \<Longrightarrow> ?acc \<noteq> None"
    by (auto simp: older_step_def split: option.splits if_splits)
  have from_acc: "?acc = Some w \<Longrightarrow> w = p \<or> acc = Some w" for w
    by (auto simp: older_step_def split: option.splits if_splits)
  have fold: "fold (older_step k) (p # ps) acc = fold (older_step k) ps ?acc" by simp
  show ?case
  proof (cases "fold (older_step k) ps ?acc")
    case None
    with Cons.IH [OF acc] none show ?thesis unfolding fold by auto
  next
    case (Some v)
    with Cons.IH [OF acc] have v: "v \<in> set ps \<or> ?acc = Some v" "evictable v" "key v = k"
      and min: "\<And>q. (q \<in> set ps \<and> evictable q \<and> key q = k) \<or> ?acc = Some q \<Longrightarrow> opened v \<le> opened q"
      by auto
    have "opened v \<le> opened q" if "(q \<in> set (p # ps) \<and> evictable q \<and> key q = k) \<or> acc = Some q" for q
    proof (cases "q \<in> set ps \<and> evictable q \<and> key q = k")
      case True
      then show ?thesis by (intro min) simp
    next
      case False
      with that have q: "(p = q \<and> evictable p \<and> key p = k) \<or> acc = Some q" by auto
      with some obtain w where w: "?acc = Some w" by auto
      with min le [OF w q] show ?thesis by (meson order_trans)
    qed
    with v from_acc show ?thesis unfolding fold Some by auto
  qed
qed

lemma oldestByKey_Some:
  assumes "oldestByKey s k = Some v"
  shows "v \<in> set (all_phones s)" "\<not> admitted v" "\<not> vouched v" "key v = k"
    "\<And>p. p \<in> set (all_phones s) \<Longrightarrow> evictable p \<Longrightarrow> key p = k \<Longrightarrow> opened v \<le> opened p"
  using older_fold [of None k "all_phones s"] assms
  by (auto simp: oldestByKey_def evictable_def)

lemma oldestByKey_None:
  "oldestByKey s k = None \<longleftrightarrow> (\<forall>p \<in> set (all_phones s). \<not> (evictable p \<and> key p = k))"
  using older_fold [of None k "all_phones s"]
  by (cases "fold (older_step k) (all_phones s) None") (auto simp: oldestByKey_def)

lemma eligibleKeys_iff:
  "k \<in> set (eligibleKeys s) \<longleftrightarrow> (\<exists>p \<in> set (all_phones s). evictable p \<and> key p = k)"
  by (auto simp: eligibleKeys_def)

text \<open>The second loop finds a key with the most evictable phones, provided no client key is the
  empty string (\<open>limitKey\<close> of a parsable address never is).\<close>

lemma busiest_fold:
  assumes "[] \<notin> set ks" "\<forall>k \<in> set ks. oldestByKey s k \<noteq> None"
    and "fold (busiest_step s) ks (bk, bc, bo) = (k', c', o')"
    and "bk \<noteq> [] \<longrightarrow> bc = eligibleByKey s bk"
  shows "(k' \<noteq> [] \<longrightarrow> (k' \<in> set ks \<or> k' = bk) \<and> c' = eligibleByKey s k') \<and>
    (bk \<noteq> [] \<or> ks \<noteq> [] \<longrightarrow> k' \<noteq> [] \<and> (\<forall>k \<in> set ks. eligibleByKey s k \<le> c') \<and> (bk \<noteq> [] \<longrightarrow> bc \<le> c'))"
  using assms
proof (induction ks arbitrary: bk bc bo)
  case (Cons k ks)
  obtain old where old: "oldestByKey s k = Some old" using Cons.prems(2) by auto
  show ?case
  proof (cases "bk = [] \<or> eligibleByKey s k > bc \<or> (eligibleByKey s k = bc \<and> opened old < bo)")
    case True
    then have st: "busiest_step s k (bk, bc, bo) = (k, eligibleByKey s k, opened old)"
      by (simp add: busiest_step_def old)
    have "fold (busiest_step s) ks (k, eligibleByKey s k, opened old) = (k', c', o')"
      using Cons.prems(3) st by simp
    from Cons.IH [OF _ _ this] Cons.prems(1,2) have
      "(k' \<noteq> [] \<longrightarrow> (k' \<in> set ks \<or> k' = k) \<and> c' = eligibleByKey s k') \<and> k' \<noteq> [] \<and>
       (\<forall>k \<in> set ks. eligibleByKey s k \<le> c') \<and> eligibleByKey s k \<le> c'" by auto
    with True show ?thesis by auto
  next
    case False
    then have st: "busiest_step s k (bk, bc, bo) = (bk, bc, bo)"
      by (simp add: busiest_step_def old)
    have "fold (busiest_step s) ks (bk, bc, bo) = (k', c', o')"
      using Cons.prems(3) st by simp
    from Cons.IH [OF _ _ this] Cons.prems(1,2,4) False show ?thesis by auto
  qed
qed auto

lemma busiestKey_max:
  assumes "[] \<notin> set (map key (all_phones s))" "p \<in> set (all_phones s)" "evictable p"
  shows "busiestKey s \<in> set (eligibleKeys s)" "eligibleByKey s (key p) \<le> eligibleByKey s (busiestKey s)"
proof -
  obtain k' c' o' where f: "fold (busiest_step s) (eligibleKeys s) ([], 0, 0) = (k', c', o')"
    by (cases "fold (busiest_step s) (eligibleKeys s) ([], 0, 0)")
  have kp: "key p \<in> set (eligibleKeys s)" using assms(2,3) by (auto simp: eligibleKeys_iff)
  have "[] \<notin> set (eligibleKeys s)" using assms(1) by (auto simp: eligibleKeys_iff image_iff)
  moreover have "\<forall>k \<in> set (eligibleKeys s). oldestByKey s k \<noteq> None"
    by (auto simp: eligibleKeys_iff oldestByKey_None)
  ultimately have r: "(k' \<noteq> [] \<longrightarrow> k' \<in> set (eligibleKeys s) \<or> k' = []) \<and> k' \<noteq> [] \<and>
      (k' \<noteq> [] \<longrightarrow> c' = eligibleByKey s k') \<and> (\<forall>k \<in> set (eligibleKeys s). eligibleByKey s k \<le> c')"
    using busiest_fold [OF _ _ f] kp by (cases "eligibleKeys s") auto
  with f kp show "busiestKey s \<in> set (eligibleKeys s)"
    "eligibleByKey s (key p) \<le> eligibleByKey s (busiestKey s)" by (auto simp: busiestKey_def)
qed

lemma victim_evictable:
  assumes "displacementVictim s k m n = Some v"
  shows "v \<in> set (all_phones s)" "\<not> admitted v" "\<not> vouched v"
    "pendingOfKey k s \<ge> m \<Longrightarrow> key v = k"
    "\<And>p. p \<in> set (all_phones s) \<Longrightarrow> evictable p \<Longrightarrow> key p = key v \<Longrightarrow> opened v \<le> opened p"
  using assms oldestByKey_Some [of s _ v]
  by (auto simp: displacementVictim_def split: if_splits)

section \<open>Channel search\<close>

lemma next_channel_nonzero [simp]: "next_channel c \<noteq> 0"
  by (simp add: next_channel_def Let_def)

lemma unat_next_channel:
  assumes "c \<noteq> 0"
  shows "unat (next_channel c) = unat c mod 65535 + 1"
proof -
  have b: "unat c < 65536" using unsigned_less [of c, where ?'a = nat] by simp
  have pos: "0 < unat c" using assms by (simp add: unat_gt_0)
  show ?thesis
  proof (cases "unat c = 65535")
    case True
    then have "c = 65535" by (simp add: word_unat_eq_iff)
    then show ?thesis by (simp add: next_channel_def)
  next
    case False
    with b have lt: "unat c + 1 < 65536" by simp
    then have "unat (c + 1) = unat c + 1" by (simp add: unat_word_ariths)
    moreover from this have "c + 1 \<noteq> 0" by (metis Suc_eq_plus1 nat.distinct(1) unat_0)
    ultimately show ?thesis using lt by (simp add: next_channel_def Let_def)
  qed
qed

lemma unat_channel_iter:
  assumes "c \<noteq> 0"
  shows "(next_channel ^^ i) c \<noteq> 0 \<and> unat ((next_channel ^^ i) c) = (unat c - 1 + i) mod 65535 + 1"
proof (induction i)
  case 0
  have "0 < unat c" "unat c < 65536"
    using assms unsigned_less [of c, where ?'a = nat] by (simp_all add: unat_gt_0)
  then show ?case using assms by simp
next
  case (Suc i)
  let ?d = "(next_channel ^^ i) c"
  have "unat (next_channel ?d) = unat ?d mod 65535 + 1" using Suc by (intro unat_next_channel) simp
  also have "\<dots> = ((unat c - 1 + i) mod 65535 + 1) mod 65535 + 1" using Suc by simp
  also have "\<dots> = (unat c - 1 + Suc i) mod 65535 + 1" by (simp add: mod_Suc_eq)
  finally show ?case by simp
qed

lemma free_channel_probe:
  "(\<exists>i < fuel. map_of m ((next_channel ^^ i) c) = None) \<Longrightarrow>
   \<exists>d. free_channel fuel m c = Some d"
proof (induction fuel arbitrary: c)
  case (Suc fuel)
  show ?case
  proof (cases "map_of m c")
    case (Some p)
    from Suc.prems obtain i where i: "i < Suc fuel" "map_of m ((next_channel ^^ i) c) = None" by blast
    with Some obtain j where "i = Suc j" by (cases i) auto
    with i have "j < fuel" "map_of m ((next_channel ^^ j) (next_channel c)) = None"
      by (simp_all add: funpow_swap1)
    with Suc.IH Some show ?thesis by auto
  qed simp
qed simp

lemma free_channel_Some: "free_channel fuel m c = Some d \<Longrightarrow> c \<noteq> 0 \<Longrightarrow> map_of m d = None \<and> d \<noteq> 0"
  by (induction fuel arbitrary: c) (auto split: if_splits)

lemma mod_below_twice: "(x :: nat) < 2 * n \<Longrightarrow> x mod n = (if x < n then x else x - n)"
  by (auto simp: le_mod_geq)

lemma free_channel_total:
  assumes "length m < 65535" "c \<noteq> 0"
  shows "\<exists>d. free_channel (channel_fuel m) m c = Some d"
proof -
  let ?probe = "\<lambda>i. (next_channel ^^ i) c"
  have inj: "inj_on ?probe {..length m}"
  proof (rule inj_onI)
    fix i j assume ij: "i \<in> {..length m}" "j \<in> {..length m}" "?probe i = ?probe j"
    with unat_channel_iter [OF assms(2), of i] unat_channel_iter [OF assms(2), of j]
    have "(unat c - 1 + i) mod 65535 = (unat c - 1 + j) mod 65535" by simp
    moreover have "unat c - 1 + i < 2 * 65535" "unat c - 1 + j < 2 * 65535"
      using ij assms(1) unsigned_less [of c, where ?'a = nat] by simp_all
    ultimately show "i = j" using ij assms(1)
      by (simp add: mod_below_twice split: if_splits)
  qed
  have "\<not> ?probe ` {..length m} \<subseteq> fst ` set m"
  proof
    assume "?probe ` {..length m} \<subseteq> fst ` set m"
    then have "card (?probe ` {..length m}) \<le> card (fst ` set m)" by (intro card_mono) auto
    also have "\<dots> \<le> length m" by (metis card_image_le card_length finite_set le_trans)
    finally show False using card_image [OF inj] by simp
  qed
  then obtain i where "i \<le> length m" "?probe i \<notin> fst ` set m" by auto
  then have "i < channel_fuel m" "map_of m (?probe i) = None"
    by (auto simp: channel_fuel_def map_of_eq_None_iff)
  then show ?thesis by (intro free_channel_probe) blast
qed

section \<open>The session invariant\<close>

definition session_inv :: "Limits \<Rightarrow> session \<Rightarrow> bool" where
  "session_inv L s \<longleftrightarrow>
     wf_map (phones s) \<and> (\<forall>e \<in> set (phones s). ch (snd e) = fst e \<and> fst e \<noteq> 0) \<and>
     admittedCount s \<le> MaxPhonesPerSession L \<and> pendingCount s \<le> MaxPendingPerSession L \<and>
     (\<forall>k. pendingOfKey k s \<le> MaxPendingPerIP L)"

lemma session_inv_new [simp]: "session_inv L new_session"
  by (simp add: session_inv_def new_session_def counts_vcount)

lemma session_inv_wf: "session_inv L s \<Longrightarrow> wf_map (phones s)"
  by (simp add: session_inv_def)

lemma inv_map_of:
  "session_inv L s \<Longrightarrow> map_of (phones s) c = Some p \<Longrightarrow> ch p = c \<and> c \<noteq> 0"
  by (auto simp: session_inv_def dest!: map_of_SomeD bspec)

lemma inv_all_phones:
  "session_inv L s \<Longrightarrow> p \<in> set (all_phones s) \<Longrightarrow> map_of (phones s) (ch p) = Some p"
  by (fastforce simp: session_inv_def all_phones_def)

lemma set_delete_subset: "set (AList.delete k m) \<subseteq> set m"
  by (auto simp: delete_filter)

lemma inv_delete: "session_inv L s \<Longrightarrow> session_inv L (s\<lparr>phones := AList.delete c (phones s)\<rparr>)"
  by (auto simp: session_inv_def counts_vcount intro: le_trans [OF vcount_delete_le]
      dest!: set_delete_subset [THEN subsetD])

lemma inv_update_same:
  assumes inv: "session_inv L s" and p: "map_of (phones s) c = Some p"
    and q: "ch q = c" "key q = key p" "admitted q = admitted p"
  shows "session_inv L (s\<lparr>phones := AList.update c q (phones s)\<rparr>)"
proof -
  have wf: "wf_map (phones s)" using inv by (rule session_inv_wf)
  have c: "vcount P (AList.update c q (phones s)) = vcount P (phones s)" if "P q = P p" for P
    using vcount_update [OF wf, of P c q] p that by simp
  have c0: "c \<noteq> 0" using inv_map_of [OF inv p] by simp
  have "vcount admitted (AList.update c q (phones s)) = vcount admitted (phones s)"
    "vcount (\<lambda>p. \<not> admitted p) (AList.update c q (phones s)) = vcount (\<lambda>p. \<not> admitted p) (phones s)"
    "\<And>k. vcount (\<lambda>p. \<not> admitted p \<and> key p = k) (AList.update c q (phones s)) =
      vcount (\<lambda>p. \<not> admitted p \<and> key p = k) (phones s)"
    by (simp_all add: c q)
  with inv q(1) c0 show ?thesis
    by (auto simp: session_inv_def counts_vcount set_update [OF wf])
qed

lemma inv_admit:
  assumes inv: "session_inv L s" and p: "map_of (phones s) c = Some p"
    and q: "ch q = c" "key q = key p" "\<not> admitted p" "admitted q"
    and room: "admittedCount s < MaxPhonesPerSession L"
  shows "session_inv L (s\<lparr>phones := AList.update c q (phones s)\<rparr>)"
proof -
  have wf: "wf_map (phones s)" using inv by (rule session_inv_wf)
  have c0: "c \<noteq> 0" using inv_map_of [OF inv p] by simp
  have "vcount admitted (AList.update c q (phones s)) = Suc (vcount admitted (phones s))"
    using vcount_update [OF wf, of admitted c q] p q by simp
  moreover have "vcount (\<lambda>p. \<not> admitted p) (AList.update c q (phones s)) \<le> vcount (\<lambda>p. \<not> admitted p) (phones s)"
    using vcount_update [OF wf, of "\<lambda>p. \<not> admitted p" c q] p q by simp
  moreover have "vcount (\<lambda>p. \<not> admitted p \<and> key p = k) (AList.update c q (phones s)) \<le>
      vcount (\<lambda>p. \<not> admitted p \<and> key p = k) (phones s)" for k
    using vcount_update [OF wf, of "\<lambda>p. \<not> admitted p \<and> key p = k" c q] p q by (simp split: if_splits)
  ultimately show ?thesis
    using inv q(1) c0 room
    by (auto simp: session_inv_def counts_vcount set_update [OF wf] intro: le_trans)
qed

lemma arrive_cases:
  assumes "arrive L p s = (r, t)"
  obtains (refused) "r = Refused RelayCloseFull" "t = s"
  | (stuck) "r = Stuck" "t = s"
  | (room) c where "r = Opened c None"
      "free_channel (channel_fuel (phones s)) (phones s) (next_channel (nextCh s)) = Some c"
      "pendingOfKey (key p) s < MaxPendingPerIP L" "pendingCount s < MaxPendingPerSession L"
      "t = s\<lparr>phones := AList.update c (p\<lparr>ch := c\<rparr>) (phones s), nextCh := c\<rparr>"
  | (displaced) c v where "r = Opened c (Some v)"
      "displacementVictim s (key p) (MaxPendingPerIP L) (MaxPendingPerSession L) = Some v"
      "free_channel (channel_fuel (AList.delete (ch v) (phones s))) (AList.delete (ch v) (phones s)) (next_channel (nextCh s)) = Some c"
      "t = s\<lparr>phones := AList.update c (p\<lparr>ch := c\<rparr>) (AList.delete (ch v) (phones s)), nextCh := c\<rparr>"
proof -
  let ?v = "displacementVictim s (key p) (MaxPendingPerIP L) (MaxPendingPerSession L)"
  let ?full = "pendingOfKey (key p) s \<ge> MaxPendingPerIP L \<or> pendingCount s \<ge> MaxPendingPerSession L"
  show thesis
  proof (cases "admittedCount s \<ge> MaxPhonesPerSession L \<or> (?full \<and> ?v = None)")
    case True
    then have "arrive L p s = (Refused RelayCloseFull, s)" by (auto simp: arrive_def Let_def)
    with assms refused show thesis by simp
  next
    case False
    then have eq: "arrive L p s =
        (let m = (case ?v of None \<Rightarrow> phones s | Some v \<Rightarrow> AList.delete (ch v) (phones s)) in
          case free_channel (channel_fuel m) m (next_channel (nextCh s)) of
            None \<Rightarrow> (Stuck, s)
          | Some c \<Rightarrow> (Opened c ?v, s\<lparr>phones := AList.update c (p\<lparr>ch := c\<rparr>) m, nextCh := c\<rparr>))"
      unfolding arrive_def Let_def by (simp only: if_False not_le[symmetric] de_Morgan_disj)
    show thesis
    proof (cases ?v)
      case None
      with False have "pendingOfKey (key p) s < MaxPendingPerIP L" "pendingCount s < MaxPendingPerSession L"
        by auto
      with None eq assms room stuck show thesis
        by (cases "free_channel (channel_fuel (phones s)) (phones s) (next_channel (nextCh s))") auto
    next
      case (Some v)
      with eq assms displaced stuck show thesis
        by (cases "free_channel (channel_fuel (AList.delete (ch v) (phones s))) (AList.delete (ch v) (phones s)) (next_channel (nextCh s))") auto
    qed
  qed
qed

lemma inv_arrive:
  assumes inv: "session_inv L s" and p: "\<not> admitted p"
  shows "session_inv L (snd (arrive L p s))"
proof -
  have wf: "wf_map (phones s)" using inv by (rule session_inv_wf)
  obtain r t where ar: "arrive L p s = (r, t)" by fastforce
  have "session_inv L t"
  proof (rule arrive_cases [OF ar])
    fix c assume c: "free_channel (channel_fuel (phones s)) (phones s) (next_channel (nextCh s)) = Some c"
      and lt: "pendingOfKey (key p) s < MaxPendingPerIP L" "pendingCount s < MaxPendingPerSession L"
      and t: "t = s\<lparr>phones := AList.update c (p\<lparr>ch := c\<rparr>) (phones s), nextCh := c\<rparr>"
    have f: "map_of (phones s) c = None" "c \<noteq> 0" using free_channel_Some [OF c] by simp_all
    have v: "vcount P (AList.update c (p\<lparr>ch := c\<rparr>) (phones s)) = vcount P (phones s) + hit P (Some (p\<lparr>ch := c\<rparr>))" for P
      using vcount_update [OF wf, of P c "p\<lparr>ch := c\<rparr>"] f(1) by (simp del: hit_simps(2))
    show ?thesis using inv p lt f unfolding t
      by (auto simp: session_inv_def counts_vcount set_update [OF wf] v)
  next
    fix c v assume vic: "displacementVictim s (key p) (MaxPendingPerIP L) (MaxPendingPerSession L) = Some v"
      and c: "free_channel (channel_fuel (AList.delete (ch v) (phones s))) (AList.delete (ch v) (phones s)) (next_channel (nextCh s)) = Some c"
      and t: "t = s\<lparr>phones := AList.update c (p\<lparr>ch := c\<rparr>) (AList.delete (ch v) (phones s)), nextCh := c\<rparr>"
    let ?m = "AList.delete (ch v) (phones s)"
    have wf': "wf_map ?m" using wf by simp
    have f: "map_of ?m c = None" "c \<noteq> 0" using free_channel_Some [OF c] by simp_all
    have mv: "map_of (phones s) (ch v) = Some v"
      using inv_all_phones [OF inv victim_evictable(1) [OF vic]] .
    have cnt: "vcount P (AList.update c (p\<lparr>ch := c\<rparr>) ?m) + hit P (Some v) = vcount P (phones s) + hit P (Some (p\<lparr>ch := c\<rparr>))" for P
      using vcount_update [OF wf', of P c "p\<lparr>ch := c\<rparr>"] vcount_delete [OF wf, of P "ch v"] f(1) mv
      by (simp del: hit_simps(2))
    have adm: "vcount admitted (AList.update c (p\<lparr>ch := c\<rparr>) ?m) = vcount admitted (phones s)"
      using cnt [of admitted] p victim_evictable(2) [OF vic] by simp
    have pen: "vcount (\<lambda>p. \<not> admitted p) (AList.update c (p\<lparr>ch := c\<rparr>) ?m) = vcount (\<lambda>p. \<not> admitted p) (phones s)"
      using cnt [of "\<lambda>p. \<not> admitted p"] p victim_evictable(2) [OF vic] by simp
    have perkey: "vcount (\<lambda>p. \<not> admitted p \<and> key p = k) (AList.update c (p\<lparr>ch := c\<rparr>) ?m) \<le> MaxPendingPerIP L" for k
    proof -
      have le: "pendingOfKey k s \<le> MaxPendingPerIP L" using inv by (simp add: session_inv_def)
      show ?thesis
      proof (cases "key p = k \<and> key v \<noteq> k")
        case True
        then have "pendingOfKey k s < MaxPendingPerIP L"
          using victim_evictable(4) [OF vic] by (metis not_le)
        then show ?thesis using cnt [of "\<lambda>p. \<not> admitted p \<and> key p = k"] True
          by (simp add: counts_vcount split: if_splits)
      next
        case False
        then show ?thesis using cnt [of "\<lambda>p. \<not> admitted p \<and> key p = k"] le victim_evictable(2) [OF vic]
          by (auto simp: counts_vcount split: if_splits)
      qed
    qed
    show ?thesis using inv f(2) adm pen perkey unfolding t
      by (auto simp: session_inv_def counts_vcount set_update [OF wf']
          dest!: set_delete_subset [THEN subsetD])
  qed (use inv in auto)
  with ar show ?thesis by simp
qed

lemma inv_countBridgeFrame:
  assumes inv: "session_inv L s"
  shows "session_inv L (snd (countBridgeFrame (MaxPhonesPerSession L) c s))"
proof (cases "map_of (phones s) c")
  case None
  with inv show ?thesis by (simp add: countBridgeFrame_def)
next
  case (Some p)
  let ?q = "p\<lparr>bridgeFrames := bridgeFrames p + 1\<rparr>"
  have c: "ch p = c" using inv_map_of [OF inv Some] by simp
  have same: "session_inv L (s\<lparr>phones := AList.update c ?q (phones s)\<rparr>)"
    using inv Some by (rule inv_update_same) (simp_all add: c)
  show ?thesis
  proof (cases "bridgeFrames ?q = 2 \<and> \<not> admitted p \<and> admittedCount s < MaxPhonesPerSession L")
    case True
    then have "session_inv L (s\<lparr>phones := AList.update c (?q\<lparr>admitted := True\<rparr>) (phones s)\<rparr>)"
      by (intro inv_admit [OF inv Some]) (simp_all add: c)
    with True Some show ?thesis by (simp add: countBridgeFrame_def Let_def)
  next
    case False
    then have "snd (countBridgeFrame (MaxPhonesPerSession L) c s) =
        s\<lparr>phones := AList.update c ?q (phones s)\<rparr>"
      using Some by (auto simp: countBridgeFrame_def Let_def)
    with same show ?thesis by simp
  qed
qed

lemma inv_vouchPhone: "session_inv L s \<Longrightarrow> session_inv L (vouchPhone c tok s)"
proof (cases "map_of (phones s) c")
  case (Some p)
  moreover assume inv: "session_inv L s"
  moreover have "session_inv L (s\<lparr>phones := AList.update c (p\<lparr>vouched := True\<rparr>) (phones s)\<rparr>)"
    using inv Some by (rule inv_update_same) (simp_all add: inv_map_of [OF inv Some])
  ultimately show ?thesis by (simp add: vouchPhone_def)
qed (simp add: vouchPhone_def)

lemma inv_closings:
  assumes "session_inv L s"
  shows "session_inv L (snd (closePhone c code s))" "session_inv L (snd (closePhoneFromBridge c tok s))"
    "session_inv L (snd (closeIfPending p code s))" "session_inv L (phoneGone p s)"
    "session_inv L (snd (closeAllPhones s))"
  using assms inv_delete [OF assms]
  by (simp_all add: closePhone_def closePhoneFromBridge_def closeIfPending_def phoneGone_def
      closeAllPhones_def session_inv_def counts_vcount split: option.splits)

lemma session_step_inv: "session_inv L s \<Longrightarrow> session_inv L (session_step L e s)"
  by (cases e) (simp_all add: inv_arrive inv_countBridgeFrame inv_vouchPhone inv_closings new_phone_def)

interpretation relay_session: machine "session_step L" "session_inv L" for L
  by unfold_locales (rule session_step_inv)

text \<open>
  C7. The relay's connection limits hold in every state a session can reach, whatever phones
  arrive, frames pass, timers fire and the bridge closes or vouches, in any order: at most
  \<open>MaxPhonesPerSession\<close> admitted phones, at most \<open>MaxPendingPerSession\<close> pending phones, at most
  \<open>MaxPendingPerIP\<close> pending phones of one address key, and each phone sits on its own nonzero
  channel.
\<close>

theorem session_limits:
  "admittedCount (fold (session_step L) es new_session) \<le> MaxPhonesPerSession L \<and>
   pendingCount (fold (session_step L) es new_session) \<le> MaxPendingPerSession L \<and>
   pendingOfKey k (fold (session_step L) es new_session) \<le> MaxPendingPerIP L \<and>
   wf_map (phones (fold (session_step L) es new_session)) \<and>
   0 \<notin> fst ` set (phones (fold (session_step L) es new_session))"
  using relay_session.run_inv [OF session_inv_new, of L es]
  by (fastforce simp: session_inv_def)

text \<open>
  C23. Displacement is fair and spares every phone the bridge has accepted: an arrival displaces at
  most one phone, and that phone is neither admitted nor vouched for, has been waiting longest among
  the displaceable phones of its address key, and shares the newcomer's key if that key is at its
  limit; otherwise its key has the most displaceable phones of all. Every other phone stays.
\<close>

theorem displacement_fair:
  assumes "session_inv L s" and "[] \<notin> set (map key (all_phones s))"
    and "arrive L p s = (Opened c (Some v), t)"
  shows "map_of (phones s) (ch v) = Some v \<and> \<not> admitted v \<and> \<not> vouched v \<and>
    (\<forall>q \<in> set (all_phones s). \<not> admitted q \<and> \<not> vouched q \<and> key q = key v \<longrightarrow> opened v \<le> opened q) \<and>
    (if MaxPendingPerIP L \<le> pendingOfKey (key p) s then key v = key p
     else \<forall>q \<in> set (all_phones s). \<not> admitted q \<and> \<not> vouched q \<longrightarrow>
       eligibleByKey s (key q) \<le> eligibleByKey s (key v)) \<and>
    (\<forall>d. d \<noteq> ch v \<and> map_of (phones s) d \<noteq> None \<longrightarrow> map_of (phones t) d = map_of (phones s) d) \<and>
    map_of (phones t) c = Some (p\<lparr>ch := c\<rparr>)"
proof -
  let ?vic = "displacementVictim s (key p) (MaxPendingPerIP L) (MaxPendingPerSession L)"
  from assms(3) have vic: "?vic = Some v"
    and fc: "free_channel (channel_fuel (AList.delete (ch v) (phones s))) (AList.delete (ch v) (phones s)) (next_channel (nextCh s)) = Some c"
    and t: "t = s\<lparr>phones := AList.update c (p\<lparr>ch := c\<rparr>) (AList.delete (ch v) (phones s)), nextCh := c\<rparr>"
    by (auto elim: arrive_cases)
  note ev = victim_evictable [OF vic]
  have busiest: "key v = busiestKey s" if "\<not> MaxPendingPerIP L \<le> pendingOfKey (key p) s"
    using vic that oldestByKey_Some(4) [of s "busiestKey s" v]
    by (simp add: displacementVictim_def split: if_splits)
  have free: "map_of (AList.delete (ch v) (phones s)) c = None" using free_channel_Some [OF fc] by simp
  have old: "\<forall>q \<in> set (all_phones s). \<not> admitted q \<and> \<not> vouched q \<and> key q = key v \<longrightarrow> opened v \<le> opened q"
    using ev(5) by (simp add: evictable_def)
  have most: "\<forall>q \<in> set (all_phones s). \<not> admitted q \<and> \<not> vouched q \<longrightarrow>
      eligibleByKey s (key q) \<le> eligibleByKey s (key v)" if "\<not> MaxPendingPerIP L \<le> pendingOfKey (key p) s"
    using busiestKey_max(2) [OF assms(2)] busiest [OF that] by (simp add: evictable_def)
  have stay: "map_of (phones t) d = map_of (phones s) d" if "d \<noteq> ch v" "map_of (phones s) d \<noteq> None" for d
    using that free unfolding t by (cases "d = c") (auto simp: update_conv delete_conv)
  show ?thesis
    using inv_all_phones [OF assms(1) ev(1)] ev(2-4) old most stay
    by (simp add: t update_conv)
qed

definition toy_limits :: Limits where
  "toy_limits = \<lparr>MaxPhonesPerSession = 2, MaxPendingPerSession = 2, MaxPendingPerIP = 2\<rparr>"

definition toy_crowd :: session where
  "toy_crowd = fold (session_step toy_limits)
     [Arrive 0 ''a'' 5 ''t0'', Arrive 1 ''b'' 7 ''t1'', Vouch 1 ''t0''] new_session"

lemma toy_crowd_inv: "session_inv toy_limits toy_crowd"
  unfolding toy_crowd_def by (rule relay_session.run_inv) simp

lemma displacement_fair_witness:
  "fst (arrive toy_limits (new_phone 2 ''c'' 9 ''t2'') toy_crowd) =
     Opened 3 (map_of (phones toy_crowd) 2) \<and>
   (\<exists>v. map_of (phones toy_crowd) 2 = Some v \<and> \<not> admitted v \<and> \<not> vouched v)"
proof -
  have ar: "fst (arrive toy_limits (new_phone 2 ''c'' 9 ''t2'') toy_crowd) =
      Opened 3 (map_of (phones toy_crowd) 2)" by code_simp
  have some: "map_of (phones toy_crowd) 2 = Some (new_phone 1 ''b'' 7 ''t1''\<lparr>ch := 2\<rparr>)" by code_simp
  have "[] \<notin> set (map key (all_phones toy_crowd))" by code_simp
  moreover obtain t where "arrive toy_limits (new_phone 2 ''c'' 9 ''t2'') toy_crowd =
      (Opened 3 (Some (new_phone 1 ''b'' 7 ''t1''\<lparr>ch := 2\<rparr>)), t)"
    using ar unfolding some by (cases "arrive toy_limits (new_phone 2 ''c'' 9 ''t2'') toy_crowd") simp
  ultimately show ?thesis
    using displacement_fair [OF toy_crowd_inv] ar some by blast
qed

text \<open>
  Accepting a phone never hangs: while the configured limits are within the 65535 channel
  numbers, the search for a free channel, which runs with the session locked, ends for every session
  the relay can reach.
\<close>

theorem arrival_terminates:
  assumes "session_inv L s" and "MaxPhonesPerSession L + MaxPendingPerSession L < 65535"
  shows "fst (arrive L p s) \<noteq> Stuck"
proof -
  have "length (phones s) < 65535"
    using assms vcount_split [of admitted "phones s"] by (simp add: session_inv_def counts_vcount)
  then have len: "length (AList.delete d (phones s)) < 65535" "length (phones s) < 65535" for d
    using length_delete_le [of d "phones s"] by simp_all
  obtain r t where ar: "arrive L p s = (r, t)" by fastforce
  show ?thesis
  proof
    assume "fst (arrive L p s) = Stuck"
    then have st: "fst (arrive L p s) = Stuck" .
    let ?v = "displacementVictim s (key p) (MaxPendingPerIP L) (MaxPendingPerSession L)"
    let ?m = "case ?v of None \<Rightarrow> phones s | Some v \<Rightarrow> AList.delete (ch v) (phones s)"
    have "length ?m < 65535" using len by (simp split: option.split)
    then obtain c where "free_channel (channel_fuel ?m) ?m (next_channel (nextCh s)) = Some c"
      using free_channel_total next_channel_nonzero by blast
    with st show False by (auto simp: arrive_def Let_def split: if_splits)
  qed
qed

lemma arrival_terminates_witness:
  "fst (arrive toy_limits (new_phone 2 ''c'' 9 ''t2'') toy_crowd) \<noteq> Stuck"
  by (rule arrival_terminates [OF toy_crowd_inv]) (simp add: toy_limits_def)

section \<open>Admission\<close>

text \<open>
  Only the bridge admits a phone, and only with its second frame: if a phone on channel \<open>c\<close> is
  admitted after an event and the phone on \<open>c\<close> was not admitted before it, the event is a bridge
  frame on \<open>c\<close>, it is that phone's second, and the session had room for an admitted phone.
\<close>

theorem only_bridge_admits:
  assumes "session_inv L s" and "map_of (phones (session_step L e s)) c = Some q" and "admitted q"
    and "\<And>p. map_of (phones s) c = Some p \<Longrightarrow> \<not> admitted p"
  shows "e = BridgeFrame c \<and> admittedCount s < MaxPhonesPerSession L \<and>
    (\<exists>p. map_of (phones s) c = Some p \<and> pid q = pid p \<and> bridgeFrames p = 1 \<and> bridgeFrames q = 2)"
proof (cases e)
  case (BridgeFrame d)
  show ?thesis
  proof (cases "map_of (phones s) d")
    case None
    with assms BridgeFrame show ?thesis by (auto simp: countBridgeFrame_def)
  next
    case (Some p)
    with assms BridgeFrame show ?thesis
      by (cases "d = c") (auto simp: countBridgeFrame_def Let_def update_conv split: if_splits)
  qed
next
  case (Arrive i k t tok)
  obtain r u where ar: "arrive L (new_phone i k t tok) s = (r, u)" by fastforce
  with Arrive assms(2) have "map_of (phones u) c = Some q" by simp
  then show ?thesis using assms(3,4)
    by (rule_tac arrive_cases [OF ar])
      (auto simp: new_phone_def update_conv delete_conv split: if_splits)
next
  case (Vouch d tok)
  with assms(2-4) show ?thesis
    by (cases "map_of (phones s) d") (auto simp: vouchPhone_def update_conv split: if_splits)
next
  case (CloseChannel d code)
  with assms(2-4) show ?thesis
    by (cases "map_of (phones s) d") (auto simp: closePhone_def delete_conv split: if_splits)
next
  case (BridgeClose d tok)
  with assms(2-4) show ?thesis
    by (cases "map_of (phones s) d") (auto simp: closePhoneFromBridge_def delete_conv split: if_splits)
next
  case (AdmissionTimer p)
  with assms(2-4) show ?thesis
    by (cases "map_of (phones s) (ch p)") (auto simp: closeIfPending_def delete_conv split: if_splits)
next
  case (Gone p)
  with assms(2-4) show ?thesis
    by (cases "map_of (phones s) (ch p)") (auto simp: phoneGone_def delete_conv split: if_splits)
next
  case CloseAll
  with assms(2) show ?thesis by (simp add: closeAllPhones_def)
qed

lemma only_bridge_admits_witness:
  "admittedCount (session_step toy_limits (BridgeFrame 1) toy_crowd) < MaxPhonesPerSession toy_limits"
proof -
  let ?s = "session_step toy_limits (BridgeFrame 1) toy_crowd"
  let ?q = "new_phone 0 ''a'' 5 ''t0''\<lparr>ch := 1, vouched := True, bridgeFrames := 2, admitted := True\<rparr>"
  have "session_inv toy_limits ?s" by (rule session_step_inv [OF toy_crowd_inv])
  moreover have "map_of (phones (session_step toy_limits (BridgeFrame 1) ?s)) 1 = Some ?q" by code_simp
  moreover have "admitted ?q" by simp
  moreover have "map_of (phones ?s) 1 = Some (new_phone 0 ''a'' 5 ''t0''\<lparr>ch := 1, vouched := True, bridgeFrames := 1\<rparr>)"
    by code_simp
  ultimately show ?thesis
    using only_bridge_admits [of toy_limits ?s "BridgeFrame 1" 1 ?q] by (simp add: new_phone_def)
qed

section \<open>Socket incarnations\<close>

interpretation relay_incarnations: incarnation_table
  "\<lambda>s c. map_of (phones s) c" token "\<lambda>c tok s. snd (closePhoneFromBridge c tok s)" "\<lambda>_. True"
  by unfold_locales (auto simp: closePhoneFromBridge_def delete_conv split: option.split)

text \<open>
  A close from the bridge reaches only the socket it names: a close carrying the token of an
  earlier phone on a reused channel changes nothing and closes no socket, and a close carrying the
  current phone's token removes exactly that phone.
\<close>

theorem close_names_incarnation:
  assumes "map_of (phones s) c = Some p"
  shows "(tok \<noteq> [] \<and> tok \<noteq> token p \<longrightarrow> closePhoneFromBridge c tok s = ([], s)) \<and>
    map_of (phones (snd (closePhoneFromBridge c (token p) s))) c = None \<and>
    (d \<noteq> c \<longrightarrow> map_of (phones (snd (closePhoneFromBridge c tok s))) d = map_of (phones s) d)"
  using assms relay_incarnations.close_named [where t = s and c = c and e = p]
    relay_incarnations.close_other [where t = s and d = d and c = c and k = tok]
  by (auto simp: closePhoneFromBridge_def)

lemma close_names_incarnation_witness:
  "closePhoneFromBridge 1 ''old'' toy_crowd = ([], toy_crowd)"
proof -
  have "map_of (phones toy_crowd) 1 = Some (new_phone 0 ''a'' 5 ''t0''\<lparr>ch := 1, vouched := True\<rparr>)"
    by code_simp
  from close_names_incarnation [OF this, of "''old''"] show ?thesis by (simp add: new_phone_def)
qed

end
