(* ===== verification/Crypto.thy ===== *)
theory Crypto
  imports Encoding
begin

text \<open>
  The cryptographic primitives of Go's standard library are a parameter of the model: a record of
  functions over bytes. The predicates below state the documented behaviour a theorem relies on;
  a theorem that needs one names it as a hypothesis. Private keys are their 32-byte seeds, the
  form identity.go persists.

  \<open>toy_crypto\<close> is a concrete, insecure instance used only to show that the predicates can hold
  together.
\<close>

record crypto =
  sha256 :: "bytes \<Rightarrow> bytes"
  hmac256 :: "bytes \<Rightarrow> bytes \<Rightarrow> bytes"
  hkdf :: "bytes \<Rightarrow> bytes \<Rightarrow> bytes \<Rightarrow> nat \<Rightarrow> bytes"
  ed_public :: "bytes \<Rightarrow> bytes"
  ed_sign :: "bytes \<Rightarrow> bytes \<Rightarrow> bytes"
  ed_verify :: "bytes \<Rightarrow> bytes \<Rightarrow> bytes \<Rightarrow> bool"
  x_public :: "bytes \<Rightarrow> bytes"
  x_ecdh :: "bytes \<Rightarrow> bytes \<Rightarrow> bytes option"
  gcm_seal :: "bytes \<Rightarrow> bytes \<Rightarrow> bytes \<Rightarrow> bytes \<Rightarrow> bytes"
  gcm_open :: "bytes \<Rightarrow> bytes \<Rightarrow> bytes \<Rightarrow> bytes \<Rightarrow> bytes option"

text \<open>AES-GCM: opening what was sealed under the same key, nonce and associated data gives the
  plaintext back, and the ciphertext carries a 16-byte tag.\<close>

definition aead_correct :: "crypto \<Rightarrow> bool" where
  "aead_correct C \<longleftrightarrow>
     (\<forall>k n p a. gcm_open C k n (gcm_seal C k n p a) a = Some p) \<and>
     (\<forall>k n p a. length (gcm_seal C k n p a) = length p + 16)"

text \<open>AES-GCM is deterministic: a ciphertext that opens is the one sealing its plaintext gives.\<close>

definition aead_tight :: "crypto \<Rightarrow> bool" where
  "aead_tight C \<longleftrightarrow>
     (\<forall>k n c a p. gcm_open C k n c a = Some p \<longrightarrow> c = gcm_seal C k n p a)"

definition sig_correct :: "crypto \<Rightarrow> bool" where
  "sig_correct C \<longleftrightarrow>
     (\<forall>s m. ed_verify C (ed_public C s) m (ed_sign C s m)) \<and>
     (\<forall>s m. length (ed_sign C s m) = 64) \<and>
     (\<forall>s. length s = 32 \<longrightarrow> length (ed_public C s) = 32)"

definition dh_agrees :: "crypto \<Rightarrow> bool" where
  "dh_agrees C \<longleftrightarrow>
     (\<forall>a b. x_ecdh C a (x_public C b) = x_ecdh C b (x_public C a)) \<and>
     (\<forall>a b. length a = 32 \<longrightarrow> length b = 32 \<longrightarrow> x_ecdh C a (x_public C b) \<noteq> None) \<and>
     (\<forall>a. length a = 32 \<longrightarrow> length (x_public C a) = 32)"

definition hash_sizes :: "crypto \<Rightarrow> bool" where
  "hash_sizes C \<longleftrightarrow>
     (\<forall>m. length (sha256 C m) = 32) \<and> (\<forall>k m. length (hmac256 C k m) = 32) \<and>
     (\<forall>i s l n. length (hkdf C i s l n) = n)"

lemmas crypto_laws = aead_correct_def aead_tight_def sig_correct_def dh_agrees_def hash_sizes_def

definition pad_to :: "nat \<Rightarrow> bytes \<Rightarrow> bytes" where
  "pad_to n bs = take n (bs @ replicate n 0)"

definition xor_bytes :: "bytes \<Rightarrow> bytes \<Rightarrow> bytes" where
  "xor_bytes a b = map2 (+) a b"

definition toy_crypto :: crypto where
  "toy_crypto = \<lparr>
     sha256 = (\<lambda>m. pad_to 32 (rev m)),
     hmac256 = (\<lambda>k m. pad_to 32 (k @ m)),
     hkdf = (\<lambda>i s l n. pad_to n (i @ s)),
     ed_public = (\<lambda>s. s),
     ed_sign = (\<lambda>s m. pad_to 64 (s @ m)),
     ed_verify = (\<lambda>p m g. g = pad_to 64 (p @ m)),
     x_public = (\<lambda>s. s),
     x_ecdh = (\<lambda>a b. Some (xor_bytes a b)),
     gcm_seal = (\<lambda>k n p a. p @ replicate 16 7),
     gcm_open = (\<lambda>k n c a. if 16 \<le> length c \<and> drop (length c - 16) c = replicate 16 7
       then Some (take (length c - 16) c) else None)\<rparr>"

lemma length_pad_to [simp]: "length (pad_to n bs) = n"
  by (simp add: pad_to_def)

lemma map2_plus_commute: "map2 (+) a b = map2 (+) b (a :: bytes)"
  by (induction a b rule: list_induct2') (auto simp: add.commute)

lemma toy_crypto_laws:
  "aead_correct toy_crypto" "aead_tight toy_crypto" "sig_correct toy_crypto"
  "dh_agrees toy_crypto" "hash_sizes toy_crypto"
proof -
  show "aead_correct toy_crypto"
    by (simp add: aead_correct_def toy_crypto_def)
  show "aead_tight toy_crypto"
    unfolding aead_tight_def toy_crypto_def
    by (auto split: if_splits) (metis append_take_drop_id)
  show "sig_correct toy_crypto"
    by (simp add: sig_correct_def toy_crypto_def)
  show "dh_agrees toy_crypto"
    by (simp add: dh_agrees_def toy_crypto_def xor_bytes_def map2_plus_commute)
  show "hash_sizes toy_crypto"
    by (simp add: hash_sizes_def toy_crypto_def)
qed

end
