(* ===== verification/Envelope.thy ===== *)
theory Envelope
  imports Crypto
begin

text \<open>
  internal/protocol/envelope.go: one connection's directional keys and counters, and the sealed
  frames they produce. The \<open>cipher.AEAD\<close> of a direction is represented by its key; the two
  mutexes make each operation one step on its direction's half of the suite.
\<close>

definition FrameVersion :: byte where "FrameVersion = 1"
definition keySize :: nat where "keySize = 32"
definition headerSize :: nat where "headerSize = 9"
definition gcmTag :: nat where "gcmTag = 16"
definition MaxPlaintext :: nat where "MaxPlaintext = 16777216"

datatype envelope_error =
    PlaintextTooLong | CounterExhausted | ErrCounter | ErrFrame | BadKeySize

record Suite =
  send_key :: bytes
  send_ctr :: "64 word"
  recv_key :: bytes
  recv_ctr :: "64 word"

definition newAEAD :: "bytes \<Rightarrow> envelope_error + bytes" where
  "newAEAD key = (if length key \<noteq> keySize then Inl BadKeySize else Inr key)"

definition SuiteFromKeys :: "bytes \<Rightarrow> bytes \<Rightarrow> envelope_error + Suite" where
  "SuiteFromKeys sendKey recvKey =
     (case newAEAD sendKey of Inl e \<Rightarrow> Inl e | Inr sk \<Rightarrow>
     (case newAEAD recvKey of Inl e \<Rightarrow> Inl e | Inr rk \<Rightarrow>
        Inr \<lparr>send_key = sk, send_ctr = 0, recv_key = rk, recv_ctr = 0\<rparr>))"

definition labelKeys :: string where "labelKeys = ''hermes-remote v1 keys''"

definition deriveSuite :: "crypto \<Rightarrow> bytes \<Rightarrow> bytes \<Rightarrow> bool \<Rightarrow> envelope_error + Suite" where
  "deriveSuite C shared transcript isBridge =
     (let keys = hkdf C shared transcript (bytes_of labelKeys) (2 * keySize) in
      case newAEAD (take keySize keys) of Inl e \<Rightarrow> Inl e | Inr p2b \<Rightarrow>
     (case newAEAD (drop keySize keys) of Inl e \<Rightarrow> Inl e | Inr b2p \<Rightarrow>
        Inr (if isBridge
             then \<lparr>send_key = b2p, send_ctr = 0, recv_key = p2b, recv_ctr = 0\<rparr>
             else \<lparr>send_key = p2b, send_ctr = 0, recv_key = b2p, recv_ctr = 0\<rparr>)))"

definition header_of :: "64 word \<Rightarrow> bytes" where
  "header_of counter = FrameVersion # be_put64 counter"

definition nonceFor :: "64 word \<Rightarrow> bytes" where
  "nonceFor counter = replicate 4 0 @ be_put64 counter"

definition Seal :: "crypto \<Rightarrow> bytes \<Rightarrow> Suite \<Rightarrow> (envelope_error + bytes) \<times> Suite" where
  "Seal C plaintext s =
     (if length plaintext > MaxPlaintext then (Inl PlaintextTooLong, s)
      else if send_ctr s = - 1 then (Inl CounterExhausted, s)
      else let c = send_ctr s + 1; hdr = header_of c in
        (Inr (hdr @ gcm_seal C (send_key s) (nonceFor c) plaintext hdr), s\<lparr>send_ctr := c\<rparr>))"

definition frame_counter :: "bytes \<Rightarrow> 64 word" where
  "frame_counter frame = be_get64 (take 8 (drop 1 frame))"

definition Open :: "crypto \<Rightarrow> bytes \<Rightarrow> Suite \<Rightarrow> (envelope_error + bytes) \<times> Suite" where
  "Open C frame s =
     (if length frame < headerSize + gcmTag \<or> frame ! 0 \<noteq> FrameVersion then (Inl ErrFrame, s)
      else let counter = frame_counter frame in
        if counter \<noteq> recv_ctr s + 1 then (Inl ErrCounter, s)
        else case gcm_open C (recv_key s) (nonceFor counter) (drop headerSize frame)
               (take headerSize frame) of
            None \<Rightarrow> (Inl ErrFrame, s)
          | Some plain \<Rightarrow> (Inr plain, s\<lparr>recv_ctr := counter\<rparr>))"

section \<open>One frame\<close>

lemma length_header_of [simp]: "length (header_of c) = headerSize"
  by (simp add: header_of_def headerSize_def)

lemma frame_counter_header [simp]: "frame_counter (header_of c @ x) = c"
  by (simp add: frame_counter_def header_of_def)

lemma nonceFor_inject [simp]: "nonceFor a = nonceFor b \<longleftrightarrow> a = b"
  by (simp add: nonceFor_def)

lemma Open_framed:
  assumes "length body \<ge> gcmTag" "c = recv_ctr s + 1"
    and "gcm_open C (recv_key s) (nonceFor c) body (header_of c) = Some p"
  shows "Open C (header_of c @ body) s = (Inr p, s\<lparr>recv_ctr := c\<rparr>)"
proof -
  have "(header_of c @ body) ! 0 = FrameVersion" by (simp add: header_of_def)
  then show ?thesis using assms by (simp add: Open_def Let_def)
qed

lemma Open_Inr_iff:
  "Open C f s = (Inr p, t) \<longleftrightarrow>
     headerSize + gcmTag \<le> length f \<and> f ! 0 = FrameVersion \<and> frame_counter f = recv_ctr s + 1 \<and>
     gcm_open C (recv_key s) (nonceFor (frame_counter f)) (drop headerSize f) (take headerSize f)
       = Some p \<and> t = s\<lparr>recv_ctr := frame_counter f\<rparr>"
  by (auto simp: Open_def Let_def split: option.splits if_splits)

lemma Open_Inl: "Open C f s = (Inl e, t) \<Longrightarrow> t = s"
  by (auto simp: Open_def Let_def split: option.splits if_splits)

lemma Open_frame_fields: "Open C f s = (r, t) \<Longrightarrow>
    send_key t = send_key s \<and> send_ctr t = send_ctr s \<and> recv_key t = recv_key s"
  by (auto simp: Open_def Let_def split: option.splits if_splits)

lemma Seal_Inr_iff:
  "Seal C p s = (Inr f, t) \<longleftrightarrow>
     length p \<le> MaxPlaintext \<and> send_ctr s \<noteq> - 1 \<and>
     f = header_of (send_ctr s + 1) @
       gcm_seal C (send_key s) (nonceFor (send_ctr s + 1)) p (header_of (send_ctr s + 1)) \<and>
     t = s\<lparr>send_ctr := send_ctr s + 1\<rparr>"
  by (auto simp: Seal_def Let_def split: if_splits)

lemma Seal_Inl: "Seal C p s = (Inl e, t) \<Longrightarrow> t = s"
  by (auto simp: Seal_def Let_def split: if_splits)

lemma unat_ctr_max: "unat (w :: 64 word) = 2 ^ 64 - 1 \<longleftrightarrow> w = - 1"
proof -
  have "unat (- 1 :: 64 word) = 2 ^ 64 - 1" by (simp add: unsigned_minus_1_eq_mask mask_eq_exp_minus_1)
  then show ?thesis by (metis word_unat_eq_iff)
qed

lemma unat_ctr_succ: "(w :: 64 word) \<noteq> - 1 \<Longrightarrow> unat (w + 1) = Suc (unat w)"
proof -
  assume "w \<noteq> - 1"
  with unat_ctr_max [of w] unsigned_less [of w, where ?'a = nat] have "Suc (unat w) < 2 ^ 64"
    by simp
  then show ?thesis by (simp add: unat_word_ariths)
qed

lemma ctr_not_max: "unat (w :: 64 word) + Suc n < 2 ^ 64 \<Longrightarrow> w \<noteq> - 1"
  using unat_ctr_max [of w] by auto

text \<open>Two ends of one connection agree when each sends under the key and counter the other expects.\<close>

definition synced :: "Suite \<Rightarrow> Suite \<Rightarrow> bool" where
  "synced a b \<longleftrightarrow> send_key a = recv_key b \<and> send_ctr a = recv_ctr b"

lemma Open_Seal:
  assumes "aead_correct C" "synced a b" "Seal C p a = (Inr f, a')"
  shows "\<exists>b'. Open C f b = (Inr p, b') \<and> synced a' b' \<and> send_key b' = send_key b
    \<and> send_ctr b' = send_ctr b"
proof -
  from assms(3) have f: "f = header_of (send_ctr a + 1) @
      gcm_seal C (send_key a) (nonceFor (send_ctr a + 1)) p (header_of (send_ctr a + 1))"
    and a': "a' = a\<lparr>send_ctr := send_ctr a + 1\<rparr>"
    by (auto simp: Seal_Inr_iff)
  have "Open C f b = (Inr p, b\<lparr>recv_ctr := send_ctr a + 1\<rparr>)"
    unfolding f using assms(1,2)
    by (intro Open_framed) (auto simp: aead_correct_def synced_def gcmTag_def)
  with a' assms(2) show ?thesis by (auto simp: synced_def)
qed

section \<open>Streams of frames\<close>

fun seal_all :: "crypto \<Rightarrow> bytes list \<Rightarrow> Suite \<Rightarrow> (envelope_error + bytes) list \<times> Suite" where
  "seal_all C [] s = ([], s)"
| "seal_all C (p # ps) s =
     (let (r, s1) = Seal C p s; (rs, s2) = seal_all C ps s1 in (r # rs, s2))"

fun open_all :: "crypto \<Rightarrow> bytes list \<Rightarrow> Suite \<Rightarrow> (envelope_error + bytes) list \<times> Suite" where
  "open_all C [] s = ([], s)"
| "open_all C (f # fs) s =
     (let (r, s1) = Open C f s; (rs, s2) = open_all C fs s1 in (r # rs, s2))"

text \<open>The counters of the frames an \<open>Open\<close> run accepted, in order.\<close>

fun accepted_counters :: "crypto \<Rightarrow> bytes list \<Rightarrow> Suite \<Rightarrow> 64 word list" where
  "accepted_counters C [] s = []"
| "accepted_counters C (f # fs) s =
     (case Open C f s of
        (Inr p, s1) \<Rightarrow> frame_counter f # accepted_counters C fs s1
      | (Inl e, s1) \<Rightarrow> accepted_counters C fs s1)"

definition frames_of :: "(envelope_error + bytes) list \<Rightarrow> bytes list" where
  "frames_of rs = concat (map (\<lambda>r. case r of Inl e \<Rightarrow> [] | Inr f \<Rightarrow> [f]) rs)"

lemma frames_of_simps [simp]:
  "frames_of [] = []" "frames_of (Inl e # rs) = frames_of rs" "frames_of (Inr f # rs) = f # frames_of rs"
  by (simp_all add: frames_of_def)

lemma accepted_counters_upt:
  assumes "unat (recv_ctr s) + length fs < 2 ^ 64"
  shows "\<exists>n. map unat (accepted_counters C fs s) = [Suc (unat (recv_ctr s))..<Suc (unat (recv_ctr s)) + n]"
  using assms
proof (induction fs arbitrary: s)
  case Nil
  have "map unat (accepted_counters C [] s) = [Suc (unat (recv_ctr s))..<Suc (unat (recv_ctr s)) + 0]"
    by simp
  then show ?case by blast
next
  case (Cons f fs)
  obtain r t where o: "Open C f s = (r, t)" by fastforce
  show ?case
  proof (cases r)
    case (Inl e)
    with o have "t = s" by (auto dest: Open_Inl)
    with o Inl Cons show ?thesis by auto
  next
    case (Inr p)
    with o have c: "frame_counter f = recv_ctr s + 1" and t: "t = s\<lparr>recv_ctr := recv_ctr s + 1\<rparr>"
      by (auto simp: Open_Inr_iff)
    have "recv_ctr s \<noteq> - 1" using Cons.prems by (intro ctr_not_max) simp
    then have u: "unat (recv_ctr s + 1) = Suc (unat (recv_ctr s))" by (rule unat_ctr_succ)
    with Cons.prems t have "unat (recv_ctr t) + length fs < 2 ^ 64" by simp
    from Cons.IH [OF this] obtain n where
      "map unat (accepted_counters C fs t) = [Suc (unat (recv_ctr t))..<Suc (unat (recv_ctr t)) + n]"
      by blast
    with o Inr c t u have "map unat (accepted_counters C (f # fs) s) =
        [Suc (unat (recv_ctr s))..<Suc (unat (recv_ctr s)) + Suc n]"
      by (simp add: upt_conv_Cons del: upt_Suc)
    then show ?thesis by blast
  qed
qed

text \<open>
  C1. The receive window of an envelope suite: whatever frames the network presents (replayed,
  reordered, dropped, forged), the counters of the frames \<open>Open\<close> accepts are consecutive, starting
  right after the last accepted one; so no counter is accepted twice and no gap is ever skipped.
\<close>

theorem open_accepts_in_sequence:
  assumes "unat (recv_ctr s) + length fs < 2 ^ 64"
  shows "(\<exists>n. map unat (accepted_counters C fs s) =
      [Suc (unat (recv_ctr s))..<Suc (unat (recv_ctr s)) + n]) \<and>
    distinct (accepted_counters C fs s)"
proof -
  obtain n where n: "map unat (accepted_counters C fs s) =
      [Suc (unat (recv_ctr s))..<Suc (unat (recv_ctr s)) + n]"
    using accepted_counters_upt [OF assms] by blast
  then have "distinct (map unat (accepted_counters C fs s))" by simp
  then have "distinct (accepted_counters C fs s)" by (simp add: distinct_map)
  with n show ?thesis by blast
qed

definition toy_suite :: Suite where
  "toy_suite = \<lparr>send_key = replicate 32 1, send_ctr = 0, recv_key = replicate 32 1, recv_ctr = 0\<rparr>"

definition toy_frame :: bytes where
  "toy_frame = header_of 1 @ [9] @ replicate 16 7"

lemma open_accepts_in_sequence_witness:
  "accepted_counters toy_crypto [toy_frame, toy_frame] toy_suite = [1] \<and>
   distinct (accepted_counters toy_crypto [toy_frame, toy_frame] toy_suite)"
proof
  show "accepted_counters toy_crypto [toy_frame, toy_frame] toy_suite = [1]"
    by code_simp
  have "unat (recv_ctr toy_suite) + length [toy_frame, toy_frame] < 2 ^ 64"
    by (simp add: toy_suite_def)
  from open_accepts_in_sequence [OF this, of toy_crypto]
  show "distinct (accepted_counters toy_crypto [toy_frame, toy_frame] toy_suite)" by blast
qed

text \<open>
  C34. Frames delivered in order round-trip: sealing any list of plaintexts (each at most
  \<open>MaxPlaintext\<close>, fewer than the counter space) and opening the frames in the same order on the
  synchronised peer gives exactly the plaintexts, and leaves the two ends synchronised.
\<close>

theorem seal_open_stream:
  assumes "aead_correct C" "synced a b" "\<forall>p \<in> set ps. length p \<le> MaxPlaintext"
    and "unat (send_ctr a) + length ps < 2 ^ 64"
  shows "fst (open_all C (frames_of (fst (seal_all C ps a))) b) = map Inr ps \<and>
    synced (snd (seal_all C ps a)) (snd (open_all C (frames_of (fst (seal_all C ps a))) b))"
  using assms(2-4)
proof (induction ps arbitrary: a b)
  case Nil
  then show ?case by simp
next
  case (Cons p ps)
  have ne: "send_ctr a \<noteq> - 1" using Cons.prems(3) by (intro ctr_not_max) simp
  obtain f a' where s: "Seal C p a = (Inr f, a')" and a': "send_ctr a' = send_ctr a + 1"
    using ne Cons.prems(2) by (auto simp: Seal_def Let_def)
  obtain b' where o: "Open C f b = (Inr p, b')" and sy: "synced a' b'"
    using Open_Seal [OF assms(1) Cons.prems(1) s] by blast
  have "unat (send_ctr a') + length ps < 2 ^ 64"
    using Cons.prems(3) a' unat_ctr_succ [OF ne] by simp
  with Cons.IH [OF sy] Cons.prems(2) s o show ?case
    by (auto simp: case_prod_beta Let_def)
qed

lemma seal_open_stream_witness:
  "fst (open_all toy_crypto (frames_of (fst (seal_all toy_crypto [[1, 2], [], [3]] toy_suite))) toy_suite)
     = [Inr [1, 2], Inr [], Inr [3]]"
proof -
  have "synced toy_suite toy_suite" by (simp add: synced_def toy_suite_def)
  moreover have "\<forall>p \<in> set [[1, 2], [], [3 :: byte]]. length p \<le> MaxPlaintext"
    by (simp add: MaxPlaintext_def)
  moreover have "unat (send_ctr toy_suite) + length [[1, 2], [], [3 :: byte]] < 2 ^ 64"
    by (simp add: toy_suite_def)
  ultimately show ?thesis
    using seal_open_stream [OF toy_crypto_laws(1), of toy_suite toy_suite "[[1, 2], [], [3]]"] by simp
qed

lemma seal_all_counters:
  assumes "\<forall>p \<in> set ps. length p \<le> MaxPlaintext"
  shows "map (unat \<circ> frame_counter) (frames_of (fst (seal_all C ps s))) =
    [Suc (unat (send_ctr s))..<Suc (unat (send_ctr s)) + length (frames_of (fst (seal_all C ps s)))] \<and>
    unat (send_ctr s) + length (frames_of (fst (seal_all C ps s))) < 2 ^ 64"
  using assms
proof (induction ps arbitrary: s)
  case Nil
  have "unat (send_ctr s) < 2 ^ 64" using unsigned_less [of "send_ctr s", where ?'a = nat] by simp
  then show ?case by simp
next
  case (Cons p ps)
  obtain r t where s: "Seal C p s = (r, t)" by fastforce
  show ?case
  proof (cases r)
    case (Inl e)
    with s have "t = s" by (auto dest: Seal_Inl)
    with s Inl Cons show ?thesis by (simp add: case_prod_beta Let_def)
  next
    case (Inr f)
    with s have "send_ctr s \<noteq> - 1" "frame_counter f = send_ctr s + 1" "send_ctr t = send_ctr s + 1"
      by (auto simp: Seal_Inr_iff)
    with unat_ctr_succ have "unat (frame_counter f) = Suc (unat (send_ctr s))"
      "unat (send_ctr t) = Suc (unat (send_ctr s))" by simp_all
    with Cons.IH [of t] Cons.prems s Inr show ?thesis
      by (simp add: case_prod_beta Let_def upt_conv_Cons comp_def del: upt_Suc)
  qed
qed

text \<open>
  C6. No nonce is ever used twice under one key: the frames produced by any sequence of \<open>Seal\<close>
  calls carry pairwise different GCM nonces, because the counter increases by one per frame and
  \<open>Seal\<close> refuses to wrap.
\<close>

theorem seal_nonces_distinct:
  "(\<forall>p \<in> set ps. length p \<le> MaxPlaintext) \<Longrightarrow>
   distinct (map (\<lambda>f. nonceFor (frame_counter f)) (frames_of (fst (seal_all C ps s))))"
proof -
  assume a: "\<forall>p \<in> set ps. length p \<le> MaxPlaintext"
  let ?fs = "frames_of (fst (seal_all C ps s))"
  have "distinct (map (unat \<circ> frame_counter) ?fs)"
    using seal_all_counters [OF a, of C s] by (metis distinct_upt)
  then have "distinct (map frame_counter ?fs)"
    by (metis distinct_map map_map)
  then show ?thesis
    by (simp add: distinct_map inj_on_def)
qed

lemma seal_nonces_distinct_witness:
  "distinct (map (\<lambda>f. nonceFor (frame_counter f))
     (frames_of (fst (seal_all toy_crypto [[1], [1], [1]] toy_suite))))"
  by (rule seal_nonces_distinct) (simp add: MaxPlaintext_def)

end
