(* ===== verification/Identity.thy ===== *)
theory Identity
  imports Crypto JsonText
begin

text \<open>
  internal/protocol/identity.go: the long-lived signing key, session ids, labelled signatures; and
  the attach proof of internal/protocol/relay.go. A source of randomness is the list of the bytes
  it will deliver; \<open>io.ReadFull\<close> fails when too few are left.
\<close>

definition Version :: int where "Version = 1"
definition SessionIDLength :: nat where "SessionIDLength = 22"
definition NonceSize :: nat where "NonceSize = 32"
definition SeedSize :: nat where "SeedSize = 32"
definition PublicKeySize :: nat where "PublicKeySize = 32"
definition SignatureSize :: nat where "SignatureSize = 64"
definition HashSize :: nat where "HashSize = 32"

definition labelTranscript :: string where "labelTranscript = ''hermes-remote v1 transcript''"
definition labelSigBridge :: string where "labelSigBridge = ''hermes-remote v1 bridge''"
definition labelSigPhone :: string where "labelSigPhone = ''hermes-remote v1 phone''"
definition labelPairProof :: string where "labelPairProof = ''hermes-remote v1 pair''"
definition labelHelloAdmissionPhone :: string where
  "labelHelloAdmissionPhone = ''hermes-remote v1 hello admission phone''"
definition labelHelloAdmissionCode :: string where
  "labelHelloAdmissionCode = ''hermes-remote v1 hello admission code''"
definition labelRelayAttach :: string where "labelRelayAttach = ''hermes-remote v1 relay attach''"

lemmas label_defs = labelTranscript_def labelSigBridge_def labelSigPhone_def labelPairProof_def
  labelHelloAdmissionPhone_def labelHelloAdmissionCode_def labelRelayAttach_def

type_synonym rng = bytes

definition read_full :: "nat \<Rightarrow> rng \<Rightarrow> (bytes \<times> rng) option" where
  "read_full n r = (if length r < n then None else Some (take n r, drop n r))"

lemma read_full_Some: "read_full n r = Some (x, r') \<longleftrightarrow> r = x @ r' \<and> length x = n"
  by (auto simp: read_full_def)

section \<open>Identities\<close>

record Identity =
  priv :: bytes

definition IdentityFromSeed :: "bytes \<Rightarrow> Identity option" where
  "IdentityFromSeed seed = (if length seed \<noteq> SeedSize then None else Some \<lparr>priv = seed\<rparr>)"

definition NewIdentity :: "rng \<Rightarrow> (Identity \<times> rng) option" where
  "NewIdentity r =
     (case read_full SeedSize r of
        None \<Rightarrow> None
      | Some (seed, r') \<Rightarrow> map_option (\<lambda>i. (i, r')) (IdentityFromSeed seed))"

definition Seed :: "Identity \<Rightarrow> bytes" where
  "Seed i = priv i"

definition Public :: "crypto \<Rightarrow> Identity \<Rightarrow> bytes" where
  "Public C i = ed_public C (priv i)"

definition SessionIDFor :: "crypto \<Rightarrow> bytes \<Rightarrow> string" where
  "SessionIDFor C pub = take SessionIDLength (b64_encode (sha256 C pub))"

definition SessionID :: "crypto \<Rightarrow> Identity \<Rightarrow> string" where
  "SessionID C i = SessionIDFor C (Public C i)"

definition sign :: "crypto \<Rightarrow> Identity \<Rightarrow> string \<Rightarrow> bytes \<Rightarrow> bytes" where
  "sign C i label transcript = ed_sign C (priv i) (bytes_of label @ transcript)"

definition verify :: "crypto \<Rightarrow> bytes \<Rightarrow> string \<Rightarrow> bytes \<Rightarrow> bytes \<Rightarrow> bool" where
  "verify C pub label transcript sig =
     (if length pub \<noteq> PublicKeySize then False
      else ed_verify C pub (bytes_of label @ transcript) sig)"

lemma IdentityFromSeed_Seed: "length (priv i) = SeedSize \<Longrightarrow> IdentityFromSeed (Seed i) = Some i"
  by (simp add: IdentityFromSeed_def Seed_def)

lemma NewIdentity_seed: "NewIdentity r = Some (i, r') \<Longrightarrow> length (Seed i) = SeedSize"
  by (auto simp: NewIdentity_def IdentityFromSeed_def Seed_def split: option.splits if_splits)

lemma verify_sign:
  assumes "sig_correct C" "length (priv i) = SeedSize"
  shows "verify C (Public C i) label m (sign C i label m)"
  using assms by (simp add: sig_correct_def verify_def sign_def Public_def SeedSize_def PublicKeySize_def)

lemma length_SessionIDFor:
  assumes "hash_sizes C" shows "length (SessionIDFor C pub) = SessionIDLength"
  using assms by (simp add: SessionIDFor_def hash_sizes_def length_b64_encode SessionIDLength_def)

section \<open>The relay attach proof\<close>

record RelayChallenge =
  chT :: string
  chNonce :: bytes

record RelayAttach =
  raT :: string
  raS :: string
  raK :: bytes
  raSig :: bytes

datatype attach_error = MalformedAttach | SessionKeyMismatch | AttachSignatureInvalid

definition SignRelayAttach :: "crypto \<Rightarrow> Identity \<Rightarrow> bytes \<Rightarrow> bytes" where
  "SignRelayAttach C i nonce = sign C i labelRelayAttach nonce"

definition VerifyRelayAttach :: "crypto \<Rightarrow> RelayAttach \<Rightarrow> bytes \<Rightarrow> attach_error option" where
  "VerifyRelayAttach C a nonce =
     (if raT a \<noteq> ''attach'' \<or> length (raK a) \<noteq> PublicKeySize \<or> length nonce \<noteq> NonceSize
      then Some MalformedAttach
      else if SessionIDFor C (raK a) \<noteq> raS a then Some SessionKeyMismatch
      else if \<not> verify C (raK a) labelRelayAttach nonce (raSig a) then Some AttachSignatureInvalid
      else None)"

lemma VerifyRelayAttach_honest:
  assumes "sig_correct C" "length (priv i) = SeedSize" "length nonce = NonceSize"
  shows "VerifyRelayAttach C \<lparr>raT = ''attach'', raS = SessionID C i, raK = Public C i,
      raSig = SignRelayAttach C i nonce\<rparr> nonce = None"
  using assms verify_sign [OF assms(1,2)]
  by (simp add: VerifyRelayAttach_def SessionID_def SignRelayAttach_def Public_def sig_correct_def
      SeedSize_def PublicKeySize_def)

text \<open>Their JSON, and that of the control messages.\<close>

definition zero_attach :: RelayAttach where
  "zero_attach = \<lparr>raT = [], raS = [], raK = [], raSig = []\<rparr>"

definition attach_set :: "string \<Rightarrow> json \<Rightarrow> RelayAttach \<Rightarrow> RelayAttach option" where
  "attach_set f v r =
     (if f = ''t'' then map_option (\<lambda>x. r\<lparr>raT := x\<rparr>) (as_string (raT r) v)
      else if f = ''s'' then map_option (\<lambda>x. r\<lparr>raS := x\<rparr>) (as_string (raS r) v)
      else if f = ''k'' then map_option (\<lambda>x. r\<lparr>raK := x\<rparr>) (Bytes_UnmarshalJSON v)
      else map_option (\<lambda>x. r\<lparr>raSig := x\<rparr>) (Bytes_UnmarshalJSON v))"

definition UnmarshalRelayAttach :: "string \<Rightarrow> RelayAttach option" where
  "UnmarshalRelayAttach = unmarshal [''t'', ''s'', ''k'', ''sig''] attach_set zero_attach"

definition MarshalRelayAttach :: "RelayAttach \<Rightarrow> string" where
  "MarshalRelayAttach a = render (JObj
     [(''t'', JStr (raT a)), (''s'', JStr (raS a)), (''k'', Bytes_MarshalJSON (raK a)),
      (''sig'', Bytes_MarshalJSON (raSig a))])"

definition challenge_set :: "string \<Rightarrow> json \<Rightarrow> RelayChallenge \<Rightarrow> RelayChallenge option" where
  "challenge_set f v r =
     (if f = ''t'' then map_option (\<lambda>x. r\<lparr>chT := x\<rparr>) (as_string (chT r) v)
      else map_option (\<lambda>x. r\<lparr>chNonce := x\<rparr>) (Bytes_UnmarshalJSON v))"

definition UnmarshalRelayChallenge :: "string \<Rightarrow> RelayChallenge option" where
  "UnmarshalRelayChallenge = unmarshal [''t'', ''nonce''] challenge_set \<lparr>chT = [], chNonce = []\<rparr>"

definition MarshalRelayChallenge :: "RelayChallenge \<Rightarrow> string" where
  "MarshalRelayChallenge c = render (JObj [(''t'', JStr (chT c)), (''nonce'', Bytes_MarshalJSON (chNonce c))])"

lemma b64_char_plain: "n < 64 \<Longrightarrow> plain_char (b64_char n)"
  by (auto simp: b64_char_def plain_char_def of_char_inj_nat)

lemma plain_b64: "plain (b64_encode bs)"
proof (induction bs rule: b64_encode.induct)
  case (2 a)
  have "unat a div 4 < 64" "unat a mod 4 * 16 < 64" using byte_less [of a] by linarith+
  then show ?case by (simp add: b64_char_plain)
next
  case (3 a b)
  have "unat a div 4 < 64" "unat a mod 4 * 16 + unat b div 16 < 64" "unat b mod 16 * 4 < 64"
    using byte_less [of a] byte_less [of b] by linarith+
  then show ?case by (simp add: b64_char_plain)
next
  case (4 a b c rest)
  have "unat a div 4 < 64" "unat a mod 4 * 16 + unat b div 16 < 64"
      "unat b mod 16 * 4 + unat c div 64 < 64" "unat c mod 64 < 64"
    using byte_less [of a] byte_less [of b] byte_less [of c] by linarith+
  with 4 show ?case by (simp add: b64_char_plain)
qed simp

lemma Bytes_json_round [simp]: "Bytes_UnmarshalJSON (Bytes_MarshalJSON b) = Some b"
  by (simp add: Bytes_UnmarshalJSON_def Bytes_MarshalJSON_def as_string_def b64_decode_encode)

lemma Bytes_json_plain [simp]: "plain_json (Bytes_MarshalJSON b)" "json_depth (Bytes_MarshalJSON b) = 0"
  by (simp_all add: Bytes_MarshalJSON_def plain_b64)

lemma UnmarshalRelayAttach_Marshal:
  assumes "plain (raT a)" "plain (raS a)"
  shows "UnmarshalRelayAttach (MarshalRelayAttach a) = Some a"
proof -
  let ?v = "JObj [(''t'', JStr (raT a)), (''s'', JStr (raS a)), (''k'', Bytes_MarshalJSON (raK a)),
      (''sig'', Bytes_MarshalJSON (raSig a))]"
  have "plain_json ?v" using assms by (simp add: plain_char_def)
  then have "parse_json (render ?v) = Some ?v" by (intro parse_json_render) auto
  then show ?thesis
    by (simp add: UnmarshalRelayAttach_def MarshalRelayAttach_def unmarshal_def fill_struct_def
        field_of_def attach_set_def zero_attach_def as_string_def del: render.simps)
qed

interpretation attach_json: codec MarshalRelayAttach UnmarshalRelayAttach
  "\<lambda>a. plain (raT a) \<and> plain (raS a)"
  by unfold_locales (blast intro: UnmarshalRelayAttach_Marshal)

end
