(* ===== verification/NetIP.thy ===== *)
theory NetIP
  imports JsonText
begin

text \<open>
  \<open>net/netip\<close> as the relay uses it: parsing and printing addresses, prefixes and containment.
  An IPv4 address is its four bytes, an IPv6 address its eight 16-bit fields and its zone.
\<close>

datatype addr = V4 "nat list" | V6 "nat list" string

datatype prefix = Prefix addr nat

section \<open>Parsing\<close>

definition parse_octet :: "string \<Rightarrow> nat option" where
  "parse_octet s =
     (if s = [] \<or> \<not> list_all is_digit s \<or> (hd s = CHR ''0'' \<and> length s \<noteq> 1) \<or> digits_val s > 255
      then None else Some (digits_val s))"

definition parse_ipv4 :: "string \<Rightarrow> nat list option" where
  "parse_ipv4 s =
     (let os = map parse_octet (split_on CHR ''.'' s) in
      if length os = 4 \<and> list_all (\<lambda>x. x \<noteq> None) os then Some (map the os) else None)"

definition is_hex :: "char \<Rightarrow> bool" where
  "is_hex c \<longleftrightarrow> hex_val c \<noteq> None"

definition hex_nat :: "string \<Rightarrow> nat" where
  "hex_nat s = foldl (\<lambda>a c. a * 16 + (case hex_val c of Some v \<Rightarrow> v | None \<Rightarrow> 0)) 0 s"

text \<open>The loop of \<open>parseIPv6\<close>: \<open>gs\<close> are the fields read so far and \<open>e\<close> the position of the
  ellipsis. The result is the final \<open>gs\<close>, \<open>e\<close> and unread text. At most eight fields are read.\<close>

fun ipv6_fields :: "nat \<Rightarrow> nat list \<Rightarrow> nat option \<Rightarrow> string \<Rightarrow> (nat list \<times> nat option \<times> string) option" where
  "ipv6_fields 0 gs e s = Some (gs, e, s)"
| "ipv6_fields (Suc n) gs e s =
     (let h = takeWhile is_hex s; r = dropWhile is_hex s in
      if length gs \<ge> 8 then Some (gs, e, s)
      else if h = [] \<or> length h > 4 then None
      else case r of
          [] \<Rightarrow> Some (gs @ [hex_nat h], e, [])
        | c # t \<Rightarrow>
            if c = CHR ''.'' then
              (if (e = None \<and> length gs \<noteq> 6) \<or> length gs > 6 then None
               else case parse_ipv4 s of
                   Some [a, b, x, y] \<Rightarrow> Some (gs @ [a * 256 + b, x * 256 + y], e, [])
                 | _ \<Rightarrow> None)
            else if c \<noteq> CHR '':'' then None
            else (case t of
                [] \<Rightarrow> None
              | d # u \<Rightarrow>
                  if d = CHR '':'' then
                    (if e \<noteq> None then None
                     else if u = [] then Some (gs @ [hex_nat h], Some (Suc (length gs)), [])
                     else ipv6_fields n (gs @ [hex_nat h]) (Some (Suc (length gs))) u)
                  else ipv6_fields n (gs @ [hex_nat h]) e t))"

definition parse_ipv6 :: "string \<Rightarrow> addr option" where
  "parse_ipv6 text =
     (let s = takeWhile (\<lambda>c. c \<noteq> CHR ''%'') text; zs = dropWhile (\<lambda>c. c \<noteq> CHR ''%'') text; zone = drop 1 zs in
      if zs \<noteq> [] \<and> zone = [] then None
      else let start = (if has_prefix s ''::'' then (if drop 2 s = [] then Some ([], Some 0, [])
                          else ipv6_fields 9 [] (Some 0) (drop 2 s))
                        else ipv6_fields 9 [] None s) in
        case start of
          Some (gs, e, r) \<Rightarrow>
            if r \<noteq> [] then None
            else if length gs < 8 then
              (case e of None \<Rightarrow> None
               | Some k \<Rightarrow> Some (V6 (take k gs @ replicate (8 - length gs) 0 @ drop k gs) zone))
            else if e \<noteq> None then None
            else Some (V6 gs zone)
        | None \<Rightarrow> None)"

definition ParseAddr :: "string \<Rightarrow> addr option" where
  "ParseAddr s =
     (case find (\<lambda>c. c = CHR ''.'' \<or> c = CHR '':'' \<or> c = CHR ''%'') s of
        Some c \<Rightarrow> if c = CHR ''.'' then map_option V4 (parse_ipv4 s)
                  else if c = CHR '':'' then parse_ipv6 s else None
      | None \<Rightarrow> None)"

section \<open>Printing\<close>

fun hex_nat_lit :: "nat \<Rightarrow> string" where
  "hex_nat_lit n = (if n < 16 then [hex_digit n] else hex_nat_lit (n div 16) @ [hex_digit (n mod 16)])"

declare hex_nat_lit.simps [simp del]

definition v4_string :: "nat list \<Rightarrow> string" where
  "v4_string os = concat (case os of [] \<Rightarrow> [] | x # xs \<Rightarrow> nat_lit x # map (\<lambda>y. CHR ''.'' # nat_lit y) xs)"

definition is_4in6 :: "nat list \<Rightarrow> bool" where
  "is_4in6 gs \<longleftrightarrow> take 6 gs = [0, 0, 0, 0, 0, 65535]"

definition low_v4 :: "nat list \<Rightarrow> nat list" where
  "low_v4 gs = [gs ! 6 div 256, gs ! 6 mod 256, gs ! 7 div 256, gs ! 7 mod 256]"

text \<open>The first longest run of at least two zero fields, as start and end (\<open>string6\<close>).\<close>

definition zero_run :: "nat list \<Rightarrow> nat \<times> nat" where
  "zero_run gs =
     fold (\<lambda>i (zs, ze). let j = i + length (takeWhile (\<lambda>g. g = 0) (drop i gs)) in
        if j - i \<ge> 2 \<and> j - i > ze - zs then (i, j) else (zs, ze)) [0..<8] (255, 255)"

definition colon_hex :: "nat list \<Rightarrow> string" where
  "colon_hex gs = concat (case gs of [] \<Rightarrow> [] | x # xs \<Rightarrow> hex_nat_lit x # map (\<lambda>y. CHR '':'' # hex_nat_lit y) xs)"

definition v6_string :: "nat list \<Rightarrow> string" where
  "v6_string gs =
     (let (zs, ze) = zero_run gs in
      if zs = 255 then colon_hex gs
      else colon_hex (take zs gs) @ ''::'' @ colon_hex (drop ze gs))"

definition zone_suffix :: "string \<Rightarrow> string" where
  "zone_suffix z = (if z = [] then [] else CHR ''%'' # z)"

fun Addr_String :: "addr \<Rightarrow> string" where
  "Addr_String (V4 os) = v4_string os"
| "Addr_String (V6 gs z) =
     (if is_4in6 gs then ''::ffff:'' @ v4_string (low_v4 gs) @ zone_suffix z
      else v6_string gs @ zone_suffix z)"

section \<open>Mapping, prefixes\<close>

fun Unmap :: "addr \<Rightarrow> addr" where
  "Unmap (V4 os) = V4 os"
| "Unmap (V6 gs z) = (if is_4in6 gs then V4 (low_v4 gs) else V6 gs z)"

fun without_zone :: "addr \<Rightarrow> addr" where
  "without_zone (V4 os) = V4 os"
| "without_zone (V6 gs z) = V6 gs []"

fun is_v4_like :: "addr \<Rightarrow> bool" where
  "is_v4_like (V4 os) = True"
| "is_v4_like (V6 gs z) = is_4in6 gs"

fun nat_bits :: "nat \<Rightarrow> nat \<Rightarrow> bool list" where
  "nat_bits 0 v = []"
| "nat_bits (Suc n) v = nat_bits n (v div 2) @ [v mod 2 = 1]"

fun addr_bits :: "addr \<Rightarrow> bool list" where
  "addr_bits (V4 os) = concat (map (nat_bits 8) os)"
| "addr_bits (V6 gs z) = concat (map (nat_bits 16) gs)"

fun Contains :: "prefix \<Rightarrow> addr \<Rightarrow> bool" where
  "Contains (Prefix (V4 os) n) (V4 qs) = (take n (addr_bits (V4 os)) = take n (addr_bits (V4 qs)))"
| "Contains (Prefix (V6 gs z) n) (V6 hs y) =
     (y = [] \<and> take n (addr_bits (V6 gs z)) = take n (addr_bits (V6 hs y)))"
| "Contains _ _ = False"

definition prefix_bits :: "string \<Rightarrow> nat option" where
  "prefix_bits s =
     (if s = [] \<or> \<not> list_all is_digit s \<or> (length s > 1 \<and> hd s = CHR ''0'') then None
      else Some (digits_val s))"

definition ParsePrefix :: "string \<Rightarrow> prefix option" where
  "ParsePrefix s =
     (let back = takeWhile (\<lambda>c. c \<noteq> CHR ''/'') (rev s);
          front = drop 1 (dropWhile (\<lambda>c. c \<noteq> CHR ''/'') (rev s)) in
      if CHR ''/'' \<notin> set s then None
      else case (ParseAddr (rev front), prefix_bits (rev back)) of
          (Some (V4 os), Some n) \<Rightarrow> if n \<le> 32 then Some (Prefix (V4 os) n) else None
        | (Some (V6 gs z), Some n) \<Rightarrow> if n \<le> 128 \<and> z = [] then Some (Prefix (V6 gs z) n) else None
        | _ \<Rightarrow> None)"

text \<open>\<open>PrefixFrom(addr, 64).Masked().String()\<close> of an IPv6 address.\<close>

definition v6_masked64 :: "nat list \<Rightarrow> string" where
  "v6_masked64 gs = v6_string (take 4 gs @ [0, 0, 0, 0]) @ ''/64''"

end
