(* ===== verification/RelayServer.thy ===== *)
theory RelayServer
  imports Complex_Main RelaySafety Envelope Identity NetIP
begin

text \<open>
  internal/relay/relay.go, the server around the sessions: limits and their defaults, the client
  address behind trusted proxies, the connection rate per address, the token bucket, and the two
  handlers, one operation per critical section or loop iteration. A \<open>*session\<close> is a reference
  into a heap, so that a replaced session, which its own goroutine still uses, is distinct from
  its successor. What the handlers do to sockets is returned as a list of effects.

  The token bucket computes in \<open>float64\<close>; here its arithmetic is exact (rationals).
\<close>

definition Second :: gotime where "Second = 1000000000"
definition Minute :: gotime where "Minute = 60 * Second"

section \<open>Limits\<close>

record ServerLimits = Limits +
  AdmissionTimeout :: gotime
  IdleTimeout :: gotime
  BytesPerSecond :: int
  Burst :: int
  ConnectionsPerIPPerMinute :: int
  MaxFrame :: int
  TrustedProxies :: "prefix list"

definition DefaultTrustedProxies :: "prefix list" where
  "DefaultTrustedProxies = [Prefix (V4 [127, 0, 0, 0]) 8, Prefix (V6 [0, 0, 0, 0, 0, 0, 0, 1] []) 128]"

definition DefaultLimits :: ServerLimits where
  "DefaultLimits = \<lparr>MaxPhonesPerSession = RelayMaxPhones, MaxPendingPerSession = 8, MaxPendingPerIP = 4,
     AdmissionTimeout = 45 * Second, IdleTimeout = 100 * Second, BytesPerSecond = 2 * 2 ^ 20,
     Burst = 8 * 2 ^ 20, ConnectionsPerIPPerMinute = 60, MaxFrame = int MaxPlaintext + 1024, TrustedProxies = []\<rparr>"

text \<open>Counts are naturals here, so the negative limits that \<open>New\<close> treats like zero do not arise.\<close>

definition positive_or :: "'a :: {zero, ord} \<Rightarrow> 'a \<Rightarrow> 'a" where
  "positive_or d x = (if x > 0 then x else d)"

definition New :: "ServerLimits \<Rightarrow> ServerLimits" where
  "New l = (let d = DefaultLimits in
     \<lparr>MaxPhonesPerSession = positive_or (MaxPhonesPerSession d) (MaxPhonesPerSession l),
      MaxPendingPerSession = positive_or (MaxPendingPerSession d) (MaxPendingPerSession l),
      MaxPendingPerIP = positive_or (MaxPendingPerIP d) (MaxPendingPerIP l),
      AdmissionTimeout = positive_or (AdmissionTimeout d) (AdmissionTimeout l),
      IdleTimeout = positive_or (IdleTimeout d) (IdleTimeout l),
      BytesPerSecond = positive_or (BytesPerSecond d) (BytesPerSecond l),
      Burst = positive_or (Burst d) (Burst l),
      ConnectionsPerIPPerMinute = positive_or (ConnectionsPerIPPerMinute d) (ConnectionsPerIPPerMinute l),
      MaxFrame = positive_or (MaxFrame d) (MaxFrame l),
      TrustedProxies = (if TrustedProxies l = [] then DefaultTrustedProxies else TrustedProxies l)\<rparr>)"

definition ParseTrustedProxies :: "string \<Rightarrow> prefix list option" where
  "ParseTrustedProxies l =
     (if TrimSpace l = [] then Some []
      else let ps = map (\<lambda>part. ParsePrefix (TrimSpace part)) (split_on CHR '','' l) in
        if list_all (\<lambda>p. p \<noteq> None) ps then Some (map the ps) else None)"

section \<open>Client addresses\<close>

text \<open>\<open>net.SplitHostPort\<close>, the host.\<close>

definition SplitHost :: "string \<Rightarrow> string option" where
  "SplitHost hp =
     (let i = length hp - 1 - length (takeWhile (\<lambda>c. c \<noteq> CHR '':'') (rev hp)) in
      if CHR '':'' \<notin> set hp then None
      else if hd hp = CHR ''['' then
        (if CHR '']'' \<notin> set hp then None
         else let e = length (takeWhile (\<lambda>c. c \<noteq> CHR '']'') hp) in
           if Suc e \<noteq> i then None
           else if CHR ''['' \<in> set (drop 1 hp) \<or> CHR '']'' \<in> set (drop (Suc e) hp) then None
           else Some (drop 1 (take e hp)))
      else if CHR '':'' \<in> set (take i hp) \<or> CHR ''['' \<in> set hp \<or> CHR '']'' \<in> set hp then None
      else Some (take i hp))"

fun join_comma :: "string list \<Rightarrow> string" where
  "join_comma [] = []"
| "join_comma [s] = s"
| "join_comma (s # t # ss) = s @ CHR '','' # join_comma (t # ss)"

definition clientIP :: "string \<Rightarrow> string list \<Rightarrow> prefix list \<Rightarrow> string" where
  "clientIP remoteAddr forwarded trusted =
     (let host = (case SplitHost remoteAddr of Some h \<Rightarrow> h | None \<Rightarrow> remoteAddr) in
      case ParseAddr host of
        None \<Rightarrow> host
      | Some a \<Rightarrow>
          if list_ex (\<lambda>p. Contains p (Unmap (without_zone a))) trusted then
            (case find (\<lambda>e. e \<noteq> []) (map TrimSpace (rev (split_on CHR '','' (join_comma forwarded)))) of
               None \<Rightarrow> host
             | Some entry \<Rightarrow> (case ParseAddr entry of Some addr \<Rightarrow> Addr_String addr | None \<Rightarrow> host))
          else host)"

definition limitKey :: "string \<Rightarrow> string" where
  "limitKey ip =
     (case ParseAddr ip of
        None \<Rightarrow> ip
      | Some a \<Rightarrow> if is_v4_like a then Addr_String (Unmap a)
          else (case a of V6 gs z \<Rightarrow> v6_masked64 gs | V4 os \<Rightarrow> ip))"

section \<open>Connection rate\<close>

record ipWindow =
  wStart :: gotime
  wCount :: int

type_synonym ip_rate = "(string, ipWindow) gomap"

definition expired_window :: "gotime \<Rightarrow> ipWindow \<Rightarrow> bool" where
  "expired_window now w \<longleftrightarrow> now - wStart w > Minute"

definition bump_window :: "gotime \<Rightarrow> ipWindow option \<Rightarrow> ipWindow" where
  "bump_window now w' =
     (let w = (case w' of
          None \<Rightarrow> \<lparr>wStart = now, wCount = 0\<rparr>
        | Some w \<Rightarrow> if expired_window now w then \<lparr>wStart = now, wCount = 0\<rparr> else w) in
      w\<lparr>wCount := wCount w + 1\<rparr>)"

definition maxWindows :: nat where "maxWindows = 10000"

definition allowKey :: "int \<Rightarrow> string \<Rightarrow> gotime \<Rightarrow> ip_rate \<Rightarrow> bool \<times> ip_rate" where
  "allowKey limit k now m =
     (let w = bump_window now (map_of m k);
          m1 = AList.update k w m;
          m2 = (if length m1 > maxWindows then filter (\<lambda>(_, v). \<not> expired_window now v) m1 else m1) in
      (wCount w \<le> limit, m2))"

definition allowIP :: "int \<Rightarrow> string \<Rightarrow> gotime \<Rightarrow> ip_rate \<Rightarrow> bool \<times> ip_rate" where
  "allowIP limit ip now m = allowKey limit (limitKey ip) now m"

section \<open>Token bucket\<close>

record bucket =
  tokens :: rat
  rate :: rat
  burst :: rat
  last_at :: gotime

definition newBucket :: "int \<Rightarrow> int \<Rightarrow> gotime \<Rightarrow> bucket" where
  "newBucket r b now = \<lparr>tokens = of_int b, rate = of_int r, burst = of_int b, last_at = now\<rparr>"

definition seconds :: "gotime \<Rightarrow> rat" where
  "seconds d = of_int d / of_int Second"

definition take_tokens :: "nat \<Rightarrow> gotime \<Rightarrow> bucket \<Rightarrow> bool \<times> bucket" where
  "take_tokens n now b =
     (let t = min (burst b) (tokens b + seconds (now - last_at b) * rate b) in
      if of_nat n > t then (False, b\<lparr>tokens := t, last_at := now\<rparr>)
      else (True, b\<lparr>tokens := t - of_nat n, last_at := now\<rparr>))"

section \<open>The server\<close>

record sess_obj =
  so_id :: string
  so_sess :: session

record relay_server =
  sv_sessions :: "(string, nat) gomap"
  sv_ipRate :: ip_rate
  sv_heap :: "nat \<Rightarrow> sess_obj"
  sv_fresh :: nat
  sv_buckets :: "nat \<Rightarrow> bucket"
  sv_pids :: nat

datatype relay_effect =
    HttpError nat
  | CloseSocket nat
  | CloseBridge nat nat
  | ClosePhone nat nat
  | WritePhone nat bool bytes
  | WriteBridge nat bytes

definition StatusGoingAway :: nat where "StatusGoingAway = 1001"
definition StatusTooManyRequests :: nat where "StatusTooManyRequests = 429"
definition StatusBadRequest :: nat where "StatusBadRequest = 400"

definition put_session :: "nat \<Rightarrow> session \<Rightarrow> relay_server \<Rightarrow> relay_server" where
  "put_session r s srv = srv\<lparr>sv_heap := (sv_heap srv)(r := (sv_heap srv r)\<lparr>so_sess := s\<rparr>)\<rparr>"

definition closings :: "closing list \<Rightarrow> relay_effect list" where
  "closings cs = map (\<lambda>c. ClosePhone (cl_pid c) (cl_code c)) cs"

text \<open>\<open>GET /healthz\<close>: bridges, phones and pending phones.\<close>

definition healthz :: "relay_server \<Rightarrow> nat \<times> nat \<times> nat" where
  "healthz srv =
     (let cs = map (\<lambda>(_, r). counts (so_sess (sv_heap srv r))) (sv_sessions srv) in
      (length (sv_sessions srv), sum_list (map fst cs), sum_list (map snd cs)))"

subsection \<open>Bridges\<close>

text \<open>The critical section of \<open>serveBridge\<close> after a valid attach.\<close>

definition attach_bridge :: "string \<Rightarrow> relay_server \<Rightarrow> relay_effect list \<times> relay_server" where
  "attach_bridge i srv =
     (let r = sv_fresh srv in
      ((case map_of (sv_sessions srv) i of None \<Rightarrow> [] | Some old \<Rightarrow> [CloseBridge old RelayCloseReplaced]),
       srv\<lparr>sv_sessions := AList.update i r (sv_sessions srv),
          sv_heap := (sv_heap srv)(r := \<lparr>so_id = i, so_sess = new_session\<rparr>), sv_fresh := Suc r\<rparr>))"

text \<open>Its deferred function.\<close>

definition detach_bridge :: "nat \<Rightarrow> relay_server \<Rightarrow> relay_effect list \<times> relay_server" where
  "detach_bridge r srv =
     (let i = so_id (sv_heap srv r);
          (cs, s) = closeAllPhones (so_sess (sv_heap srv r));
          srv1 = (if map_of (sv_sessions srv) i = Some r
                  then srv\<lparr>sv_sessions := AList.delete i (sv_sessions srv)\<rparr> else srv) in
      (closings cs, put_session r s srv1))"

text \<open>\<open>serveBridge\<close> up to the acknowledgement: the rate limit, the attach message answering
  \<open>nonce\<close>, and the registration.\<close>

definition serveBridge_attach ::
  "crypto \<Rightarrow> ServerLimits \<Rightarrow> string \<Rightarrow> string list \<Rightarrow> gotime \<Rightarrow> bytes \<Rightarrow> bool \<Rightarrow> string \<Rightarrow>
     relay_server \<Rightarrow> relay_effect list \<times> relay_server" where
  "serveBridge_attach C L remoteAddr forwarded now nonce is_text raw srv =
     (let ip = clientIP remoteAddr forwarded (TrustedProxies L);
          (ok, m) = allowIP (ConnectionsPerIPPerMinute L) ip now (sv_ipRate srv);
          srv1 = srv\<lparr>sv_ipRate := m\<rparr> in
      if \<not> ok then ([HttpError StatusTooManyRequests], srv1)
      else if \<not> is_text then ([CloseSocket RelayCloseBadAttach], srv1)
      else case UnmarshalRelayAttach raw of
          None \<Rightarrow> ([CloseSocket RelayCloseBadAttach], srv1)
        | Some a \<Rightarrow>
            if VerifyRelayAttach C a nonce \<noteq> None then ([CloseSocket RelayCloseBadAttach], srv1)
            else attach_bridge (raS a) srv1)"

definition vouch :: "nat \<Rightarrow> RelayControl \<Rightarrow> relay_server \<Rightarrow> relay_server" where
  "vouch r c srv =
     (case b64_decode (rcToken c) of
        None \<Rightarrow> srv
      | Some tok \<Rightarrow>
          if length tok \<noteq> 16 then srv
          else if map_of (sv_sessions srv) (so_id (sv_heap srv r)) \<noteq> Some r then srv
          else put_session r (vouchPhone (rcC c) (rcToken c) (so_sess (sv_heap srv r))) srv)"

text \<open>One iteration of the loop that forwards the bridge's frames; \<open>write_ok\<close> says whether writing
  to the phone succeeds.\<close>

definition bridge_read ::
  "ServerLimits \<Rightarrow> nat \<Rightarrow> gotime \<Rightarrow> bool \<Rightarrow> bytes \<Rightarrow> bool \<Rightarrow> relay_server \<Rightarrow>
     relay_effect list \<times> relay_server" where
  "bridge_read L r now is_binary frame write_ok srv =
     (if \<not> is_binary then ([], srv)
      else case ParseRelayFrame frame of
        None \<Rightarrow> ([], srv)
      | Some (c, kind, payload) \<Rightarrow>
          let sess = so_sess (sv_heap srv r) in
          if c = RelayControlChannel then
            (case UnmarshalRelayControl payload of
               None \<Rightarrow> ([], srv)
             | Some ctl \<Rightarrow>
                 if rcT ctl = ''close'' then
                   let (cs, s) = closePhoneFromBridge (rcC ctl) (rcToken ctl) sess in
                     (closings cs, put_session r s srv)
                 else if rcT ctl = ''vouch'' then ([], vouch r ctl srv)
                 else ([], srv))
          else case countBridgeFrame (MaxPhonesPerSession L) c sess of
              ((None, _), s) \<Rightarrow> ([], put_session r s srv)
            | ((Some p, overCap), s) \<Rightarrow>
                if overCap then
                  let (cs, s2) = closePhone c RelayCloseFull s in (closings cs, put_session r s2 srv)
                else let (ok, b) = take_tokens (length payload) now (sv_buckets srv (pid p));
                         srv1 = srv\<lparr>sv_buckets := (sv_buckets srv)(pid p := b)\<rparr> in
                  if \<not> ok then
                    let (cs, s2) = closePhone c StatusPolicyViolation s in (closings cs, put_session r s2 srv1)
                  else let w = WritePhone (pid p) (kind = RelayKindText) payload in
                    if write_ok then ([w], put_session r s srv1)
                    else let (cs, s2) = closePhone c StatusGoingAway s in
                      (w # closings cs, put_session r s2 srv1))"

subsection \<open>Phones\<close>

text \<open>\<open>servePhone\<close> up to the session lookup: the reference found, if the handler goes on.\<close>

definition servePhone_lookup ::
  "ServerLimits \<Rightarrow> string \<Rightarrow> string list \<Rightarrow> gotime \<Rightarrow> string \<Rightarrow> relay_server \<Rightarrow>
     (relay_effect list \<times> nat option) \<times> relay_server" where
  "servePhone_lookup L remoteAddr forwarded now i srv =
     (let ip = clientIP remoteAddr forwarded (TrustedProxies L);
          (ok, m) = allowIP (ConnectionsPerIPPerMinute L) ip now (sv_ipRate srv);
          srv1 = srv\<lparr>sv_ipRate := m\<rparr> in
      if \<not> ok then (([HttpError StatusTooManyRequests], None), srv1)
      else if length i \<noteq> SessionIDLength then (([HttpError StatusBadRequest], None), srv1)
      else case map_of (sv_sessions srv1) i of
          None \<Rightarrow> (([CloseSocket RelayCloseNoBridge], None), srv1)
        | Some r \<Rightarrow> (([], Some r), srv1))"

definition control_frame :: "string \<Rightarrow> 16 word \<Rightarrow> string \<Rightarrow> bytes" where
  "control_frame t c tok = RelayFrame RelayControlChannel RelayKindText
     (MarshalRelayControl \<lparr>rcT = t, rcC = c, rcToken = tok, rcReason = []\<rparr>)"

text \<open>The rest of \<open>servePhone\<close> before its loop, on the session \<open>r\<close> found earlier (which may have been
  replaced since). \<open>tokenBytes\<close> are 16 random bytes.\<close>

definition servePhone_enter ::
  "ServerLimits \<Rightarrow> nat \<Rightarrow> string \<Rightarrow> gotime \<Rightarrow> bytes \<Rightarrow> relay_server \<Rightarrow> relay_effect list \<times> relay_server" where
  "servePhone_enter L r ip now tokenBytes srv =
     (let i = sv_pids srv;
          tok = b64_encode tokenBytes;
          p = new_phone i (limitKey ip) now tok;
          srv1 = srv\<lparr>sv_pids := Suc i,
            sv_buckets := (sv_buckets srv)(i := newBucket (BytesPerSecond L) (Burst L) now)\<rparr> in
      case arrive (Limits.truncate L) p (so_sess (sv_heap srv r)) of
        (Refused code, s) \<Rightarrow> ([CloseSocket code], put_session r s srv1)
      | (Stuck, s) \<Rightarrow> ([], put_session r s srv1)
      | (Opened c victim, s) \<Rightarrow>
          ((case victim of None \<Rightarrow> [] | Some v \<Rightarrow> [ClosePhone (pid v) RelayCloseFull]) @
             [WriteBridge r (control_frame ''open'' c tok)],
           put_session r s srv1))"

text \<open>One iteration of the loop that forwards the phone's messages.\<close>

definition phone_read ::
  "nat \<Rightarrow> phone \<Rightarrow> gotime \<Rightarrow> bool \<Rightarrow> bytes \<Rightarrow> bool \<Rightarrow> relay_server \<Rightarrow> relay_effect list \<times> relay_server" where
  "phone_read r p now is_text data write_ok srv =
     (let (ok, b) = take_tokens (length data) now (sv_buckets srv (pid p));
          srv1 = srv\<lparr>sv_buckets := (sv_buckets srv)(pid p := b)\<rparr> in
      if \<not> ok then ([ClosePhone (pid p) StatusPolicyViolation], srv1)
      else (WriteBridge r (RelayFrame (ch p) (if is_text then RelayKindText else RelayKindBinary) data) #
          (if write_ok then [] else [ClosePhone (pid p) RelayCloseNoBridge]), srv1))"

definition phone_left :: "nat \<Rightarrow> phone \<Rightarrow> relay_server \<Rightarrow> relay_effect list \<times> relay_server" where
  "phone_left r p srv =
     ([WriteBridge r (control_frame ''close'' (ch p) (token p))],
      put_session r (phoneGone p (so_sess (sv_heap srv r))) srv)"

definition admission_timer :: "nat \<Rightarrow> phone \<Rightarrow> relay_server \<Rightarrow> relay_effect list \<times> relay_server" where
  "admission_timer r p srv =
     (let (cs, s) = closeIfPending p RelayCloseAdmissionTimeout (so_sess (sv_heap srv r)) in
      (closings cs, put_session r s srv))"

subsection \<open>Draining, and the server as a machine\<close>

fun drain_sessions :: "nat list \<Rightarrow> relay_server \<Rightarrow> relay_effect list \<times> relay_server" where
  "drain_sessions [] srv = ([], srv)"
| "drain_sessions (r # rs) srv =
     (let (cs, s) = closeAllPhones (so_sess (sv_heap srv r));
          (es, srv2) = drain_sessions rs (put_session r s srv) in
      (CloseBridge r StatusGoingAway # closings cs @ es, srv2))"

definition Drain :: "relay_server \<Rightarrow> relay_effect list \<times> relay_server" where
  "Drain srv = drain_sessions (map snd (sv_sessions srv)) (srv\<lparr>sv_sessions := []\<rparr>)"

datatype server_event =
    EvAttach string "string list" gotime bytes bool string
  | EvDetach nat
  | EvBridgeRead nat gotime bool bytes bool
  | EvLookup string "string list" gotime string
  | EvEnter nat string gotime bytes
  | EvPhoneRead nat phone gotime bool bytes bool
  | EvPhoneLeft nat phone
  | EvTimer nat phone
  | EvDrain

fun server_step :: "crypto \<Rightarrow> ServerLimits \<Rightarrow> server_event \<Rightarrow> relay_server \<Rightarrow> relay_effect list \<times> relay_server" where
  "server_step C L (EvAttach ra xff now nonce is_text raw) srv =
     serveBridge_attach C L ra xff now nonce is_text raw srv"
| "server_step C L (EvDetach r) srv = detach_bridge r srv"
| "server_step C L (EvBridgeRead r now is_binary frame ok) srv = bridge_read L r now is_binary frame ok srv"
| "server_step C L (EvLookup ra xff now i) srv =
     (case servePhone_lookup L ra xff now i srv of ((es, _), srv') \<Rightarrow> (es, srv'))"
| "server_step C L (EvEnter r ip now tok) srv = servePhone_enter L r ip now tok srv"
| "server_step C L (EvPhoneRead r p now is_text data ok) srv = phone_read r p now is_text data ok srv"
| "server_step C L (EvPhoneLeft r p) srv = phone_left r p srv"
| "server_step C L (EvTimer r p) srv = admission_timer r p srv"
| "server_step C L EvDrain srv = Drain srv"

definition new_server :: relay_server where
  "new_server = \<lparr>sv_sessions = [], sv_ipRate = [], sv_heap = (\<lambda>_. \<lparr>so_id = [], so_sess = new_session\<rparr>),
     sv_fresh = 0, sv_buckets = (\<lambda>_. newBucket 0 0 0), sv_pids = 0\<rparr>"

end
