(* ===== verification/RelayServerSafety.thy ===== *)
theory RelayServerSafety
  imports RelayServer
begin

text \<open>
  Theorems about the relay server: the connection rate per address, the volume a token bucket lets
  through, the limits of every session in every reachable state of the server, who may take over a
  session, and the transparency of forwarding.
\<close>

section \<open>Connection rate\<close>

definition live_window :: "gotime \<Rightarrow> ipWindow option \<Rightarrow> ipWindow option" where
  "live_window now w' = (case w' of None \<Rightarrow> None | Some w \<Rightarrow> if expired_window now w then None else Some w)"

lemma bump_live: "bump_window now (live_window now w') = bump_window now w'"
  by (auto simp: bump_window_def live_window_def split: option.splits)

lemma bump_not_expired: "\<not> expired_window now (bump_window now w')"
  by (auto simp: bump_window_def expired_window_def Minute_def Second_def Let_def split: option.splits)

lemma map_of_filter_value:
  "wf_map m \<Longrightarrow> map_of (filter (\<lambda>(_, v). P v) m) k =
     (case map_of m k of None \<Rightarrow> None | Some v \<Rightarrow> if P v then Some v else None)"
  by (induction m) (auto split: option.splits simp: map_of_eq_None_iff image_iff)

lemma wf_map_filter: "wf_map m \<Longrightarrow> wf_map (filter P m)"
  by (induction m) (auto simp: image_iff)

lemma allowKey_wf: "wf_map m \<Longrightarrow> wf_map (snd (allowKey limit k now m))"
  by (simp add: allowKey_def Let_def wf_map_filter)

lemma allowKey_ok: "fst (allowKey limit k now m) \<longleftrightarrow> wCount (bump_window now (map_of m k)) \<le> limit"
  by (simp add: allowKey_def Let_def)

text \<open>Seen through one key, the table is just the window of that key: pruning and other addresses
  do not matter.\<close>

lemma allowKey_live:
  assumes "wf_map m"
  shows "live_window now (map_of (snd (allowKey limit k' now m)) k) =
    (if k' = k then Some (bump_window now (map_of m k)) else live_window now (map_of m k))"
  using assms
  by (auto simp: allowKey_def Let_def map_of_filter_value update_conv' live_window_def bump_not_expired
      split: option.splits)

definition budget :: "gotime \<Rightarrow> int \<Rightarrow> gotime \<Rightarrow> ipWindow option \<Rightarrow> nat" where
  "budget t limit now w' =
     (if now > t + Minute then 0
      else if now < t then 2 * nat limit
      else case w' of
          None \<Rightarrow> nat limit
        | Some w \<Rightarrow> nat (limit - wCount w) + (if wStart w \<ge> t then 0 else nat limit))"

lemma Minute_pos [simp]: "0 < Minute" by (simp add: Minute_def Second_def)

definition window_ok :: "gotime \<Rightarrow> ipWindow option \<Rightarrow> bool" where
  "window_ok now w' \<longleftrightarrow> (\<forall>w \<in> set_option w'. 0 \<le> wCount w \<and> wStart w \<le> now)"

lemma budget_antimono:
  assumes "now \<le> now'" "window_ok now w'"
  shows "budget t limit now' (live_window now' w') \<le> budget t limit now (live_window now w')"
  using assms
  by (auto simp: budget_def live_window_def expired_window_def window_ok_def split: option.splits)

definition in_minute :: "gotime \<Rightarrow> gotime \<Rightarrow> bool" where
  "in_minute t now \<longleftrightarrow> t \<le> now \<and> now \<le> t + Minute"

lemma budget_bump:
  assumes "window_ok now w'"
  shows "budget t limit now (Some (bump_window now w')) +
      (if wCount (bump_window now w') \<le> limit \<and> in_minute t now then 1 else 0)
    \<le> budget t limit now (live_window now w')"
  using assms
  by (auto simp: budget_def bump_window_def live_window_def window_ok_def in_minute_def Let_def
      split: option.splits)

fun rate_run :: "int \<Rightarrow> (string \<times> gotime) list \<Rightarrow> ip_rate \<Rightarrow> bool list" where
  "rate_run limit [] m = []"
| "rate_run limit ((ip, now) # cs) m =
     (let (ok, m') = allowIP limit ip now m in ok # rate_run limit cs m')"

definition accepted_in :: "string \<Rightarrow> gotime \<Rightarrow> ((string \<times> gotime) \<times> bool) list \<Rightarrow> nat" where
  "accepted_in k t rs = length (filter (\<lambda>((ip, now), ok). limitKey ip = k \<and> ok \<and> in_minute t now) rs)"

lemma accepted_in_Cons [simp]:
  "accepted_in k t (((ip, now), ok) # rs) =
     (if limitKey ip = k \<and> ok \<and> in_minute t now then 1 else 0) + accepted_in k t rs"
  by (simp add: accepted_in_def)

lemma window_ok_allow:
  assumes "wf_map m" "\<forall>k. window_ok now (map_of m k)"
  shows "window_ok now (map_of (snd (allowKey limit k' now m)) k)"
proof -
  have "window_ok now (Some (bump_window now (map_of m k')))"
    using assms(2) [rule_format, of k']
    by (auto simp: window_ok_def bump_window_def Let_def split: option.splits)
  with assms show ?thesis
    by (auto simp: allowKey_def Let_def map_of_filter_value update_conv' window_ok_def split: option.splits if_splits)
qed

lemma rate_bound:
  assumes "wf_map m" "\<forall>k. window_ok now (map_of m k)" "sorted (now # map snd cs)"
  shows "accepted_in k t (zip cs (rate_run limit cs m)) \<le> budget t limit now (live_window now (map_of m k))"
  using assms
proof (induction cs arbitrary: m now)
  case Nil
  then show ?case by (simp add: accepted_in_def)
next
  case (Cons c cs)
  obtain ip now' where c: "c = (ip, now')" by (cases c)
  let ?k' = "limitKey ip"
  let ?m' = "snd (allowKey limit ?k' now' m)"
  have le: "now \<le> now'" using Cons.prems(3) c by simp
  have ok: "\<forall>k. window_ok now' (map_of m k)" using Cons.prems(2) le by (force simp: window_ok_def)
  have mono: "budget t limit now' (live_window now' (map_of m k)) \<le> budget t limit now (live_window now (map_of m k))"
    using budget_antimono [OF le] Cons.prems(2) by blast
  have ih: "accepted_in k t (zip cs (rate_run limit cs ?m')) \<le> budget t limit now' (live_window now' (map_of ?m' k))"
    using Cons.prems c ok by (intro Cons.IH) (auto simp: allowKey_wf window_ok_allow)
  have r: "accepted_in k t (zip (c # cs) (rate_run limit (c # cs) m)) =
      (if ?k' = k \<and> fst (allowKey limit ?k' now' m) \<and> in_minute t now' then 1 else 0) +
      accepted_in k t (zip cs (rate_run limit cs ?m'))"
    by (simp add: c allowIP_def split: prod.split)
  show ?case
  proof (cases "?k' = k")
    case True
    have "accepted_in k t (zip (c # cs) (rate_run limit (c # cs) m)) \<le>
        budget t limit now' (Some (bump_window now' (map_of m k))) +
        (if wCount (bump_window now' (map_of m k)) \<le> limit \<and> in_minute t now' then 1 else 0)"
      using ih True allowKey_live [OF Cons.prems(1), of now' limit ?k' k] allowKey_ok [of limit k now' m]
      unfolding r by simp
    also have "\<dots> \<le> budget t limit now' (live_window now' (map_of m k))"
      using budget_bump [of now' "map_of m k"] ok by blast
    finally show ?thesis using mono by simp
  next
    case False
    then show ?thesis
      using ih mono allowKey_live [OF Cons.prems(1), of now' limit ?k' k] unfolding r by simp
  qed
qed

text \<open>
  The connection rate: in any stretch of one minute, whatever the traffic from other addresses
  and whatever the table forgets, at most twice \<open>ConnectionsPerIPPerMinute\<close> connections of one
  address key are let through (a fixed window is reset only when it is older than a minute, and the
  stretch meets at most two windows).
\<close>

theorem connection_rate:
  assumes "sorted (map snd calls)"
  shows "accepted_in k t (zip calls (rate_run limit calls [])) \<le> 2 * nat limit"
proof (cases calls)
  case (Cons c cs)
  have "accepted_in k t (zip calls (rate_run limit calls [])) \<le>
      budget t limit (snd c) (live_window (snd c) None)"
    using assms Cons rate_bound [of "[]" "snd c" calls k t limit]
    by (simp add: window_ok_def)
  also have "\<dots> \<le> 2 * nat limit" by (simp add: budget_def live_window_def)
  finally show ?thesis .
qed (simp add: accepted_in_def)

lemma connection_rate_witness:
  "accepted_in ''x'' 0 (zip [(''x'', 0), (''x'', 1), (''y'', 2), (''x'', 3)]
     (rate_run 1 [(''x'', 0), (''x'', 1), (''y'', 2), (''x'', 3)] [])) \<le> 2 * nat 1"
  by (rule connection_rate) simp

section \<open>Token buckets\<close>

fun bucket_run :: "(nat \<times> gotime) list \<Rightarrow> bucket \<Rightarrow> nat \<times> bucket" where
  "bucket_run [] b = (0, b)"
| "bucket_run ((n, now) # rs) b =
     (let (ok, b') = take_tokens n now b; (total, b'') = bucket_run rs b' in
      ((if ok then n else 0) + total, b''))"

lemma take_tokens_cases:
  assumes "take_tokens n now b = (ok, b')"
  shows "of_nat (if ok then n else 0) + tokens b' = min (burst b) (tokens b + seconds (now - last_at b) * rate b)"
    and "rate b' = rate b" "burst b' = burst b" "last_at b' = now"
    and "0 \<le> min (burst b) (tokens b + seconds (now - last_at b) * rate b) \<Longrightarrow> 0 \<le> tokens b'"
  using assms by (auto simp: take_tokens_def Let_def split: if_splits)

lemma seconds_add: "seconds (a - b) + seconds (b - c) = seconds (a - c)"
  by (simp add: seconds_def field_simps add_divide_distrib [symmetric] diff_divide_distrib [symmetric])

lemma seconds_nonneg: "a \<le> b \<Longrightarrow> 0 \<le> seconds (b - a)"
  by (simp add: seconds_def Second_def)

lemma bucket_volume:
  assumes "0 \<le> rate b" "0 \<le> tokens b" "0 \<le> burst b" "sorted (last_at b # map snd rs)"
  shows "of_nat (fst (bucket_run rs b)) + tokens (snd (bucket_run rs b))
    \<le> tokens b + rate b * seconds (last (last_at b # map snd rs) - last_at b)"
  using assms
proof (induction rs arbitrary: b)
  case Nil
  then show ?case by (simp add: seconds_def)
next
  case (Cons r rs)
  obtain n now where r: "r = (n, now)" by (cases r)
  obtain ok b' where b': "take_tokens n now b = (ok, b')" by fastforce
  note t = take_tokens_cases [OF b']
  have ge: "0 \<le> seconds (now - last_at b) * rate b"
    using Cons.prems r by (simp add: seconds_nonneg)
  then have "0 \<le> tokens b'" using Cons.prems t(5) by simp
  then have ih: "of_nat (fst (bucket_run rs b')) + tokens (snd (bucket_run rs b'))
      \<le> tokens b' + rate b * seconds (last (now # map snd rs) - now)"
    using Cons.IH [of b'] Cons.prems t r by simp
  let ?e = "last (now # map snd rs)"
  have "of_nat (fst (bucket_run (r # rs) b)) + tokens (snd (bucket_run (r # rs) b)) =
      of_nat (if ok then n else 0) + (of_nat (fst (bucket_run rs b')) + tokens (snd (bucket_run rs b')))"
    using b' by (simp add: r case_prod_beta)
  also have "\<dots> \<le> (of_nat (if ok then n else 0) + tokens b') + rate b * seconds (?e - now)"
    using ih by (simp only: add.assoc add_left_mono)
  also have "\<dots> \<le> tokens b + seconds (now - last_at b) * rate b + rate b * seconds (?e - now)"
    unfolding t(1) by simp
  also have "\<dots> = tokens b + rate b * (seconds (?e - now) + seconds (now - last_at b))"
    by (simp add: algebra_simps)
  finally show ?case by (simp add: seconds_add r)
qed

text \<open>
  The token bucket bounds the volume of a channel: the messages that a fresh bucket lets through
  between its creation and any later moment have at most \<open>burst + rate * time\<close> bytes together.
\<close>

theorem bucket_bound:
  assumes "0 \<le> r" "0 \<le> b" "sorted (start # map snd rs)"
  shows "of_nat (fst (bucket_run rs (newBucket r b start)))
    \<le> (of_int b :: rat) + of_int r * seconds (last (start # map snd rs) - start)"
proof -
  have *: "of_nat (fst (bucket_run rs (newBucket r b start))) + tokens (snd (bucket_run rs (newBucket r b start)))
      \<le> of_int b + of_int r * seconds (last (start # map snd rs) - start)"
    using bucket_volume [of "newBucket r b start" rs] assms by (simp add: newBucket_def)
  have "0 \<le> tokens (snd (bucket_run rs bk))"
    if "0 \<le> rate bk" "0 \<le> tokens bk" "0 \<le> burst bk" "sorted (last_at bk # map snd rs)" for bk
    using that
  proof (induction rs arbitrary: bk)
    case (Cons x rs)
    obtain n now where x: "x = (n, now)" by (cases x)
    obtain ok b' where b': "take_tokens n now bk = (ok, b')" by fastforce
    note t = take_tokens_cases [OF b']
    have "0 \<le> seconds (now - last_at bk) * rate bk"
      using Cons.prems x by (simp add: seconds_nonneg)
    then have "0 \<le> tokens b'" using Cons.prems t(5) by simp
    then show ?case using Cons.IH [of b'] Cons.prems t b' x by (simp add: case_prod_beta)
  qed simp
  from this [of "newBucket r b start"] assms have "0 \<le> tokens (snd (bucket_run rs (newBucket r b start)))"
    by (simp add: newBucket_def)
  with * show ?thesis by linarith
qed

lemma bucket_bound_witness:
  "of_nat (fst (bucket_run [(5, 0), (9, 0), (4, Second)] (newBucket 2 10 0)))
    \<le> (of_int 10 :: rat) + of_int 2 * seconds (last (0 # map snd [(5 :: nat, 0), (9, 0), (4, Second)]) - 0)"
  by (rule bucket_bound) (simp_all add: Second_def)

section \<open>Sessions of the server\<close>

definition server_inv :: "ServerLimits \<Rightarrow> relay_server \<Rightarrow> bool" where
  "server_inv L srv \<longleftrightarrow> wf_map (sv_sessions srv) \<and>
     (\<forall>r. session_inv (Limits.truncate L) (so_sess (sv_heap srv r)))"

lemma server_inv_new: "server_inv L new_server"
  by (simp add: server_inv_def new_server_def)

lemma put_session_simps [simp]:
  "sv_sessions (put_session r s srv) = sv_sessions srv"
  "sv_ipRate (put_session r s srv) = sv_ipRate srv"
  "sv_heap (put_session r s srv) = (sv_heap srv)(r := (sv_heap srv r)\<lparr>so_sess := s\<rparr>)"
  "sv_fresh (put_session r s srv) = sv_fresh srv"
  by (simp_all add: put_session_def)

lemma put_inv:
  "server_inv L srv \<Longrightarrow> session_inv (Limits.truncate L) s \<Longrightarrow> server_inv L (put_session r s srv)"
  by (simp add: server_inv_def)

lemma server_inv_update [simp]:
  "server_inv L (srv\<lparr>sv_ipRate := m\<rparr>) = server_inv L srv"
  "server_inv L (srv\<lparr>sv_buckets := b\<rparr>) = server_inv L srv"
  "server_inv L (srv\<lparr>sv_pids := n\<rparr>) = server_inv L srv"
  by (simp_all add: server_inv_def)

lemma server_inv_at: "server_inv L srv \<Longrightarrow> session_inv (Limits.truncate L) (so_sess (sv_heap srv r))"
  by (simp add: server_inv_def)

lemma truncate_MaxPhones [simp]: "MaxPhonesPerSession (Limits.truncate L) = MaxPhonesPerSession L"
  by (simp add: Limits.truncate_def)

lemma inv_attach: "server_inv L srv \<Longrightarrow> server_inv L (snd (attach_bridge i srv))"
  by (simp add: server_inv_def attach_bridge_def Let_def)

lemma inv_serveBridge:
  "server_inv L srv \<Longrightarrow> server_inv L (snd (serveBridge_attach C L ra xff now nonce t raw srv))"
  by (simp add: serveBridge_attach_def Let_def inv_attach split: prod.split option.split)

lemma inv_detach: "server_inv L srv \<Longrightarrow> server_inv L (snd (detach_bridge r srv))"
  using inv_closings(5) [OF server_inv_at, of L srv r]
  by (simp add: detach_bridge_def Let_def case_prod_beta server_inv_def)

lemma inv_vouch: "server_inv L srv \<Longrightarrow> server_inv L (vouch r c srv)"
  by (simp add: vouch_def put_inv inv_vouchPhone server_inv_at split: option.split)

lemma inv_bridge_read:
  assumes "server_inv L srv"
  shows "server_inv L (snd (bridge_read L r now b frame ok srv))"
proof -
  note i = server_inv_at [OF assms, of r]
  have s: "session_inv (Limits.truncate L)
      (snd (countBridgeFrame (MaxPhonesPerSession L) c (so_sess (sv_heap srv r))))" for c
    using inv_countBridgeFrame [OF i, of c] by simp
  show ?thesis
    using assms s inv_closings [OF i] inv_closings(1) [OF s]
    by (auto simp: bridge_read_def Let_def case_prod_beta intro!: put_inv inv_vouch split: option.split)
qed

lemma inv_phone_ops:
  assumes "server_inv L srv"
  shows "server_inv L (snd (servePhone_lookup L ra xff now i srv))"
    "server_inv L (snd (servePhone_enter L r ip now tok srv))"
    "server_inv L (snd (phone_read r p now t data ok srv))"
    "server_inv L (snd (phone_left r p srv))" "server_inv L (snd (admission_timer r p srv))"
proof -
  note i = server_inv_at [OF assms, of r]
  show "server_inv L (snd (servePhone_lookup L ra xff now i srv))"
    using assms by (simp add: servePhone_lookup_def Let_def split: prod.split option.split)
  obtain a s where ar: "arrive (Limits.truncate L) (new_phone (sv_pids srv) (limitKey ip) now (b64_encode tok))
      (so_sess (sv_heap srv r)) = (a, s)" by fastforce
  then have "session_inv (Limits.truncate L) s"
    using inv_arrive [OF i, of "new_phone (sv_pids srv) (limitKey ip) now (b64_encode tok)"]
    by (simp add: new_phone_def)
  with assms ar show "server_inv L (snd (servePhone_enter L r ip now tok srv))"
    by (cases a) (auto simp: servePhone_enter_def Let_def intro!: put_inv)
  show "server_inv L (snd (phone_read r p now t data ok srv))"
    using assms by (simp add: phone_read_def Let_def split: prod.split)
  show "server_inv L (snd (phone_left r p srv))" "server_inv L (snd (admission_timer r p srv))"
    using assms inv_closings [OF i] by (auto simp: phone_left_def admission_timer_def case_prod_beta intro!: put_inv)
qed

lemma inv_drain_sessions: "server_inv L srv \<Longrightarrow> server_inv L (snd (drain_sessions rs srv))"
proof (induction rs arbitrary: srv)
  case (Cons r rs)
  have "server_inv L (put_session r (snd (closeAllPhones (so_sess (sv_heap srv r)))) srv)"
    using Cons.prems by (intro put_inv inv_closings server_inv_at)
  from Cons.IH [OF this] show ?case by (simp add: case_prod_beta Let_def)
qed simp

lemma server_step_inv: "server_inv L srv \<Longrightarrow> server_inv L (snd (server_step C L e srv))"
proof (cases e)
  case EvDrain
  assume "server_inv L srv"
  then have "server_inv L (srv\<lparr>sv_sessions := []\<rparr>)" by (simp add: server_inv_def)
  with EvDrain show ?thesis by (simp add: Drain_def inv_drain_sessions)
qed (simp_all add: inv_serveBridge inv_detach inv_bridge_read inv_phone_ops
    inv_phone_ops(1) [unfolded split_beta] case_prod_beta)

interpretation relay_server: machine "\<lambda>e srv. snd (server_step C L e srv)" "server_inv L" for C L
  by unfold_locales (rule server_step_inv)

text \<open>
  C24. The limits hold for every session of the relay in every reachable state, whatever connections
  come and go, frames pass, and sessions are replaced or drained; so the numbers of \<open>/healthz\<close> stay
  within the limits times the number of bridges.
\<close>

theorem server_limits:
  "let srv = fold (\<lambda>e srv. snd (server_step C L e srv)) es new_server in
     admittedCount (so_sess (sv_heap srv r)) \<le> MaxPhonesPerSession L \<and>
     pendingCount (so_sess (sv_heap srv r)) \<le> MaxPendingPerSession L \<and>
     snd (snd (healthz srv)) \<le> MaxPendingPerSession L * fst (healthz srv) \<and>
     fst (snd (healthz srv)) \<le> (MaxPhonesPerSession L + MaxPendingPerSession L) * fst (healthz srv)"
proof -
  define srv where "srv = fold (\<lambda>e srv. snd (server_step C L e srv)) es new_server"
  have "server_inv L srv" unfolding srv_def by (rule relay_server.run_inv [OF server_inv_new])
  then have b: "admittedCount (so_sess (sv_heap srv r)) \<le> MaxPhonesPerSession L \<and>
      pendingCount (so_sess (sv_heap srv r)) \<le> MaxPendingPerSession L" for r
    by (simp add: server_inv_def session_inv_def Limits.truncate_def)
  have "sum_list (map f xs) \<le> B * length xs" if "\<And>x. f x \<le> B" for f :: "string \<times> nat \<Rightarrow> nat" and B xs
    using that by (induction xs) (auto intro: add_mono)
  then have *: "sum_list (map f (sv_sessions srv)) \<le> B * length (sv_sessions srv)"
    if "\<And>x. f x \<le> B" for f B using that by blast
  have "snd (snd (healthz srv)) \<le> MaxPendingPerSession L * fst (healthz srv)"
    using b by (auto simp: healthz_def Let_def case_prod_beta counts_eq comp_def intro!: *)
  moreover have "fst (snd (healthz srv)) \<le> (MaxPhonesPerSession L + MaxPendingPerSession L) * fst (healthz srv)"
    using b by (auto simp: healthz_def Let_def case_prod_beta counts_eq comp_def intro!: * add_mono)
  ultimately show ?thesis using b by (simp add: srv_def [symmetric] Let_def)
qed

lemma server_limits_sessions:
  "sv_sessions (vouch r c srv) = sv_sessions srv"
  by (simp add: vouch_def split: option.split)

lemma sessions_unchanged:
  "sv_sessions (snd (bridge_read L r now b frame ok srv)) = sv_sessions srv"
  "sv_sessions (snd (servePhone_lookup L ra xff now i srv)) = sv_sessions srv"
  "sv_sessions (snd (servePhone_enter L r ip now tok srv)) = sv_sessions srv"
  "sv_sessions (snd (phone_read r p now t data ok srv)) = sv_sessions srv"
  "sv_sessions (snd (phone_left r p srv)) = sv_sessions srv"
  "sv_sessions (snd (admission_timer r p srv)) = sv_sessions srv"
  by (simp_all add: bridge_read_def servePhone_lookup_def servePhone_enter_def phone_read_def phone_left_def
      admission_timer_def Let_def case_prod_beta server_limits_sessions split: option.split arrival.split)

lemma detach_sessions:
  "sv_sessions (snd (detach_bridge r srv)) =
     (if map_of (sv_sessions srv) (so_id (sv_heap srv r)) = Some r
      then AList.delete (so_id (sv_heap srv r)) (sv_sessions srv) else sv_sessions srv)"
  by (simp add: detach_bridge_def Let_def case_prod_beta)

lemma attach_changes:
  assumes "map_of (sv_sessions (snd (serveBridge_attach C L ra xff now nonce t raw srv))) i
      \<noteq> map_of (sv_sessions srv) i"
  obtains a where "t" "UnmarshalRelayAttach raw = Some a" "VerifyRelayAttach C a nonce = None" "raS a = i"
  using assms
  by (auto simp: serveBridge_attach_def Let_def attach_bridge_def update_conv' split: prod.splits option.splits if_splits)

text \<open>
  C4. Sessions cannot be hijacked: in every step of the server, the bridge registered for a session id
  changes only when the relay drains, when the registered bridge itself goes away (the end of a
  superseded connection removes nothing), or when a bridge attaches with a key that hashes to this
  very id and a valid signature over the relay's fresh nonce.
\<close>

theorem session_takeover:
  assumes "map_of (sv_sessions (snd (server_step C L e srv))) i \<noteq> map_of (sv_sessions srv) i"
  shows "e = EvDrain \<or> (\<exists>r. e = EvDetach r \<and> map_of (sv_sessions srv) i = Some r) \<or>
    (\<exists>ra xff now nonce raw a. e = EvAttach ra xff now nonce True raw \<and> UnmarshalRelayAttach raw = Some a \<and>
       SessionIDFor C (raK a) = i \<and> verify C (raK a) labelRelayAttach nonce (raSig a))"
proof (cases e)
  case (EvAttach ra xff now nonce t raw)
  with assms have "map_of (sv_sessions (snd (serveBridge_attach C L ra xff now nonce t raw srv))) i
      \<noteq> map_of (sv_sessions srv) i" by simp
  then show ?thesis
    by (rule attach_changes) (auto simp: EvAttach VerifyRelayAttach_def split: if_splits)
next
  case (EvDetach r)
  with assms show ?thesis
    by (auto simp: detach_sessions delete_conv' split: if_splits)
qed (use assms in \<open>auto simp: sessions_unchanged sessions_unchanged(2) [unfolded split_beta] case_prod_beta\<close>)

definition toy_attach :: RelayAttach where
  "toy_attach = \<lparr>raT = ''attach'', raS = SessionIDFor toy_crypto (replicate 32 5), raK = replicate 32 5,
     raSig = ed_sign toy_crypto (replicate 32 5) (bytes_of labelRelayAttach @ replicate 32 1)\<rparr>"

lemma toy_attach_plain: "plain (raT toy_attach)" "plain (raS toy_attach)"
proof -
  show "plain (raT toy_attach)" by (simp add: toy_attach_def plain_char_def)
  have "list_all P (take n xs)" if "list_all P xs" for P n and xs :: string
    using that by (auto simp: list_all_iff dest: in_set_takeD)
  then show "plain (raS toy_attach)" by (simp add: toy_attach_def SessionIDFor_def plain_b64)
qed

lemma session_takeover_witness:
  "\<exists>e ra xff now nonce raw a. map_of (sv_sessions (snd (server_step toy_crypto DefaultLimits e new_server)))
      (SessionIDFor toy_crypto (replicate 32 5)) \<noteq> None \<and>
    e = EvAttach ra xff now nonce True raw \<and> UnmarshalRelayAttach raw = Some a \<and>
    SessionIDFor toy_crypto (raK a) = SessionIDFor toy_crypto (replicate 32 5) \<and>
    verify toy_crypto (raK a) labelRelayAttach nonce (raSig a)"
proof -
  let ?i = "SessionIDFor toy_crypto (replicate 32 5)"
  let ?e = "EvAttach ''h'' [] 0 (replicate 32 1) True (MarshalRelayAttach toy_attach)"
  have u: "UnmarshalRelayAttach (MarshalRelayAttach toy_attach) = Some toy_attach"
    using toy_attach_plain by (rule UnmarshalRelayAttach_Marshal)
  have v: "VerifyRelayAttach toy_crypto toy_attach (replicate 32 1) = None"
    by (simp add: VerifyRelayAttach_def toy_attach_def verify_def PublicKeySize_def NonceSize_def toy_crypto_def)
  have "fst (allowIP 60 k 0 []) = True" for k by (simp add: allowIP_def allowKey_def bump_window_def Let_def)
  then have c: "map_of (sv_sessions (snd (server_step toy_crypto DefaultLimits ?e new_server))) ?i \<noteq> None"
    using u v
    by (simp add: serveBridge_attach_def Let_def new_server_def DefaultLimits_def attach_bridge_def case_prod_beta
        toy_attach_def [THEN arg_cong, of raS])
  then have "map_of (sv_sessions (snd (server_step toy_crypto DefaultLimits ?e new_server))) ?i
      \<noteq> map_of (sv_sessions new_server) ?i"
    by (simp add: new_server_def)
  from session_takeover [OF this] c show ?thesis by blast
qed

lemma countBridgeFrame_pid:
  "countBridgeFrame n c s = ((Some q, oc), s') \<Longrightarrow> \<exists>p. map_of (phones s) c = Some p \<and> pid p = pid q"
  by (auto simp: countBridgeFrame_def Let_def split: option.splits if_splits)

lemma closings_no_write [simp]:
  "WritePhone q t x \<notin> set (closings cs)" "WriteBridge r x \<notin> set (closings cs)"
  by (auto simp: closings_def)

lemma parse_frame_eq: "ParseRelayFrame f = Some (c, k, p) \<Longrightarrow> f = RelayFrame c k p"
  by (simp add: RelayFrame_ParseRelayFrame)

lemma bridge_read_writes:
  "WritePhone q t payload \<in> set (fst (bridge_read L r now b frame ok srv)) \<Longrightarrow>
     \<exists>c kind p. b \<and> frame = RelayFrame c kind payload \<and> c \<noteq> RelayControlChannel \<and>
       map_of (phones (so_sess (sv_heap srv r))) c = Some p \<and> pid p = q \<and> t = (kind = RelayKindText)"
  "WriteBridge r' x \<notin> set (fst (bridge_read L r now b frame ok srv))"
  by (auto simp: bridge_read_def Let_def dest!: parse_frame_eq countBridgeFrame_pid
      split: if_splits option.splits prod.splits)

lemma drain_no_write:
  "WritePhone q t x \<notin> set (fst (drain_sessions rs srv))" "WriteBridge r x \<notin> set (fst (drain_sessions rs srv))"
  by (induction rs arbitrary: srv) (auto simp: case_prod_beta Let_def)

lemma quiet_ops:
  "WritePhone q t x \<notin> set (fst (serveBridge_attach C L ra xff now nonce ty raw srv))"
  "WriteBridge r' x \<notin> set (fst (serveBridge_attach C L ra xff now nonce ty raw srv))"
  "WritePhone q t x \<notin> set (fst (fst (servePhone_lookup L ra xff now i srv)))"
  "WriteBridge r' x \<notin> set (fst (fst (servePhone_lookup L ra xff now i srv)))"
  "WritePhone q t x \<notin> set (fst (detach_bridge r srv))" "WriteBridge r' x \<notin> set (fst (detach_bridge r srv))"
  "WritePhone q t x \<notin> set (fst (admission_timer r p srv))" "WriteBridge r' x \<notin> set (fst (admission_timer r p srv))"
  "WritePhone q t x \<notin> set (fst (Drain srv))" "WriteBridge r' x \<notin> set (fst (Drain srv))"
  by (simp_all add: serveBridge_attach_def servePhone_lookup_def detach_bridge_def admission_timer_def Drain_def
      attach_bridge_def drain_no_write Let_def case_prod_beta split: option.split)

lemma phone_writes:
  "WritePhone q t x \<notin> set (fst (servePhone_enter L r ip now tok srv))"
  "WritePhone q t x \<notin> set (fst (phone_read r p now ty d ok srv))"
  "WritePhone q t x \<notin> set (fst (phone_left r p srv))"
  "WriteBridge r' f \<in> set (fst (servePhone_enter L r ip now tok srv)) \<Longrightarrow> \<exists>c k. f = control_frame ''open'' c k"
  "WriteBridge r' f \<in> set (fst (phone_read r p now ty d ok srv)) \<Longrightarrow>
     r' = r \<and> f = RelayFrame (ch p) (if ty then RelayKindText else RelayKindBinary) d"
  "WriteBridge r' f \<in> set (fst (phone_left r p srv)) \<Longrightarrow> \<exists>c k. f = control_frame ''close'' c k"
  by (auto simp: servePhone_enter_def phone_read_def phone_left_def Let_def case_prod_beta
      split: arrival.splits option.splits if_splits)

text \<open>
  C36. Forwarding is transparent and stays inside the session: what the relay writes to a phone is the
  unmodified payload of the frame its own bridge just sent on that phone's channel, with its kind;
  what it writes to a bridge is a message of a phone, framed with that phone's channel and otherwise
  unmodified, or one of the relay's own control frames.
\<close>

theorem forward_faithful:
  "(WritePhone q t payload \<in> set (fst (server_step C L e srv)) \<longrightarrow>
     (\<exists>r now frame ok c kind p. e = EvBridgeRead r now True frame ok \<and> frame = RelayFrame c kind payload \<and>
        c \<noteq> RelayControlChannel \<and> map_of (phones (so_sess (sv_heap srv r))) c = Some p \<and> pid p = q \<and>
        t = (kind = RelayKindText))) \<and>
   (WriteBridge r f \<in> set (fst (server_step C L e srv)) \<longrightarrow>
     (\<exists>p now is_text data ok. e = EvPhoneRead r p now is_text data ok \<and>
        f = RelayFrame (ch p) (if is_text then RelayKindText else RelayKindBinary) data) \<or>
     (\<exists>kind c tok. kind \<in> {''open'', ''close''} \<and> f = control_frame kind c tok))"
  (is "(_ \<longrightarrow> ?W) \<and> (_ \<longrightarrow> ?B \<or> ?D)")
proof (cases e)
  case (EvBridgeRead r0 now b frame ok)
  then show ?thesis using bridge_read_writes(1) [of q t payload L r0 now b frame ok srv]
      bridge_read_writes(2) [of r f L] by auto
next
  case (EvLookup ra xff now i)
  then show ?thesis by (simp add: quiet_ops case_prod_beta)
next
  case (EvEnter r0 ip now tok)
  show ?thesis unfolding EvEnter server_step.simps
    using phone_writes(1) [of q t payload L r0 ip now tok srv] phone_writes(4) [of r f L r0 ip now tok srv] by blast
next
  case (EvPhoneRead r0 p now ty d ok)
  show ?thesis
  proof (intro conjI impI)
    assume "WritePhone q t payload \<in> set (fst (server_step C L e srv))"
    then show ?W by (simp only: EvPhoneRead server_step.simps phone_writes(2))
  next
    assume "WriteBridge r f \<in> set (fst (server_step C L e srv))"
    then have "r = r0 \<and> f = RelayFrame (ch p) (if ty then RelayKindText else RelayKindBinary) d"
      unfolding EvPhoneRead server_step.simps by (rule phone_writes(5))
    with EvPhoneRead have ?B by blast
    then show "?B \<or> ?D" ..
  qed
next
  case (EvPhoneLeft r0 p)
  show ?thesis unfolding EvPhoneLeft server_step.simps
    using phone_writes(3) [of q t payload r0 p srv] phone_writes(6) [of r f r0 p srv] by blast
qed (simp_all add: quiet_ops)

definition toy_server :: relay_server where
  "toy_server = new_server
     \<lparr>sv_heap := (\<lambda>_. \<lparr>so_id = [], so_sess = \<lparr>phones = [(1, (new_phone 7 [] 0 [])\<lparr>ch := 1\<rparr>)], nextCh = 1\<rparr>\<rparr>),
      sv_buckets := (\<lambda>_. newBucket 10 10 0)\<rparr>"

lemma forward_faithful_witness:
  "WritePhone 7 False [5] \<in> set (fst (server_step toy_crypto DefaultLimits
      (EvBridgeRead 0 0 True (RelayFrame 1 1 [5]) True) toy_server)) \<and>
   (\<exists>c kind p. RelayFrame 1 1 [5] = RelayFrame c kind [5] \<and>
      map_of (phones (so_sess (sv_heap toy_server 0))) c = Some p \<and> pid p = 7)"
proof -
  have w: "WritePhone 7 False [5] \<in> set (fst (server_step toy_crypto DefaultLimits
      (EvBridgeRead 0 0 True (RelayFrame 1 1 [5]) True) toy_server))"
    by (simp add: toy_server_def new_server_def bridge_read_def ParseRelayFrame_RelayFrame
        RelayControlChannel_def countBridgeFrame_def new_phone_def take_tokens_def newBucket_def seconds_def
        RelayKindText_def Let_def)
  with forward_faithful [of 7 False "[5]" toy_crypto DefaultLimits
      "EvBridgeRead 0 0 True (RelayFrame 1 1 [5]) True" toy_server 0 "[]"]
  show ?thesis by blast
qed

text \<open>
  A client cannot choose the address it is limited by: unless the direct peer lies in a trusted
  proxy prefix, the \<open>X-Forwarded-For\<close> header has no influence on the client address.
\<close>

theorem forwarded_needs_trust:
  assumes "SplitHost remoteAddr = Some host" "ParseAddr host = Some a"
    and "\<forall>p \<in> set trusted. \<not> Contains p (Unmap (without_zone a))"
  shows "clientIP remoteAddr forwarded trusted = host"
  using assms by (auto simp: clientIP_def list_ex_iff)

lemma forwarded_needs_trust_witness:
  "clientIP ''9.9.9.9:80'' [''1.2.3.4''] DefaultTrustedProxies = ''9.9.9.9''"
proof (rule forwarded_needs_trust)
  show "SplitHost ''9.9.9.9:80'' = Some ''9.9.9.9''" by code_simp
  show "ParseAddr ''9.9.9.9'' = Some (V4 [9, 9, 9, 9])" by code_simp
  show "\<forall>p \<in> set DefaultTrustedProxies. \<not> Contains p (Unmap (without_zone (V4 [9, 9, 9, 9])))"
    by code_simp
qed

end
