(* ===== verification/Handshake.thy ===== *)
theory Handshake
  imports Identity Envelope
begin

text \<open>
  internal/protocol/handshake.go: Hello, Accept and Confirm, the transcript both sides sign, the
  relay-only admission proof of Hello, and the two ends of the handshake. Cryptography is the
  parameter \<open>C\<close>; a source of randomness is the bytes it will deliver.
\<close>

section \<open>Messages\<close>

record Hello =
  hVersion :: int
  hSessionID :: string
  hPhoneID :: bytes
  hPhoneEph :: bytes
  hNonceP :: bytes
  hAdmissionTimestamp :: "int option"
  hAdmissionSignature :: "bytes option"
  hAdmissionCodeProof :: "bytes option"

record Accept =
  aBridgeEph :: bytes
  aNonceB :: bytes
  aSig :: bytes

record Confirm =
  cCh :: string
  cSig :: bytes
  cProof :: bytes

datatype handshake_error =
    ProofAbsent | RngFailed | BadPublicKey | BadShared | Enveloped envelope_error
  | UnsupportedVersion | WrongSession | MalformedHello | NotAConfirm
  | ErrBadSignature | ErrUntrustedPhone

definition zero_hello :: Hello where
  "zero_hello = \<lparr>hVersion = 0, hSessionID = [], hPhoneID = [], hPhoneEph = [], hNonceP = [],
     hAdmissionTimestamp = None, hAdmissionSignature = None, hAdmissionCodeProof = None\<rparr>"

subsection \<open>Hello as JSON\<close>

definition hello_fields :: "string list" where
  "hello_fields = [''v'', ''s'', ''pid'', ''pe'', ''np'', ''ats'', ''asig'', ''ap'']"

definition proof_fields :: "string list" where
  "proof_fields = [''ats'', ''asig'', ''ap'']"

text \<open>A pointer field: null clears it.\<close>

definition as_pointer :: "(json \<Rightarrow> 'a option) \<Rightarrow> json \<Rightarrow> 'a option option" where
  "as_pointer get v = (if v = JNull then Some None else map_option Some (get v))"

definition hello_set :: "string \<Rightarrow> json \<Rightarrow> Hello \<Rightarrow> Hello option" where
  "hello_set f v h =
     (if f = ''v'' then map_option (\<lambda>x. h\<lparr>hVersion := x\<rparr>) (as_int64 (hVersion h) v)
      else if f = ''s'' then map_option (\<lambda>x. h\<lparr>hSessionID := x\<rparr>) (as_string (hSessionID h) v)
      else if f = ''pid'' then map_option (\<lambda>x. h\<lparr>hPhoneID := x\<rparr>) (Bytes_UnmarshalJSON v)
      else if f = ''pe'' then map_option (\<lambda>x. h\<lparr>hPhoneEph := x\<rparr>) (Bytes_UnmarshalJSON v)
      else if f = ''np'' then map_option (\<lambda>x. h\<lparr>hNonceP := x\<rparr>) (Bytes_UnmarshalJSON v)
      else if f = ''ats'' then map_option (\<lambda>x. h\<lparr>hAdmissionTimestamp := x\<rparr>) (as_pointer (as_int64 0) v)
      else if f = ''asig'' then map_option (\<lambda>x. h\<lparr>hAdmissionSignature := x\<rparr>) (as_pointer Bytes_UnmarshalJSON v)
      else map_option (\<lambda>x. h\<lparr>hAdmissionCodeProof := x\<rparr>) (as_pointer Bytes_UnmarshalJSON v))"

text \<open>\<open>map[string]json.RawMessage\<close>: the last member with a name wins.\<close>

definition raw_fields :: "json \<Rightarrow> (string \<times> json) list" where
  "raw_fields v = (case v of JObj ms \<Rightarrow> rev ms | _ \<Rightarrow> [])"

definition proof_fields_ok :: "(string \<times> json) list \<Rightarrow> Hello \<Rightarrow> bool" where
  "proof_fields_ok members decoded =
     (let hasTimestamp = (map_of members ''ats'' \<noteq> None);
          hasSignature = (map_of members ''asig'' \<noteq> None);
          hasCodeProof = (map_of members ''ap'' \<noteq> None) in
      \<not> list_ex (\<lambda>(k, _). list_ex (\<lambda>p. fold_name k = fold_name p \<and> k \<noteq> p) proof_fields) members \<and>
      \<not> (hasTimestamp \<noteq> hasSignature \<or> (hasCodeProof \<and> (\<not> hasTimestamp \<or> \<not> hasSignature))) \<and>
      \<not> list_ex (\<lambda>p. map_of members p = Some JNull) proof_fields \<and>
      \<not> (hasSignature \<and> (case hAdmissionSignature decoded of
           None \<Rightarrow> True | Some s \<Rightarrow> length s \<noteq> SignatureSize)) \<and>
      \<not> (hasCodeProof \<and> (case hAdmissionCodeProof decoded of
           None \<Rightarrow> True | Some p \<Rightarrow> length p \<noteq> HashSize)))"

definition Hello_UnmarshalJSON :: "string \<Rightarrow> Hello option" where
  "Hello_UnmarshalJSON text =
     (case parse_json text of
        None \<Rightarrow> None
      | Some v \<Rightarrow> (case fill_struct hello_fields hello_set v zero_hello of
            None \<Rightarrow> None
          | Some decoded \<Rightarrow> if proof_fields_ok (raw_fields v) decoded then Some decoded else None))"

definition hello_json :: "Hello \<Rightarrow> json" where
  "hello_json h = JObj
     ([(''v'', JNum (int_lit (hVersion h))), (''s'', JStr (hSessionID h)),
       (''pid'', Bytes_MarshalJSON (hPhoneID h)), (''pe'', Bytes_MarshalJSON (hPhoneEph h)),
       (''np'', Bytes_MarshalJSON (hNonceP h))] @
      (case hAdmissionTimestamp h of None \<Rightarrow> [] | Some t \<Rightarrow> [(''ats'', JNum (int_lit t))]) @
      (case hAdmissionSignature h of None \<Rightarrow> [] | Some s \<Rightarrow> [(''asig'', Bytes_MarshalJSON s)]) @
      (case hAdmissionCodeProof h of None \<Rightarrow> [] | Some p \<Rightarrow> [(''ap'', Bytes_MarshalJSON p)]))"

definition MarshalHello :: "Hello \<Rightarrow> string" where
  "MarshalHello h = render (hello_json h)"

subsection \<open>Accept and Confirm as JSON\<close>

definition confirm_json :: "Confirm \<Rightarrow> json" where
  "confirm_json c = JObj ([(''ch'', JStr (cCh c)), (''sig'', Bytes_MarshalJSON (cSig c))] @
     (if cProof c = [] then [] else [(''proof'', Bytes_MarshalJSON (cProof c))]))"

definition MarshalConfirm :: "Confirm \<Rightarrow> bytes" where
  "MarshalConfirm c = bytes_of (render (confirm_json c))"

definition confirm_set :: "string \<Rightarrow> json \<Rightarrow> Confirm \<Rightarrow> Confirm option" where
  "confirm_set f v c =
     (if f = ''ch'' then map_option (\<lambda>x. c\<lparr>cCh := x\<rparr>) (as_string (cCh c) v)
      else if f = ''sig'' then map_option (\<lambda>x. c\<lparr>cSig := x\<rparr>) (Bytes_UnmarshalJSON v)
      else map_option (\<lambda>x. c\<lparr>cProof := x\<rparr>) (Bytes_UnmarshalJSON v))"

definition UnmarshalConfirm :: "bytes \<Rightarrow> Confirm option" where
  "UnmarshalConfirm plaintext =
     unmarshal [''ch'', ''sig'', ''proof''] confirm_set \<lparr>cCh = [], cSig = [], cProof = []\<rparr> (str_of plaintext)"

section \<open>Length-prefixed fields and the transcript\<close>

definition lp :: "bytes \<Rightarrow> bytes" where
  "lp b = be_put16 (word_of_nat (length b)) @ b"

definition version_byte :: "Hello \<Rightarrow> byte" where
  "version_byte h = word_of_int (hVersion h)"

definition transcript_input :: "Hello \<Rightarrow> bytes \<Rightarrow> Accept \<Rightarrow> bytes" where
  "transcript_input h bridgeID a =
     bytes_of labelTranscript @ lp [version_byte h] @ lp (bytes_of (hSessionID h)) @ lp (hPhoneID h) @
     lp (hPhoneEph h) @ lp (hNonceP h) @ lp bridgeID @ lp (aBridgeEph a) @ lp (aNonceB a)"

definition Transcript :: "crypto \<Rightarrow> Hello \<Rightarrow> bytes \<Rightarrow> Accept \<Rightarrow> bytes" where
  "Transcript C h bridgeID a = sha256 C (transcript_input h bridgeID a)"

definition pairProof :: "crypto \<Rightarrow> bytes \<Rightarrow> bytes \<Rightarrow> bytes" where
  "pairProof C code transcript = hmac256 C code (bytes_of labelPairProof @ transcript)"

section \<open>The relay-only admission proof of Hello\<close>

definition HelloAdmissionPayload :: "Hello \<Rightarrow> bytes option" where
  "HelloAdmissionPayload h =
     (case (hAdmissionTimestamp h, hAdmissionSignature h) of
        (Some ts, Some _) \<Rightarrow>
          Some (lp [version_byte h] @ lp (bytes_of (hSessionID h)) @ lp (hPhoneID h) @
            lp (hPhoneEph h) @ lp (hNonceP h) @ lp (be_put64 (word_of_int ts)))
      | _ \<Rightarrow> None)"

definition helloAdmissionCodeProof :: "crypto \<Rightarrow> bytes \<Rightarrow> bytes \<Rightarrow> bytes" where
  "helloAdmissionCodeProof C code payload = hmac256 C code (bytes_of labelHelloAdmissionCode @ payload)"

definition AddHelloAdmissionProof :: "crypto \<Rightarrow> Identity \<Rightarrow> Hello \<Rightarrow> int \<Rightarrow> bytes option \<Rightarrow> Hello option" where
  "AddHelloAdmissionProof C i h timestamp code =
     (let h1 = h\<lparr>hAdmissionTimestamp := Some timestamp, hAdmissionSignature := None,
            hAdmissionCodeProof := None\<rparr> in
      case HelloAdmissionPayload (h1\<lparr>hAdmissionSignature := Some []\<rparr>) of
        None \<Rightarrow> None
      | Some payload \<Rightarrow>
          let h2 = h1\<lparr>hAdmissionSignature := Some (sign C i labelHelloAdmissionPhone payload)\<rparr> in
          Some (case code of
              None \<Rightarrow> h2
            | Some c \<Rightarrow> h2\<lparr>hAdmissionCodeProof := Some (helloAdmissionCodeProof C c payload)\<rparr>))"

definition VerifyHelloAdmissionSignature :: "crypto \<Rightarrow> Hello \<Rightarrow> bool" where
  "VerifyHelloAdmissionSignature C h =
     (case (HelloAdmissionPayload h, hAdmissionSignature h) of
        (Some payload, Some sig) \<Rightarrow> verify C (hPhoneID h) labelHelloAdmissionPhone payload sig
      | _ \<Rightarrow> False)"

definition VerifyHelloAdmissionCode :: "crypto \<Rightarrow> Hello \<Rightarrow> bytes \<Rightarrow> bool" where
  "VerifyHelloAdmissionCode C h code =
     (case hAdmissionCodeProof h of
        None \<Rightarrow> False
      | Some p \<Rightarrow> if length p \<noteq> HashSize then False
          else (case HelloAdmissionPayload h of
              None \<Rightarrow> False
            | Some payload \<Rightarrow> helloAdmissionCodeProof C code payload = p))"

section \<open>The phone's side\<close>

definition newEphemeral :: "rng \<Rightarrow> (bytes \<times> rng) option" where
  "newEphemeral r = read_full 32 r"

definition newNonce :: "rng \<Rightarrow> (bytes \<times> rng) option" where
  "newNonce r = read_full NonceSize r"

text \<open>\<open>ecdh.X25519().NewPublicKey\<close> checks the length only.\<close>

definition new_public_key :: "bytes \<Rightarrow> bytes option" where
  "new_public_key k = (if length k = 32 then Some k else None)"

record PhoneState =
  psId :: Identity
  psEph :: bytes
  psHello :: Hello

definition PhoneHello :: "crypto \<Rightarrow> Identity \<Rightarrow> string \<Rightarrow> rng \<Rightarrow> handshake_error + (Hello \<times> PhoneState)" where
  "PhoneHello C phoneID sessionID r =
     (case newEphemeral r of None \<Rightarrow> Inl RngFailed | Some (eph, r1) \<Rightarrow>
      case newNonce r1 of None \<Rightarrow> Inl RngFailed | Some (nonce, r2) \<Rightarrow>
        let h = \<lparr>hVersion = Version, hSessionID = sessionID, hPhoneID = Public C phoneID,
               hPhoneEph = x_public C eph, hNonceP = nonce, hAdmissionTimestamp = None,
               hAdmissionSignature = None, hAdmissionCodeProof = None\<rparr> in
        Inr (h, \<lparr>psId = phoneID, psEph = eph, psHello = h\<rparr>))"

text \<open>\<open>PhoneState.Finish\<close>.\<close>

definition PhoneFinish ::
  "crypto \<Rightarrow> PhoneState \<Rightarrow> Accept \<Rightarrow> bytes \<Rightarrow> bytes option \<Rightarrow> handshake_error + (bytes \<times> Suite)" where
  "PhoneFinish C p a bridgeID code =
     (let transcript = Transcript C (psHello p) bridgeID a in
      if \<not> verify C bridgeID labelSigBridge transcript (aSig a) then Inl ErrBadSignature
      else case new_public_key (aBridgeEph a) of None \<Rightarrow> Inl BadPublicKey | Some bridgeEph \<Rightarrow>
      case x_ecdh C (psEph p) bridgeEph of None \<Rightarrow> Inl BadShared | Some shared \<Rightarrow>
      case deriveSuite C shared transcript False of Inl e \<Rightarrow> Inl (Enveloped e) | Inr suite \<Rightarrow>
        let c = \<lparr>cCh = ''confirm'', cSig = sign C (psId p) labelSigPhone transcript,
               cProof = (case code of None \<Rightarrow> [] | Some k \<Rightarrow> pairProof C k transcript)\<rparr> in
        case Seal C (MarshalConfirm c) suite of
          (Inl e, _) \<Rightarrow> Inl (Enveloped e)
        | (Inr frame, suite') \<Rightarrow> Inr (frame, suite'))"

section \<open>The bridge's side\<close>

record Pending =
  pdHello :: Hello
  pdTranscript :: bytes
  pdSuite :: Suite

definition BridgeAccept :: "crypto \<Rightarrow> Identity \<Rightarrow> Hello \<Rightarrow> rng \<Rightarrow> handshake_error + (Accept \<times> Pending)" where
  "BridgeAccept C bridgeID h r =
     (if hVersion h \<noteq> Version then Inl UnsupportedVersion
      else if hSessionID h \<noteq> SessionID C bridgeID then Inl WrongSession
      else if length (hPhoneID h) \<noteq> PublicKeySize \<or> length (hNonceP h) \<noteq> NonceSize then Inl MalformedHello
      else case new_public_key (hPhoneEph h) of None \<Rightarrow> Inl BadPublicKey | Some phoneEph \<Rightarrow>
      case newEphemeral r of None \<Rightarrow> Inl RngFailed | Some (eph, r1) \<Rightarrow>
      case newNonce r1 of None \<Rightarrow> Inl RngFailed | Some (nonce, r2) \<Rightarrow>
        let a0 = \<lparr>aBridgeEph = x_public C eph, aNonceB = nonce, aSig = []\<rparr>;
            transcript = Transcript C h (Public C bridgeID) a0;
            a = a0\<lparr>aSig := sign C bridgeID labelSigBridge transcript\<rparr> in
        case x_ecdh C eph phoneEph of None \<Rightarrow> Inl BadShared | Some shared \<Rightarrow>
        case deriveSuite C shared transcript True of Inl e \<Rightarrow> Inl (Enveloped e) | Inr suite \<Rightarrow>
          Inr (a, \<lparr>pdHello = h, pdTranscript = transcript, pdSuite = suite\<rparr>))"

text \<open>\<open>Pending.Finish\<close>. The suite is shared with the pending handshake, so the opened frame
  advances it in every case.\<close>

definition PendingFinish ::
  "crypto \<Rightarrow> Pending \<Rightarrow> bytes \<Rightarrow> (bytes \<Rightarrow> bool) option \<Rightarrow> bytes list \<Rightarrow>
     (handshake_error + (Suite \<times> bytes option)) \<times> Pending" where
  "PendingFinish C p confirmFrame trusted codes =
     (case Open C confirmFrame (pdSuite p) of
        (Inl e, s) \<Rightarrow> (Inl (Enveloped e), p\<lparr>pdSuite := s\<rparr>)
      | (Inr plaintext, s) \<Rightarrow>
          (let p' = p\<lparr>pdSuite := s\<rparr> in
           case UnmarshalConfirm plaintext of
             None \<Rightarrow> (Inl NotAConfirm, p')
           | Some c \<Rightarrow>
               if cCh c \<noteq> ''confirm'' then (Inl NotAConfirm, p')
               else if \<not> verify C (hPhoneID (pdHello p)) labelSigPhone (pdTranscript p) (cSig c)
               then (Inl ErrBadSignature, p')
               else if (case trusted of None \<Rightarrow> False | Some f \<Rightarrow> f (hPhoneID (pdHello p)))
               then (Inr (s, None), p')
               else if length (cProof c) = HashSize
               then (case find (\<lambda>code. pairProof C code (pdTranscript p) = cProof c) codes of
                   Some code \<Rightarrow> (Inr (s, Some code), p')
                 | None \<Rightarrow> (Inl ErrUntrustedPhone, p'))
               else (Inl ErrUntrustedPhone, p')))"

section \<open>Facts about the encodings\<close>

lemma lp_inject:
  assumes "lp a @ x = lp b @ y" "length a < 65536" "length b < 65536"
  shows "a = b \<and> x = y"
proof -
  have "be_put16 (word_of_nat (length a)) = be_put16 (word_of_nat (length b) :: 16 word)"
    and r: "a @ x = b @ y"
    using assms(1) by (simp_all add: lp_def append_eq_append_conv)
  then have "(word_of_nat (length a) :: 16 word) = word_of_nat (length b)" by simp
  then have "unat (word_of_nat (length a) :: 16 word) = unat (word_of_nat (length b) :: 16 word)" by simp
  with assms(2,3) have "length a = length b" by (simp add: unat_of_nat)
  with r show ?thesis by simp
qed

lemma lp_last_inject: "lp a = lp b \<Longrightarrow> length a < 65536 \<Longrightarrow> length b < 65536 \<Longrightarrow> a = b"
  using lp_inject [of a "[]" b "[]"] by simp

lemma MarshalConfirm_round:
  assumes "plain (cCh c)" shows "UnmarshalConfirm (MarshalConfirm c) = Some c"
proof -
  have "plain_json (confirm_json c)" "json_depth (confirm_json c) \<le> 10000"
    using assms by (auto simp: confirm_json_def plain_char_def)
  then have p: "parse_json (render (confirm_json c)) = Some (confirm_json c)" by (rule parse_json_render)
  show ?thesis
    unfolding UnmarshalConfirm_def MarshalConfirm_def unmarshal_def str_of_bytes_of p
    by (simp add: confirm_json_def fill_struct_def field_of_def confirm_set_def as_string_def)
qed

interpretation confirm_codec: codec MarshalConfirm UnmarshalConfirm "\<lambda>c. plain (cCh c)"
  by unfold_locales (rule MarshalConfirm_round)

lemma b64_length_le: "length (b64_encode bs) \<le> 2 * length bs"
  by (simp add: length_b64_encode)

lemma length_MarshalConfirm:
  assumes "plain (cCh c)"
  shows "length (MarshalConfirm c) \<le> 100 + length (cCh c) + 2 * length (cSig c) + 2 * length (cProof c)"
  using b64_length_le [of "cSig c"] b64_length_le [of "cProof c"] assms
  by (cases "cProof c = []")
    (simp_all add: MarshalConfirm_def confirm_json_def json_string_def quote_body_plain
      Bytes_MarshalJSON_def plain_b64 plain_char_def)

definition is_trusted :: "(bytes \<Rightarrow> bool) option \<Rightarrow> bytes \<Rightarrow> bool" where
  "is_trusted trusted pid = (case trusted of None \<Rightarrow> False | Some f \<Rightarrow> f pid)"

lemma deriveSuite_pair:
  assumes "hash_sizes C"
  obtains sp sb where "deriveSuite C sh t False = Inr sp" "deriveSuite C sh t True = Inr sb"
    "synced sp sb" "synced sb sp" "send_ctr sp = 0"
proof -
  have l: "length (hkdf C sh t (bytes_of labelKeys) (2 * keySize)) = 2 * keySize"
    using assms by (simp add: hash_sizes_def)
  let ?k = "hkdf C sh t (bytes_of labelKeys) (2 * keySize)"
  let ?sp = "\<lparr>send_key = take keySize ?k, send_ctr = 0, recv_key = drop keySize ?k, recv_ctr = 0\<rparr>"
  let ?sb = "\<lparr>send_key = drop keySize ?k, send_ctr = 0, recv_key = take keySize ?k, recv_ctr = 0\<rparr>"
  have "deriveSuite C sh t False = Inr ?sp" "deriveSuite C sh t True = Inr ?sb"
    using l by (simp_all add: deriveSuite_def newAEAD_def Let_def)
  then show ?thesis by (rule that) (simp_all add: synced_def)
qed

text \<open>What a successful \<open>Finish\<close> has checked.\<close>

lemma PendingFinish_Inr:
  assumes "PendingFinish C p f trusted codes = (Inr (s, used), p')"
  obtains msg c where "Open C f (pdSuite p) = (Inr msg, s)" "UnmarshalConfirm msg = Some c"
    "cCh c = ''confirm''" "verify C (hPhoneID (pdHello p)) labelSigPhone (pdTranscript p) (cSig c)"
    "(is_trusted trusted (hPhoneID (pdHello p)) \<and> used = None) \<or>
     (\<not> is_trusted trusted (hPhoneID (pdHello p)) \<and> (\<exists>k. used = Some k \<and> k \<in> set codes \<and>
        cProof c = pairProof C k (pdTranscript p) \<and> length (cProof c) = HashSize))"
proof -
  obtain r t where o: "Open C f (pdSuite p) = (r, t)" by fastforce
  from assms o obtain msg where r: "r = Inr msg" by (cases r) (auto simp: PendingFinish_def)
  with assms o obtain c where c: "UnmarshalConfirm msg = Some c"
    by (auto simp: PendingFinish_def Let_def split: option.splits)
  have ch: "cCh c = ''confirm''" and
    v: "verify C (hPhoneID (pdHello p)) labelSigPhone (pdTranscript p) (cSig c)"
    using assms o r c by (auto simp: PendingFinish_def Let_def split: if_splits)
  have "t = s" and "(is_trusted trusted (hPhoneID (pdHello p)) \<and> used = None) \<or>
     (\<not> is_trusted trusted (hPhoneID (pdHello p)) \<and> (\<exists>k. used = Some k \<and> k \<in> set codes \<and>
        cProof c = pairProof C k (pdTranscript p) \<and> length (cProof c) = HashSize))"
    using assms o r c ch v
    by (auto simp: PendingFinish_def Let_def is_trusted_def[symmetric] find_Some_iff in_set_conv_nth
        split: if_splits option.splits)
  with that o r c ch v show ?thesis by blast
qed

end
