(* ===== verification/HandshakeSafety.thy ===== *)
theory HandshakeSafety
  imports Handshake
begin

text \<open>
  Theorems about the handshake: two honest sides end with matching keys, admission requires a
  signature and either trust or a pairing code, the transcript binds every field of the exchange,
  and the rules for the relay-only proof fields of Hello.
\<close>

section \<open>Completeness\<close>

lemma read_key_nonce:
  assumes "64 \<le> length r"
  shows "newEphemeral r = Some (take 32 r, drop 32 r)"
    "newNonce (drop 32 r) = Some (take NonceSize (drop 32 r), drop NonceSize (drop 32 r))"
    "length (take NonceSize (drop 32 r)) = NonceSize"
  using assms by (auto simp: newEphemeral_def newNonce_def read_full_def NonceSize_def)

lemma PhoneHello_Inr:
  assumes "64 \<le> length r"
  obtains h ps where "PhoneHello C i sid r = Inr (h, ps)" "psId ps = i" "psHello ps = h"
    "psEph ps = take 32 r" "hVersion h = Version" "hSessionID h = sid" "hPhoneID h = Public C i"
    "hPhoneEph h = x_public C (take 32 r)" "length (hNonceP h) = NonceSize"
proof -
  let ?h = "\<lparr>hVersion = Version, hSessionID = sid, hPhoneID = Public C i,
    hPhoneEph = x_public C (take 32 r), hNonceP = take NonceSize (drop 32 r), hAdmissionTimestamp = None,
    hAdmissionSignature = None, hAdmissionCodeProof = None\<rparr>"
  have "PhoneHello C i sid r = Inr (?h, \<lparr>psId = i, psEph = take 32 r, psHello = ?h\<rparr>)"
    using read_key_nonce [OF assms] by (simp add: PhoneHello_def Let_def)
  then show ?thesis by (rule that) (use read_key_nonce(3) [OF assms] in simp_all)
qed

lemma BridgeAccept_Inr:
  assumes "64 \<le> length r" "hash_sizes C" "hVersion h = Version" "hSessionID h = SessionID C b"
    "length (hPhoneID h) = PublicKeySize" "length (hNonceP h) = NonceSize" "length (hPhoneEph h) = 32"
    "x_ecdh C (take 32 r) (hPhoneEph h) = Some sh"
  obtains a pd sp where "BridgeAccept C b h r = Inr (a, pd)" "aBridgeEph a = x_public C (take 32 r)"
    "pdHello pd = h" "pdTranscript pd = Transcript C h (Public C b) a"
    "aSig a = sign C b labelSigBridge (pdTranscript pd)"
    "deriveSuite C sh (pdTranscript pd) False = Inr sp" "synced sp (pdSuite pd)" "synced (pdSuite pd) sp"
    "send_ctr sp = 0"
proof -
  let ?a = "\<lparr>aBridgeEph = x_public C (take 32 r), aNonceB = take NonceSize (drop 32 r), aSig = []\<rparr>"
  let ?t = "Transcript C h (Public C b) ?a"
  obtain sp sb where s: "deriveSuite C sh ?t False = Inr sp" "deriveSuite C sh ?t True = Inr sb"
    "synced sp sb" "synced sb sp" "send_ctr sp = 0"
    using deriveSuite_pair [OF assms(2)] by blast
  have ba: "BridgeAccept C b h r = Inr (?a\<lparr>aSig := sign C b labelSigBridge ?t\<rparr>,
      \<lparr>pdHello = h, pdTranscript = ?t, pdSuite = sb\<rparr>)"
    using assms(2-) read_key_nonce [OF assms(1)] s(2)
    by (simp add: BridgeAccept_def new_public_key_def Let_def)
  show ?thesis by (rule that [OF ba]) (use s in \<open>simp_all add: Transcript_def transcript_input_def\<close>)
qed

lemma PhoneFinish_Inr:
  assumes v: "verify C bid labelSigBridge t (aSig a)" and t: "t = Transcript C (psHello p) bid a"
    and "length (aBridgeEph a) = 32" "x_ecdh C (psEph p) (aBridgeEph a) = Some sh"
    and d: "deriveSuite C sh t False = Inr s" and "send_ctr s = 0" "sig_correct C" "hash_sizes C"
  obtains f s' c where "PhoneFinish C p a bid code = Inr (f, s')" "Seal C (MarshalConfirm c) s = (Inr f, s')"
    "cCh c = ''confirm''" "cSig c = sign C (psId p) labelSigPhone t"
    "cProof c = (case code of None \<Rightarrow> [] | Some k \<Rightarrow> pairProof C k t)"
proof -
  define c where "c = \<lparr>cCh = ''confirm'', cSig = sign C (psId p) labelSigPhone t,
      cProof = (case code of None \<Rightarrow> [] | Some k \<Rightarrow> pairProof C k t)\<rparr>"
  have "length (cSig c) = 64" "length (cProof c) \<le> 32"
    using assms(7,8) by (auto simp: c_def sign_def sig_correct_def pairProof_def hash_sizes_def split: option.splits)
  moreover have "plain (cCh c)" by (simp add: c_def plain_char_def)
  ultimately have "length (MarshalConfirm c) \<le> MaxPlaintext"
    using length_MarshalConfirm [of c] by (simp add: c_def MaxPlaintext_def)
  then obtain f s' where s: "Seal C (MarshalConfirm c) s = (Inr f, s')"
    using assms(6) by (auto simp: Seal_def Let_def)
  have "PhoneFinish C p a bid code = Inr (f, s')"
    using v assms(3,4) d s by (simp add: PhoneFinish_def new_public_key_def c_def Let_def t [symmetric])
  with s show ?thesis by (intro that) (auto simp: c_def)
qed

lemma PendingFinish_ok:
  assumes "Open C f (pdSuite p) = (Inr (MarshalConfirm c), s)" "cCh c = ''confirm''"
    "verify C (hPhoneID (pdHello p)) labelSigPhone (pdTranscript p) (cSig c)"
    "is_trusted trusted (hPhoneID (pdHello p)) \<or>
      (\<exists>k \<in> set codes. cProof c = pairProof C k (pdTranscript p))" "hash_sizes C"
  shows "\<exists>used p'. PendingFinish C p f trusted codes = (Inr (s, used), p') \<and>
    (if is_trusted trusted (hPhoneID (pdHello p)) then used = None
     else (\<exists>k \<in> set codes. used = Some k \<and> cProof c = pairProof C k (pdTranscript p)))"
proof -
  have m: "UnmarshalConfirm (MarshalConfirm c) = Some c"
    using assms(2) by (intro MarshalConfirm_round) (simp add: plain_char_def)
  show ?thesis
  proof (cases "is_trusted trusted (hPhoneID (pdHello p))")
    case True
    with assms(1-3) m show ?thesis by (simp add: PendingFinish_def is_trusted_def Let_def)
  next
    case False
    with assms(4) obtain k where k: "k \<in> set codes" "cProof c = pairProof C k (pdTranscript p)" by blast
    then have l: "length (cProof c) = HashSize" using assms(5) by (simp add: pairProof_def hash_sizes_def HashSize_def)
    have "find (\<lambda>code. pairProof C code (pdTranscript p) = cProof c) codes \<noteq> None"
      using k by (auto simp: find_None_iff)
    then obtain k' where k': "find (\<lambda>code. pairProof C code (pdTranscript p) = cProof c) codes = Some k'" by blast
    then have "k' \<in> set codes" "cProof c = pairProof C k' (pdTranscript p)"
      by (auto simp: find_Some_iff)
    with False assms(1-3) m l k' show ?thesis
      by (simp add: PendingFinish_def is_trusted_def[symmetric] Let_def)
  qed
qed

lemma honest_handshake:
  assumes "aead_correct C" "sig_correct C" "dh_agrees C" "hash_sizes C"
    and "length (priv b) = SeedSize" "length (priv i) = SeedSize" "64 \<le> length rp" "64 \<le> length rb"
    and "is_trusted trusted (Public C i) \<or> (\<exists>k \<in> set codes. code = Some k)"
  shows "\<exists>h ps a pd f sp sb used pd'.
    PhoneHello C i (SessionID C b) rp = Inr (h, ps) \<and>
    BridgeAccept C b h rb = Inr (a, pd) \<and>
    PhoneFinish C ps a (Public C b) code = Inr (f, sp) \<and>
    PendingFinish C pd f trusted codes = (Inr (sb, used), pd') \<and>
    synced sp sb \<and> synced sb sp \<and>
    (used = None \<longleftrightarrow> is_trusted trusted (Public C i)) \<and> set_option used \<subseteq> set codes"
proof -
  obtain h ps where h: "PhoneHello C i (SessionID C b) rp = Inr (h, ps)" "psId ps = i" "psHello ps = h"
    "psEph ps = take 32 rp" "hVersion h = Version" "hSessionID h = SessionID C b" "hPhoneID h = Public C i"
    "hPhoneEph h = x_public C (take 32 rp)" "length (hNonceP h) = NonceSize"
    using PhoneHello_Inr [OF assms(7)] by blast
  have l: "length (take 32 rp) = 32" "length (take 32 rb) = 32" using assms(7,8) by simp_all
  obtain sh where sh: "x_ecdh C (take 32 rb) (hPhoneEph h) = Some sh"
    using assms(3) l h(8) by (metis dh_agrees_def not_Some_eq)
  have lp: "length (hPhoneID h) = PublicKeySize" "length (hPhoneEph h) = 32"
    using assms(2,3,6) l h by (auto simp: sig_correct_def dh_agrees_def Public_def SeedSize_def PublicKeySize_def)
  obtain a pd s0 where a: "BridgeAccept C b h rb = Inr (a, pd)" "aBridgeEph a = x_public C (take 32 rb)"
    "pdHello pd = h" "pdTranscript pd = Transcript C h (Public C b) a"
    "aSig a = sign C b labelSigBridge (pdTranscript pd)"
    "deriveSuite C sh (pdTranscript pd) False = Inr s0" "synced s0 (pdSuite pd)" "synced (pdSuite pd) s0"
    "send_ctr s0 = 0"
    using BridgeAccept_Inr [OF assms(8,4) h(5,6) lp(1) h(9) lp(2) sh] by blast
  have v: "verify C (Public C b) labelSigBridge (pdTranscript pd) (aSig a)"
    unfolding a(5) by (rule verify_sign [OF assms(2,5)])
  have sh': "x_ecdh C (psEph ps) (aBridgeEph a) = Some sh" "length (aBridgeEph a) = 32"
    using sh h a assms(3) l by (auto simp: dh_agrees_def)
  obtain f sp c where f: "PhoneFinish C ps a (Public C b) code = Inr (f, sp)"
    "Seal C (MarshalConfirm c) s0 = (Inr f, sp)" "cCh c = ''confirm''"
    "cSig c = sign C i labelSigPhone (pdTranscript pd)"
    "cProof c = (case code of None \<Rightarrow> [] | Some k \<Rightarrow> pairProof C k (pdTranscript pd))"
    using PhoneFinish_Inr [OF v _ sh'(2,1) a(6,9) assms(2,4)] a(4) h(2,3) by metis
  obtain sb where sb: "Open C f (pdSuite pd) = (Inr (MarshalConfirm c), sb)" "synced sp sb"
    "send_key sb = send_key (pdSuite pd)" "send_ctr sb = send_ctr (pdSuite pd)"
    using Open_Seal [OF assms(1) a(7) f(2)] by blast
  have "synced sb sp" using a(8) sb(3,4) f(2) by (auto simp: synced_def Seal_Inr_iff)
  moreover have "verify C (hPhoneID (pdHello pd)) labelSigPhone (pdTranscript pd) (cSig c)"
    unfolding f(4) a(3) h(7) by (rule verify_sign [OF assms(2,6)])
  from PendingFinish_ok [OF sb(1) f(3) this _ assms(4), of trusted codes] assms(9) a(3) h(7) f(5)
  obtain used pd' where "PendingFinish C pd f trusted codes = (Inr (sb, used), pd')"
    "(used = None \<longleftrightarrow> is_trusted trusted (Public C i)) \<and> set_option used \<subseteq> set codes"
    by (force split: if_splits)
  ultimately show ?thesis using h(1) a(1) f(1) sb(2) by blast
qed

text \<open>
  C16. An honest handshake completes: for any identities and any randomness of sufficient length, a
  phone that is trusted, or that holds an outstanding pairing code, and a bridge that run the
  protocol against each other both succeed, their suites are synchronised in both directions, and
  a code is reported as used exactly when the phone was not trusted before.
\<close>

theorem handshake_completes:
  assumes "aead_correct C" "sig_correct C" "dh_agrees C" "hash_sizes C"
    and "length (priv b) = SeedSize" "length (priv i) = SeedSize" "64 \<le> length rp" "64 \<le> length rb"
    and "is_trusted trusted (Public C i) \<or> (\<exists>k \<in> set codes. code = Some k)"
  shows "\<exists>h ps a pd f sp sb used pd'.
    PhoneHello C i (SessionID C b) rp = Inr (h, ps) \<and>
    BridgeAccept C b h rb = Inr (a, pd) \<and>
    PhoneFinish C ps a (Public C b) code = Inr (f, sp) \<and>
    PendingFinish C pd f trusted codes = (Inr (sb, used), pd') \<and>
    synced sp sb \<and> synced sb sp \<and>
    (used = None \<longleftrightarrow> is_trusted trusted (Public C i)) \<and> set_option used \<subseteq> set codes"
  using honest_handshake [OF assms] .

definition toy_bridge :: Identity where "toy_bridge = \<lparr>priv = replicate 32 5\<rparr>"
definition toy_phone :: Identity where "toy_phone = \<lparr>priv = replicate 32 6\<rparr>"

lemma toy_seeds: "length (priv toy_bridge) = SeedSize" "length (priv toy_phone) = SeedSize"
  by (simp_all add: toy_bridge_def toy_phone_def SeedSize_def)

lemma handshake_completes_witness:
  "\<exists>h ps a pd f sp sb used pd'.
    PhoneHello toy_crypto toy_phone (SessionID toy_crypto toy_bridge) (replicate 64 1) = Inr (h, ps) \<and>
    BridgeAccept toy_crypto toy_bridge h (replicate 64 2) = Inr (a, pd) \<and>
    PhoneFinish toy_crypto ps a (Public toy_crypto toy_bridge) (Some [1, 2, 3]) = Inr (f, sp) \<and>
    PendingFinish toy_crypto pd f None [[9], [1, 2, 3]] = (Inr (sb, used), pd') \<and>
    synced sp sb \<and> synced sb sp \<and>
    (used = None \<longleftrightarrow> is_trusted None (Public toy_crypto toy_phone)) \<and>
    set_option used \<subseteq> set [[9], [1, 2, 3]]"
  by (rule handshake_completes [OF toy_crypto_laws(1,3,4,5) toy_seeds]) simp_all

section \<open>Soundness\<close>

lemma BridgeAccept_fields:
  assumes "BridgeAccept C b h r = Inr (a, pd)"
  shows "hVersion h = Version" "hSessionID h = SessionID C b" "length (hPhoneID h) = PublicKeySize"
    "length (hNonceP h) = NonceSize" "length (hPhoneEph h) = 32" "pdHello pd = h"
    "pdTranscript pd = Transcript C h (Public C b) a" "aBridgeEph a = x_public C (take 32 r)"
    "length (aNonceB a) = NonceSize" "32 \<le> length r"
  using assms
  by (auto simp: BridgeAccept_def Let_def new_public_key_def newEphemeral_def newNonce_def read_full_def
      Transcript_def transcript_input_def split: if_splits option.splits sum.splits)

text \<open>
  C2. Nobody is admitted without proof: if the bridge accepted a Hello and its \<open>Finish\<close> succeeds, then
  the Hello was for this bridge's session, the opened Confirm carries a signature of the claimed
  phone key over this very transcript, and the phone was trusted already, or it was not and proved
  knowledge of one of the offered codes, bound to this transcript, which is the code reported used.
\<close>

theorem admission_authenticated:
  assumes "BridgeAccept C b h r = Inr (a, pd)"
    and "PendingFinish C pd f trusted codes = (Inr (s, used), pd')"
  shows "hVersion h = Version \<and> hSessionID h = SessionID C b \<and>
    (\<exists>msg c. Open C f (pdSuite pd) = (Inr msg, s) \<and> UnmarshalConfirm msg = Some c \<and>
      verify C (hPhoneID h) labelSigPhone (Transcript C h (Public C b) a) (cSig c) \<and>
      (if is_trusted trusted (hPhoneID h) then used = None
       else \<exists>k \<in> set codes. used = Some k \<and>
         cProof c = pairProof C k (Transcript C h (Public C b) a)))"
  using BridgeAccept_fields [OF assms(1)] by (rule_tac PendingFinish_Inr [OF assms(2)]) auto

lemma toy_run:
  obtains h ps a pd f sp sb used pd' where
    "BridgeAccept toy_crypto toy_bridge h (replicate 64 2) = Inr (a, pd)"
    "PendingFinish toy_crypto pd f None [[9], [1, 2, 3]] = (Inr (sb, used), pd')"
  using honest_handshake [OF toy_crypto_laws(1,3,4,5) toy_seeds, of "replicate 64 1" "replicate 64 2" None
      "[[9], [1, 2, 3]]" "Some [1, 2, 3]"] by auto

lemma admission_authenticated_witness:
  "\<exists>h a pd f s used pd'. BridgeAccept toy_crypto toy_bridge h (replicate 64 2) = Inr (a, pd) \<and>
    PendingFinish toy_crypto pd f None [[9], [1, 2, 3]] = (Inr (s, used), pd') \<and>
    hSessionID h = SessionID toy_crypto toy_bridge \<and> used \<in> {Some [9], Some [1, 2, 3]}"
proof -
  obtain h ps a pd f sp sb used pd' where r:
    "BridgeAccept toy_crypto toy_bridge h (replicate 64 2) = Inr (a, pd)"
    "PendingFinish toy_crypto pd f None [[9], [1, 2, 3]] = (Inr (sb, used), pd')"
    by (rule toy_run)
  from admission_authenticated [OF this] have "hSessionID h = SessionID toy_crypto toy_bridge"
    "used \<in> {Some [9], Some [1, 2, 3]}"
    by (auto simp: is_trusted_def)
  with r show ?thesis by blast
qed

text \<open>
  The transcript binds the exchange: if two accepted handshakes, of any bridges, have the same
  transcript, then they agree on the session, the phone's key, both ephemeral keys, both nonces and
  the bridge's key, or the two transcripts exhibit a collision of SHA-256.
\<close>

theorem transcript_binds:
  assumes "hash_sizes C" "sig_correct C" "dh_agrees C"
    and "length (priv b) = SeedSize" "length (priv b') = SeedSize"
    and "BridgeAccept C b h r = Inr (a, pd)" "BridgeAccept C b' h' r' = Inr (a', pd')"
    and "pdTranscript pd = pdTranscript pd'"
  shows "(\<exists>m m'. m \<noteq> m' \<and> sha256 C m = sha256 C m') \<or>
    (hSessionID h = hSessionID h' \<and> hPhoneID h = hPhoneID h' \<and> hPhoneEph h = hPhoneEph h' \<and>
     hNonceP h = hNonceP h' \<and> Public C b = Public C b' \<and> aBridgeEph a = aBridgeEph a' \<and>
     aNonceB a = aNonceB a')"
proof (cases "transcript_input h (Public C b) a = transcript_input h' (Public C b') a'")
  case False
  with assms(6-8) show ?thesis by (auto simp: BridgeAccept_fields(7) Transcript_def)
next
  case True
  have l: "length (hSessionID h) < 65536 \<and> length (hPhoneID h) < 65536 \<and> length (hPhoneEph h) < 65536 \<and>
      length (hNonceP h) < 65536 \<and> length (Public C b) < 65536 \<and> length (aBridgeEph a) < 65536 \<and>
      length (aNonceB a) < 65536"
    if "BridgeAccept C b h r = Inr (a, pd)" "length (priv b) = SeedSize" for b h r a pd
  proof -
    have "length (x_public C (take 32 r)) = 32"
      using assms(3) BridgeAccept_fields(10) [OF that(1)] by (simp add: dh_agrees_def)
    moreover have "length (Public C b) = 32"
      using assms(2) that(2) by (simp add: sig_correct_def Public_def SeedSize_def)
    ultimately show ?thesis
      using BridgeAccept_fields [OF that(1)] length_SessionIDFor [OF assms(1)]
      by (simp add: SessionID_def SessionIDLength_def PublicKeySize_def NonceSize_def)
  qed
  from True l [OF assms(6,4)] l [OF assms(7,5)] show ?thesis
    by (auto simp: transcript_input_def dest!: lp_inject lp_last_inject)
qed

lemma transcript_binds_witness:
  "\<exists>h a pd. BridgeAccept toy_crypto toy_bridge h (replicate 64 2) = Inr (a, pd) \<and>
    ((\<exists>m m'. m \<noteq> m' \<and> sha256 toy_crypto m = sha256 toy_crypto m') \<or>
     (hSessionID h = hSessionID h \<and> hPhoneID h = hPhoneID h \<and> hPhoneEph h = hPhoneEph h \<and>
      hNonceP h = hNonceP h \<and> Public toy_crypto toy_bridge = Public toy_crypto toy_bridge \<and>
      aBridgeEph a = aBridgeEph a \<and> aNonceB a = aNonceB a))"
proof -
  obtain h ps a pd f sp sb used pd' where r:
    "BridgeAccept toy_crypto toy_bridge h (replicate 64 2) = Inr (a, pd)"
    "PendingFinish toy_crypto pd f None [[9], [1, 2, 3]] = (Inr (sb, used), pd')"
    by (rule toy_run)
  from transcript_binds [OF toy_crypto_laws(5,3,4) toy_seeds(1) toy_seeds(1) r(1) r(1) refl] r(1)
  show ?thesis by blast
qed

section \<open>The relay-only proof fields of Hello\<close>

lemma fill_members_append:
  "fill_members names setf (ms @ ns) r =
     (case fill_members names setf ms r of None \<Rightarrow> None | Some r' \<Rightarrow> fill_members names setf ns r')"
  by (induction ms arbitrary: r) (auto split: option.splits)

text \<open>No member name folds to the name of a proof field without being that name.\<close>

definition canonical_names :: "(string \<times> json) list \<Rightarrow> bool" where
  "canonical_names ms \<longleftrightarrow> (\<forall>(k, v) \<in> set ms. \<forall>p \<in> set proof_fields. fold_name k = fold_name p \<longrightarrow> k = p)"

lemma field_of_proof:
  assumes "canonical_names [(k, v)]" "field_of hello_fields k = Some f"
  shows "f \<in> set hello_fields \<and> (f \<in> set proof_fields \<longrightarrow> k = f)"
proof -
  have "f \<in> set hello_fields \<and> (k = f \<or> fold_name f = fold_name k)"
    using assms(2) by (auto simp: field_of_def find_Some_iff in_set_conv_nth split: if_splits)
  with assms(1) show ?thesis by (auto simp: canonical_names_def)
qed

lemma field_of_self: "f \<in> set hello_fields \<Longrightarrow> field_of hello_fields f = Some f"
  by (simp add: field_of_def)

definition presence :: "string \<Rightarrow> Hello \<Rightarrow> bool" where
  "presence p h =
     (if p = ''ats'' then hAdmissionTimestamp h \<noteq> None
      else if p = ''asig'' then hAdmissionSignature h \<noteq> None
      else hAdmissionCodeProof h \<noteq> None)"

lemma hello_set_simps:
  "hello_set ''v'' v h = map_option (\<lambda>x. h\<lparr>hVersion := x\<rparr>) (as_int64 (hVersion h) v)"
  "hello_set ''s'' v h = map_option (\<lambda>x. h\<lparr>hSessionID := x\<rparr>) (as_string (hSessionID h) v)"
  "hello_set ''pid'' v h = map_option (\<lambda>x. h\<lparr>hPhoneID := x\<rparr>) (Bytes_UnmarshalJSON v)"
  "hello_set ''pe'' v h = map_option (\<lambda>x. h\<lparr>hPhoneEph := x\<rparr>) (Bytes_UnmarshalJSON v)"
  "hello_set ''np'' v h = map_option (\<lambda>x. h\<lparr>hNonceP := x\<rparr>) (Bytes_UnmarshalJSON v)"
  "hello_set ''ats'' v h = map_option (\<lambda>x. h\<lparr>hAdmissionTimestamp := x\<rparr>) (as_pointer (as_int64 0) v)"
  "hello_set ''asig'' v h = map_option (\<lambda>x. h\<lparr>hAdmissionSignature := x\<rparr>) (as_pointer Bytes_UnmarshalJSON v)"
  "hello_set ''ap'' v h = map_option (\<lambda>x. h\<lparr>hAdmissionCodeProof := x\<rparr>) (as_pointer Bytes_UnmarshalJSON v)"
  by (simp_all add: hello_set_def)

lemma presence_simps:
  "presence ''ats'' h \<longleftrightarrow> hAdmissionTimestamp h \<noteq> None"
  "presence ''asig'' h \<longleftrightarrow> hAdmissionSignature h \<noteq> None"
  "presence ''ap'' h \<longleftrightarrow> hAdmissionCodeProof h \<noteq> None"
  by (simp_all add: presence_def)

lemma as_pointer_Some: "as_pointer get v = Some x \<Longrightarrow> x \<noteq> None \<longleftrightarrow> v \<noteq> JNull"
  by (auto simp: as_pointer_def split: if_splits)

lemma hello_set_presence:
  assumes "hello_set f v h = Some h'" "f \<in> set hello_fields" "p \<in> set proof_fields"
  shows "presence p h' = (if f = p then v \<noteq> JNull else presence p h)"
proof -
  have p: "p = ''ats'' \<or> p = ''asig'' \<or> p = ''ap''" using assms(3) by (simp add: proof_fields_def)
  have f: "f = ''v'' \<or> f = ''s'' \<or> f = ''pid'' \<or> f = ''pe'' \<or> f = ''np'' \<or> f = ''ats'' \<or>
      f = ''asig'' \<or> f = ''ap''"
    using assms(2) by (simp add: hello_fields_def)
  then show ?thesis
    using p assms(1) by (elim disjE; hypsubst; clarsimp simp: hello_set_simps presence_simps dest!: as_pointer_Some)
qed

lemma presence_fill:
  assumes "canonical_names ms" "fill_members hello_fields hello_set ms zero_hello = Some h"
    "p \<in> set proof_fields"
  shows "presence p h \<longleftrightarrow> (\<exists>v. map_of (rev ms) p = Some v \<and> v \<noteq> JNull)"
  using assms(1,2)
proof (induction ms arbitrary: h rule: rev_induct)
  case Nil
  then show ?case by (auto simp: presence_def zero_hello_def)
next
  case (snoc m ms)
  obtain k v where m: "m = (k, v)" by (cases m)
  from snoc.prems(2) obtain h0 where h0: "fill_members hello_fields hello_set ms zero_hello = Some h0"
    and st: "fill_members hello_fields hello_set [m] h0 = Some h"
    by (auto simp: fill_members_append split: option.splits)
  have c: "canonical_names ms" "canonical_names [(k, v)]"
    using snoc.prems(1) m by (auto simp: canonical_names_def)
  note IH = snoc.IH [OF c(1) h0]
  show ?case
  proof (cases "field_of hello_fields k")
    case None
    with st m have "h = h0" by simp
    moreover have "k \<noteq> p" using None assms(3) field_of_self [of p]
      by (auto simp: hello_fields_def proof_fields_def)
    ultimately show ?thesis using IH m by simp
  next
    case (Some f)
    with st m have s: "hello_set f v h0 = Some h" by (auto split: option.splits)
    from field_of_proof [OF c(2) Some] have f: "f \<in> set hello_fields" "f \<in> set proof_fields \<Longrightarrow> k = f" by auto
    have "f = p \<longleftrightarrow> k = p"
      using f(2) Some assms(3) field_of_self [of p] by (auto simp: hello_fields_def proof_fields_def)
    with hello_set_presence [OF s f(1) assms(3)] IH m show ?thesis by auto
  qed
qed

lemma fill_hello_members:
  assumes "fill_struct hello_fields hello_set v zero_hello = Some h" "proof_fields_ok (raw_fields v) h"
    "p \<in> set proof_fields"
  shows "presence p h \<longleftrightarrow> map_of (raw_fields v) p \<noteq> None"
proof (cases v)
  case (JObj ms)
  from assms(2) JObj have "canonical_names ms"
    by (auto simp: proof_fields_ok_def Let_def raw_fields_def list_ex_iff canonical_names_def)
  moreover from assms(2,3) JObj have "map_of (rev ms) p \<noteq> Some JNull"
    by (auto simp: proof_fields_ok_def Let_def raw_fields_def list_ex_iff)
  ultimately show ?thesis
    using presence_fill [of ms h p] assms(1,3) JObj by (auto simp: fill_struct_def raw_fields_def)
qed (use assms in \<open>auto simp: fill_struct_def raw_fields_def presence_def zero_hello_def\<close>)

text \<open>
  C40. Whatever text arrives as a Hello, what \<open>Hello.UnmarshalJSON\<close> accepts has a complete
  admission proof or none: timestamp and signature come together, a code proof never comes without
  them, a signature has 64 bytes and a code proof 32.
\<close>

theorem hello_proof_complete:
  assumes "Hello_UnmarshalJSON text = Some h"
  shows "(hAdmissionTimestamp h = None \<longleftrightarrow> hAdmissionSignature h = None) \<and>
    (hAdmissionCodeProof h \<noteq> None \<longrightarrow> hAdmissionSignature h \<noteq> None) \<and>
    (\<forall>s \<in> set_option (hAdmissionSignature h). length s = SignatureSize) \<and>
    (\<forall>p \<in> set_option (hAdmissionCodeProof h). length p = HashSize)"
proof -
  from assms obtain v where v: "fill_struct hello_fields hello_set v zero_hello = Some h"
    and ok: "proof_fields_ok (raw_fields v) h"
    by (auto simp: Hello_UnmarshalJSON_def split: option.splits if_splits)
  have "presence ''ats'' h \<longleftrightarrow> map_of (raw_fields v) ''ats'' \<noteq> None"
    "presence ''asig'' h \<longleftrightarrow> map_of (raw_fields v) ''asig'' \<noteq> None"
    "presence ''ap'' h \<longleftrightarrow> map_of (raw_fields v) ''ap'' \<noteq> None"
    by (rule fill_hello_members [OF v ok], simp add: proof_fields_def)+
  with ok show ?thesis
    unfolding proof_fields_ok_def Let_def presence_def by (auto split: option.splits)
qed

lemma hello_proof_complete_witness:
  "\<exists>h. Hello_UnmarshalJSON (render (JObj [(''asig'', Bytes_MarshalJSON (replicate 64 1)),
       (''ats'', JNum (int_lit 5))])) = Some h \<and> (hAdmissionTimestamp h = None \<longleftrightarrow> hAdmissionSignature h = None)"
proof -
  let ?v = "JObj [(''asig'', Bytes_MarshalJSON (replicate 64 1)), (''ats'', JNum (int_lit 5))]"
  let ?h = "zero_hello\<lparr>hAdmissionTimestamp := Some 5, hAdmissionSignature := Some (replicate 64 1)\<rparr>"
  have "parse_json (render ?v) = Some ?v" by (rule parse_json_render) (simp_all add: plain_char_def)
  moreover have "fill_struct hello_fields hello_set ?v zero_hello = Some ?h"
    by (simp add: fill_struct_def hello_set_simps field_of_def hello_fields_def as_pointer_def as_int_int_lit
        Bytes_json_round Bytes_MarshalJSON_def [THEN arg_cong, of "\<lambda>x. x = JNull"])
  moreover have "proof_fields_ok (raw_fields ?v) ?h"
    by (simp add: proof_fields_ok_def raw_fields_def proof_fields_def SignatureSize_def Bytes_MarshalJSON_def)
  ultimately have "Hello_UnmarshalJSON (render ?v) = Some ?h" by (simp add: Hello_UnmarshalJSON_def)
  with hello_proof_complete [OF this] show ?thesis by metis
qed

lemma raw_hello:
  "map_of (raw_fields (hello_json h)) ''ats'' = map_option (\<lambda>t. JNum (int_lit t)) (hAdmissionTimestamp h)"
  "map_of (raw_fields (hello_json h)) ''asig'' = map_option Bytes_MarshalJSON (hAdmissionSignature h)"
  "map_of (raw_fields (hello_json h)) ''ap'' = map_option Bytes_MarshalJSON (hAdmissionCodeProof h)"
  by (auto simp: raw_fields_def hello_json_def split: option.splits)

lemma raw_hello_names: "(k, v) \<in> set (raw_fields (hello_json h)) \<Longrightarrow> k \<in> set hello_fields"
  by (auto simp: raw_fields_def hello_json_def hello_fields_def split: option.splits)

lemma hello_names_canonical:
  "list_all (\<lambda>k. \<not> list_ex (\<lambda>p. fold_name k = fold_name p \<and> k \<noteq> p) proof_fields) hello_fields"
  by (simp add: hello_fields_def proof_fields_def)

lemma raw_hello_canonical:
  "\<not> list_ex (\<lambda>(k, _). list_ex (\<lambda>p. fold_name k = fold_name p \<and> k \<noteq> p) proof_fields) (raw_fields (hello_json h))"
  using hello_names_canonical raw_hello_names [of _ _ h]
  unfolding list_all_iff list_ex_iff [of "\<lambda>(k, _). _ k"] by blast

lemma Hello_round:
  assumes "- (2 ^ 63) \<le> hVersion h" "hVersion h < 2 ^ 63" "plain (hSessionID h)"
    and "\<forall>t \<in> set_option (hAdmissionTimestamp h). - (2 ^ 63) \<le> t \<and> t < 2 ^ 63"
    and "hAdmissionTimestamp h = None \<longleftrightarrow> hAdmissionSignature h = None"
    and "hAdmissionCodeProof h \<noteq> None \<longrightarrow> hAdmissionSignature h \<noteq> None"
    and "\<forall>s \<in> set_option (hAdmissionSignature h). length s = SignatureSize"
    and "\<forall>p \<in> set_option (hAdmissionCodeProof h). length p = HashSize"
  shows "Hello_UnmarshalJSON (MarshalHello h) = Some h"
proof -
  have "plain_json (hello_json h)" "json_depth (hello_json h) \<le> 10000"
    using assms(3) by (auto simp: hello_json_def plain_char_def split: option.splits)
  then have p: "parse_json (render (hello_json h)) = Some (hello_json h)" by (rule parse_json_render)
  have v: "as_int64 x (JNum (int_lit (hVersion h))) = Some (hVersion h)" for x
    using assms(1,2) by (intro as_int_int_lit) auto
  have t: "as_int64 x (JNum (int_lit t)) = Some t" if "hAdmissionTimestamp h = Some t" for x t
    using assms(4) that by (intro as_int_int_lit) auto
  have n: "JNum l \<noteq> JNull" "Bytes_MarshalJSON y \<noteq> JNull" for l y by (simp_all add: Bytes_MarshalJSON_def)
  have f: "fill_struct hello_fields hello_set (hello_json h) zero_hello = Some h"
    using v t by (cases "hAdmissionTimestamp h"; cases "hAdmissionSignature h"; cases "hAdmissionCodeProof h")
      (simp_all add: hello_json_def fill_struct_def field_of_def hello_fields_def hello_set_def as_string_def
        as_pointer_def n zero_hello_def)
  have "proof_fields_ok (raw_fields (hello_json h)) h"
    using assms(5-8) raw_hello_canonical [of h] unfolding proof_fields_ok_def Let_def raw_hello
    by (auto simp: proof_fields_def n raw_hello split: option.splits)
  with p f show ?thesis by (simp add: Hello_UnmarshalJSON_def MarshalHello_def)
qed

text \<open>
  Hello survives the wire: a Hello with a 64-bit version and timestamp, a session id without
  characters that JSON escapes and a well-formed admission proof is what \<open>UnmarshalJSON\<close> reads back
  from its JSON text.
\<close>

theorem hello_json_round:
  assumes "- (2 ^ 63) \<le> hVersion h" "hVersion h < 2 ^ 63" "plain (hSessionID h)"
    and "\<forall>t \<in> set_option (hAdmissionTimestamp h). - (2 ^ 63) \<le> t \<and> t < 2 ^ 63"
    and "hAdmissionTimestamp h = None \<longleftrightarrow> hAdmissionSignature h = None"
    and "hAdmissionCodeProof h \<noteq> None \<longrightarrow> hAdmissionSignature h \<noteq> None"
    and "\<forall>s \<in> set_option (hAdmissionSignature h). length s = SignatureSize"
    and "\<forall>p \<in> set_option (hAdmissionCodeProof h). length p = HashSize"
  shows "Hello_UnmarshalJSON (MarshalHello h) = Some h"
  using Hello_round [OF assms] .

lemma hello_json_round_witness:
  "Hello_UnmarshalJSON (MarshalHello (zero_hello\<lparr>hVersion := 1, hSessionID := ''abc'',
     hAdmissionTimestamp := Some 5, hAdmissionSignature := Some (replicate 64 1)\<rparr>)) =
   Some (zero_hello\<lparr>hVersion := 1, hSessionID := ''abc'',
     hAdmissionTimestamp := Some 5, hAdmissionSignature := Some (replicate 64 1)\<rparr>)"
  by (rule hello_json_round) (simp_all add: zero_hello_def plain_char_def SignatureSize_def)

end
