(* ===== verification/Pairing.thy ===== *)
theory Pairing
  imports HandshakeSafety
begin

text \<open>
  internal/bridge/pairing.go, the outstanding one-time codes, and the vouch decision of
  internal/bridge/server.go with its table of Hellos already vouched for. Each operation takes the
  current time; the code's random bytes are an argument.
\<close>

section \<open>Pairing codes\<close>

definition PairCodeSize :: nat where "PairCodeSize = 16"
definition PairTTL :: gotime where "PairTTL = 5 * 60 * 1000000000"

definition NewPairCode :: "rng \<Rightarrow> (bytes \<times> rng) option" where
  "NewPairCode r = read_full PairCodeSize r"

type_synonym pairings = "(bytes, gotime) gomap"

definition newPairings :: pairings where "newPairings = []"

definition Issue :: "rng \<Rightarrow> gotime \<Rightarrow> gotime \<Rightarrow> pairings \<Rightarrow> (bytes \<times> gotime) option \<times> pairings" where
  "Issue r ttl now p =
     (case NewPairCode r of
        None \<Rightarrow> (None, p)
      | Some (code, _) \<Rightarrow> (Some (code, now + ttl), AList.update code (now + ttl) p))"

definition unexpired :: "gotime \<Rightarrow> pairings \<Rightarrow> pairings" where
  "unexpired now p = filter (\<lambda>(c, exp). now < exp) p"

definition Outstanding :: "gotime \<Rightarrow> pairings \<Rightarrow> bytes list \<times> pairings" where
  "Outstanding now p = (map fst (unexpired now p), unexpired now p)"

definition Consume :: "gotime \<Rightarrow> bytes \<Rightarrow> pairings \<Rightarrow> bool \<times> pairings" where
  "Consume now code p =
     (list_ex (\<lambda>(c, exp). now < exp \<and> c = code) p, filter (\<lambda>(c, exp). now < exp \<and> c \<noteq> code) p)"

definition Pending_codes :: "gotime \<Rightarrow> pairings \<Rightarrow> nat" where
  "Pending_codes now p = length (fst (Outstanding now p))"

datatype pairing_op = OpIssue rng gotime gotime | OpOutstanding gotime | OpConsume gotime bytes

fun pairing_step :: "pairing_op \<Rightarrow> pairings \<Rightarrow> pairings" where
  "pairing_step (OpIssue r ttl now) p = snd (Issue r ttl now p)"
| "pairing_step (OpOutstanding now) p = snd (Outstanding now p)"
| "pairing_step (OpConsume now c) p = snd (Consume now c p)"

text \<open>How often a code was issued, and how often it was consumed, in a run.\<close>

fun issued :: "bytes \<Rightarrow> pairing_op \<Rightarrow> nat" where
  "issued k (OpIssue r ttl now) = (if map_option fst (NewPairCode r) = Some k then 1 else 0)"
| "issued k _ = 0"

fun consumed :: "bytes \<Rightarrow> pairing_op list \<Rightarrow> pairings \<Rightarrow> nat" where
  "consumed k [] p = 0"
| "consumed k (op # ops) p =
     (case op of OpConsume now c \<Rightarrow> if c = k \<and> fst (Consume now c p) then 1 else 0 | _ \<Rightarrow> 0) +
     consumed k ops (pairing_step op p)"

lemma has_code_filter: "k \<in> fst ` set (filter P p) \<Longrightarrow> k \<in> fst ` set p"
  by auto

lemma step_codes:
  "of_bool (k \<in> fst ` set (pairing_step op p)) +
     (case op of OpConsume now c \<Rightarrow> if c = k \<and> fst (Consume now c p) then 1 else 0 | _ \<Rightarrow> 0)
   \<le> issued k op + (of_bool (k \<in> fst ` set p) :: nat)"
proof (cases op)
  case (OpIssue r ttl now)
  then show ?thesis
    by (cases "NewPairCode r") (auto simp: Issue_def dom_update split: prod.splits)
next
  case (OpOutstanding now)
  then show ?thesis by (auto simp: Outstanding_def unexpired_def)
next
  case (OpConsume now c)
  then show ?thesis by (force simp: Consume_def list_ex_iff)
qed

lemma consumed_le: "consumed k ops p \<le> sum_list (map (issued k) ops) + of_bool (k \<in> fst ` set p)"
proof (induction ops arbitrary: p)
  case (Cons op ops)
  from Cons.IH [of "pairing_step op p"] step_codes [of k op p] show ?case by simp
qed simp

text \<open>
  C8. A pairing code works once: in any run of issues, listings and consumptions, in any order and at
  any times, the successful consumptions of a code are at most as many as the times it was issued;
  and a consumption succeeds only before the expiry the code was stored with.
\<close>

theorem pairing_code_single_use:
  "consumed k ops newPairings \<le> sum_list (map (issued k) ops) \<and>
   (fst (Consume now k p) \<longleftrightarrow> (\<exists>exp. (k, exp) \<in> set p \<and> now < exp)) \<and>
   (fst (Consume now k p) \<longleftrightarrow> k \<in> set (fst (Outstanding now p)))"
  using consumed_le [of k ops newPairings]
  by (force simp: newPairings_def Consume_def list_ex_iff Outstanding_def unexpired_def)

section \<open>Vouching for a Hello\<close>

definition helloReplayCapacity :: nat where "helloReplayCapacity = 4096"
definition vouchWindow :: int where "vouchWindow = 60"
definition nanos :: int where "nanos = 1000000000"

type_synonym hello_replay = "(bytes, gotime) gomap"

text \<open>\<open>Time.Unix\<close>.\<close>

definition unix :: "gotime \<Rightarrow> int" where "unix now = now div nanos"

definition rememberHello :: "gotime \<Rightarrow> Hello \<Rightarrow> hello_replay \<Rightarrow> bool \<times> hello_replay" where
  "rememberHello now h m =
     (let k = hPhoneID h @ hNonceP h;
          m1 = filter (\<lambda>(_, deadline). now < deadline) m in
      if map_of m1 k \<noteq> None \<or> length m1 \<ge> helloReplayCapacity then (False, m1)
      else (True, AList.update k
        (now + max 0 (case hAdmissionTimestamp h of
            Some ts \<Rightarrow> (ts + vouchWindow - unix now) * nanos | None \<Rightarrow> 0)) m1))"

text \<open>\<open>authorizeHelloVouch\<close>; \<open>trusted\<close> is the answer of the store and \<open>codes\<close> what
  \<open>Outstanding\<close> returns. The times of the two \<open>time.Now\<close> calls are \<open>now\<close> and \<open>now2\<close>.\<close>

definition authorizeHelloVouch ::
  "crypto \<Rightarrow> gotime \<Rightarrow> gotime \<Rightarrow> bool \<Rightarrow> bytes list \<Rightarrow> Hello \<Rightarrow> hello_replay \<Rightarrow> bool \<times> hello_replay" where
  "authorizeHelloVouch C now now2 trusted codes h m =
     (case (hAdmissionTimestamp h, hAdmissionSignature h) of
        (Some stamp, Some _) \<Rightarrow>
          if \<not> VerifyHelloAdmissionSignature C h then (False, m)
          else if stamp < unix now - vouchWindow \<or> stamp > unix now + vouchWindow then (False, m)
          else if \<not> trusted \<and> \<not> list_ex (VerifyHelloAdmissionCode C h) codes then (False, m)
          else rememberHello now2 h m
      | _ \<Rightarrow> (False, m))"

lemma rememberHello_bounded:
  "length m \<le> helloReplayCapacity \<Longrightarrow> length (snd (rememberHello now h m)) \<le> helloReplayCapacity"
proof -
  assume "length m \<le> helloReplayCapacity"
  then have "length (filter (\<lambda>(_, d). now < d) m) \<le> helloReplayCapacity"
    using length_filter_le [of "\<lambda>(_, d). now < d" m] by linarith
  then show ?thesis by (auto simp: rememberHello_def Let_def length_update_absent not_le)
qed

interpretation hello_replay: machine "\<lambda>(now, h) m. snd (rememberHello now h m)"
  "\<lambda>m. length m \<le> helloReplayCapacity"
  by unfold_locales (auto simp: rememberHello_bounded)

lemma remember_keeps:
  assumes "map_of m k = Some d" "now < d"
  shows "map_of (snd (rememberHello now h m)) k = Some d"
proof -
  have f: "map_of (filter (\<lambda>(_, d). now < d) m) k = Some d"
    using assms by (induction m) auto
  then show ?thesis by (auto simp: rememberHello_def Let_def update_conv')
qed

lemma remember_run_keeps:
  assumes "map_of m k = Some d" "\<forall>(n, g) \<in> set ops. n < d"
  shows "map_of (fold (\<lambda>(n, g) m. snd (rememberHello n g m)) ops m) k = Some d"
  using assms
proof (induction ops arbitrary: m)
  case (Cons op ops)
  then show ?case by (cases op) (simp add: remember_keeps)
qed simp

text \<open>
  A Hello is vouched for once while its timestamp is fresh: after the bridge has vouched for it,
  whatever other Hellos it remembers, at any later time before second \<open>timestamp + 60\<close> the same
  Hello is refused. (At second \<open>timestamp + 60\<close> itself it may pass again, \<open>hello_replay_gap\<close>.)
\<close>

theorem hello_vouched_once:
  assumes "authorizeHelloVouch C t0 t1 trusted codes h m = (True, m1)" "hAdmissionTimestamp h = Some ts"
    and "\<forall>(n, g) \<in> set ops. n \<le> t3" "unix t3 < ts + vouchWindow"
  shows "\<not> fst (authorizeHelloVouch C t2 t3 trusted' codes' h
    (fold (\<lambda>(n, g) m. snd (rememberHello n g m)) ops m1))"
proof -
  define d where "d = t1 + max 0 ((ts + vouchWindow - unix t1) * nanos)"
  define k where "k = hPhoneID h @ hNonceP h"
  have "t3 < (ts + vouchWindow) * nanos" using assms(4) by (simp add: unix_def nanos_def)
  moreover have "unix t1 * nanos \<le> t1" by (simp add: unix_def nanos_def)
  ultimately have lt: "t3 < d" by (simp add: d_def algebra_simps)
  have "map_of m1 k = Some d"
    using assms(1,2)
    by (auto simp: authorizeHelloVouch_def rememberHello_def Let_def k_def d_def update_conv'
        split: option.splits if_splits)
  moreover have "\<forall>(n, g) \<in> set ops. n < d" using assms(3) lt by fastforce
  ultimately have "map_of (fold (\<lambda>(n, g) m. snd (rememberHello n g m)) ops m1) k = Some d"
    by (rule remember_run_keeps)
  from this lt have "\<not> fst (rememberHello t3 h (fold (\<lambda>(n, g) m. snd (rememberHello n g m)) ops m1))"
    by (auto simp: rememberHello_def Let_def k_def dest!: map_of_SomeD
        simp: map_of_eq_None_iff image_iff split: if_splits)
  then show ?thesis
    by (auto simp: authorizeHelloVouch_def split: option.splits if_splits)
qed

lemma AddHelloAdmissionProof_verifies:
  assumes "AddHelloAdmissionProof C i h ts code = Some h'" "hPhoneID h = Public C i" "sig_correct C"
    "hash_sizes C" "length (priv i) = SeedSize"
  shows "VerifyHelloAdmissionSignature C h'" "code = Some k \<Longrightarrow> VerifyHelloAdmissionCode C h' k"
    "hAdmissionTimestamp h' = Some ts" "hAdmissionSignature h' \<noteq> None"
  using assms verify_sign [OF assms(3,5)]
  by (auto simp: AddHelloAdmissionProof_def HelloAdmissionPayload_def VerifyHelloAdmissionSignature_def
      VerifyHelloAdmissionCode_def helloAdmissionCodeProof_def version_byte_def hash_sizes_def HashSize_def Let_def
      split: option.splits)

definition toy_hello :: Hello where
  "toy_hello = the (AddHelloAdmissionProof toy_crypto toy_phone
     (zero_hello\<lparr>hPhoneID := Public toy_crypto toy_phone\<rparr>) 0 None)"

lemma toy_hello_facts:
  "VerifyHelloAdmissionSignature toy_crypto toy_hello" "hAdmissionTimestamp toy_hello = Some 0"
  "hAdmissionSignature toy_hello \<noteq> None"
proof -
  obtain h where h: "AddHelloAdmissionProof toy_crypto toy_phone
      (zero_hello\<lparr>hPhoneID := Public toy_crypto toy_phone\<rparr>) 0 None = Some h"
    by (auto simp: AddHelloAdmissionProof_def HelloAdmissionPayload_def Let_def)
  then have "toy_hello = h" by (simp add: toy_hello_def)
  with AddHelloAdmissionProof_verifies [OF h _ toy_crypto_laws(3,5) toy_seeds(2)]
  show "VerifyHelloAdmissionSignature toy_crypto toy_hello" "hAdmissionTimestamp toy_hello = Some 0"
    "hAdmissionSignature toy_hello \<noteq> None" by simp_all
qed

lemma toy_vouched:
  "\<exists>m1. authorizeHelloVouch toy_crypto 500000000 500000000 True [] toy_hello [] = (True, m1)"
  using toy_hello_facts
  by (auto simp: authorizeHelloVouch_def rememberHello_def helloReplayCapacity_def unix_def nanos_def
      vouchWindow_def Let_def)

lemma hello_vouched_once_witness:
  "\<exists>m1. authorizeHelloVouch toy_crypto 500000000 500000000 True [] toy_hello [] = (True, m1) \<and>
     \<not> fst (authorizeHelloVouch toy_crypto 7000000000 7000000000 True [] toy_hello m1)"
proof -
  obtain m1 where m1: "authorizeHelloVouch toy_crypto 500000000 500000000 True [] toy_hello [] = (True, m1)"
    using toy_vouched by blast
  from hello_vouched_once [OF m1 toy_hello_facts(2), of "[]" 7000000000 7000000000 True "[]"]
  have "\<not> fst (authorizeHelloVouch toy_crypto 7000000000 7000000000 True [] toy_hello m1)"
    by (simp add: unix_def nanos_def vouchWindow_def)
  with m1 show ?thesis by blast
qed

text \<open>The gap: the freshness check works in whole seconds and still accepts second
  \<open>timestamp + 60\<close>, but the entry that refuses a replay expires within that second. A Hello stamped 0
  and vouched for at 0.5 s is vouched for again at 60.7 s.\<close>

lemma hello_replay_gap:
  "\<exists>m1. authorizeHelloVouch toy_crypto 500000000 500000000 True [] toy_hello [] = (True, m1) \<and>
     fst (authorizeHelloVouch toy_crypto 60700000000 60700000000 True [] toy_hello m1)"
  using toy_hello_facts
  by (auto simp: authorizeHelloVouch_def rememberHello_def helloReplayCapacity_def unix_def nanos_def
      vouchWindow_def Let_def)

end
