(* ===== verification/Chunks.thy ===== *)
theory Chunks
  imports Envelope
begin

text \<open>
  internal/protocol/messages.go: splitting a large plaintext into \<open>Chunk\<close> messages and putting an
  in-order chunk sequence together again. \<open>Index\<close> and \<open>Count\<close> arrive from the peer as JSON
  integers, so they are integers here and every check of \<open>Add\<close> matters. A complete message is
  \<open>Some\<close>; as in Go, where a nil slice and an empty append are the same, a chunk sequence
  carrying no bytes at all completes as "nothing yet".
\<close>

definition ChunkThreshold :: nat where "ChunkThreshold = 1048576"

record Chunk =
  ch_index :: int
  ch_count :: int
  ch_data :: bytes

record ChunkAssembler =
  ca_buf :: bytes
  ca_next :: int
  ca_count :: int

datatype chunk_error = ErrChunkOrder | ChunkTooLarge

definition reset_assembler :: ChunkAssembler where
  "reset_assembler = \<lparr>ca_buf = [], ca_next = 0, ca_count = 0\<rparr>"

definition split_count :: "bytes \<Rightarrow> nat" where
  "split_count plain = (length plain + ChunkThreshold - 1) div ChunkThreshold"

definition SplitChunks :: "bytes \<Rightarrow> Chunk list" where
  "SplitChunks plain =
     (if length plain \<le> ChunkThreshold then []
      else map (\<lambda>i. \<lparr>ch_index = int i, ch_count = int (split_count plain),
               ch_data = take (min ((i + 1) * ChunkThreshold) (length plain) - i * ChunkThreshold)
                 (drop (i * ChunkThreshold) plain)\<rparr>)
             [0..<split_count plain])"

definition Add :: "Chunk \<Rightarrow> ChunkAssembler \<Rightarrow> (chunk_error + bytes option) \<times> ChunkAssembler" where
  "Add c a =
     (if ch_count c \<le> 0 \<or> ch_index c \<noteq> ca_next a \<or> (ca_next a > 0 \<and> ch_count c \<noteq> ca_count a)
      then (Inl ErrChunkOrder, reset_assembler)
      else if length (ca_buf a) + length (ch_data c) > MaxPlaintext
      then (Inl ChunkTooLarge, reset_assembler)
      else let buf = ca_buf a @ ch_data c; n = ca_next a + 1 in
        if n = ch_count c
        then (Inr (if buf = [] then None else Some buf), reset_assembler)
        else (Inr None, \<lparr>ca_buf = buf, ca_next = n, ca_count = ch_count c\<rparr>))"

fun add_all :: "Chunk list \<Rightarrow> ChunkAssembler \<Rightarrow> (chunk_error + bytes option) list \<times> ChunkAssembler" where
  "add_all [] a = ([], a)"
| "add_all (c # cs) a =
     (let (r, a1) = Add c a; (rs, a2) = add_all cs a1 in (r # rs, a2))"

section \<open>The assembler's state\<close>

text \<open>\<open>assembling cs a\<close>: the assembler holds exactly the chunks \<open>cs\<close>, numbered from 0, all
  announcing the same count, which is not reached yet.\<close>

definition assembling :: "Chunk list \<Rightarrow> ChunkAssembler \<Rightarrow> bool" where
  "assembling cs a \<longleftrightarrow>
     ca_buf a = concat (map ch_data cs) \<and> ca_next a = int (length cs) \<and>
     map ch_index cs = map int [0..<length cs] \<and> (\<forall>c \<in> set cs. ch_count c = ca_count a) \<and>
     (cs \<noteq> [] \<longrightarrow> int (length cs) < ca_count a) \<and> length (ca_buf a) \<le> MaxPlaintext"

lemma assembling_reset [simp]: "assembling [] reset_assembler"
  by (simp add: assembling_def reset_assembler_def)

lemma assembling_Nil: "assembling [] a \<Longrightarrow> ca_buf a = [] \<and> ca_next a = 0"
  by (simp add: assembling_def)

lemma Add_cases:
  assumes "assembling cs a" "Add c a = (r, a')"
  obtains (err) e where "r = Inl e" "a' = reset_assembler"
  | (last) "r = Inr (let b = concat (map ch_data (cs @ [c])) in if b = [] then None else Some b)"
      "a' = reset_assembler" "map ch_index (cs @ [c]) = map int [0..<length (cs @ [c])]"
      "\<forall>x \<in> set (cs @ [c]). ch_count x = int (length (cs @ [c]))"
      "length (concat (map ch_data (cs @ [c]))) \<le> MaxPlaintext"
  | (more) "r = Inr None" "assembling (cs @ [c]) a'"
proof -
  have a: "ca_buf a = concat (map ch_data cs)" "ca_next a = int (length cs)"
    "map ch_index cs = map int [0..<length cs]" "\<forall>x \<in> set cs. ch_count x = ca_count a"
    "cs \<noteq> [] \<longrightarrow> int (length cs) < ca_count a"
    using assms(1) by (auto simp: assembling_def)
  let ?bad = "ch_count c \<le> 0 \<or> ch_index c \<noteq> ca_next a \<or> (ca_next a > 0 \<and> ch_count c \<noteq> ca_count a)"
  let ?big = "length (ca_buf a) + length (ch_data c) > MaxPlaintext"
  consider (e) ?bad | (big) "\<not> ?bad" ?big | (ok) "\<not> ?bad" "\<not> ?big" by blast
  then show thesis
  proof cases
    case e
    with assms(2) show ?thesis by (intro err) (auto simp: Add_def)
  next
    case big
    with assms(2) show ?thesis by (intro err) (auto simp: Add_def)
  next
    case ok
    then have fine: "ch_count c > 0" "ch_index c = ca_next a"
        "ca_next a > 0 \<longrightarrow> ch_count c = ca_count a"
        "length (ca_buf a) + length (ch_data c) \<le> MaxPlaintext" by auto
    have idx: "map ch_index (cs @ [c]) = map int [0..<length (cs @ [c])]"
      using a(2,3) fine(2) by simp
    have cnt: "\<forall>x \<in> set (cs @ [c]). ch_count x = ch_count c"
      using a(2,4) fine(3) by (cases cs) auto
    show ?thesis
    proof (cases "ca_next a + 1 = ch_count c")
      case True
      have "Add c a = (Inr (if ca_buf a @ ch_data c = [] then None else Some (ca_buf a @ ch_data c)),
          reset_assembler)"
        using True fine by (simp add: Add_def Let_def)
      with assms(2) have r: "r = Inr (if ca_buf a @ ch_data c = [] then None else Some (ca_buf a @ ch_data c))"
        and a': "a' = reset_assembler" by simp_all
      have buf: "concat (map ch_data (cs @ [c])) = ca_buf a @ ch_data c" using a(1) by simp
      have n: "ch_count c = int (length (cs @ [c]))" using True a(2) by simp
      show ?thesis
      proof (rule last)
        show "r = Inr (let b = concat (map ch_data (cs @ [c])) in if b = [] then None else Some b)"
          unfolding buf Let_def by (rule r)
        show "\<forall>x \<in> set (cs @ [c]). ch_count x = int (length (cs @ [c]))"
          using cnt unfolding n .
        show "length (concat (map ch_data (cs @ [c]))) \<le> MaxPlaintext"
          unfolding buf using fine(4) by simp
      qed (fact a', fact idx)
    next
      case False
      have "Add c a = (Inr None, \<lparr>ca_buf = ca_buf a @ ch_data c, ca_next = ca_next a + 1,
          ca_count = ch_count c\<rparr>)"
        using False fine by (simp add: Add_def Let_def)
      with assms(2) have r: "r = Inr None" and a': "a' = \<lparr>ca_buf = ca_buf a @ ch_data c,
          ca_next = ca_next a + 1, ca_count = ch_count c\<rparr>" by simp_all
      have "int (length (cs @ [c])) < ch_count c"
        using False fine(1,3) a(2,5) by (cases "cs = []") auto
      have "ca_buf a' = concat (map ch_data (cs @ [c]))" "ca_next a' = int (length (cs @ [c]))"
        "ca_count a' = ch_count c" "length (ca_buf a') \<le> MaxPlaintext"
        using a' fine(4) a(1,2) by simp_all
      with idx cnt \<open>int (length (cs @ [c])) < ch_count c\<close> have "assembling (cs @ [c]) a'"
        unfolding assembling_def by metis
      with r show ?thesis by (rule more)
    qed
  qed
qed

lemma Add_assembling:
  assumes "assembling cs a"
  shows "\<exists>cs'. assembling cs' (snd (Add c a))"
proof -
  obtain r a' where ad: "Add c a = (r, a')" by fastforce
  have "\<exists>cs'. assembling cs' a'"
  proof (rule Add_cases [OF assms ad])
    fix e assume "a' = reset_assembler"
    then show ?thesis using assembling_reset by blast
  next
    assume "a' = reset_assembler"
    then show ?thesis using assembling_reset by blast
  next
    assume "assembling (cs @ [c]) a'"
    then show ?thesis by blast
  qed
  with ad show ?thesis by simp
qed

interpretation assembler: machine "\<lambda>c a. snd (Add c a)" "\<lambda>a. \<exists>cs. assembling cs a"
  using Add_assembling by unfold_locales blast

lemma add_all_snd: "snd (add_all cs a) = fold (\<lambda>c a. snd (Add c a)) cs a"
  by (induction cs arbitrary: a) (auto simp: case_prod_beta Let_def)

lemma length_add_all [simp]: "length (fst (add_all cs a)) = length cs"
  by (induction cs arbitrary: a) (auto simp: case_prod_beta Let_def)

text \<open>
  A peer cannot make the assembler grow past \<open>MaxPlaintext\<close>: after any sequence of chunk
  messages whatsoever (any indices, counts and data), the partial message it buffers is at most
  \<open>MaxPlaintext\<close> bytes, and its next index is the number of chunks it holds.
\<close>

theorem assembler_bounded:
  "length (ca_buf (snd (add_all cs reset_assembler))) \<le> MaxPlaintext \<and>
   0 \<le> ca_next (snd (add_all cs reset_assembler))"
proof -
  have "\<exists>ds. assembling ds (snd (add_all cs reset_assembler))"
    unfolding add_all_snd by (rule assembler.run_inv) (blast intro: assembling_reset)
  then show ?thesis by (auto simp: assembling_def)
qed

lemma add_all_complete:
  assumes "assembling ds a" "fst (add_all (cs @ [c]) a) = rs @ [Inr (Some m)]"
  shows "\<exists>k. m = concat (map ch_data (drop k (ds @ cs @ [c]))) \<and>
    map ch_index (drop k (ds @ cs @ [c])) = map int [0..<length (drop k (ds @ cs @ [c]))] \<and>
    (\<forall>x \<in> set (drop k (ds @ cs @ [c])). ch_count x = int (length (drop k (ds @ cs @ [c]))))"
  using assms
proof (induction cs arbitrary: ds a rs)
  case Nil
  obtain r a' where ad: "Add c a = (r, a')" by fastforce
  with Nil.prems(2) have r: "r = Inr (Some m)" by simp
  have "m = concat (map ch_data (ds @ [c])) \<and> map ch_index (ds @ [c]) = map int [0..<length (ds @ [c])] \<and>
      (\<forall>x \<in> set (ds @ [c]). ch_count x = int (length (ds @ [c])))"
  proof (rule Add_cases [OF Nil.prems(1) ad])
    assume "r = Inr (let b = concat (map ch_data (ds @ [c])) in if b = [] then None else Some b)"
      and idx: "map ch_index (ds @ [c]) = map int [0..<length (ds @ [c])]"
      and cnt: "\<forall>x \<in> set (ds @ [c]). ch_count x = int (length (ds @ [c]))"
    then have "m = concat (map ch_data (ds @ [c]))"
      using r by (simp only: Let_def sum.inject split: if_splits) simp_all
    with idx cnt show ?thesis by blast
  qed (use r in auto)
  then show ?case by (intro exI [of _ 0]) (unfold drop_0 append_Nil, assumption)
next
  case (Cons x cs)
  obtain r a' where ad: "Add x a = (r, a')" by fastforce
  have tail: "\<exists>ts. fst (add_all (cs @ [c]) a') = ts @ [Inr (Some m)]"
    using Cons.prems(2) ad length_add_all [of "cs @ [c]" a']
    by (cases rs) (auto simp: case_prod_beta Let_def)
  then obtain ts where ts: "fst (add_all (cs @ [c]) a') = ts @ [Inr (Some m)]" by blast
  show ?case
  proof (rule Add_cases [OF Cons.prems(1) ad])
    assume "assembling (ds @ [x]) a'"
    from Cons.IH [OF this ts] show ?thesis by simp
  next
    fix e assume "a' = reset_assembler"
    with Cons.IH [of "[]" a' ts] ts obtain k where
      "m = concat (map ch_data (drop k (cs @ [c]))) \<and>
       map ch_index (drop k (cs @ [c])) = map int [0..<length (drop k (cs @ [c]))] \<and>
       (\<forall>x \<in> set (drop k (cs @ [c])). ch_count x = int (length (drop k (cs @ [c]))))" by auto
    then show ?thesis by (intro exI [of _ "length (ds @ [x]) + k"]) simp
  next
    assume "a' = reset_assembler"
    with Cons.IH [of "[]" a' ts] ts obtain k where
      "m = concat (map ch_data (drop k (cs @ [c]))) \<and>
       map ch_index (drop k (cs @ [c])) = map int [0..<length (drop k (cs @ [c]))] \<and>
       (\<forall>x \<in> set (drop k (cs @ [c])). ch_count x = int (length (drop k (cs @ [c]))))" by auto
    then show ?thesis by (intro exI [of _ "length (ds @ [x]) + k"]) simp
  qed
qed

section \<open>Splitting and reassembling\<close>

lemma split_count_bounds:
  assumes "length plain > ChunkThreshold"
  shows "1 < split_count plain" "(split_count plain - 1) * ChunkThreshold < length plain"
    "length plain \<le> split_count plain * ChunkThreshold"
  using assms unfolding split_count_def ChunkThreshold_def by linarith+

definition piece :: "bytes \<Rightarrow> nat \<Rightarrow> bytes" where
  "piece plain i = take (min ((i + 1) * ChunkThreshold) (length plain) - i * ChunkThreshold)
     (drop (i * ChunkThreshold) plain)"

lemma concat_pieces:
  "n \<le> split_count plain \<Longrightarrow>
   concat (map (piece plain) [0..<n]) = take (n * ChunkThreshold) plain"
proof (induction n)
  case (Suc n)
  have "take (n * ChunkThreshold) plain @ piece plain n = take (Suc n * ChunkThreshold) plain"
  proof -
    have "piece plain n = take ChunkThreshold (drop (n * ChunkThreshold) plain)"
      by (cases "Suc n * ChunkThreshold \<le> length plain") (auto simp: piece_def min_def)
    moreover have "Suc n * ChunkThreshold = n * ChunkThreshold + ChunkThreshold" by simp
    ultimately show ?thesis by (simp only: take_add)
  qed
  with Suc show ?case by simp
qed simp

lemma SplitChunks_alt:
  "length plain > ChunkThreshold \<Longrightarrow> SplitChunks plain =
     map (\<lambda>i. \<lparr>ch_index = int i, ch_count = int (split_count plain), ch_data = piece plain i\<rparr>)
       [0..<split_count plain]"
  by (simp add: SplitChunks_def piece_def)

definition part_state :: "bytes \<Rightarrow> nat \<Rightarrow> ChunkAssembler" where
  "part_state plain i =
     (if i = 0 then reset_assembler
      else \<lparr>ca_buf = take (i * ChunkThreshold) plain, ca_next = int i,
            ca_count = int (split_count plain)\<rparr>)"

lemma Add_piece:
  assumes "length plain > ChunkThreshold" "length plain \<le> MaxPlaintext" "i < split_count plain"
  shows "Add \<lparr>ch_index = int i, ch_count = int (split_count plain), ch_data = piece plain i\<rparr>
      (part_state plain i) =
    (if Suc i = split_count plain then (Inr (Some plain), reset_assembler)
     else (Inr None, part_state plain (Suc i)))"
proof -
  have buf: "ca_buf (part_state plain i) @ piece plain i = take (Suc i * ChunkThreshold) plain"
    using concat_pieces [of i plain] concat_pieces [of "Suc i" plain] assms(3)
    by (auto simp: part_state_def reset_assembler_def)
  have "length (ca_buf (part_state plain i)) + length (piece plain i) \<le> MaxPlaintext"
    using assms(2) by (simp flip: length_append add: buf)
  moreover have "length plain \<le> Suc i * ChunkThreshold" "plain \<noteq> []" if "Suc i = split_count plain"
    using split_count_bounds(3) [OF assms(1)] assms(1) that by auto
  moreover have "ca_next (part_state plain i) = int i"
    "0 < i \<Longrightarrow> ca_count (part_state plain i) = int (split_count plain)"
    by (auto simp: part_state_def reset_assembler_def)
  ultimately show ?thesis
    using assms(3) unfolding Add_def Let_def Chunk.simps buf
    by (auto simp: part_state_def)
qed

lemma add_all_pieces:
  assumes "length plain > ChunkThreshold" "length plain \<le> MaxPlaintext"
    and "i + n = split_count plain" "0 < n"
  shows "add_all (map (\<lambda>i. \<lparr>ch_index = int i, ch_count = int (split_count plain), ch_data = piece plain i\<rparr>)
       [i..<split_count plain]) (part_state plain i) =
    (replicate (n - 1) (Inr None) @ [Inr (Some plain)], reset_assembler)"
  using assms(3,4)
proof (induction n arbitrary: i)
  case (Suc n)
  then have lt: "i < split_count plain" by simp
  show ?case
  proof (cases n)
    case 0
    with Suc.prems Add_piece [OF assms(1,2) lt] show ?thesis
      by (simp add: upt_conv_Cons)
  next
    case (Suc m)
    with Suc.IH [of "Suc i"] \<open>i + Suc n = split_count plain\<close> Add_piece [OF assms(1,2) lt] lt
    show ?thesis by (simp add: upt_conv_Cons)
  qed
qed simp

text \<open>
  C35. Chunking round-trips: for every plaintext above the threshold and within \<open>MaxPlaintext\<close>,
  feeding the chunks of \<open>SplitChunks\<close> to a fresh assembler yields "more expected" for every chunk
  but the last, the original plaintext for the last, and a fresh assembler afterwards.
\<close>

theorem split_assemble:
  assumes "length plain > ChunkThreshold" "length plain \<le> MaxPlaintext"
  shows "add_all (SplitChunks plain) reset_assembler =
    (replicate (length (SplitChunks plain) - 1) (Inr None) @ [Inr (Some plain)], reset_assembler)"
proof -
  have "0 < split_count plain" using split_count_bounds [OF assms(1)] by simp
  with add_all_pieces [OF assms, of 0 "split_count plain"] show ?thesis
    by (simp add: SplitChunks_alt [OF assms(1)] part_state_def)
qed

lemma split_assemble_witness:
  "add_all (SplitChunks (replicate 1048577 1)) reset_assembler =
    (replicate (length (SplitChunks (replicate 1048577 1)) - 1) (Inr None) @
     [Inr (Some (replicate 1048577 1))], reset_assembler)"
  by (rule split_assemble) (simp_all add: ChunkThreshold_def MaxPlaintext_def del: replicate.simps)

text \<open>
  A completed message is made of one in-order chunk sequence: when the assembler, fed any
  chunks, completes a message, the message is the concatenation of the data of the last chunks
  received, which are numbered 0, 1, \dots, n-1 without a gap and all announce the count n.
\<close>

theorem assembled_in_order:
  assumes "fst (add_all (cs @ [c]) reset_assembler) = rs @ [Inr (Some m)]"
  shows "\<exists>k. m = concat (map ch_data (drop k (cs @ [c]))) \<and>
    map ch_index (drop k (cs @ [c])) = map int [0..<length (drop k (cs @ [c]))] \<and>
    (\<forall>x \<in> set (drop k (cs @ [c])). ch_count x = int (length (drop k (cs @ [c]))))"
  using add_all_complete [OF assembling_reset assms] by simp

definition mk_chunk :: "int \<Rightarrow> int \<Rightarrow> bytes \<Rightarrow> Chunk" where
  "mk_chunk i n d = \<lparr>ch_index = i, ch_count = n, ch_data = d\<rparr>"

lemma assembled_in_order_witness:
  "\<exists>k. [5, 6 :: byte] = concat (map ch_data (drop k ([mk_chunk 0 3 [9], mk_chunk 1 2 [8], mk_chunk 0 2 [5]] @ [mk_chunk 1 2 [6]])))"
proof -
  have "fst (add_all ([mk_chunk 0 3 [9], mk_chunk 1 2 [8], mk_chunk 0 2 [5]] @ [mk_chunk 1 2 [6]]) reset_assembler)
    = [Inr None, Inl ErrChunkOrder, Inr None] @ [Inr (Some [5, 6])]"
    by (simp add: Add_def mk_chunk_def reset_assembler_def MaxPlaintext_def)
  from assembled_in_order [OF this] show ?thesis by blast
qed

end
