(* ===== verification/StateStore.thy ===== *)
theory StateStore
  imports Identity
begin

text \<open>
  internal/state/state.go: the on-disk state and its transactions. The disk holds what each file
  decodes to; a file is absent, corrupt (its text does not decode), or holds a value. The text of
  devices.json and config.json is not modelled, that of identity.key is. What the operating
  system does to one operation (locks, reads, each step of an atomic write) is an argument of type
  \<open>faults\<close>, so every error path is a branch. Errors are lists, the empty list for nil, because
  \<open>errors.Join\<close> collects several.
\<close>

section \<open>Disk and faults\<close>

datatype 'a contents = Absent | Corrupt | Data 'a

record Config =
  cfTransport :: string
  cfRelayURL :: string
  cfHTTPSPort :: int
  cfBridgePort :: int
  cfName :: string
  cfPython :: string

record Device =
  dID :: string
  dName :: string
  dFirstSeen :: gotime
  dLastSeen :: gotime

record disk =
  dk_identity :: "string contents"
  dk_config :: "Config contents"
  dk_devices :: "Device list contents"
  dk_temps :: nat

record Store =
  st_disk :: disk
  st_closed :: bool

text \<open>The steps of \<open>writeFile\<close>; a fault names the one that fails.\<close>

datatype write_step = CreateTemp | ChmodTemp | WriteTemp | SyncTemp | CloseTemp | RenameTemp | SyncDir

record faults =
  f_gate :: bool
  f_lock :: bool
  f_unlock :: bool
  f_read :: bool
  f_write :: "write_step option"

definition no_faults :: faults where
  "no_faults = \<lparr>f_gate = True, f_lock = True, f_unlock = True, f_read = True, f_write = None\<rparr>"

datatype state_error =
    ErrLockTimeout | ErrClosed | LockFailed | UnlockFailed | ReadFailed | CorruptFile | WriteFailed write_step
  | RngExhausted | BadSeed | NotTrusted | Ambiguous | NoMatch | ErrMutationCommitted "state_error list"

definition is_committed :: "state_error list \<Rightarrow> bool" where
  "is_committed es \<longleftrightarrow> list_ex (\<lambda>e. case e of ErrMutationCommitted _ \<Rightarrow> True | _ \<Rightarrow> False) es"

section \<open>Atomic writes\<close>

text \<open>The disk after each step that succeeds: \<open>put\<close> stores the new value under the file's name, which
  only the rename does. The deferred function removes the temporary file, if it still exists.\<close>

definition write_progress :: "(disk \<Rightarrow> disk) \<Rightarrow> write_step \<Rightarrow> disk \<Rightarrow> disk" where
  "write_progress put st d =
     (case st of
        CreateTemp \<Rightarrow> d\<lparr>dk_temps := Suc (dk_temps d)\<rparr>
      | RenameTemp \<Rightarrow> (put d)\<lparr>dk_temps := dk_temps d - 1\<rparr>
      | _ \<Rightarrow> d)"

definition write_steps :: "write_step list" where
  "write_steps = [CreateTemp, ChmodTemp, WriteTemp, SyncTemp, CloseTemp, RenameTemp, SyncDir]"

text \<open>The disks a crash could leave, newest last.\<close>

fun write_trace :: "(disk \<Rightarrow> disk) \<Rightarrow> write_step option \<Rightarrow> write_step list \<Rightarrow> disk \<Rightarrow> disk list" where
  "write_trace put fail [] d = []"
| "write_trace put fail (st # sts) d =
     (if fail = Some st then [] else write_progress put st d # write_trace put fail sts (write_progress put st d))"

definition remove_temp :: "nat \<Rightarrow> disk \<Rightarrow> disk" where
  "remove_temp n d = (if dk_temps d > n then d\<lparr>dk_temps := n\<rparr> else d)"

definition writeFile :: "faults \<Rightarrow> (disk \<Rightarrow> disk) \<Rightarrow> disk \<Rightarrow> (bool \<times> state_error list) \<times> disk" where
  "writeFile f put d =
     (let final = remove_temp (dk_temps d) (last (d # write_trace put (f_write f) write_steps d)) in
      case f_write f of
        None \<Rightarrow> ((True, []), final)
      | Some SyncDir \<Rightarrow> ((True, [WriteFailed SyncDir]), final)
      | Some st \<Rightarrow> ((False, [WriteFailed st]), final))"

section \<open>Transactions\<close>

type_synonym 'a transaction = "disk \<Rightarrow> (bool \<times> state_error list \<times> 'a) \<times> disk"

definition locked :: "faults \<Rightarrow> 'a \<Rightarrow> 'a transaction \<Rightarrow> Store \<Rightarrow> (state_error list \<times> 'a) \<times> Store" where
  "locked f dflt fn s =
     (if \<not> f_gate f then (([ErrLockTimeout], dflt), s)
      else if st_closed s then (([ErrClosed], dflt), s)
      else if \<not> f_lock f then (([LockFailed], dflt), s)
      else case fn (st_disk s) of
          ((committed, err, x), d) \<Rightarrow>
            let combined = err @ (if f_unlock f then [] else [UnlockFailed]) in
            ((if committed \<and> combined \<noteq> [] then [ErrMutationCommitted combined] else combined, x),
             s\<lparr>st_disk := d\<rparr>))"

definition devicesUnlocked :: "faults \<Rightarrow> disk \<Rightarrow> state_error list + Device list" where
  "devicesUnlocked f d =
     (if \<not> f_read f then Inl [ReadFailed]
      else case dk_devices d of Absent \<Rightarrow> Inr [] | Corrupt \<Rightarrow> Inl [CorruptFile] | Data ds \<Rightarrow> Inr ds)"

definition put_devices :: "Device list \<Rightarrow> disk \<Rightarrow> disk" where
  "put_devices ds d = d\<lparr>dk_devices := Data ds\<rparr>"

definition writeDevices :: "faults \<Rightarrow> Device list \<Rightarrow> 'a \<Rightarrow> disk \<Rightarrow> (bool \<times> state_error list \<times> 'a) \<times> disk" where
  "writeDevices f ds x d = (case writeFile f (put_devices ds) d of ((c, e), d') \<Rightarrow> ((c, e, x), d'))"

section \<open>Operations\<close>

definition Close_store :: "faults \<Rightarrow> Store \<Rightarrow> state_error list \<times> Store" where
  "Close_store f s = (if \<not> f_gate f then ([ErrLockTimeout], s) else ([], s\<lparr>st_closed := True\<rparr>))"

definition Store_Identity :: "faults \<Rightarrow> rng \<Rightarrow> Store \<Rightarrow> (state_error list \<times> Identity option) \<times> Store" where
  "Store_Identity f r s = locked f None (\<lambda>d.
     if \<not> f_read f then ((False, [ReadFailed], None), d)
     else case dk_identity d of
         Corrupt \<Rightarrow> ((False, [CorruptFile], None), d)
       | Data text \<Rightarrow>
           (case hex_decode (TrimSpace text) of
              None \<Rightarrow> ((False, [CorruptFile], None), d)
            | Some seed \<Rightarrow> (case IdentityFromSeed seed of
                  None \<Rightarrow> ((False, [BadSeed], None), d)
                | Some i \<Rightarrow> ((False, [], Some i), d)))
       | Absent \<Rightarrow>
           (case NewIdentity r of
              None \<Rightarrow> ((False, [RngExhausted], None), d)
            | Some (i, _) \<Rightarrow>
                (case writeFile f (\<lambda>d. d\<lparr>dk_identity := Data (hex_encode (Seed i) @ [CHR 0x0A])\<rparr>) d of
                   ((c, e), d') \<Rightarrow> ((c, e, Some i), d')))) s"

definition zero_config :: Config where
  "zero_config = \<lparr>cfTransport = [], cfRelayURL = [], cfHTTPSPort = 0, cfBridgePort = 0, cfName = [], cfPython = []\<rparr>"

definition Load_Config :: "faults \<Rightarrow> Store \<Rightarrow> (state_error list \<times> Config) \<times> Store" where
  "Load_Config f s = locked f zero_config (\<lambda>d.
     if \<not> f_read f then ((False, [ReadFailed], zero_config), d)
     else case dk_config d of
         Absent \<Rightarrow> ((False, [], zero_config), d)
       | Corrupt \<Rightarrow> ((False, [CorruptFile], zero_config), d)
       | Data c \<Rightarrow> ((False, [], c), d)) s"

definition SaveConfig :: "faults \<Rightarrow> Config \<Rightarrow> Store \<Rightarrow> state_error list \<times> Store" where
  "SaveConfig f c s =
     (case locked f () (\<lambda>d. case writeFile f (\<lambda>d. d\<lparr>dk_config := Data c\<rparr>) d of
        ((cm, e), d') \<Rightarrow> ((cm, e, ()), d')) s of ((e, _), s') \<Rightarrow> (e, s'))"

definition Devices :: "faults \<Rightarrow> Store \<Rightarrow> (state_error list \<times> Device list) \<times> Store" where
  "Devices f s = locked f [] (\<lambda>d.
     case devicesUnlocked f d of Inl e \<Rightarrow> ((False, e, []), d) | Inr ds \<Rightarrow> ((False, [], ds), d)) s"

text \<open>The loops over the devices update the first one with the id.\<close>

fun update_first :: "string \<Rightarrow> (Device \<Rightarrow> Device) \<Rightarrow> Device list \<Rightarrow> Device list option" where
  "update_first i g [] = None"
| "update_first i g (x # xs) =
     (if dID x = i then Some (g x # xs) else map_option ((#) x) (update_first i g xs))"

definition IsTrusted :: "faults \<Rightarrow> gotime \<Rightarrow> bytes \<Rightarrow> Store \<Rightarrow> bool \<times> Store" where
  "IsTrusted f now phoneID s =
     (case locked f False (\<lambda>d.
        case devicesUnlocked f d of
          Inl e \<Rightarrow> ((False, e, False), d)
        | Inr ds \<Rightarrow>
            (case update_first (DeviceID phoneID) (\<lambda>x. x\<lparr>dLastSeen := now\<rparr>) ds of
               None \<Rightarrow> ((False, [], False), d)
             | Some ds' \<Rightarrow>
                 (case writeFile f (put_devices ds') d of
                    ((c, e), d') \<Rightarrow> ((c, e, c \<or> e = []), d')))) s of
       ((err, trusted), s') \<Rightarrow> (err = [] \<and> trusted, s'))"

definition rename :: "string \<Rightarrow> Device \<Rightarrow> Device" where
  "rename name x = (if name \<noteq> [] then x\<lparr>dName := name\<rparr> else x)"

definition AddTrusted :: "faults \<Rightarrow> gotime \<Rightarrow> bytes \<Rightarrow> string \<Rightarrow> Store \<Rightarrow> state_error list \<times> Store" where
  "AddTrusted f now phoneID name s =
     (case locked f () (\<lambda>d.
        case devicesUnlocked f d of
          Inl e \<Rightarrow> ((False, e, ()), d)
        | Inr ds \<Rightarrow>
            (case update_first (DeviceID phoneID) (\<lambda>x. rename name (x\<lparr>dLastSeen := now\<rparr>)) ds of
               Some ds' \<Rightarrow> writeDevices f ds' () d
             | None \<Rightarrow> writeDevices f (ds @ [\<lparr>dID = DeviceID phoneID, dName = name, dFirstSeen = now,
                 dLastSeen = now\<rparr>]) () d)) s of
       ((e, _), s') \<Rightarrow> (e, s'))"

definition Trust :: "faults \<Rightarrow> gotime \<Rightarrow> bytes \<Rightarrow> string \<Rightarrow> Store \<Rightarrow> state_error list \<times> Store" where
  "Trust f now phoneID name s =
     (case locked f () (\<lambda>d.
        case devicesUnlocked f d of
          Inl e \<Rightarrow> ((False, e, ()), d)
        | Inr ds \<Rightarrow>
            (case update_first (DeviceID phoneID) (\<lambda>x. rename name (x\<lparr>dLastSeen := now\<rparr>)) ds of
               Some ds' \<Rightarrow> writeDevices f ds' () d
             | None \<Rightarrow> ((False, [NotTrusted], ()), d))) s of
       ((e, _), s') \<Rightarrow> (e, s'))"

text \<open>The search of \<open>Revoke\<close>: the only device whose id has the prefix.\<close>

definition matching_index :: "string \<Rightarrow> Device list \<Rightarrow> state_error + nat" where
  "matching_index p ds =
     (case filter (\<lambda>i. dID (ds ! i) = p \<or> has_prefix (dID (ds ! i)) p) [0..<length ds] of
        [] \<Rightarrow> Inl NoMatch
      | [i] \<Rightarrow> Inr i
      | _ \<Rightarrow> Inl Ambiguous)"

definition Revoke_store :: "faults \<Rightarrow> string \<Rightarrow> Store \<Rightarrow> (state_error list \<times> Device option) \<times> Store" where
  "Revoke_store f p s =
     (case locked f None (\<lambda>d.
        case devicesUnlocked f d of
          Inl e \<Rightarrow> ((False, e, None), d)
        | Inr ds \<Rightarrow>
            (case matching_index p ds of
               Inl e \<Rightarrow> ((False, [e], None), d)
             | Inr i \<Rightarrow> writeDevices f (take i ds @ drop (Suc i) ds) (Some (ds ! i)) d)) s of
       ((err, removed), s') \<Rightarrow>
         ((err, if err \<noteq> [] \<and> \<not> is_committed err then None else removed), s'))"

end
