(* ===== verification/StateStoreSafety.thy ===== *)
theory StateStoreSafety
  imports StateStore
begin

text \<open>
  Theorems about the state store: writes are atomic at every instant, an operation's error says
  whether it took effect, only \<open>AddTrusted\<close> makes a device trusted, and a revoked device stays
  untrusted; and the store as a trust registry.
\<close>

section \<open>Writes\<close>

definition temp_free :: "(disk \<Rightarrow> disk) \<Rightarrow> bool" where
  "temp_free put \<longleftrightarrow> (\<forall>d n. put (d\<lparr>dk_temps := n\<rparr>) = (put d)\<lparr>dk_temps := n\<rparr>) \<and> (\<forall>d. dk_temps (put d) = dk_temps d)"

lemma temp_free_puts [simp]:
  "temp_free (put_devices ds)" "temp_free (\<lambda>d. d\<lparr>dk_config := c\<rparr>)" "temp_free (\<lambda>d. d\<lparr>dk_identity := i\<rparr>)"
  by (simp_all add: temp_free_def put_devices_def)

lemma writeFile_outcome:
  assumes "temp_free put"
  shows "writeFile f put d =
    (case f_write f of
       None \<Rightarrow> ((True, []), put d)
     | Some st \<Rightarrow> ((st = SyncDir, [WriteFailed st]), if st = SyncDir then put d else d))"
proof -
  have 1: "put (d\<lparr>dk_temps := n\<rparr>) = (put d)\<lparr>dk_temps := n\<rparr>" "dk_temps (put d) = dk_temps d" for d n
    using assms by (simp_all add: temp_free_def)
  have 2: "(put d)\<lparr>dk_temps := dk_temps d\<rparr> = put d"
    using 1(2) [of d] by (cases "put d") simp
  show ?thesis
  proof (cases "f_write f")
    case None
    then show ?thesis by (simp add: writeFile_def write_steps_def write_progress_def remove_temp_def 1 2)
  next
    case (Some st)
    then show ?thesis
      by (cases st) (simp_all add: writeFile_def write_steps_def write_progress_def remove_temp_def 1 2)
  qed
qed

text \<open>
  C27. Writes are atomic: at every instant of \<open>writeFile\<close>, whichever step fails or wherever the machine
  stops, the named file holds its old contents or the complete new ones; the operation reports
  \<open>committed\<close> exactly when the new contents are in place, and leaves no temporary file behind.
\<close>

theorem write_atomic:
  assumes "put = put_devices ds \<or> put = (\<lambda>d. d\<lparr>dk_config := c\<rparr>) \<or> put = (\<lambda>d. d\<lparr>dk_identity := i\<rparr>)"
  shows "(\<forall>x \<in> set (write_trace put (f_write f) write_steps d).
      x\<lparr>dk_temps := 0\<rparr> \<in> {d\<lparr>dk_temps := 0\<rparr>, (put d)\<lparr>dk_temps := 0\<rparr>}) \<and>
    snd (writeFile f put d) = (if fst (fst (writeFile f put d)) then put d else d)"
proof
  have tf: "temp_free put" using assms by auto
  then have 1: "put (d\<lparr>dk_temps := n\<rparr>) = (put d)\<lparr>dk_temps := n\<rparr>" for d n
    by (simp add: temp_free_def)
  show "\<forall>x \<in> set (write_trace put (f_write f) write_steps d).
      x\<lparr>dk_temps := 0\<rparr> \<in> {d\<lparr>dk_temps := 0\<rparr>, (put d)\<lparr>dk_temps := 0\<rparr>}"
    by (auto simp: write_steps_def write_progress_def 1)
  show "snd (writeFile f put d) = (if fst (fst (writeFile f put d)) then put d else d)"
    by (simp add: writeFile_outcome [OF tf] split: option.split)
qed

definition empty_store :: Store where
  "empty_store = \<lparr>st_disk = \<lparr>dk_identity = Absent, dk_config = Absent, dk_devices = Absent, dk_temps = 0\<rparr>,
     st_closed = False\<rparr>"

lemma write_atomic_witness:
  "snd (writeFile (no_faults\<lparr>f_write := Some WriteTemp\<rparr>) (put_devices []) (st_disk empty_store)) =
     st_disk empty_store"
  using write_atomic [of "put_devices []" "[]" undefined undefined "no_faults\<lparr>f_write := Some WriteTemp\<rparr>"
      "st_disk empty_store"]
  by (simp add: writeFile_outcome no_faults_def)

section \<open>Transactions\<close>

text \<open>Ids on disk.\<close>

definition ids :: "Store \<Rightarrow> string set" where
  "ids s = (case dk_devices (st_disk s) of Data ds \<Rightarrow> dID ` set ds | _ \<Rightarrow> {})"

definition distinct_ids :: "Store \<Rightarrow> bool" where
  "distinct_ids s \<longleftrightarrow> (case dk_devices (st_disk s) of Data ds \<Rightarrow> distinct (map dID ds) | _ \<Rightarrow> True)"

text \<open>A transaction that changes the disk only when it reports a commit, and reports plain errors.\<close>

definition honest :: "'a transaction \<Rightarrow> bool" where
  "honest fn \<longleftrightarrow> (\<forall>d c e x d'. fn d = ((c, e, x), d') \<longrightarrow> (\<not> c \<longrightarrow> d' = d) \<and> \<not> is_committed e)"

lemma locked_cases:
  assumes "locked f dflt fn s = ((e, x), s')" "honest fn"
  obtains (skipped) "s' = s" "\<not> is_committed e" "e \<noteq> []" "x = dflt"
    | (failed) er where "fn (st_disk s) = ((False, er, x), st_disk s)" "s' = s" "\<not> is_committed e"
        "e = [] \<longrightarrow> er = []"
    | (committed) er d where "fn (st_disk s) = ((True, er, x), d)" "s' = s\<lparr>st_disk := d\<rparr>"
        "e = [] \<or> is_committed e"
proof -
  obtain c er y d where fn: "fn (st_disk s) = ((c, er, y), d)" by (metis prod.exhaust_sel)
  with assms(2) have h: "\<not> c \<longrightarrow> d = st_disk s" "\<not> is_committed er" by (auto simp: honest_def)
  consider "\<not> f_gate f \<or> st_closed s \<or> \<not> f_lock f" | "f_gate f" "\<not> st_closed s" "f_lock f" by blast
  then show ?thesis
  proof cases
    case 1
    with assms(1) show ?thesis
      by (intro skipped) (auto simp: locked_def is_committed_def split: if_splits)
  next
    case 2
    with assms(1) fn have r: "x = y" "s' = s\<lparr>st_disk := d\<rparr>"
      "e = (let combined = er @ (if f_unlock f then [] else [UnlockFailed]) in
        if c \<and> combined \<noteq> [] then [ErrMutationCommitted combined] else combined)"
      by (auto simp: locked_def Let_def)
    show ?thesis
    proof (cases c)
      case True
      with fn r show ?thesis by (intro committed) (auto simp: is_committed_def Let_def)
    next
      case False
      with fn r h show ?thesis by (intro failed) (auto simp: is_committed_def Let_def split: if_splits)
    qed
  qed
qed

lemma honest_writeDevices:
  "\<not> is_committed [WriteFailed st]"
  "writeDevices f ds x d = ((c, e, y), d') \<Longrightarrow> (\<not> c \<longrightarrow> d' = d) \<and> \<not> is_committed e"
  by (auto simp: writeDevices_def writeFile_outcome is_committed_def split: option.splits)

lemma writeDevices_done:
  "writeDevices f ds x d = ((True, e, y), d') \<Longrightarrow> d' = put_devices ds d \<and> y = x"
  by (auto simp: writeDevices_def writeFile_outcome split: option.splits)

text \<open>An operation took effect: it returned no error, or the error of a committed mutation.\<close>

definition effective :: "state_error list \<Rightarrow> bool" where
  "effective e \<longleftrightarrow> e = [] \<or> is_committed e"

lemma update_first_ids:
  assumes "\<And>x. dID (g x) = dID x"
  shows "update_first i g ds = Some ds' \<Longrightarrow> map dID ds' = map dID ds \<and> i \<in> dID ` set ds"
    and "update_first i g ds = None \<Longrightarrow> i \<notin> dID ` set ds"
proof (induction ds arbitrary: ds')
  case (Cons x xs)
  { case 1 then show ?case using Cons.IH(1) by (auto simp: assms split: if_splits) }
  { case 2 then show ?case using Cons.IH(2) by (auto split: if_splits) }
qed auto

lemma rename_dID [simp]: "dID (rename name (x\<lparr>dLastSeen := now\<rparr>)) = dID x"
  by (simp add: rename_def)

lemma is_committed_simps [simp]:
  "\<not> is_committed []" "\<not> is_committed [ReadFailed]" "\<not> is_committed [CorruptFile]" "\<not> is_committed [NotTrusted]"
  "\<not> is_committed [NoMatch]" "\<not> is_committed [Ambiguous]" "\<not> is_committed [BadSeed]" "\<not> is_committed [RngExhausted]"
  by (simp_all add: is_committed_def)

text \<open>The devices a transaction reads.\<close>

definition devs :: "disk \<Rightarrow> Device list option" where
  "devs d = (case dk_devices d of Absent \<Rightarrow> Some [] | Corrupt \<Rightarrow> None | Data ds \<Rightarrow> Some ds)"

lemma devicesUnlocked_Inr: "devicesUnlocked f d = Inr ds \<longleftrightarrow> f_read f \<and> devs d = Some ds"
  by (auto simp: devicesUnlocked_def devs_def split: contents.splits)

lemma devicesUnlocked_Inl: "devicesUnlocked f d = Inl e \<Longrightarrow> \<not> is_committed e \<and> e \<noteq> []"
  by (auto simp: devicesUnlocked_def split: contents.splits if_splits)

lemma ids_devs: "devs (st_disk s) = Some ds \<Longrightarrow> ids s = dID ` set ds"
  by (auto simp: devs_def ids_def split: contents.splits)

lemma distinct_devs: "distinct_ids s \<Longrightarrow> devs (st_disk s) = Some ds \<Longrightarrow> distinct (map dID ds)"
  by (auto simp: devs_def distinct_ids_def split: contents.splits)

lemma put_devices_ids [simp]:
  "ids (s\<lparr>st_disk := put_devices ds d\<rparr>) = dID ` set ds"
  "distinct_ids (s\<lparr>st_disk := put_devices ds d\<rparr>) = distinct (map dID ds)"
  by (simp_all add: ids_def distinct_ids_def put_devices_def)

text \<open>All four operations on devices read the list, compute a new one or an error, and write it.\<close>

definition device_txn ::
  "faults \<Rightarrow> (Device list \<Rightarrow> (state_error list \<times> 'a) + (Device list \<times> 'a)) \<Rightarrow> 'a \<Rightarrow> 'a transaction" where
  "device_txn f upd dflt d =
     (case devicesUnlocked f d of
        Inl e \<Rightarrow> ((False, e, dflt), d)
      | Inr ds \<Rightarrow> (case upd ds of
            Inl (e, x) \<Rightarrow> ((False, e, x), d)
          | Inr (ds', x) \<Rightarrow> writeDevices f ds' x d))"

definition honest_upd :: "(Device list \<Rightarrow> (state_error list \<times> 'a) + (Device list \<times> 'a)) \<Rightarrow> bool" where
  "honest_upd upd \<longleftrightarrow> (\<forall>ds e x. upd ds = Inl (e, x) \<longrightarrow> \<not> is_committed e)"

lemma honest_device_txn:
  assumes "honest_upd upd"
  shows "honest (device_txn f upd dflt)"
  unfolding honest_def
proof (intro allI impI)
  fix d c e x d' assume "device_txn f upd dflt d = ((c, e, x), d')"
  then show "(\<not> c \<longrightarrow> d' = d) \<and> \<not> is_committed e"
    using assms
    by (auto simp: device_txn_def honest_upd_def dest: devicesUnlocked_Inl dest!: honest_writeDevices(2)
        split: sum.splits prod.splits)
qed

lemma device_txn_locked:
  assumes "locked f dflt (device_txn f upd dflt) s = ((e, x), s')"
    and "honest_upd upd"
  obtains (quiet) "s' = s" "\<not> is_committed e" "e = [] \<longrightarrow> (\<exists>ds. devs (st_disk s) = Some ds \<and> upd ds = Inl ([], x))"
    | (wrote) ds ds' where "devs (st_disk s) = Some ds" "upd ds = Inr (ds', x)"
        "s' = s\<lparr>st_disk := put_devices ds' (st_disk s)\<rparr>" "effective e"
proof -
  have h: "honest (device_txn f upd dflt)" using assms(2) by (rule honest_device_txn)
  from assms(1) h show ?thesis
proof (cases rule: locked_cases)
  case skipped
  then show ?thesis by (intro quiet) auto
next
  case (failed er)
  then have "er = [] \<longrightarrow> (\<exists>ds. devs (st_disk s) = Some ds \<and> upd ds = Inl ([], x))"
    by (auto simp: device_txn_def devicesUnlocked_Inr writeDevices_def writeFile_outcome
        dest: devicesUnlocked_Inl split: sum.splits prod.splits option.splits)
  with failed show ?thesis by (intro quiet) auto
next
  case (committed er d)
  then obtain ds ds' where "devs (st_disk s) = Some ds" "upd ds = Inr (ds', x)" "d = put_devices ds' (st_disk s)"
    by (auto simp: device_txn_def devicesUnlocked_Inr dest!: writeDevices_done split: sum.splits prod.splits)
  with committed show ?thesis by (intro wrote) (auto simp: effective_def)
qed
qed

section \<open>The operations on devices\<close>

definition touch :: "bytes \<Rightarrow> string \<Rightarrow> gotime \<Rightarrow> Device list \<Rightarrow> Device list option" where
  "touch k name now ds = update_first (DeviceID k) (\<lambda>x. rename name (x\<lparr>dLastSeen := now\<rparr>)) ds"

lemma touch_ids:
  "touch k name now ds = Some ds' \<Longrightarrow> map dID ds' = map dID ds \<and> DeviceID k \<in> dID ` set ds"
  "touch k name now ds = None \<Longrightarrow> DeviceID k \<notin> dID ` set ds"
  unfolding touch_def by (rule update_first_ids; simp)+

lemma touch_image: "touch k name now ds = Some ds' \<Longrightarrow> dID ` set ds' = dID ` set ds"
  by (metis touch_ids(1) list.set_map)

lemma IsTrusted_txn:
  "IsTrusted f now k s =
     (case locked f False (device_txn f (\<lambda>ds. case touch k [] now ds of
          None \<Rightarrow> Inl ([], False) | Some ds' \<Rightarrow> Inr (ds', True)) False) s of
        ((err, t), s') \<Rightarrow> (err = [] \<and> t, s'))"
  by (auto simp: IsTrusted_def locked_def device_txn_def touch_def rename_def writeDevices_def writeFile_outcome
      Let_def split: sum.split option.split)

lemma AddTrusted_txn:
  "AddTrusted f now k name s =
     (case locked f () (device_txn f (\<lambda>ds. case touch k name now ds of
          Some ds' \<Rightarrow> Inr (ds', ())
        | None \<Rightarrow> Inr (ds @ [\<lparr>dID = DeviceID k, dName = name, dFirstSeen = now, dLastSeen = now\<rparr>], ())) ()) s of
        ((e, _), s') \<Rightarrow> (e, s'))"
  unfolding AddTrusted_def device_txn_def touch_def
  by (intro arg_cong [where f = "\<lambda>fn. case locked f () fn s of ((e, _), s') \<Rightarrow> (e, s')"] ext)
    (simp split: sum.split option.split)

lemma Trust_txn:
  "Trust f now k name s =
     (case locked f () (device_txn f (\<lambda>ds. case touch k name now ds of
          Some ds' \<Rightarrow> Inr (ds', ()) | None \<Rightarrow> Inl ([NotTrusted], ())) ()) s of
        ((e, _), s') \<Rightarrow> (e, s'))"
  unfolding Trust_def device_txn_def touch_def
  by (intro arg_cong [where f = "\<lambda>fn. case locked f () fn s of ((e, _), s') \<Rightarrow> (e, s')"] ext)
    (simp split: sum.split option.split)

lemma Revoke_txn:
  "Revoke_store f p s =
     (case locked f None (device_txn f (\<lambda>ds. case matching_index p ds of
          Inl e \<Rightarrow> Inl ([e], None) | Inr i \<Rightarrow> Inr (take i ds @ drop (Suc i) ds, Some (ds ! i))) None) s of
        ((err, removed), s') \<Rightarrow> ((err, if err \<noteq> [] \<and> \<not> is_committed err then None else removed), s'))"
  unfolding Revoke_store_def device_txn_def
  by (intro arg_cong [where f = "\<lambda>fn. case locked f None fn s of ((err, removed), s') \<Rightarrow>
        ((err, if err \<noteq> [] \<and> \<not> is_committed err then None else removed), s')"] ext)
    (simp split: sum.split option.split)

lemma matching_index_Inr:
  assumes "matching_index p ds = Inr i"
  shows "i < length ds" "has_prefix (dID (ds ! i)) p"
    "\<And>j. j < length ds \<Longrightarrow> has_prefix (dID (ds ! j)) p \<Longrightarrow> j = i"
proof -
  have "filter (\<lambda>i. dID (ds ! i) = p \<or> has_prefix (dID (ds ! i)) p) [0..<length ds] = [i]"
    using assms by (auto simp: matching_index_def split: list.splits)
  then have "set (filter (\<lambda>i. dID (ds ! i) = p \<or> has_prefix (dID (ds ! i)) p) [0..<length ds]) = {i}" by simp
  then have *: "{j. j < length ds \<and> (dID (ds ! j) = p \<or> has_prefix (dID (ds ! j)) p)} = {i}" by simp
  then have "i < length ds \<and> (dID (ds ! i) = p \<or> has_prefix (dID (ds ! i)) p)" by blast
  then show "i < length ds" "has_prefix (dID (ds ! i)) p" by auto
  show "\<And>j. j < length ds \<Longrightarrow> has_prefix (dID (ds ! j)) p \<Longrightarrow> j = i" using * by blast
qed

lemma matching_index_Inl: "matching_index p ds = Inl e \<Longrightarrow> e = NoMatch \<or> e = Ambiguous"
  by (auto simp: matching_index_def split: list.splits)

lemma IsTrusted_effect:
  assumes "IsTrusted f now k s = (t, s')"
  shows "ids s' = ids s" "distinct_ids s \<Longrightarrow> distinct_ids s'" "t \<Longrightarrow> DeviceID k \<in> ids s"
proof -
  obtain e x where l: "locked f False (device_txn f (\<lambda>ds. case touch k [] now ds of
      None \<Rightarrow> Inl ([], False) | Some ds' \<Rightarrow> Inr (ds', True)) False) s = ((e, x), s')" and t: "t = (e = [] \<and> x)"
    using assms by (auto simp: IsTrusted_txn split: prod.splits)
  have "honest_upd (\<lambda>ds. case touch k [] now ds of
      None \<Rightarrow> Inl ([], False) | Some ds' \<Rightarrow> Inr (ds', True))"
    by (auto simp: honest_upd_def split: option.splits)
  with l have "ids s' = ids s \<and> (distinct_ids s \<longrightarrow> distinct_ids s') \<and> (t \<longrightarrow> DeviceID k \<in> ids s)"
  proof (cases rule: device_txn_locked)
    case quiet
    then show ?thesis using t by (auto split: option.splits)
  next
    case (wrote ds ds')
    then have "touch k [] now ds = Some ds'" by (auto split: option.splits)
    from touch_ids(1) [OF this] touch_image [OF this] wrote show ?thesis
      using distinct_devs [of s ds] by (simp add: ids_devs)
  qed
  then show "ids s' = ids s" "distinct_ids s \<Longrightarrow> distinct_ids s'" "t \<Longrightarrow> DeviceID k \<in> ids s" by auto
qed

lemma AddTrusted_effect:
  assumes "AddTrusted f now k name s = (e, s')"
  shows "if effective e then ids s' = insert (DeviceID k) (ids s) else s' = s"
    and "distinct_ids s \<Longrightarrow> distinct_ids s'"
proof -
  let ?upd = "\<lambda>ds. case touch k name now ds of
      Some ds' \<Rightarrow> Inr (ds', ())
    | None \<Rightarrow> Inr (ds @ [\<lparr>dID = DeviceID k, dName = name, dFirstSeen = now, dLastSeen = now\<rparr>], ())"
  have l: "locked f () (device_txn f ?upd ()) s = ((e, ()), s')"
    using assms by (auto simp: AddTrusted_txn split: prod.splits)
  have "honest_upd ?upd" by (auto simp: honest_upd_def split: option.splits)
  with l have "(if effective e then ids s' = insert (DeviceID k) (ids s) else s' = s) \<and>
      (distinct_ids s \<longrightarrow> distinct_ids s')"
  proof (cases rule: device_txn_locked)
    case quiet
    then have "\<not> effective e" by (auto simp: effective_def split: option.splits)
    with quiet show ?thesis by simp
  next
    case (wrote ds ds')
    show ?thesis
    proof (cases "touch k name now ds")
      case None
      with wrote touch_ids(2) [OF None] distinct_devs [of s ds] show ?thesis
        by (auto simp: ids_devs)
    next
      case (Some ds'')
      with wrote touch_ids(1) [OF Some] touch_image [OF Some] distinct_devs [of s ds] show ?thesis
        by (auto simp: ids_devs)
    qed
  qed
  then show "if effective e then ids s' = insert (DeviceID k) (ids s) else s' = s"
    "distinct_ids s \<Longrightarrow> distinct_ids s'" by auto
qed

lemma Trust_effect:
  assumes "Trust f now k name s = (e, s')"
  shows "ids s' = ids s" "distinct_ids s \<Longrightarrow> distinct_ids s'" "effective e \<Longrightarrow> DeviceID k \<in> ids s"
    "\<not> effective e \<Longrightarrow> s' = s"
proof -
  let ?upd = "\<lambda>ds. case touch k name now ds of Some ds' \<Rightarrow> Inr (ds', ()) | None \<Rightarrow> Inl ([NotTrusted], ())"
  have l: "locked f () (device_txn f ?upd ()) s = ((e, ()), s')"
    using assms by (auto simp: Trust_txn split: prod.splits)
  have "honest_upd ?upd" by (auto simp: honest_upd_def split: option.splits)
  with l have "ids s' = ids s \<and> (distinct_ids s \<longrightarrow> distinct_ids s') \<and> (effective e \<longrightarrow> DeviceID k \<in> ids s) \<and>
      (\<not> effective e \<longrightarrow> s' = s)"
  proof (cases rule: device_txn_locked)
    case quiet
    then have "\<not> effective e" by (auto simp: effective_def split: option.splits)
    with quiet show ?thesis by simp
  next
    case (wrote ds ds')
    then have "touch k name now ds = Some ds'" by (auto split: option.splits)
    from touch_ids(1) [OF this] touch_image [OF this] wrote show ?thesis
      using distinct_devs [of s ds] by (simp add: ids_devs)
  qed
  then show "ids s' = ids s" "distinct_ids s \<Longrightarrow> distinct_ids s'" "effective e \<Longrightarrow> DeviceID k \<in> ids s"
    "\<not> effective e \<Longrightarrow> s' = s" by auto
qed

lemma delete_nth_ids:
  assumes "distinct (map dID ds)" "i < length ds"
  shows "dID ` set (take i ds @ drop (Suc i) ds) = dID ` set ds - {dID (ds ! i)} \<and>
    distinct (map dID (take i ds @ drop (Suc i) ds))"
proof -
  have ds: "ds = take i ds @ ds ! i # drop (Suc i) ds" using assms(2) by (rule id_take_nth_drop)
  with assms(1) have d: "distinct (map dID (take i ds @ ds ! i # drop (Suc i) ds))" by simp
  have s: "dID ` set ds = dID ` set (take i ds @ ds ! i # drop (Suc i) ds)" using ds by simp
  show ?thesis unfolding s using d by (fastforce simp: image_iff)
qed

lemma Revoke_effect:
  assumes "Revoke_store f p s = ((e, r), s')" "distinct_ids s"
  shows "case r of
      Some dev \<Rightarrow> effective e \<and> dID dev \<in> ids s \<and> has_prefix (dID dev) p \<and> ids s' = ids s - {dID dev} \<and>
        (\<forall>i \<in> ids s. has_prefix i p \<longrightarrow> i = dID dev)
    | None \<Rightarrow> \<not> effective e \<and> s' = s"
    and "distinct_ids s'"
proof -
  let ?upd = "\<lambda>ds. case matching_index p ds of
      Inl e \<Rightarrow> Inl ([e], None) | Inr i \<Rightarrow> Inr (take i ds @ drop (Suc i) ds, Some (ds ! i))"
  obtain x where l: "locked f None (device_txn f ?upd None) s = ((e, x), s')"
    and r: "r = (if effective e then x else None)"
    using assms(1) by (auto simp: Revoke_txn effective_def split: prod.splits)
  have "honest_upd ?upd" by (auto simp: honest_upd_def dest!: matching_index_Inl split: sum.splits)
  with l have "(case r of
      Some dev \<Rightarrow> effective e \<and> dID dev \<in> ids s \<and> has_prefix (dID dev) p \<and> ids s' = ids s - {dID dev} \<and>
        (\<forall>i \<in> ids s. has_prefix i p \<longrightarrow> i = dID dev)
    | None \<Rightarrow> \<not> effective e \<and> s' = s) \<and> distinct_ids s'"
  proof (cases rule: device_txn_locked)
    case quiet
    have "\<not> effective e"
    proof
      assume "effective e"
      with quiet obtain ds where "?upd ds = Inl ([], x)" by (auto simp: effective_def)
      then show False by (cases "matching_index p ds") auto
    qed
    with quiet r assms(2) show ?thesis by simp
  next
    case (wrote ds ds')
    then obtain i where i: "matching_index p ds = Inr i" "ds' = take i ds @ drop (Suc i) ds" "x = Some (ds ! i)"
      by (auto split: sum.splits)
    note m = matching_index_Inr [OF i(1)]
    have d: "distinct (map dID ds)" using assms(2) wrote(1) by (rule distinct_devs)
    have "\<forall>j \<in> dID ` set ds. has_prefix j p \<longrightarrow> j = dID (ds ! i)"
      using m(3) by (auto simp: in_set_conv_nth)
    moreover have "ids s = dID ` set ds" using wrote(1) by (rule ids_devs)
    moreover have "ids s' = dID ` set ds - {dID (ds ! i)}" "distinct_ids s'"
      unfolding wrote(3) put_devices_ids i(2) using delete_nth_ids [OF d m(1)] by blast+
    moreover have "r = Some (ds ! i)" using r i(3) wrote(4) by simp
    ultimately show ?thesis using m(1,2) wrote(4) by simp
  qed
  then show "case r of
      Some dev \<Rightarrow> effective e \<and> dID dev \<in> ids s \<and> has_prefix (dID dev) p \<and> ids s' = ids s - {dID dev} \<and>
        (\<forall>i \<in> ids s. has_prefix i p \<longrightarrow> i = dID dev)
    | None \<Rightarrow> \<not> effective e \<and> s' = s" "distinct_ids s'" by auto
qed

section \<open>Runs of operations\<close>

datatype store_op =
    SIdentity faults rng
  | SConfig faults
  | SSaveConfig faults Config
  | SDevices faults
  | SIsTrusted faults gotime bytes
  | SAddTrusted faults gotime bytes string
  | STrust faults gotime bytes string
  | SRevoke faults string
  | SClose faults

fun store_step :: "store_op \<Rightarrow> Store \<Rightarrow> Store" where
  "store_step (SIdentity f r) s = snd (Store_Identity f r s)"
| "store_step (SConfig f) s = snd (Load_Config f s)"
| "store_step (SSaveConfig f c) s = snd (SaveConfig f c s)"
| "store_step (SDevices f) s = snd (Devices f s)"
| "store_step (SIsTrusted f now k) s = snd (IsTrusted f now k s)"
| "store_step (SAddTrusted f now k name) s = snd (AddTrusted f now k name s)"
| "store_step (STrust f now k name) s = snd (Trust f now k name s)"
| "store_step (SRevoke f p) s = snd (Revoke_store f p s)"
| "store_step (SClose f) s = snd (Close_store f s)"

lemma other_ops_devices:
  "dk_devices (st_disk (snd (Store_Identity f r s))) = dk_devices (st_disk s)"
  "dk_devices (st_disk (snd (Load_Config f s))) = dk_devices (st_disk s)"
  "dk_devices (st_disk (snd (SaveConfig f c s))) = dk_devices (st_disk s)"
  "dk_devices (st_disk (snd (Devices f s))) = dk_devices (st_disk s)"
  "dk_devices (st_disk (snd (Close_store f s))) = dk_devices (st_disk s)"
  by (auto simp: Store_Identity_def Load_Config_def SaveConfig_def Devices_def Close_store_def locked_def
      writeFile_outcome Let_def case_prod_beta split: contents.split option.split sum.split)

lemma other_ops_ids:
  assumes "dk_devices (st_disk s') = dk_devices (st_disk s)"
  shows "ids s' = ids s" "distinct_ids s' = distinct_ids s"
  using assms by (simp_all add: ids_def distinct_ids_def)

fun added :: "store_op \<Rightarrow> string set" where
  "added (SAddTrusted f now k name) = {DeviceID k}"
| "added _ = {}"

lemmas quiet_op_ids = other_ops_ids [OF other_ops_devices(1)] other_ops_ids [OF other_ops_devices(2)]
  other_ops_ids [OF other_ops_devices(3)] other_ops_ids [OF other_ops_devices(4)]
  other_ops_ids [OF other_ops_devices(5)]

lemma step_effect:
  assumes "distinct_ids s"
  shows "distinct_ids (store_step op s) \<and> ids (store_step op s) \<subseteq> ids s \<union> added op"
proof (cases op)
  case (SIsTrusted f now k)
  with IsTrusted_effect [of f now k s, OF surjective_pairing] assms show ?thesis by simp
next
  case (SAddTrusted f now k name)
  with AddTrusted_effect [of f now k name s, OF surjective_pairing] assms show ?thesis
    by (auto split: if_splits)
next
  case (STrust f now k name)
  with Trust_effect [of f now k name s, OF surjective_pairing] assms show ?thesis by simp
next
  case (SRevoke f p)
  obtain e r s' where r: "Revoke_store f p s = ((e, r), s')" by (metis prod.exhaust_sel)
  from Revoke_effect [OF r assms] r SRevoke show ?thesis by (auto split: option.splits)
qed (use assms in \<open>simp_all add: quiet_op_ids\<close>)

interpretation state_store: machine store_step distinct_ids
  by unfold_locales (simp add: step_effect)

lemma run_ids:
  assumes "distinct_ids s"
  shows "ids (fold store_step ops s) \<subseteq> ids s \<union> (\<Union>op \<in> set ops. added op)"
  using assms
proof (induction ops arbitrary: s)
  case (Cons op ops)
  from step_effect [OF Cons.prems, of op] Cons.IH [of "store_step op s"] show ?case by auto
qed simp

lemma distinct_empty: "distinct_ids empty_store" "ids empty_store = {}"
  by (simp_all add: distinct_ids_def empty_store_def ids_def)

text \<open>
  C25. Revocation is durable: in any state the store can reach, with any faults along the way, if
  \<open>Revoke\<close> reports a removed device then that device was the only one whose id has the given prefix,
  and it stays untrusted through every later sequence of operations, with any faults, until
  \<open>AddTrusted\<close> is called for it; no other operation can bring it back.
\<close>

theorem revoked_stays_out:
  assumes "Revoke_store f p (fold store_step ops0 empty_store) = ((e, Some dev), s')"
    and "\<forall>op \<in> set ops. dID dev \<notin> added op"
  shows "dID dev \<in> ids (fold store_step ops0 empty_store) \<and>
    (\<forall>i \<in> ids (fold store_step ops0 empty_store). has_prefix i p \<longrightarrow> i = dID dev) \<and>
    dID dev \<notin> ids (fold store_step ops s')"
proof -
  have d: "distinct_ids (fold store_step ops0 empty_store)"
    by (rule state_store.run_inv [OF distinct_empty(1)])
  from Revoke_effect [OF assms(1) d] run_ids [of s' ops] assms(2) show ?thesis by auto
qed

lemma revoked_stays_out_witness:
  "\<exists>e dev s'. Revoke_store no_faults [] (fold store_step [SAddTrusted no_faults 5 [1, 2] ''p''] empty_store) =
      ((e, Some dev), s') \<and> dID dev \<notin> ids (fold store_step [STrust no_faults 7 [1, 2] ''q''] s')"
proof -
  obtain e dev s' where r: "Revoke_store no_faults [] (fold store_step [SAddTrusted no_faults 5 [1, 2] ''p''] empty_store) =
      ((e, Some dev), s')"
    by (simp add: Revoke_store_def AddTrusted_def locked_def devicesUnlocked_def writeDevices_def writeFile_outcome
        empty_store_def no_faults_def matching_index_def put_devices_def)
  from revoked_stays_out [OF r, of "[STrust no_faults 7 [1, 2] ''q'']"] r show ?thesis by auto
qed

text \<open>
  An operation's error tells whether it took effect: a call of \<open>AddTrusted\<close>, \<open>Trust\<close> or \<open>Revoke\<close>
  that returns nil or \<open>ErrMutationCommitted\<close> has changed the devices on disk as asked, and after
  any other error the store is exactly what it was, whichever lock, read, write step or unlock failed.
\<close>

theorem error_tells_effect:
  assumes "distinct_ids s"
  shows "(let (e, s') = AddTrusted f now k name s in
      if effective e then ids s' = insert (DeviceID k) (ids s) else s' = s) \<and>
    (let (e, s') = Trust f now k name s in
      if effective e then DeviceID k \<in> ids s \<and> ids s' = ids s else s' = s) \<and>
    (let ((e, removed), s') = Revoke_store f p s in
      case removed of Some dev \<Rightarrow> effective e \<and> ids s' = ids s - {dID dev}
        | None \<Rightarrow> \<not> effective e \<and> s' = s)"
proof (intro conjI)
  show "let (e, s') = AddTrusted f now k name s in
      if effective e then ids s' = insert (DeviceID k) (ids s) else s' = s"
    using AddTrusted_effect(1) [of f now k name s, OF surjective_pairing] by (simp add: case_prod_beta)
  show "let (e, s') = Trust f now k name s in
      if effective e then DeviceID k \<in> ids s \<and> ids s' = ids s else s' = s"
    using Trust_effect [of f now k name s, OF surjective_pairing] by (simp add: case_prod_beta)
  obtain e r s' where r: "Revoke_store f p s = ((e, r), s')" by (metis prod.exhaust_sel)
  from Revoke_effect(1) [OF r assms] r
  show "let ((e, removed), s') = Revoke_store f p s in
      case removed of Some dev \<Rightarrow> effective e \<and> ids s' = ids s - {dID dev}
        | None \<Rightarrow> \<not> effective e \<and> s' = s"
    by (auto split: option.splits)
qed

lemma error_tells_effect_witness:
  "let (e, s') = AddTrusted (no_faults\<lparr>f_write := Some SyncDir\<rparr>) 5 [1, 2] ''p'' empty_store in
     if effective e then ids s' = insert (DeviceID [1, 2]) (ids empty_store) else s' = empty_store"
  using error_tells_effect [OF distinct_empty(1), of "no_faults\<lparr>f_write := Some SyncDir\<rparr>" 5 "[1, 2]" "''p''"]
  by blast

section \<open>The bridge identity\<close>

lemma find_SomeD: "find P xs = Some x \<Longrightarrow> x \<in> set xs \<and> P x"
  by (auto simp: find_Some_iff)

lemma TrimSpace_newline:
  assumes "s \<noteq> []" "\<forall>c \<in> set s. 32 < ord c \<and> ord c < 128"
  shows "TrimSpace (s @ [CHR 0x0A]) = s"
proof -
  obtain c t where s: "s = c # t" using assms(1) by (cases s) auto
  obtain d u where r: "rev s = d # u" using assms(1) by (cases "rev s") auto
  have d: "d \<in> set s" using r by (metis list.set_intros(1) set_rev)
  have 1: "trim_front space_encodings (s @ [CHR 0x0A]) = s @ [CHR 0x0A]"
    using space_encodings_hd assms(2) s by (simp add: list_all_iff) (rule trim_front_graphic, auto simp: list_all_iff)
  have "list_all (\<lambda>e. e \<noteq> [] \<and> (ord (hd e) < 33 \<or> 127 < ord (hd e))) (map rev space_encodings)"
    using space_encodings_hd by (auto simp: list_all_iff hd_rev)
  then have 2: "trim_front (map rev space_encodings) (rev s) = rev s"
    unfolding r using assms(2) d by (intro trim_front_graphic) auto
  have nl: "CHR 0x0A = chr 10" by (rule sym) (simp add: char_of_eq_iff)
  have "[CHR 0x0A] \<in> set space_encodings" unfolding nl by (simp add: space_encodings_def)
  then have "rev [CHR 0x0A] \<in> set (map rev space_encodings)" by (simp only: set_map) (rule imageI)
  moreover have "has_prefix (CHR 0x0A # rev s) (rev [CHR 0x0A])" by (simp add: has_prefix_def)
  ultimately have "find (has_prefix (CHR 0x0A # rev s)) (map rev space_encodings) \<noteq> None"
    by (metis find_None_iff)
  then obtain e where e: "find (has_prefix (CHR 0x0A # rev s)) (map rev space_encodings) = Some e" by blast
  have "list_all (\<lambda>e. hd (rev e) = CHR 0x0A \<longrightarrow> length e = 1) space_encodings"
    by (simp add: space_encodings_def char_of_eq_iff)
  moreover obtain e' where e': "e' \<in> set space_encodings" "e = rev e'" "has_prefix (CHR 0x0A # rev s) (rev e')"
    using find_SomeD [OF e] by auto
  moreover have "hd (rev e') = CHR 0x0A"
    using e'(1,3) space_encodings_hd by (cases "rev e'") (auto simp: list_all_iff has_prefix_def)
  ultimately have "length e = 1" by (auto simp: list_all_iff)
  then have "trim_front (map rev space_encodings) (CHR 0x0A # rev s) = rev s"
    using e 2 by (simp add: trim_front.simps [of _ "CHR 0x0A # rev s"])
  with 1 show ?thesis by (simp add: TrimSpace_def)
qed

lemma hex_text_chars: "\<forall>c \<in> set (hex_encode bs). 32 < ord c \<and> ord c < 128"
proof (induction bs)
  case (Cons b bs)
  have "32 < ord (hex_digit n) \<and> ord (hex_digit n) < 128" if "n < 16" for n
    using that by (auto simp: hex_digit_def)
  moreover have "unat b div 16 < 16" "unat b mod 16 < 16" by simp_all
  ultimately show ?case using Cons by simp
qed simp

lemma identity_text:
  assumes "length (priv i) = SeedSize"
  shows "hex_decode (TrimSpace (hex_encode (Seed i) @ [CHR 0x0A])) = Some (priv i)"
proof -
  have "hex_encode (Seed i) \<noteq> []" using assms by (cases "priv i") (auto simp: Seed_def SeedSize_def)
  from TrimSpace_newline [OF this hex_text_chars] show ?thesis by (simp add: hex_decode_encode Seed_def)
qed

text \<open>The text from which every later start reads the identity \<open>i\<close>.\<close>

definition holds_identity :: "Identity \<Rightarrow> Store \<Rightarrow> bool" where
  "holds_identity i s \<longleftrightarrow> (\<exists>txt. dk_identity (st_disk s) = Data txt \<and>
     hex_decode (TrimSpace txt) = Some (priv i) \<and> length (priv i) = SeedSize)"

lemma devices_keep_identity:
  "dk_identity (st_disk (snd (IsTrusted f now k s))) = dk_identity (st_disk s)"
  "dk_identity (st_disk (snd (AddTrusted f now k name s))) = dk_identity (st_disk s)"
  "dk_identity (st_disk (snd (Trust f now k name s))) = dk_identity (st_disk s)"
  "dk_identity (st_disk (snd (Revoke_store f p s))) = dk_identity (st_disk s)"
  "dk_identity (st_disk (snd (Load_Config f s))) = dk_identity (st_disk s)"
  "dk_identity (st_disk (snd (SaveConfig f c s))) = dk_identity (st_disk s)"
  "dk_identity (st_disk (snd (Devices f s))) = dk_identity (st_disk s)"
  "dk_identity (st_disk (snd (Close_store f s))) = dk_identity (st_disk s)"
  by (auto simp: IsTrusted_def AddTrusted_def Trust_def Revoke_store_def Load_Config_def SaveConfig_def Devices_def
      Close_store_def writeDevices_def put_devices_def locked_def writeFile_outcome Let_def case_prod_beta
      split: contents.split option.split sum.split)

lemma holds_identity_keep:
  assumes "holds_identity i s" shows "holds_identity i (store_step op s)"
proof (cases op)
  case (SIdentity f r)
  with assms show ?thesis
    by (auto simp: holds_identity_def Store_Identity_def locked_def Let_def case_prod_beta
        split: contents.split option.split)
qed (use assms in \<open>auto simp: holds_identity_def devices_keep_identity\<close>)

interpretation identity_kept: machine store_step "holds_identity i" for i
  by unfold_locales (rule holds_identity_keep)

lemma Store_Identity_ok:
  assumes "Store_Identity f r s = (([], Some i), s')"
  shows "holds_identity i s'"
proof -
  have e: "seed = priv i \<and> length (priv i) = SeedSize" if "IdentityFromSeed seed = Some i" for seed
    using that by (auto simp: IdentityFromSeed_def split: if_splits)
  show ?thesis
  proof (cases "dk_identity (st_disk s)")
    case (Data raw)
    with assms show ?thesis
      by (auto simp: Store_Identity_def locked_def Let_def holds_identity_def dest!: e split: if_splits option.splits)
  next
    case Corrupt
    with assms show ?thesis
      by (auto simp: Store_Identity_def locked_def Let_def split: if_splits)
  next
    case Absent
    with assms obtain r' where n: "NewIdentity r = Some (i, r')"
      by (auto simp: Store_Identity_def locked_def Let_def split: if_splits option.splits prod.splits)
    then have l: "length (priv i) = SeedSize" using NewIdentity_seed [OF n] by (simp add: Seed_def)
    from assms Absent n have "dk_identity (st_disk s') = Data (hex_encode (Seed i) @ [CHR 0x0A])"
      by (auto simp: Store_Identity_def locked_def Let_def writeFile_outcome split: if_splits option.splits)
    with identity_text [OF l] l show ?thesis by (auto simp: holds_identity_def)
  qed
qed

text \<open>
  The bridge keeps its identity: once \<open>Identity\<close> has returned a key without error (created on
  first use, or read back), every later successful call returns the same key, after any operations on
  the store and with any faults and randomness; what the first call wrote is what later calls read.
\<close>

theorem identity_persists:
  assumes "Store_Identity f r s = (([], Some i), s1)"
    and "Store_Identity f' r' (fold store_step ops s1) = (([], Some j), s2)"
  shows "j = i"
proof -
  have h: "holds_identity i (fold store_step ops s1)"
    using Store_Identity_ok [OF assms(1)] by (rule identity_kept.run_inv)
  with assms(2) show ?thesis
    by (auto simp: holds_identity_def Store_Identity_def locked_def Let_def IdentityFromSeed_def
        split: if_splits option.splits)
qed

lemma identity_persists_witness:
  "\<exists>i s1 s2. Store_Identity no_faults (replicate 32 3) empty_store = (([], Some i), s1) \<and>
     Store_Identity no_faults [] (fold store_step [SClose (no_faults\<lparr>f_gate := False\<rparr>)] s1) = (([], Some i), s2)"
proof -
  obtain i s1 where 1: "Store_Identity no_faults (replicate 32 3) empty_store = (([], Some i), s1)"
    by (simp add: Store_Identity_def locked_def no_faults_def empty_store_def NewIdentity_def read_full_def
        SeedSize_def IdentityFromSeed_def writeFile_outcome)
  let ?s = "fold store_step [SClose (no_faults\<lparr>f_gate := False\<rparr>)] s1"
  have h: "holds_identity i ?s" using Store_Identity_ok [OF 1] by (rule identity_kept.run_inv)
  have "\<not> st_closed s1"
    using 1 by (auto simp: Store_Identity_def locked_def no_faults_def empty_store_def NewIdentity_def read_full_def
        SeedSize_def IdentityFromSeed_def writeFile_outcome)
  then have "\<not> st_closed ?s" by (simp add: Close_store_def)
  with h obtain j s2 where 2: "Store_Identity no_faults [] ?s = (([], Some j), s2)"
    by (auto simp: holds_identity_def Store_Identity_def locked_def no_faults_def IdentityFromSeed_def)
  from identity_persists [OF 1 2] 1 2 show ?thesis by blast
qed

section \<open>The store as a trust registry\<close>

text \<open>Phone keys are 32 bytes, here numbers below \<open>2 ^ 256\<close>; without faults, the three operations on
  devices are the operations of a trust registry.\<close>

definition key_bytes :: "256 word \<Rightarrow> bytes" where
  "key_bytes w = be_bytes 32 (unat w)"

lemma key_bytes_inject [simp]: "key_bytes a = key_bytes b \<longleftrightarrow> a = b"
proof
  assume "key_bytes a = key_bytes b"
  then have "be_val (be_bytes 32 (unat a)) = be_val (be_bytes 32 (unat b))" by (simp add: key_bytes_def)
  moreover have "unat a < 256 ^ 32" "unat b < 256 ^ 32"
    using unsigned_less [of a, where ?'a = nat] unsigned_less [of b, where ?'a = nat] by simp_all
  ultimately have "unat a = unat b" by (simp add: be_val_be_bytes del: be_bytes.simps)
  then show "a = b" by (simp only: word_unat_eq_iff)
qed simp

definition store_ok :: "Store \<Rightarrow> bool" where
  "store_ok s \<longleftrightarrow> \<not> st_closed s \<and> dk_devices (st_disk s) \<noteq> Corrupt \<and> distinct_ids s \<and>
     (\<forall>i \<in> ids s. length i = 43)"

lemma length_DeviceID_key: "length (DeviceID (key_bytes w)) = 43"
  by (simp add: DeviceID_def key_bytes_def length_b64_encode del: be_bytes.simps)

lemma has_prefix_same_length: "length a = length b \<Longrightarrow> has_prefix a b \<longleftrightarrow> a = b"
  by (auto simp: has_prefix_append)

definition reg_add :: "256 word \<Rightarrow> Store \<Rightarrow> Store" where
  "reg_add w s = snd (AddTrusted no_faults 0 (key_bytes w) [] s)"

definition reg_touch :: "256 word \<Rightarrow> Store \<Rightarrow> Store" where
  "reg_touch w s = snd (IsTrusted no_faults 0 (key_bytes w) s)"

definition reg_drop :: "256 word \<Rightarrow> Store \<Rightarrow> Store" where
  "reg_drop w s = snd (Revoke_store no_faults (DeviceID (key_bytes w)) s)"

definition reg_trusted :: "Store \<Rightarrow> 256 word \<Rightarrow> bool" where
  "reg_trusted s w \<longleftrightarrow> DeviceID (key_bytes w) \<in> ids s"

lemma open_ops:
  assumes "store_ok s"
  shows "fst (AddTrusted no_faults 0 k name s) = []"
    "\<not> st_closed (snd (AddTrusted no_faults 0 k name s))"
    "dk_devices (st_disk (snd (AddTrusted no_faults 0 k name s))) \<noteq> Corrupt"
    "\<not> st_closed (snd (IsTrusted no_faults 0 k s))"
    "dk_devices (st_disk (snd (IsTrusted no_faults 0 k s))) \<noteq> Corrupt"
    "\<not> st_closed (snd (Revoke_store no_faults p s))"
    "dk_devices (st_disk (snd (Revoke_store no_faults p s))) \<noteq> Corrupt"
  using assms
  by (auto simp: store_ok_def AddTrusted_def IsTrusted_def Revoke_store_def locked_def no_faults_def
      devicesUnlocked_def writeDevices_def writeFile_outcome put_devices_def case_prod_beta
      split: contents.split option.split sum.split)

lemma reg_drop_ids:
  assumes "store_ok s"
  shows "ids (reg_drop w s) = ids s - {DeviceID (key_bytes w)}" "distinct_ids (reg_drop w s)"
proof -
  let ?i = "DeviceID (key_bytes w)"
  obtain e r s' where r: "Revoke_store no_faults ?i s = ((e, r), s')" by (metis prod.exhaust_sel)
  have d: "distinct_ids s" and l: "\<forall>j \<in> ids s. has_prefix j ?i \<longrightarrow> j = ?i"
    using assms by (auto simp: store_ok_def has_prefix_same_length length_DeviceID_key)
  have n: "r \<noteq> None" if mem: "?i \<in> ids s"
  proof -
    obtain ds where ds: "devs (st_disk s) = Some ds" "ids s = dID ` set ds"
      using assms by (auto simp: store_ok_def devs_def ids_def split: contents.splits)
    obtain j where j: "j < length ds" "dID (ds ! j) = ?i"
      using mem ds(2) by (auto simp: in_set_conv_nth)
    have "\<And>m. m < length ds \<Longrightarrow> (dID (ds ! m) = ?i \<or> has_prefix (dID (ds ! m)) ?i) \<longleftrightarrow> m = j"
      using distinct_devs [OF d ds(1)] j l ds(2)
      by (metis image_eqI length_map nth_eq_iff_index_eq nth_map nth_mem)
    then have "filter (\<lambda>m. dID (ds ! m) = ?i \<or> has_prefix (dID (ds ! m)) ?i) [0..<length ds] =
        filter (\<lambda>m. m = j) [0..<length ds]" by (intro filter_cong) auto
    also have "\<dots> = [j]" using j(1) by (induction ds rule: rev_induct) (auto simp: less_Suc_eq)
    finally have "matching_index ?i ds = Inr j" by (simp add: matching_index_def)
    with r ds(1) assms show ?thesis
      by (auto simp: Revoke_store_def locked_def no_faults_def devicesUnlocked_def writeDevices_def
          writeFile_outcome store_ok_def devs_def split: contents.splits)
  qed
  from Revoke_effect [OF r d] n l r show "ids (reg_drop w s) = ids s - {?i}" "distinct_ids (reg_drop w s)"
    by (auto simp: reg_drop_def split: option.splits)
qed

interpretation store_registry: trust_registry reg_trusted reg_add reg_touch reg_drop store_ok
proof
  fix s d e assume ok: "store_ok s"
  then have dist: "distinct_ids s" and len: "\<forall>i \<in> ids s. length i = 43" by (simp_all add: store_ok_def)
  have a: "ids (reg_add d s) = insert (DeviceID (key_bytes d)) (ids s)" "distinct_ids (reg_add d s)"
    using AddTrusted_effect [of no_faults 0 "key_bytes d" "[]" s, OF surjective_pairing] open_ops(1) [OF ok] dist
    by (auto simp: reg_add_def effective_def)
  have t: "ids (reg_touch d s) = ids s" "distinct_ids (reg_touch d s)"
    using IsTrusted_effect(1,2) [of no_faults 0 "key_bytes d" s, OF surjective_pairing] dist
    by (auto simp: reg_touch_def)
  show "reg_trusted (reg_add d s) e \<longleftrightarrow> e = d \<or> reg_trusted s e" using a(1) by (auto simp: reg_trusted_def)
  show "reg_trusted (reg_touch d s) e \<longleftrightarrow> reg_trusted s e" using t(1) by (simp add: reg_trusted_def)
  show "reg_trusted (reg_drop d s) e \<longleftrightarrow> e \<noteq> d \<and> reg_trusted s e"
    using reg_drop_ids(1) [OF ok] by (auto simp: reg_trusted_def)
  show "store_ok (reg_add d s)"
    using open_ops(2,3) [OF ok] a len length_DeviceID_key by (auto simp: store_ok_def reg_add_def)
  show "store_ok (reg_touch d s)"
    using open_ops(4,5) [OF ok] t len by (auto simp: store_ok_def reg_touch_def)
  show "store_ok (reg_drop d s)"
    using open_ops(6,7) [OF ok] reg_drop_ids [OF ok] len by (auto simp: store_ok_def reg_drop_def)
qed

end
