(* ===== verification/WorkPools.thy ===== *)
theory WorkPools
  imports Interfaces
begin

text \<open>
  internal/bridge/limits.go: bounded work pools, leases over several pools, and the acquisition that
  takes every pool in a fixed order or none. A pool's channel is represented by its capacity and how
  many slots are taken. A lease is the list of the pools it holds. What happens around one
  acquisition (contexts that expire, other goroutines acquiring and releasing) is an \<open>env\<close>.
\<close>

section \<open>Pools\<close>

record workPool =
  wp_cap :: nat
  wp_used :: nat

text \<open>\<open>None\<close> is the panic of a limit that is not positive.\<close>

definition newWorkPool :: "int \<Rightarrow> workPool option" where
  "newWorkPool limit = (if limit \<le> 0 then None else Some \<lparr>wp_cap = nat limit, wp_used = 0\<rparr>)"

definition tryAcquire :: "workPool \<Rightarrow> workPool option" where
  "tryAcquire p = (if wp_used p < wp_cap p then Some (p\<lparr>wp_used := wp_used p + 1\<rparr>) else None)"

definition pool_release :: "workPool \<Rightarrow> workPool" where
  "pool_release p = p\<lparr>wp_used := wp_used p - 1\<rparr>"

interpretation work_pool: slot_pool tryAcquire pool_release wp_used wp_cap
  by unfold_locales (auto simp: tryAcquire_def pool_release_def split: if_splits)

section \<open>Leases\<close>

record workLease =
  lz_pools :: "nat list"
  lz_released :: bool

record pool_system =
  sy_pools :: "nat \<Rightarrow> workPool"
  sy_leases :: "(nat, workLease) gomap"

definition new_lease :: workLease where
  "new_lease = \<lparr>lz_pools = [], lz_released = False\<rparr>"

definition lease_of :: "pool_system \<Rightarrow> nat \<Rightarrow> workLease" where
  "lease_of s l = (case map_of (sy_leases s) l of Some z \<Rightarrow> z | None \<Rightarrow> new_lease)"

definition put_lease :: "nat \<Rightarrow> workLease \<Rightarrow> pool_system \<Rightarrow> pool_system" where
  "put_lease l z s = s\<lparr>sy_leases := AList.update l z (sy_leases s)\<rparr>"

definition give_back :: "nat list \<Rightarrow> (nat \<Rightarrow> workPool) \<Rightarrow> nat \<Rightarrow> workPool" where
  "give_back is ps = fold (\<lambda>i ps. ps(i := pool_release (ps i))) is ps"

text \<open>\<open>workLease.release\<close>, newest pool first.\<close>

definition lease_release :: "nat \<Rightarrow> pool_system \<Rightarrow> pool_system" where
  "lease_release l s =
     (let z = lease_of s l in
      if lz_released z then s
      else put_lease l \<lparr>lz_pools = [], lz_released = True\<rparr>
        (s\<lparr>sy_pools := give_back (rev (lz_pools z)) (sy_pools s)\<rparr>))"

definition releasePool :: "nat \<Rightarrow> nat \<Rightarrow> pool_system \<Rightarrow> pool_system" where
  "releasePool l i s =
     (let z = lease_of s l in
      if lz_released z then s
      else if List.member (lz_pools z) i
      then put_lease l (z\<lparr>lz_pools := remove1 i (lz_pools z)\<rparr>)
        (s\<lparr>sy_pools := (sy_pools s)(i := pool_release (sy_pools s i))\<rparr>)
      else s)"

text \<open>A slot of pool \<open>i\<close> taken and recorded in the lease \<open>l\<close>.\<close>

definition take_slot :: "nat \<Rightarrow> nat \<Rightarrow> pool_system \<Rightarrow> pool_system option" where
  "take_slot l i s =
     (case tryAcquire (sy_pools s i) of
        None \<Rightarrow> None
      | Some p \<Rightarrow> let z = lease_of s l in
          if lz_released z then None
          else Some (put_lease l (z\<lparr>lz_pools := lz_pools z @ [i]\<rparr>) (s\<lparr>sy_pools := (sy_pools s)(i := p)\<rparr>)))"

datatype pool_event = PTake nat nat | PRelease nat | PReleasePool nat nat

fun pool_step :: "pool_event \<Rightarrow> pool_system \<Rightarrow> pool_system" where
  "pool_step (PTake l i) s = (case take_slot l i s of Some s' \<Rightarrow> s' | None \<Rightarrow> s)"
| "pool_step (PRelease l) s = lease_release l s"
| "pool_step (PReleasePool l i) s = releasePool l i s"

fun event_lease :: "pool_event \<Rightarrow> nat" where
  "event_lease (PTake l i) = l"
| "event_lease (PRelease l) = l"
| "event_lease (PReleasePool l i) = l"

section \<open>Acquiring several pools\<close>

datatype admissionResult = admissionGranted | admissionBusy | admissionCanceled

text \<open>The surroundings of one acquisition, by the number of the attempt: whether the parent context
  has expired and whether the wait context has, what other goroutines do before the attempt, what
  they do while it waits, and whether the wait then wins a slot.\<close>

record env =
  e_parent :: "nat \<Rightarrow> bool"
  e_wait :: "nat \<Rightarrow> bool"
  e_before :: "nat \<Rightarrow> pool_event list"
  e_during :: "nat \<Rightarrow> pool_event list"
  e_wins :: "nat \<Rightarrow> bool"

definition validateAdmission ::
  "env \<Rightarrow> nat \<Rightarrow> bool \<Rightarrow> nat \<Rightarrow> pool_system \<Rightarrow> admissionResult \<times> pool_system" where
  "validateAdmission e n waiting l s =
     (if e_parent e n then (admissionCanceled, lease_release l s)
      else if waiting \<and> e_wait e n then (admissionBusy, lease_release l s)
      else (admissionGranted, s))"

definition refuse :: "env \<Rightarrow> nat \<Rightarrow> nat \<Rightarrow> pool_system \<Rightarrow> admissionResult \<times> pool_system" where
  "refuse e n l s = (if e_parent e n then admissionCanceled else admissionBusy, lease_release l s)"

fun acquire_loop ::
  "env \<Rightarrow> bool \<Rightarrow> nat \<Rightarrow> nat list \<Rightarrow> nat \<Rightarrow> bool \<Rightarrow> pool_system \<Rightarrow> admissionResult \<times> pool_system" where
  "acquire_loop e may_wait l [] n waiting s = validateAdmission e n waiting l s"
| "acquire_loop e may_wait l (i # is) n waiting s =
     (let s0 = fold pool_step (e_before e n) s;
          (pre, s1) = (if waiting then validateAdmission e n waiting l s0 else (admissionGranted, s0)) in
      if pre \<noteq> admissionGranted then (pre, s1)
      else case take_slot l i s1 of
        Some s2 \<Rightarrow>
          (let (v, s3) = validateAdmission e (Suc n) waiting l s2 in
           if v \<noteq> admissionGranted then (v, s3)
           else acquire_loop e may_wait l is (Suc (Suc n)) waiting s3)
      | None \<Rightarrow>
          if \<not> may_wait then refuse e (Suc n) l s1
          else let s2 = fold pool_step (e_during e n) s1 in
            if \<not> e_wins e n then refuse e (Suc n) l s2
            else case take_slot l i s2 of
                None \<Rightarrow> refuse e (Suc n) l s2
              | Some s3 \<Rightarrow>
                  (let (v, s4) = validateAdmission e (Suc n) True l s3 in
                   if v \<noteq> admissionGranted then (v, s4)
                   else acquire_loop e may_wait l is (Suc (Suc n)) True s4))"

definition acquirePools :: "env \<Rightarrow> gotime \<Rightarrow> nat \<Rightarrow> nat list \<Rightarrow> pool_system \<Rightarrow> admissionResult \<times> pool_system" where
  "acquirePools e wait l is s =
     (let s0 = put_lease l new_lease s; (v, s1) = validateAdmission e 0 False l s0 in
      if v \<noteq> admissionGranted then (v, s1) else acquire_loop e (wait > 0) l is 1 False s1)"

section \<open>Conservation of slots\<close>

definition held :: "nat \<Rightarrow> (nat, workLease) gomap \<Rightarrow> nat" where
  "held i m = sum_list (map (\<lambda>e. count_list (lz_pools (snd e)) i) m)"

definition pools_inv :: "pool_system \<Rightarrow> bool" where
  "pools_inv s \<longleftrightarrow> wf_map (sy_leases s) \<and>
     (\<forall>i. wp_used (sy_pools s i) = held i (sy_leases s) \<and> wp_used (sy_pools s i) \<le> wp_cap (sy_pools s i))"

lemma pools_held: "pools_inv s \<Longrightarrow> wp_used (sy_pools s i) = held i (sy_leases s)"
  unfolding pools_inv_def by blast

lemma pools_bounded: "pools_inv s \<Longrightarrow> wp_used (sy_pools s i) \<le> wp_cap (sy_pools s i)"
  unfolding pools_inv_def by blast

lemma held_absent: "map_of m l = None \<Longrightarrow> held i (AList.update l z m) = held i m + count_list (lz_pools z) i"
  by (simp add: update_absent held_def)

lemma held_update:
  "wf_map m \<Longrightarrow> held i (AList.update l z m) + (case map_of m l of None \<Rightarrow> 0 | Some y \<Rightarrow> count_list (lz_pools y) i)
     = held i m + count_list (lz_pools z) i"
proof (induction m)
  case Nil
  then show ?case by (simp add: held_def)
next
  case (Cons a m)
  obtain k y where a: "a = (k, y)" by (cases a)
  show ?case
  proof (cases "k = l")
    case True
    then show ?thesis by (simp add: a held_def)
  next
    case False
    with Cons a show ?thesis by (simp add: held_def)
  qed
qed

lemma held_put:
  "wf_map (sy_leases s) \<Longrightarrow> held i (sy_leases (put_lease l z s)) + count_list (lz_pools (lease_of s l)) i
     = held i (sy_leases s) + count_list (lz_pools z) i"
  using held_update [of "sy_leases s" i l z]
  by (cases "map_of (sy_leases s) l") (simp_all add: put_lease_def lease_of_def new_lease_def)

lemma give_back_used:
  "wp_used (give_back is ps i) = wp_used (ps i) - count_list is i" "wp_cap (give_back is ps i) = wp_cap (ps i)"
  by (induction "is" arbitrary: ps) (auto simp: give_back_def pool_release_def)

lemma count_list_rev: "count_list (rev xs) x = count_list xs x"
  by (induction xs) auto

lemma count_list_remove1: "count_list (remove1 y xs) x = count_list xs x - (if x = y then 1 else 0)"
  by (induction xs) (auto simp: count_list_0_iff)

lemma inv_lease_release: "pools_inv s \<Longrightarrow> pools_inv (lease_release l s)"
proof -
  assume inv: "pools_inv s"
  let ?z = "lease_of s l" and ?e = "\<lparr>lz_pools = [], lz_released = True\<rparr>"
  have h: "held i (AList.update l ?e (sy_leases s)) + count_list (lz_pools ?z) i = held i (sy_leases s)" for i
    using held_put [of s i l ?e] inv by (simp add: pools_inv_def put_lease_def)
  show ?thesis
  proof (cases "lz_released ?z")
    case False
    have "wp_used (sy_pools s i) - count_list (lz_pools ?z) i = held i (AList.update l ?e (sy_leases s))" for i
      using h [of i] pools_held [OF inv, of i] by simp
    moreover have "wp_used (sy_pools s i) - count_list (lz_pools ?z) i \<le> wp_cap (sy_pools s i)" for i
      by (rule le_trans [OF diff_le_self pools_bounded [OF inv]])
    ultimately show ?thesis
      using inv False
      by (simp add: lease_release_def Let_def pools_inv_def put_lease_def give_back_used count_list_rev)
  qed (use inv in \<open>simp add: lease_release_def\<close>)
qed

lemma inv_releasePool: "pools_inv s \<Longrightarrow> pools_inv (releasePool l i s)"
proof -
  assume inv: "pools_inv s"
  let ?z = "lease_of s l" and ?y = "lease_of s l\<lparr>lz_pools := remove1 i (lz_pools (lease_of s l))\<rparr>"
  have h: "held j (AList.update l ?y (sy_leases s)) + count_list (lz_pools ?z) j =
      held j (sy_leases s) + count_list (remove1 i (lz_pools ?z)) j" for j
    using held_put [of s j l ?y] inv by (simp add: pools_inv_def put_lease_def)
  show ?thesis
  proof (cases "lz_released ?z \<or> i \<notin> set (lz_pools ?z)")
    case False
    then have c: "count_list (lz_pools ?z) i \<noteq> 0" by (simp add: count_list_0_iff)
    have "held i (AList.update l ?y (sy_leases s)) = wp_used (sy_pools s i) - 1"
      using h [of i] c inv by (simp add: pools_inv_def count_list_remove1)
    moreover have "held j (AList.update l ?y (sy_leases s)) = wp_used (sy_pools s j)" if "j \<noteq> i" for j
      using h [of j] that inv by (simp add: pools_inv_def count_list_remove1)
    moreover have "wf_map (AList.update l ?y (sy_leases s))"
      using inv by (simp add: pools_inv_def)
    moreover have "wp_used (sy_pools s i) - 1 \<le> wp_cap (sy_pools s i)"
      by (rule le_trans [OF diff_le_self pools_bounded [OF inv]])
    ultimately show ?thesis
      using False pools_bounded [OF inv]
      by (simp add: releasePool_def Let_def pools_inv_def put_lease_def pool_release_def)
  qed (use inv in \<open>auto simp: releasePool_def Let_def\<close>)
qed

lemma inv_take_slot: "pools_inv s \<Longrightarrow> take_slot l i s = Some s' \<Longrightarrow> pools_inv s'"
proof -
  assume inv: "pools_inv s" and t: "take_slot l i s = Some s'"
  let ?y = "lease_of s l\<lparr>lz_pools := lz_pools (lease_of s l) @ [i]\<rparr>"
  have h: "held j (AList.update l ?y (sy_leases s)) = held j (sy_leases s) + (if j = i then 1 else 0)" for j
    using held_put [of s j l ?y] inv by (auto simp: pools_inv_def put_lease_def)
  with inv t show ?thesis
    by (auto simp: take_slot_def tryAcquire_def Let_def pools_inv_def put_lease_def split: if_splits)
qed

lemma pool_step_inv: "pools_inv s \<Longrightarrow> pools_inv (pool_step e s)"
  by (cases e) (auto simp: inv_lease_release inv_releasePool split: option.split intro: inv_take_slot)

interpretation pools: machine pool_step pools_inv
  by unfold_locales (rule pool_step_inv)

definition fresh_pools :: "(nat \<Rightarrow> nat) \<Rightarrow> pool_system" where
  "fresh_pools limits = \<lparr>sy_pools = (\<lambda>i. \<lparr>wp_cap = limits i, wp_used = 0\<rparr>), sy_leases = []\<rparr>"

lemma fresh_pools_inv: "pools_inv (fresh_pools limits)"
  by (simp add: fresh_pools_def pools_inv_def held_def)

definition caps :: "pool_system \<Rightarrow> nat \<Rightarrow> nat" where
  "caps s i = wp_cap (sy_pools s i)"

lemma caps_give_back: "wp_cap (give_back is ps i) = wp_cap (ps i)"
  by (rule give_back_used)

lemma caps_step: "caps (pool_step e s) i = caps s i"
  by (cases e)
    (auto simp: caps_def lease_release_def releasePool_def take_slot_def Let_def put_lease_def tryAcquire_def
      pool_release_def caps_give_back split: option.split)

lemma caps_run: "caps (fold pool_step es s) i = caps s i"
  by (induction es arbitrary: s) (simp_all add: caps_step)

text \<open>
  C37. However goroutines interleave taking slots, giving one pool back early and releasing leases
  (twice, or after an early release), the slots of a pool that are taken are exactly those recorded in the
  live leases, and never more than the limit the pool was made with.
\<close>

theorem pools_conserved:
  "wp_used (sy_pools (fold pool_step es (fresh_pools limits)) i)
     = held i (sy_leases (fold pool_step es (fresh_pools limits)))
   \<and> wp_used (sy_pools (fold pool_step es (fresh_pools limits)) i) \<le> limits i"
proof -
  let ?s = "fold pool_step es (fresh_pools limits)"
  have inv: "pools_inv ?s" by (rule pools.run_inv [OF fresh_pools_inv])
  have "caps ?s i = limits i" by (simp add: caps_run) (simp add: caps_def fresh_pools_def)
  with pools_held [OF inv, of i] pools_bounded [OF inv, of i] show ?thesis
    by (simp add: caps_def)
qed

section \<open>All or nothing\<close>

lemma lease_put: "lease_of (put_lease l z s) m = (if m = l then z else lease_of s m)"
  by (simp add: lease_of_def put_lease_def update_conv')

lemma lease_pools_upd: "lease_of (s\<lparr>sy_pools := ps\<rparr>) m = lease_of s m"
  by (simp add: lease_of_def)

lemma lease_step_other: "event_lease e \<noteq> l \<Longrightarrow> lease_of (pool_step e s) l = lease_of s l"
  by (cases e)
    (auto simp: lease_release_def releasePool_def take_slot_def Let_def lease_put lease_pools_upd split: option.split)

lemma lease_run_other: "l \<notin> event_lease ` set es \<Longrightarrow> lease_of (fold pool_step es s) l = lease_of s l"
  by (induction es arbitrary: s) (auto simp: lease_step_other)

lemma take_slot_lease:
  "take_slot l i s = Some s' \<Longrightarrow> lease_of s' l = (lease_of s l)\<lparr>lz_pools := lz_pools (lease_of s l) @ [i]\<rparr>"
  by (auto simp: take_slot_def Let_def lease_put lease_pools_upd split: option.splits if_splits)

definition spent :: "nat \<Rightarrow> pool_system \<Rightarrow> bool" where
  "spent l s \<longleftrightarrow> lz_pools (lease_of s l) = [] \<and> lz_released (lease_of s l)"

definition holds :: "nat \<Rightarrow> nat list \<Rightarrow> pool_system \<Rightarrow> bool" where
  "holds l is s \<longleftrightarrow> lz_pools (lease_of s l) = is \<and> \<not> lz_released (lease_of s l)"

lemma holds_release: "holds l is s \<Longrightarrow> spent l (lease_release l s)"
  by (simp add: holds_def spent_def lease_release_def Let_def lease_put)

lemma holds_run: "l \<notin> event_lease ` set es \<Longrightarrow> holds l is (fold pool_step es s) = holds l is s"
  by (simp add: holds_def lease_run_other)

lemma holds_take: "holds l is s \<Longrightarrow> take_slot l i s = Some s' \<Longrightarrow> holds l (is @ [i]) s'"
  by (simp add: holds_def take_slot_lease)

definition settled :: "nat \<Rightarrow> nat list \<Rightarrow> admissionResult \<times> pool_system \<Rightarrow> bool" where
  "settled l is r \<longleftrightarrow> (if fst r = admissionGranted then holds l is (snd r) else spent l (snd r))"

lemma settled_refuse: "holds l js s \<Longrightarrow> settled l is (refuse e n l s)"
  by (simp add: settled_def refuse_def holds_release)

lemma settled_validate: "holds l is s \<Longrightarrow> settled l is (validateAdmission e n w l s)"
  by (simp add: settled_def validateAdmission_def holds_release)

lemma validate_cases:
  assumes "holds l js s"
  obtains "validateAdmission e n w l s = (admissionGranted, s)"
  | v s' where "validateAdmission e n w l s = (v, s')" "v \<noteq> admissionGranted" "spent l s'"
proof (cases "validateAdmission e n w l s")
  case (Pair v s')
  with settled_validate [OF assms, of e n w] that show ?thesis
    by (cases "v = admissionGranted") (auto simp: settled_def validateAdmission_def split: if_splits)
qed

definition quiet :: "env \<Rightarrow> nat \<Rightarrow> bool" where
  "quiet e l \<longleftrightarrow> (\<forall>n. l \<notin> event_lease ` set (e_before e n) \<and> l \<notin> event_lease ` set (e_during e n))"

lemma settled_spent: "spent l s \<Longrightarrow> v \<noteq> admissionGranted \<Longrightarrow> settled l is (v, s)"
  by (simp add: settled_def)

lemma acquire_loop_settled:
  assumes "quiet e l" "holds l js s"
  shows "settled l (js @ is) (acquire_loop e may_wait l is n waiting s)"
  using assms(2)
proof (induction "is" arbitrary: js n waiting s)
  case Nil
  then show ?case by (simp add: settled_validate)
next
  case (Cons i "is")
  let ?s0 = "fold pool_step (e_before e n) s"
  have b: "holds l js ?s0" using Cons.prems assms(1) by (simp add: holds_run quiet_def)
  have go: "settled l (js @ i # is) (case validateAdmission e m w l t of (v, t') \<Rightarrow>
      if v \<noteq> admissionGranted then (v, t') else acquire_loop e may_wait l is k w t')"
    if "holds l (js @ [i]) t" for m w t k
    using Cons.IH [OF that, of k w]
    by (rule_tac validate_cases [OF that, of e m w]) (simp_all add: settled_spent)
  have main: "settled l (js @ i # is) (case take_slot l i ?s0 of
        Some s2 \<Rightarrow> (case validateAdmission e (Suc n) waiting l s2 of (v, s3) \<Rightarrow>
           if v \<noteq> admissionGranted then (v, s3) else acquire_loop e may_wait l is (Suc (Suc n)) waiting s3)
      | None \<Rightarrow> if \<not> may_wait then refuse e (Suc n) l ?s0
          else let s2 = fold pool_step (e_during e n) ?s0 in
            if \<not> e_wins e n then refuse e (Suc n) l s2
            else case take_slot l i s2 of None \<Rightarrow> refuse e (Suc n) l s2
              | Some s3 \<Rightarrow> (case validateAdmission e (Suc n) True l s3 of (v, s4) \<Rightarrow>
                   if v \<noteq> admissionGranted then (v, s4) else acquire_loop e may_wait l is (Suc (Suc n)) True s4))"
    (is "settled _ _ ?body")
  proof (cases "take_slot l i ?s0")
    case None
    let ?d = "fold pool_step (e_during e n) ?s0"
    have d: "holds l js ?d" using b assms(1) by (simp add: holds_run quiet_def)
    show ?thesis
    proof (cases "take_slot l i ?d")
      case (Some s3)
      then show ?thesis using None go [OF holds_take [OF d Some]] settled_refuse [OF b] settled_refuse [OF d]
        by (simp add: Let_def)
    qed (use None settled_refuse [OF b] settled_refuse [OF d] in \<open>simp add: Let_def\<close>)
  next
    case (Some s2)
    then show ?thesis using go [OF holds_take [OF b Some]] by simp
  qed
  have granted: "acquire_loop e may_wait l (i # is) n waiting s = ?body"
    if "waiting \<Longrightarrow> validateAdmission e n waiting l ?s0 = (admissionGranted, ?s0)"
    unfolding acquire_loop.simps Let_def using that by (cases waiting) auto
  show ?case
  proof (cases "validateAdmission e n waiting l ?s0 = (admissionGranted, ?s0) \<or> \<not> waiting")
    case True
    then have "acquire_loop e may_wait l (i # is) n waiting s = ?body" by (intro granted) blast
    with main show ?thesis by (simp only:)
  next
    case False
    with b obtain v s' where "validateAdmission e n waiting l ?s0 = (v, s')" "v \<noteq> admissionGranted" "spent l s'"
      by (meson validate_cases)
    with False show ?thesis by (simp add: Let_def settled_spent)
  qed
qed

lemma acquire_settled: "quiet e l \<Longrightarrow> settled l is (acquirePools e wait l is s)"
proof -
  assume q: "quiet e l"
  have h: "holds l [] (put_lease l new_lease s)" by (simp add: holds_def lease_put new_lease_def)
  show "settled l is (acquirePools e wait l is s)"
    by (rule validate_cases [OF h, of e 0 False])
      (use acquire_loop_settled [OF q h, of "is"] in \<open>simp_all add: acquirePools_def Let_def settled_spent\<close>)
qed

text \<open>
  Acquiring several pools is all or nothing: whatever other goroutines do between and during the
  attempts, and whenever either context expires, a granted acquisition leaves the lease holding
  exactly the requested pools in the order asked, and any other outcome leaves it released and
  holding none of them.
\<close>

theorem acquire_all_or_nothing:
  assumes "quiet e l"
    and "acquirePools e wait l is s = (result, s')"
  shows "if result = admissionGranted then lz_pools (lease_of s' l) = is \<and> \<not> lz_released (lease_of s' l)
    else lz_pools (lease_of s' l) = [] \<and> lz_released (lease_of s' l)"
  using acquire_settled [OF assms(1), of "is" wait s] assms(2)
  by (cases "result = admissionGranted") (simp_all add: settled_def holds_def spent_def)

definition demo_env :: env where
  "demo_env = \<lparr>e_parent = (\<lambda>n. False), e_wait = (\<lambda>n. False),
     e_before = (\<lambda>n. if n = 1 then [PTake 0 1] else []),
     e_during = (\<lambda>n. if n = 3 then [PRelease 0] else []), e_wins = (\<lambda>n. n = 3)\<rparr>"

text \<open>Pool 1 has one slot, which another lease takes first and gives back while this one waits for
  it.\<close>

lemma acquire_all_or_nothing_witness:
  "quiet demo_env 7 \<and> fst (acquirePools demo_env 2000 7 [0, 1] (fresh_pools (\<lambda>_. 1))) = admissionGranted \<and>
   lz_pools (lease_of (snd (acquirePools demo_env 2000 7 [0, 1] (fresh_pools (\<lambda>_. 1)))) 7) = [0, 1]"
proof -
  let ?r = "acquirePools demo_env 2000 7 [0, 1] (fresh_pools (\<lambda>_. 1))"
  have q: "quiet demo_env 7" by (auto simp: quiet_def demo_env_def split: if_splits)
  have g: "fst ?r = admissionGranted"
    by (simp add: acquirePools_def validateAdmission_def demo_env_def fresh_pools_def take_slot_def tryAcquire_def
      put_lease_def lease_of_def new_lease_def lease_release_def give_back_def pool_release_def Let_def)
  from acquire_all_or_nothing [OF q surjective_pairing, of 2000 "[0, 1]" "fresh_pools (\<lambda>_. 1)"] q g
  show ?thesis by simp
qed

end
