(* ===== verification/Admission.thy ===== *)
theory Admission
  imports Pairing StateStoreSafety HandshakeSafety
begin

text \<open>
  internal/bridge/server.go: the admission of phones (\<open>conn.handshake\<close>, \<open>publishAdmission\<close>) and what runs
  against it, the revocation of devices (\<open>Server.Revoke\<close>, \<open>DisconnectDevice\<close>). Each critical section
  and each call into the store or the pairing codes is one step, so that every interleaving of
  handshakes and revocations is a sequence of steps. \<open>stage\<close> is how far the handshake of a
  connection has come, with its local variables. \<open>br_revocations\<close> counts the advances of
  \<open>revocationGeneration\<close>, which is that count in 64 bits.
\<close>

definition maxAdmissionPublishAttempts :: nat where "maxAdmissionPublishAttempts = 3"

datatype admission_error =
    ReadError | HelloNotText | BadHello | Refused_handshake handshake_error | ConfirmNotBinary
  | CodeSpent | RecordDevice "state_error list" | KeptChanging

datatype stage =
    Greeting
  | Accepted Pending
  | Captured Pending bytes "64 word"
  | Offered Pending bytes "64 word" "bytes list"
  | Paired Suite bytes "64 word" bytes
  | Consumed Suite bytes "64 word"
  | Publishing Suite bytes "64 word" nat
  | Revalidating Suite bytes "64 word" nat
  | Published Suite
  | Rejected admission_error

record conn =
  cn_stage :: stage
  cn_deviceID :: string
  cn_closed :: bool

record bridge =
  br_store :: Store
  br_pairings :: pairings
  br_replay :: hello_replay
  br_revocations :: nat
  br_conns :: "(nat, conn) gomap"
  br_revoking :: "string list"
  br_closing :: "nat list"

definition revocationGeneration :: "bridge \<Rightarrow> 64 word" where
  "revocationGeneration s = word_of_nat (br_revocations s)"

definition ConnectionCount :: "bridge \<Rightarrow> nat" where
  "ConnectionCount s = length (br_conns s)"

definition OnlineDevices :: "bridge \<Rightarrow> string list" where
  "OnlineDevices s = filter (\<lambda>i. i \<noteq> []) (map (\<lambda>(_, k). cn_deviceID k) (br_conns s))"

definition newConnection :: conn where
  "newConnection = \<lparr>cn_stage = Greeting, cn_deviceID = [], cn_closed = False\<rparr>"

definition track :: "nat \<Rightarrow> bool \<Rightarrow> bridge \<Rightarrow> bridge" where
  "track c add s = s\<lparr>br_conns :=
     (if add then AList.update c newConnection (br_conns s) else AList.delete c (br_conns s))\<rparr>"

definition set_conn :: "nat \<Rightarrow> conn \<Rightarrow> bridge \<Rightarrow> bridge" where
  "set_conn c k s = s\<lparr>br_conns := AList.update c k (br_conns s)\<rparr>"

definition to_stage :: "nat \<Rightarrow> conn \<Rightarrow> stage \<Rightarrow> bridge \<Rightarrow> bridge" where
  "to_stage c k st s = set_conn c (k\<lparr>cn_stage := st\<rparr>) s"

section \<open>The handshake of one connection\<close>

text \<open>Reading the Hello and answering it.\<close>

definition read_hello :: "crypto \<Rightarrow> Identity \<Rightarrow> bool \<Rightarrow> string \<Rightarrow> rng \<Rightarrow> stage" where
  "read_hello C b is_text raw r =
     (if \<not> is_text then Rejected HelloNotText
      else case Hello_UnmarshalJSON raw of
        None \<Rightarrow> Rejected BadHello
      | Some h \<Rightarrow>
          (case BridgeAccept C b h r of
             Inl e \<Rightarrow> Rejected (Refused_handshake e)
           | Inr (a, pd) \<Rightarrow> Accepted pd))"

text \<open>The relay vouch between the two: the store is asked only about a Hello with a fresh, signed
  admission proof, and the codes are listed only for an unknown phone.\<close>

definition hello_asks :: "crypto \<Rightarrow> gotime \<Rightarrow> Hello \<Rightarrow> bool" where
  "hello_asks C now h =
     (case (hAdmissionTimestamp h, hAdmissionSignature h) of
        (Some stamp, Some _) \<Rightarrow> VerifyHelloAdmissionSignature C h \<and>
          unix now - vouchWindow \<le> stamp \<and> stamp \<le> unix now + vouchWindow
      | _ \<Rightarrow> False)"

definition vouch_hello ::
  "crypto \<Rightarrow> faults \<Rightarrow> gotime \<Rightarrow> gotime \<Rightarrow> Hello \<Rightarrow> bridge \<Rightarrow> bool \<times> bridge" where
  "vouch_hello C f now now2 h s =
     (if \<not> hello_asks C now h then (False, s)
      else let (t, st) = IsTrusted f now (hPhoneID h) (br_store s);
               (codes, p) = (if t then ([], br_pairings s) else Outstanding now (br_pairings s));
               (ok, m) = authorizeHelloVouch C now now2 t codes h (br_replay s) in
        (ok, s\<lparr>br_store := st, br_pairings := p, br_replay := m\<rparr>))"

text \<open>\<open>Pending.Finish\<close> asks the store only when the Confirm is well formed and signed.\<close>

definition finish_asks :: "crypto \<Rightarrow> Pending \<Rightarrow> bytes \<Rightarrow> bool" where
  "finish_asks C pd frame = (case fst (PendingFinish C pd frame (Some (\<lambda>_. True)) []) of Inl _ \<Rightarrow> False | Inr _ \<Rightarrow> True)"

definition finish_stage ::
  "crypto \<Rightarrow> bool \<Rightarrow> Pending \<Rightarrow> bytes \<Rightarrow> 64 word \<Rightarrow> bytes list \<Rightarrow> stage" where
  "finish_stage C trusted pd frame g codes =
     (case fst (PendingFinish C pd frame (Some (\<lambda>_. trusted)) codes) of
        Inl e \<Rightarrow> Rejected (Refused_handshake e)
      | Inr (suite, None) \<Rightarrow> Publishing suite (hPhoneID (pdHello pd)) g 0
      | Inr (suite, Some code) \<Rightarrow> Paired suite (hPhoneID (pdHello pd)) g code)"

text \<open>One step of the handshake of connection \<open>c\<close>. Outside a matching stage nothing happens.\<close>

datatype hs_input =
    HFail
  | HHello bool string rng
  | HVouch faults gotime gotime
  | HConfirm bool bytes
  | HCodes gotime
  | HFinish faults gotime
  | HConsume gotime
  | HRecord faults gotime
  | HPublish
  | HRevalidate faults gotime

definition publishAdmission :: "nat \<Rightarrow> conn \<Rightarrow> Suite \<Rightarrow> bytes \<Rightarrow> 64 word \<Rightarrow> nat \<Rightarrow> bridge \<Rightarrow> bridge" where
  "publishAdmission c k suite pid g n s =
     (if revocationGeneration s = g
      then set_conn c (k\<lparr>cn_stage := Published suite, cn_deviceID := DeviceID pid\<rparr>) s
      else to_stage c k (Revalidating suite pid (revocationGeneration s) n) s)"

definition revalidate :: "faults \<Rightarrow> gotime \<Rightarrow> nat \<Rightarrow> conn \<Rightarrow> Suite \<Rightarrow> bytes \<Rightarrow> 64 word \<Rightarrow> nat \<Rightarrow> bridge \<Rightarrow> bridge" where
  "revalidate f now c k suite pid g n s =
     (let (t, st) = IsTrusted f now pid (br_store s) in
      to_stage c k
        (if \<not> t then Rejected (Refused_handshake ErrUntrustedPhone)
         else if Suc n < maxAdmissionPublishAttempts then Publishing suite pid g (Suc n)
         else Rejected KeptChanging)
        (s\<lparr>br_store := st\<rparr>))"

fun hs_step :: "crypto \<Rightarrow> Identity \<Rightarrow> nat \<Rightarrow> conn \<Rightarrow> hs_input \<Rightarrow> bridge \<Rightarrow> bridge" where
  "hs_step C b c k (HHello is_text raw r) s = (case cn_stage k of
     Greeting \<Rightarrow> to_stage c k (read_hello C b is_text raw r) s | _ \<Rightarrow> s)"
| "hs_step C b c k (HVouch f now now2) s = (case cn_stage k of
     Accepted pd \<Rightarrow> snd (vouch_hello C f now now2 (pdHello pd) s) | _ \<Rightarrow> s)"
| "hs_step C b c k (HConfirm is_binary frame) s = (case cn_stage k of
     Accepted pd \<Rightarrow> to_stage c k
       (if is_binary then Captured pd frame (revocationGeneration s) else Rejected ConfirmNotBinary) s
   | _ \<Rightarrow> s)"
| "hs_step C b c k (HCodes now) s = (case cn_stage k of
     Captured pd frame g \<Rightarrow>
       (let (codes, p) = Outstanding now (br_pairings s) in
        to_stage c k (Offered pd frame g codes) (s\<lparr>br_pairings := p\<rparr>))
   | _ \<Rightarrow> s)"
| "hs_step C b c k (HFinish f now) s = (case cn_stage k of
     Offered pd frame g codes \<Rightarrow>
       (let (t, st) = (if finish_asks C pd frame then IsTrusted f now (hPhoneID (pdHello pd)) (br_store s)
                       else (False, br_store s)) in
        to_stage c k (finish_stage C t pd frame g codes) (s\<lparr>br_store := st\<rparr>))
   | _ \<Rightarrow> s)"
| "hs_step C b c k (HConsume now) s = (case cn_stage k of
     Paired suite pid g code \<Rightarrow>
       (let (ok, p) = Consume now code (br_pairings s) in
        to_stage c k (if ok then Consumed suite pid g else Rejected CodeSpent) (s\<lparr>br_pairings := p\<rparr>))
   | _ \<Rightarrow> s)"
| "hs_step C b c k (HRecord f now) s = (case cn_stage k of
     Consumed suite pid g \<Rightarrow>
       (let (e, st) = AddTrusted f now pid [] (br_store s) in
        to_stage c k (if e \<noteq> [] \<and> \<not> is_committed e then Rejected (RecordDevice e) else Publishing suite pid g 0)
          (s\<lparr>br_store := st\<rparr>))
   | _ \<Rightarrow> s)"
| "hs_step C b c k HPublish s = (case cn_stage k of
     Publishing suite pid g n \<Rightarrow> publishAdmission c k suite pid g n s | _ \<Rightarrow> s)"
| "hs_step C b c k (HRevalidate f now) s = (case cn_stage k of
     Revalidating suite pid g n \<Rightarrow> revalidate f now c k suite pid g n s | _ \<Rightarrow> s)"
| "hs_step C b c k HFail s = (case cn_stage k of
     Published suite \<Rightarrow> s | _ \<Rightarrow> to_stage c k (Rejected ReadError) s)"

section \<open>Revocation\<close>

definition conns_of :: "string \<Rightarrow> bridge \<Rightarrow> nat list" where
  "conns_of i s = map fst (filter (\<lambda>(_, k). cn_deviceID k = i) (br_conns s))"

text \<open>\<open>Server.Revoke\<close> in its two phases: removing the device from the store, then, unless that had no
  effect, advancing the generation and picking the connections to close.\<close>

definition Revoke_remove :: "faults \<Rightarrow> string \<Rightarrow> bridge \<Rightarrow> (state_error list \<times> string option) \<times> bridge" where
  "Revoke_remove f p s =
     (case Revoke_store f p (br_store s) of
        ((err, removed), st) \<Rightarrow>
          if err \<noteq> [] \<and> \<not> is_committed err then ((err, None), s\<lparr>br_store := st\<rparr>)
          else let i = (case removed of Some d \<Rightarrow> dID d | None \<Rightarrow> []) in
            ((err, Some i), s\<lparr>br_store := st, br_revoking := i # br_revoking s\<rparr>))"

definition Revoke_advance :: "string \<Rightarrow> bridge \<Rightarrow> bridge" where
  "Revoke_advance i s =
     (if List.member (br_revoking s) i
      then s\<lparr>br_revocations := Suc (br_revocations s), br_revoking := remove1 i (br_revoking s),
             br_closing := conns_of i s @ br_closing s\<rparr>
      else s)"

definition DisconnectDevice :: "string \<Rightarrow> bridge \<Rightarrow> bridge" where
  "DisconnectDevice i s = s\<lparr>br_closing := conns_of i s @ br_closing s\<rparr>"

definition close_picked :: "nat \<Rightarrow> bridge \<Rightarrow> bridge" where
  "close_picked c s =
     (if List.member (br_closing s) c
      then (let s' = s\<lparr>br_closing := removeAll c (br_closing s)\<rparr> in
            case map_of (br_conns s) c of None \<Rightarrow> s' | Some k \<Rightarrow> set_conn c (k\<lparr>cn_closed := True\<rparr>) s')
      else s)"

section \<open>The bridge as a machine\<close>

text \<open>Connection numbers stand for the addresses of \<open>conn\<close> objects, so \<open>AOpen\<close> uses each once.
  \<open>AStore\<close> is the other work of the process on the store; it removes devices only by \<open>Revoke\<close>.\<close>

datatype adm_event =
    AOpen
  | ALeave nat
  | AHandshake nat hs_input
  | AIssue rng gotime
  | AStore store_op
  | ARemove faults string
  | AAdvance string
  | ADisconnect string
  | AClose nat

record adm_state =
  as_bridge :: bridge
  as_fresh :: nat

fun adm_step :: "crypto \<Rightarrow> Identity \<Rightarrow> adm_event \<Rightarrow> adm_state \<Rightarrow> adm_state" where
  "adm_step C b AOpen a = a\<lparr>as_bridge := track (as_fresh a) True (as_bridge a), as_fresh := Suc (as_fresh a)\<rparr>"
| "adm_step C b (ALeave c) a = a\<lparr>as_bridge := track c False (as_bridge a)\<rparr>"
| "adm_step C b (AHandshake c i) a =
     (case map_of (br_conns (as_bridge a)) c of
        None \<Rightarrow> a | Some k \<Rightarrow> a\<lparr>as_bridge := hs_step C b c k i (as_bridge a)\<rparr>)"
| "adm_step C b (AIssue r now) a =
     a\<lparr>as_bridge := (as_bridge a)\<lparr>br_pairings := snd (Issue r PairTTL now (br_pairings (as_bridge a)))\<rparr>\<rparr>"
| "adm_step C b (AStore op) a = (case op of
     SRevoke f p \<Rightarrow> a
   | _ \<Rightarrow> a\<lparr>as_bridge := (as_bridge a)\<lparr>br_store := store_step op (br_store (as_bridge a))\<rparr>\<rparr>)"
| "adm_step C b (ARemove f p) a = a\<lparr>as_bridge := snd (Revoke_remove f p (as_bridge a))\<rparr>"
| "adm_step C b (AAdvance i) a = a\<lparr>as_bridge := Revoke_advance i (as_bridge a)\<rparr>"
| "adm_step C b (ADisconnect i) a = a\<lparr>as_bridge := DisconnectDevice i (as_bridge a)\<rparr>"
| "adm_step C b (AClose c) a = a\<lparr>as_bridge := close_picked c (as_bridge a)\<rparr>"

definition new_bridge :: "Store \<Rightarrow> adm_state" where
  "new_bridge st = \<lparr>as_bridge = \<lparr>br_store = st, br_pairings = newPairings, br_replay = [], br_revocations = 0,
     br_conns = [], br_revoking = [], br_closing = []\<rparr>, as_fresh = 0\<rparr>"

end
