(* ===== verification/AdmissionSafety.thy ===== *)
theory AdmissionSafety
  imports Admission
begin

text \<open>
  What admission and revocation guarantee together, in every interleaving: a connection that is open
  to a device belongs to a trusted device, or the revocation that removed it is still running; and
  every such connection was opened by the holder of the device's key.
\<close>

section \<open>Publication needs current trust\<close>

definition backed :: "bridge \<Rightarrow> string \<Rightarrow> bool" where
  "backed s i \<longleftrightarrow> i \<in> ids (br_store s) \<or> i \<in> set (br_revoking s)"

definition gen_seen :: "bridge \<Rightarrow> 64 word \<Rightarrow> bool" where
  "gen_seen s g \<longleftrightarrow> (\<exists>n \<le> br_revocations s. g = word_of_nat n)"

definition gen_ok :: "bridge \<Rightarrow> 64 word \<Rightarrow> string \<Rightarrow> bool" where
  "gen_ok s g i \<longleftrightarrow> (\<exists>n \<le> br_revocations s. g = word_of_nat n \<and> (n = br_revocations s \<longrightarrow> backed s i))"

definition open_to :: "bridge \<Rightarrow> nat \<Rightarrow> conn \<Rightarrow> bool" where
  "open_to s c k \<longleftrightarrow> (\<exists>suite. cn_stage k = Published suite) \<and> \<not> cn_closed k \<and> c \<notin> set (br_closing s)"

fun stage_ok :: "bridge \<Rightarrow> stage \<Rightarrow> bool" where
  "stage_ok s (Captured pd frame g) = gen_seen s g"
| "stage_ok s (Offered pd frame g codes) = gen_seen s g"
| "stage_ok s (Paired suite pid g code) = gen_seen s g"
| "stage_ok s (Consumed suite pid g) = gen_seen s g"
| "stage_ok s (Publishing suite pid g n) = gen_ok s g (DeviceID pid)"
| "stage_ok s (Revalidating suite pid g n) = gen_seen s g"
| "stage_ok s _ = True"

definition conn_ok :: "bridge \<Rightarrow> nat \<Rightarrow> conn \<Rightarrow> bool" where
  "conn_ok s c k \<longleftrightarrow> stage_ok s (cn_stage k) \<and> (open_to s c k \<longrightarrow> backed s (cn_deviceID k))"

definition bridge_ok :: "bridge \<Rightarrow> bool" where
  "bridge_ok s \<longleftrightarrow> distinct_ids (br_store s) \<and>
     (\<forall>c k. map_of (br_conns s) c = Some k \<longrightarrow> conn_ok s c k)"

lemma gen_seen_now: "gen_seen s (revocationGeneration s)"
  by (auto simp: gen_seen_def revocationGeneration_def)

lemma gen_ok_backed: "gen_seen s g \<Longrightarrow> backed s i \<Longrightarrow> gen_ok s g i"
  by (auto simp: gen_seen_def gen_ok_def)

lemma gen_ok_now:
  assumes "gen_ok s (revocationGeneration s) i" "br_revocations s < 2 ^ 64"
  shows "backed s i"
proof -
  obtain n where n: "n \<le> br_revocations s" "word_of_nat (br_revocations s) = (word_of_nat n :: 64 word)"
    "n = br_revocations s \<longrightarrow> backed s i"
    using assms(1) by (auto simp: gen_ok_def revocationGeneration_def)
  then have "unat (word_of_nat (br_revocations s) :: 64 word) = unat (word_of_nat n :: 64 word)" by simp
  with n(1) assms(2) have "n = br_revocations s" by (simp add: unat_of_nat)
  with n(3) show ?thesis by simp
qed

text \<open>Steps that leave the generation alone and take nothing back.\<close>

definition keeps :: "bridge \<Rightarrow> bridge \<Rightarrow> bool" where
  "keeps s s' \<longleftrightarrow> br_revocations s' = br_revocations s \<and> set (br_closing s) \<subseteq> set (br_closing s') \<and>
     (\<forall>i. backed s i \<longrightarrow> backed s' i)"

lemma stage_ok_keeps: "keeps s s' \<Longrightarrow> stage_ok s st \<Longrightarrow> stage_ok s' st"
  by (cases st) (auto simp: keeps_def gen_seen_def gen_ok_def)

lemma conn_ok_keeps: "keeps s s' \<Longrightarrow> conn_ok s c k \<Longrightarrow> conn_ok s' c k"
  using stage_ok_keeps by (auto simp: conn_ok_def open_to_def keeps_def)

text \<open>A step that touches at most the connection \<open>c\<close>.\<close>

definition moves :: "nat \<Rightarrow> bridge \<Rightarrow> bridge \<Rightarrow> bool" where
  "moves c s s' \<longleftrightarrow> keeps s s' \<and> distinct_ids (br_store s') \<and>
     (br_conns s' = br_conns s \<or> (\<exists>k. br_conns s' = AList.update c k (br_conns s) \<and> conn_ok s' c k))"

lemma moves_ok: "bridge_ok s \<Longrightarrow> moves c s s' \<Longrightarrow> bridge_ok s'"
  by (auto simp: bridge_ok_def moves_def update_conv' split: if_splits) (blast intro: conn_ok_keeps)+

lemma keeps_store:
  assumes "ids (br_store s) \<subseteq> ids st"
  shows "keeps s (s\<lparr>br_store := st\<rparr>)" "keeps s (s\<lparr>br_store := st, br_pairings := p, br_replay := m\<rparr>)"
  using assms by (auto simp: keeps_def backed_def)

lemma keeps_pairings: "keeps s (s\<lparr>br_pairings := p\<rparr>)"
  by (auto simp: keeps_def backed_def)

lemma keeps_refl: "keeps s s"
  by (simp add: keeps_def)

lemma set_conn_same [simp]:
  "br_revocations (set_conn c k s) = br_revocations s" "br_store (set_conn c k s) = br_store s"
  "br_closing (set_conn c k s) = br_closing s" "br_revoking (set_conn c k s) = br_revoking s"
  "br_conns (set_conn c k s) = AList.update c k (br_conns s)"
  by (simp_all add: set_conn_def)

lemma backed_set_conn [simp]: "backed (set_conn c k s) i = backed s i"
  by (simp add: backed_def)

lemma stage_ok_set_conn [simp]: "stage_ok (set_conn c k s) st = stage_ok s st"
  by (cases st) (auto simp: gen_seen_def gen_ok_def)

lemma moves_stage:
  assumes "keeps s t" "distinct_ids (br_store t)" "br_conns t = br_conns s" "stage_ok t st"
    and "\<And>suite. st \<noteq> Published suite"
  shows "moves c s (to_stage c k st t)"
  using assms by (auto simp: moves_def to_stage_def keeps_def conn_ok_def open_to_def)

lemma moves_pairings:
  assumes "distinct_ids (br_store s)" "stage_ok s st" "\<And>suite. st \<noteq> Published suite"
  shows "moves c s (to_stage c k st (s\<lparr>br_pairings := p\<rparr>))"
proof -
  have "stage_ok (s\<lparr>br_pairings := p\<rparr>) st" using assms(2) by (cases st) (auto simp: gen_seen_def gen_ok_def backed_def)
  with assms show ?thesis by (intro moves_stage) (simp_all add: keeps_pairings)
qed

lemma IsTrusted_keeps:
  assumes "IsTrusted f now pid (br_store s) = (t, st)" "distinct_ids (br_store s)"
  shows "keeps s (s\<lparr>br_store := st\<rparr>)" "distinct_ids st" "t \<Longrightarrow> backed (s\<lparr>br_store := st\<rparr>) (DeviceID pid)"
  using IsTrusted_effect [OF assms(1)] assms(2) keeps_store [of s st] by (auto simp: backed_def)

lemma finish_stage_ok:
  assumes "gen_seen s g" "trusted \<Longrightarrow> backed s (DeviceID (hPhoneID (pdHello pd)))"
  shows "stage_ok s (finish_stage C trusted pd frame g codes)"
    and "finish_stage C trusted pd frame g codes \<noteq> Published suite"
proof -
  have "stage_ok s (finish_stage C trusted pd frame g codes) \<and> finish_stage C trusted pd frame g codes \<noteq> Published suite"
  proof (cases "fst (PendingFinish C pd frame (Some (\<lambda>_. trusted)) codes)")
    case (Inr p)
    obtain suite' used where p: "p = (suite', used)" by (cases p)
    with Inr obtain pd' where f: "PendingFinish C pd frame (Some (\<lambda>_. trusted)) codes = (Inr (suite', used), pd')"
      by (cases "PendingFinish C pd frame (Some (\<lambda>_. trusted)) codes") simp
    have "used = None \<Longrightarrow> trusted"
      by (rule PendingFinish_Inr [OF f]) (auto simp: is_trusted_def)
    with assms Inr p show ?thesis
      by (cases used) (auto simp: finish_stage_def intro: gen_ok_backed)
  qed (simp add: finish_stage_def)
  then show "stage_ok s (finish_stage C trusted pd frame g codes)"
    "finish_stage C trusted pd frame g codes \<noteq> Published suite" by auto
qed

lemma hs_step_moves:
  assumes "bridge_ok s" "map_of (br_conns s) c = Some k" "br_revocations s < 2 ^ 64"
  shows "moves c s (hs_step C b c k i s)"
proof -
  have d: "distinct_ids (br_store s)" and k: "stage_ok s (cn_stage k)"
    using assms(1,2) by (auto simp: bridge_ok_def conn_ok_def)
  have idle: "moves c s s" using d by (simp add: moves_def keeps_refl)
  show ?thesis
  proof (cases i)
    case (HHello is_text raw r)
    have "stage_ok s (read_hello C b is_text raw r)" "read_hello C b is_text raw r \<noteq> Published suite" for suite
      by (auto simp: read_hello_def split: option.split sum.split)
    then show ?thesis using HHello idle d by (auto intro!: moves_stage keeps_refl split: stage.split)
  next
    case (HVouch f now now2)
    have "moves c s (snd (vouch_hello C f now now2 h s))" for h
    proof -
      obtain t st where t: "IsTrusted f now (hPhoneID h) (br_store s) = (t, st)" by fastforce
      have "ids st = ids (br_store s)" "distinct_ids st" using IsTrusted_effect [OF t] d by auto
      then show ?thesis using idle t
        by (auto simp: vouch_hello_def case_prod_beta Let_def moves_def keeps_store)
    qed
    then show ?thesis using HVouch idle by (auto split: stage.split)
  next
    case (HConfirm is_binary frame)
    then show ?thesis using idle d by (auto intro!: moves_stage keeps_refl gen_seen_now split: stage.split)
  next
    case (HCodes now)
    have "moves c s (to_stage c k (Offered pd frame g codes) (s\<lparr>br_pairings := p\<rparr>))" if "gen_seen s g" for pd frame g codes p
      using that d by (intro moves_stage) (simp_all add: keeps_pairings gen_seen_def)
    then show ?thesis using HCodes idle k by (auto simp: case_prod_beta Let_def split: stage.split)
  next
    case (HFinish f now)
    have "moves c s (to_stage c k (finish_stage C t pd frame g codes) (s\<lparr>br_store := st\<rparr>))"
      if "gen_seen s g" "(if finish_asks C pd frame then IsTrusted f now (hPhoneID (pdHello pd)) (br_store s)
                       else (False, br_store s)) = (t, st)" for pd frame g codes t st
    proof -
      have "keeps s (s\<lparr>br_store := st\<rparr>)" "distinct_ids st" "t \<Longrightarrow> backed (s\<lparr>br_store := st\<rparr>) (DeviceID (hPhoneID (pdHello pd)))"
        using that(2) IsTrusted_keeps [OF _ d, of f now "hPhoneID (pdHello pd)" t st] d
        by (auto simp: keeps_refl split: if_splits)
      moreover have "gen_seen (s\<lparr>br_store := st\<rparr>) g" using that(1) by (simp add: gen_seen_def)
      ultimately show ?thesis by (intro moves_stage finish_stage_ok) simp_all
    qed
    moreover have "moves c s (to_stage c k (finish_stage C False pd frame g codes) s)" if "gen_seen s g" for pd frame g codes
      using that d by (intro moves_stage finish_stage_ok keeps_refl) simp_all
    ultimately show ?thesis using HFinish idle k by (auto simp: case_prod_beta Let_def split: stage.split)
  next
    case (HConsume now)
    then show ?thesis using idle d k
      by (auto simp: case_prod_beta Let_def intro!: moves_pairings split: stage.split)
  next
    case (HRecord f now)
    have rec: "moves c s (to_stage c k (if e \<noteq> [] \<and> \<not> is_committed e then Rejected (RecordDevice e) else Publishing suite pid g 0)
          (s\<lparr>br_store := st\<rparr>))"
      if "gen_seen s g" "AddTrusted f now pid [] (br_store s) = (e, st)" for suite pid g e st
    proof -
      have "ids (br_store s) \<subseteq> ids st" "distinct_ids st" "effective e \<Longrightarrow> DeviceID pid \<in> ids st"
        using AddTrusted_effect [OF that(2)] d by (auto split: if_splits)
      moreover have "gen_seen (s\<lparr>br_store := st\<rparr>) g" using that(1) by (simp add: gen_seen_def)
      ultimately show ?thesis
        by (intro moves_stage) (auto simp: keeps_store effective_def backed_def intro: gen_ok_backed)
    qed
    show ?thesis
    proof (cases "cn_stage k")
      case (Consumed suite pid g)
      obtain e st where a: "AddTrusted f now pid [] (br_store s) = (e, st)" by fastforce
      have "gen_seen s g" using k Consumed by simp
      from rec [OF this a, of suite] show ?thesis using HRecord Consumed a by simp
    qed (use HRecord idle in simp_all)
  next
    case HPublish
    have "moves c s (publishAdmission c k suite pid g n s)" if g: "gen_ok s g (DeviceID pid)" for suite pid g n
    proof (cases "revocationGeneration s = g")
      case True
      with g have "backed s (DeviceID pid)" using gen_ok_now assms(3) by simp
      with True d show ?thesis
        by (auto simp: publishAdmission_def moves_def keeps_def conn_ok_def)
    next
      case False
      with d show ?thesis by (auto simp: publishAdmission_def intro!: moves_stage keeps_refl gen_seen_now)
    qed
    then show ?thesis using HPublish idle k by (auto split: stage.split)
  next
    case (HRevalidate f now)
    have "moves c s (revalidate f now c k suite pid g n s)" if g: "gen_seen s g" for suite pid g n
    proof -
      obtain t st where t: "IsTrusted f now pid (br_store s) = (t, st)" by fastforce
      note ik = IsTrusted_keeps [OF t d]
      have "gen_seen (s\<lparr>br_store := st\<rparr>) g" using g by (simp add: gen_seen_def)
      with ik t show ?thesis by (auto simp: revalidate_def intro!: moves_stage gen_ok_backed)
    qed
    then show ?thesis using HRevalidate idle k by (auto split: stage.split)
  next
    case HFail
    then show ?thesis using idle d by (auto intro!: moves_stage keeps_refl split: stage.split)
  qed
qed

lemma conns_of_mem: "map_of (br_conns s) c = Some k \<Longrightarrow> cn_deviceID k = i \<Longrightarrow> c \<in> set (conns_of i s)"
  by (force simp: conns_of_def dest: map_of_SomeD)

lemma advance_ok:
  assumes "bridge_ok s" shows "bridge_ok (Revoke_advance i s)"
proof (cases "List.member (br_revoking s) i")
  case True
  let ?s = "s\<lparr>br_revocations := Suc (br_revocations s), br_revoking := remove1 i (br_revoking s),
             br_closing := conns_of i s @ br_closing s\<rparr>"
  have "conn_ok ?s c k" if m: "map_of (br_conns s) c = Some k" for c k
  proof -
    have ok: "conn_ok s c k" using assms m by (simp add: bridge_ok_def)
    have "stage_ok ?s (cn_stage k)"
      using ok by (cases "cn_stage k") (auto simp: conn_ok_def gen_seen_def gen_ok_def intro: le_SucI)
    moreover have "backed ?s (cn_deviceID k)" if o: "open_to ?s c k"
    proof -
      have "cn_deviceID k \<noteq> i" using o conns_of_mem [OF m] by (auto simp: open_to_def)
      moreover have "backed s (cn_deviceID k)" using o ok by (auto simp: conn_ok_def open_to_def)
      ultimately show ?thesis by (auto simp: backed_def)
    qed
    ultimately show ?thesis by (simp add: conn_ok_def)
  qed
  with True assms show ?thesis by (simp add: Revoke_advance_def bridge_ok_def)
qed (use assms in \<open>simp add: Revoke_advance_def\<close>)

lemma remove_ok:
  assumes "bridge_ok s" shows "bridge_ok (snd (Revoke_remove f p s))"
proof -
  obtain e r st where r: "Revoke_store f p (br_store s) = ((e, r), st)" by (metis prod.exhaust_sel)
  have d: "distinct_ids (br_store s)" using assms by (simp add: bridge_ok_def)
  note eff = Revoke_effect [OF r d]
  have "moves c s (snd (Revoke_remove f p s))" for c
  proof (cases "effective e")
    case True
    with eff(1) obtain dev where "r = Some dev" "ids st = ids (br_store s) - {dID dev}" by (auto split: option.splits)
    with r eff(2) True show ?thesis
      by (auto simp: Revoke_remove_def Let_def moves_def keeps_def backed_def effective_def)
  next
    case False
    with eff(1) have "st = br_store s" by (auto split: option.splits)
    with r False d show ?thesis by (auto simp: Revoke_remove_def Let_def moves_def keeps_refl effective_def)
  qed
  with assms show ?thesis by (rule moves_ok)
qed

lemma close_ok:
  assumes "bridge_ok s" shows "bridge_ok (close_picked c s)"
proof -
  have "conn_ok (close_picked c s) d k'" if "map_of (br_conns (close_picked c s)) d = Some k'" for d k'
  proof -
    have st: "stage_ok (close_picked c s) x = stage_ok s x" "backed (close_picked c s) y = backed s y" for x y
      by (cases x, auto simp: close_picked_def gen_seen_def gen_ok_def backed_def Let_def split: option.split)
    from that obtain k where k: "map_of (br_conns s) d = Some k" "cn_stage k' = cn_stage k" "cn_deviceID k' = cn_deviceID k"
      "open_to (close_picked c s) d k' \<Longrightarrow> open_to s d k"
      by (cases "d = c") (auto simp: close_picked_def Let_def update_conv' open_to_def split: option.splits if_splits)
    with assms st show ?thesis by (auto simp: bridge_ok_def conn_ok_def)
  qed
  moreover have "br_store (close_picked c s) = br_store s"
    by (simp add: close_picked_def Let_def split: option.split)
  ultimately show ?thesis using assms by (simp add: bridge_ok_def)
qed

lemma store_step_keeps:
  assumes "distinct_ids st" "\<And>f p. op \<noteq> SRevoke f p"
  shows "ids st \<subseteq> ids (store_step op st) \<and> distinct_ids (store_step op st)"
proof (cases op)
  case (SIsTrusted f now k)
  with IsTrusted_effect [of f now k st, OF surjective_pairing] assms show ?thesis by simp
next
  case (SAddTrusted f now k name)
  with AddTrusted_effect [of f now k name st, OF surjective_pairing] assms show ?thesis by (auto split: if_splits)
next
  case (STrust f now k name)
  with Trust_effect [of f now k name st, OF surjective_pairing] assms show ?thesis by (auto split: if_splits)
qed (use assms in \<open>simp_all add: quiet_op_ids\<close>)

lemma track_ok:
  assumes "bridge_ok s" "add \<Longrightarrow> k = newConnection"
  shows "bridge_ok (track c add s)"
proof -
  have *: "stage_ok (track c add s) st = stage_ok s st" "backed (track c add s) i = backed s i" for st i
    by (cases st, auto simp: track_def gen_seen_def gen_ok_def backed_def)
  show ?thesis
    using assms unfolding bridge_ok_def conn_ok_def open_to_def *
    by (auto simp: track_def update_conv' delete_conv' newConnection_def split: if_splits)
qed

definition adm_inv :: "adm_state \<Rightarrow> bool" where
  "adm_inv a \<longleftrightarrow> (br_revocations (as_bridge a) < 2 ^ 64 \<longrightarrow> bridge_ok (as_bridge a))"

lemma revocations_step:
  "br_revocations (as_bridge a) \<le> br_revocations (as_bridge (adm_step C b e a)) \<and>
   br_revocations (as_bridge (adm_step C b e a)) \<le> Suc (br_revocations (as_bridge a))"
proof (cases e)
  case (AHandshake c i)
  have "br_revocations (hs_step C b c k i s) = br_revocations s" for k s
    by (cases i) (auto simp: to_stage_def publishAdmission_def revalidate_def vouch_hello_def case_prod_beta Let_def
        split: stage.split)
  then show ?thesis using AHandshake by (simp split: option.split)
qed (auto simp: track_def Revoke_remove_def Revoke_advance_def DisconnectDevice_def close_picked_def Let_def
    split: option.split store_op.split prod.split)

lemma adm_step_inv:
  assumes "adm_inv a" shows "adm_inv (adm_step C b e a)"
proof (cases "br_revocations (as_bridge a) < 2 ^ 64")
  case True
  with assms have ok: "bridge_ok (as_bridge a)" by (simp add: adm_inv_def)
  have "bridge_ok (as_bridge (adm_step C b e a))"
  proof (cases e)
    case (AHandshake c i)
    with ok True show ?thesis
      by (auto intro: moves_ok [OF ok hs_step_moves [OF ok]] split: option.split)
  next
    case (AIssue r now)
    have "moves c s (s\<lparr>br_pairings := p\<rparr>)" if "distinct_ids (br_store s)" for c s p
      using that by (simp add: moves_def keeps_pairings)
    with ok AIssue show ?thesis by (auto simp: bridge_ok_def [of "as_bridge a"] intro!: moves_ok [OF ok])
  next
    case (AStore op)
    have "moves c (as_bridge a) ((as_bridge a)\<lparr>br_store := store_step op (br_store (as_bridge a))\<rparr>)"
      if "\<And>f p. op \<noteq> SRevoke f p" for c
      using ok store_step_keeps [OF _ that] by (auto simp: moves_def bridge_ok_def intro!: keeps_store)
    with ok AStore show ?thesis by (cases op) (auto intro!: moves_ok [OF ok])
  next
    case (ADisconnect i)
    have "moves c s (DisconnectDevice i s)" if "distinct_ids (br_store s)" for c s
      using that by (auto simp: moves_def keeps_def DisconnectDevice_def backed_def)
    with ok ADisconnect show ?thesis by (auto simp: bridge_ok_def [of "as_bridge a"] intro!: moves_ok [OF ok])
  qed (use ok in \<open>auto intro: track_ok remove_ok advance_ok close_ok\<close>)
  then show ?thesis by (simp add: adm_inv_def)
next
  case False
  with revocations_step [of a C b e] show ?thesis by (simp add: adm_inv_def)
qed

interpretation admission: machine "adm_step C b" adm_inv for C b
  by unfold_locales (rule adm_step_inv)

lemma revocations_run: "br_revocations (as_bridge (fold (adm_step C b) es a)) \<le> br_revocations (as_bridge a) + length es"
proof (induction es arbitrary: a)
  case (Cons e es)
  from Cons.IH [of "adm_step C b e a"] revocations_step [of a C b e] show ?case by simp
qed simp

text \<open>
  C3. No connection outlives its device's trust: in every interleaving of fewer than $2^{64}$ steps of
  handshakes, pairings, revocations, disconnections and other store operations, with any fault in
  the store at any step, a connection that is published, not closed and not picked for closing
  belongs to a device that is on disk as trusted, or whose revocation has removed it there and is about
  to advance the generation, which picks the connection.
\<close>

theorem published_trusted:
  assumes "distinct_ids st" "length es < 2 ^ 64"
    and "map_of (br_conns (as_bridge (fold (adm_step C b) es (new_bridge st)))) c = Some k"
    and "open_to (as_bridge (fold (adm_step C b) es (new_bridge st))) c k"
  shows "cn_deviceID k \<in> ids (br_store (as_bridge (fold (adm_step C b) es (new_bridge st)))) \<or>
    cn_deviceID k \<in> set (br_revoking (as_bridge (fold (adm_step C b) es (new_bridge st))))"
proof -
  have "adm_inv (fold (adm_step C b) es (new_bridge st))"
    by (rule admission.run_inv) (simp add: adm_inv_def new_bridge_def bridge_ok_def assms(1))
  moreover have "br_revocations (as_bridge (fold (adm_step C b) es (new_bridge st))) < 2 ^ 64"
    using revocations_run [of C b es "new_bridge st"] assms(2) by (simp add: new_bridge_def)
  ultimately show ?thesis using assms(3,4) by (simp add: adm_inv_def bridge_ok_def conn_ok_def backed_def)
qed

section \<open>Publication needs the device's key\<close>

definition proven :: "crypto \<Rightarrow> Identity \<Rightarrow> bytes \<Rightarrow> bool" where
  "proven C b pid \<longleftrightarrow> (\<exists>h r a pd frame msg s c.
     BridgeAccept C b h r = Inr (a, pd) \<and> hSessionID h = SessionID C b \<and> pid = hPhoneID h \<and>
     Open C frame (pdSuite pd) = (Inr msg, s) \<and> UnmarshalConfirm msg = Some c \<and>
     verify C pid labelSigPhone (Transcript C h (Public C b) a) (cSig c))"

definition accepted :: "crypto \<Rightarrow> Identity \<Rightarrow> Pending \<Rightarrow> bool" where
  "accepted C b pd \<longleftrightarrow> (\<exists>h r a. BridgeAccept C b h r = Inr (a, pd))"

fun stage_proven :: "crypto \<Rightarrow> Identity \<Rightarrow> stage \<Rightarrow> bool" where
  "stage_proven C b (Accepted pd) = accepted C b pd"
| "stage_proven C b (Captured pd frame g) = accepted C b pd"
| "stage_proven C b (Offered pd frame g codes) = accepted C b pd"
| "stage_proven C b (Paired suite pid g code) = proven C b pid"
| "stage_proven C b (Consumed suite pid g) = proven C b pid"
| "stage_proven C b (Publishing suite pid g n) = proven C b pid"
| "stage_proven C b (Revalidating suite pid g n) = proven C b pid"
| "stage_proven C b _ = True"

definition conn_proven :: "crypto \<Rightarrow> Identity \<Rightarrow> conn \<Rightarrow> bool" where
  "conn_proven C b k \<longleftrightarrow> stage_proven C b (cn_stage k) \<and>
     (cn_deviceID k \<noteq> [] \<or> (\<exists>suite. cn_stage k = Published suite) \<longrightarrow>
        (\<exists>pid. cn_deviceID k = DeviceID pid \<and> proven C b pid))"

definition adm_proven :: "crypto \<Rightarrow> Identity \<Rightarrow> adm_state \<Rightarrow> bool" where
  "adm_proven C b a \<longleftrightarrow> (\<forall>c k. map_of (br_conns (as_bridge a)) c = Some k \<longrightarrow> conn_proven C b k)"

lemma finish_proven:
  assumes "accepted C b pd"
  shows "stage_proven C b (finish_stage C trusted pd frame g codes)"
    and "finish_stage C trusted pd frame g codes \<noteq> Published suite"
proof -
  have "stage_proven C b (finish_stage C trusted pd frame g codes) \<and> finish_stage C trusted pd frame g codes \<noteq> Published suite"
  proof (cases "fst (PendingFinish C pd frame (Some (\<lambda>_. trusted)) codes)")
    case (Inr p)
    obtain suite' used where p: "p = (suite', used)" by (cases p)
    with Inr obtain pd' where f: "PendingFinish C pd frame (Some (\<lambda>_. trusted)) codes = (Inr (suite', used), pd')"
      by (cases "PendingFinish C pd frame (Some (\<lambda>_. trusted)) codes") simp
    obtain h r a where acc: "BridgeAccept C b h r = Inr (a, pd)" using assms by (auto simp: accepted_def)
    note fields = BridgeAccept_fields [OF acc]
    obtain msg cf where o: "Open C frame (pdSuite pd) = (Inr msg, suite')" "UnmarshalConfirm msg = Some cf"
      "verify C (hPhoneID (pdHello pd)) labelSigPhone (pdTranscript pd) (cSig cf)"
      by (rule PendingFinish_Inr [OF f])
    have v: "verify C (hPhoneID h) labelSigPhone (Transcript C h (Public C b) a) (cSig cf)"
      using o(3) fields(6,7) by simp
    have "proven C b (hPhoneID (pdHello pd))"
      unfolding proven_def fields(6) by (intro exI conjI, rule acc, rule fields(2), rule refl, rule o(1), rule o(2), rule v)
    with Inr p show ?thesis by (cases used) (auto simp: finish_stage_def)
  qed (simp add: finish_stage_def)
  then show "stage_proven C b (finish_stage C trusted pd frame g codes)"
    "finish_stage C trusted pd frame g codes \<noteq> Published suite" by auto
qed

lemma read_hello_proven:
  "stage_proven C b (read_hello C b is_text raw r)" "read_hello C b is_text raw r \<noteq> Published suite"
  by (auto simp: read_hello_def accepted_def split: option.split sum.split)

text \<open>The connections after one step of a handshake.\<close>

definition proven_step :: "crypto \<Rightarrow> Identity \<Rightarrow> nat \<Rightarrow> (nat, conn) gomap \<Rightarrow> (nat, conn) gomap \<Rightarrow> bool" where
  "proven_step C b c m m' \<longleftrightarrow> m' = m \<or> (\<exists>k'. m' = AList.update c k' m \<and> conn_proven C b k')"

lemma proven_step_refl: "proven_step C b c m m"
  by (simp add: proven_step_def)

lemma proven_step_set: "br_conns t = m \<Longrightarrow> conn_proven C b k' \<Longrightarrow> proven_step C b c m (br_conns (set_conn c k' t))"
  by (auto simp: proven_step_def)

lemma proven_step_stage:
  assumes "conn_proven C b k" "br_conns t = m" "stage_proven C b st" "\<And>suite. st \<noteq> Published suite"
  shows "proven_step C b c m (br_conns (to_stage c k st t))"
  using assms unfolding to_stage_def by (intro proven_step_set) (auto simp: conn_proven_def)

lemma hs_step_proven:
  assumes "conn_proven C b k"
  shows "proven_step C b c (br_conns s) (br_conns (hs_step C b c k i s))"
proof -
  have st: "stage_proven C b (cn_stage k)" using assms by (simp add: conn_proven_def)
  show ?thesis
  proof (cases i)
    case (HVouch f now now2)
    then show ?thesis
      by (auto simp: vouch_hello_def case_prod_beta Let_def proven_step_refl split: stage.split)
  next
    case HPublish
    have "conn_proven C b (k\<lparr>cn_stage := Published suite, cn_deviceID := DeviceID pid\<rparr>)" if "proven C b pid" for suite pid
      using that by (auto simp: conn_proven_def)
    then show ?thesis using HPublish st assms
      by (auto simp: publishAdmission_def simp del: set_conn_same
          intro!: proven_step_refl proven_step_set proven_step_stage split: stage.split)
  qed (use assms st in \<open>auto simp: case_prod_beta Let_def revalidate_def
      intro!: proven_step_refl proven_step_stage finish_proven read_hello_proven split: stage.split\<close>)
qed

lemma adm_step_proven: "adm_proven C b a \<Longrightarrow> adm_proven C b (adm_step C b e a)"
proof (cases e)
  case (AHandshake c i)
  assume p: "adm_proven C b a"
  show ?thesis
  proof (cases "map_of (br_conns (as_bridge a)) c")
    case (Some k)
    with p have "conn_proven C b k" by (simp add: adm_proven_def)
    from hs_step_proven [OF this, where s = "as_bridge a" and c = c and i = i] p AHandshake Some show ?thesis
      by (auto simp: proven_step_def adm_proven_def update_conv' split: if_splits)
  qed (use p AHandshake in simp)
next
  case AOpen
  assume "adm_proven C b a"
  with AOpen show ?thesis by (auto simp: adm_proven_def track_def update_conv' newConnection_def conn_proven_def)
next
  case (AClose c)
  assume "adm_proven C b a"
  with AClose show ?thesis
    by (auto simp: adm_proven_def close_picked_def Let_def update_conv' conn_proven_def split: option.split if_splits)
qed (auto simp: adm_proven_def track_def delete_conv' Revoke_remove_def Revoke_advance_def DisconnectDevice_def Let_def
    split: store_op.split prod.split if_splits)

interpretation admission_proofs: machine "adm_step C b" "adm_proven C b" for C b
  by unfold_locales (rule adm_step_proven)


text \<open>A run in which a trusted phone is admitted.\<close>

definition demo_store :: Store where
  "demo_store = snd (AddTrusted no_faults 1 (Public toy_crypto toy_phone) [] empty_store)"

lemma demo_store_trusts:
  obtains st where "IsTrusted no_faults 5 (Public toy_crypto toy_phone) demo_store = (True, st)"
proof -
  have "fst (IsTrusted no_faults 5 (Public toy_crypto toy_phone) demo_store)"
    by (simp add: demo_store_def IsTrusted_def AddTrusted_def locked_def devicesUnlocked_def writeDevices_def
        writeFile_outcome empty_store_def no_faults_def put_devices_def)
  with that show thesis by (metis prod.exhaust_sel)
qed

lemma demo_store_distinct: "distinct_ids demo_store"
  unfolding demo_store_def using AddTrusted_effect(2) [OF surjective_pairing distinct_empty(1)] .

lemma demo_hello:
  obtains h pd f sb pd' a where "Hello_UnmarshalJSON (MarshalHello h) = Some h"
    "BridgeAccept toy_crypto toy_bridge h (replicate 64 2) = Inr (a, pd)" "pdHello pd = h"
    "hPhoneID h = Public toy_crypto toy_phone"
    "PendingFinish toy_crypto pd f (Some (\<lambda>_. True)) [] = (Inr (sb, None), pd')"
proof -
  obtain h ps a pd f sp sb used pd' where r:
    "PhoneHello toy_crypto toy_phone (SessionID toy_crypto toy_bridge) (replicate 64 1) = Inr (h, ps)"
    "BridgeAccept toy_crypto toy_bridge h (replicate 64 2) = Inr (a, pd)"
    "PendingFinish toy_crypto pd f (Some (\<lambda>_. True)) [] = (Inr (sb, used), pd')"
    "used = None \<longleftrightarrow> is_trusted (Some (\<lambda>_. True)) (Public toy_crypto toy_phone)"
    using honest_handshake [OF toy_crypto_laws(1,3,4,5) toy_seeds, of "replicate 64 1" "replicate 64 2" "Some (\<lambda>_. True)"
      "[]" None] by (auto simp: is_trusted_def)
  have h: "hVersion h = Version" "hSessionID h = SessionID toy_crypto toy_bridge" "hPhoneID h = Public toy_crypto toy_phone"
    "hAdmissionTimestamp h = None" "hAdmissionSignature h = None" "hAdmissionCodeProof h = None"
    using r(1) by (auto simp: PhoneHello_def Let_def split: option.splits)
  have "plain (SessionID toy_crypto toy_bridge)"
    using plain_b64 [of "sha256 toy_crypto (Public toy_crypto toy_bridge)"]
    by (auto simp: SessionID_def SessionIDFor_def list_all_iff dest: in_set_takeD)
  then have "Hello_UnmarshalJSON (MarshalHello h) = Some h"
    by (intro Hello_round) (simp_all add: h Version_def)
  from that [OF this r(2) BridgeAccept_fields(6) [OF r(2)] h(3)] r(3,4) show thesis by (simp add: is_trusted_def)
qed

lemma demo_admission:
  obtains es k where "length es = 6" "map_of (br_conns (as_bridge (fold (adm_step toy_crypto toy_bridge) es (new_bridge demo_store)))) 0 = Some k"
    "open_to (as_bridge (fold (adm_step toy_crypto toy_bridge) es (new_bridge demo_store))) 0 k"
    "cn_deviceID k = DeviceID (Public toy_crypto toy_phone)"
proof -
  obtain st where t: "IsTrusted no_faults 5 (Public toy_crypto toy_phone) demo_store = (True, st)"
    by (rule demo_store_trusts)
  obtain h pd f sb pd' a where h: "Hello_UnmarshalJSON (MarshalHello h) = Some h"
    "BridgeAccept toy_crypto toy_bridge h (replicate 64 2) = Inr (a, pd)" "pdHello pd = h"
    "hPhoneID h = Public toy_crypto toy_phone"
    "PendingFinish toy_crypto pd f (Some (\<lambda>_. True)) [] = (Inr (sb, None), pd')"
    by (rule demo_hello)
  let ?es = "[AOpen, AHandshake 0 (HHello True (MarshalHello h) (replicate 64 2)), AHandshake 0 (HConfirm True f),
    AHandshake 0 (HCodes 3), AHandshake 0 (HFinish no_faults 5), AHandshake 0 HPublish]"
  have read: "read_hello toy_crypto toy_bridge True (MarshalHello h) (replicate 64 2) = Accepted pd"
    using h(1,2) by (simp add: read_hello_def)
  have fin: "finish_asks toy_crypto pd f" "finish_stage toy_crypto True pd f g [] = Publishing sb (Public toy_crypto toy_phone) g 0" for g
    using h(3-5) by (simp_all add: finish_asks_def finish_stage_def)
  have run: "as_bridge (fold (adm_step toy_crypto toy_bridge) ?es (new_bridge demo_store)) =
    \<lparr>br_store = st, br_pairings = [], br_replay = [], br_revocations = 0,
     br_conns = [(0, \<lparr>cn_stage = Published sb, cn_deviceID = DeviceID (Public toy_crypto toy_phone), cn_closed = False\<rparr>)],
     br_revoking = [], br_closing = []\<rparr>"
    by (simp add: new_bridge_def track_def newConnection_def to_stage_def set_conn_def read fin t h(3,4)
        revocationGeneration_def Outstanding_def unexpired_def newPairings_def publishAdmission_def
        del: set_conn_same)
  show thesis by (rule that [of ?es "\<lparr>cn_stage = Published sb, cn_deviceID = DeviceID (Public toy_crypto toy_phone), cn_closed = False\<rparr>"],
      unfold run) (simp_all add: open_to_def)
qed

lemma published_trusted_witness:
  "\<exists>es k. open_to (as_bridge (fold (adm_step toy_crypto toy_bridge) es (new_bridge demo_store))) 0 k \<and>
    (cn_deviceID k \<in> ids (br_store (as_bridge (fold (adm_step toy_crypto toy_bridge) es (new_bridge demo_store)))) \<or>
     cn_deviceID k \<in> set (br_revoking (as_bridge (fold (adm_step toy_crypto toy_bridge) es (new_bridge demo_store)))))"
proof -
  obtain es k where r: "length es = 6"
    "map_of (br_conns (as_bridge (fold (adm_step toy_crypto toy_bridge) es (new_bridge demo_store)))) 0 = Some k"
    "open_to (as_bridge (fold (adm_step toy_crypto toy_bridge) es (new_bridge demo_store))) 0 k"
    by (rule demo_admission)
  have "length es < 2 ^ 64" using r(1) by simp
  from published_trusted [OF demo_store_distinct this r(2,3)] r(3) show ?thesis by blast
qed


end
