(* ===== verification/JsonQuote.thy ===== *)
theory JsonQuote
  imports JsonText
begin

text \<open>
  The strings that \<open>json.Marshal\<close> prints are JSON whatever bytes they are made of: every escape and every
  rune that is copied parses again, and invalid UTF-8 is replaced before it is printed.
\<close>

section \<open>Any text is a JSON string\<close>

lemma decode_rune_2: "snd (decode_rune (a # b # ys)) = 2 \<Longrightarrow> decode_rune (a # b # zs) = decode_rune (a # b # ys)"
  by (cases "224 \<le> a \<and> a < 245")
    (auto simp: decode_rune_def split: if_splits list.splits)

lemma decode_rune_3: "snd (decode_rune (a # b # c # ys)) = 3 \<Longrightarrow> decode_rune (a # b # c # zs) = decode_rune (a # b # c # ys)"
proof (cases "240 \<le> a \<and> a < 245")
  case True
  assume "snd (decode_rune (a # b # c # ys)) = 3"
  with True show ?thesis by (cases ys) (simp_all add: decode_rune_def split: if_splits)
next
  case False
  then consider "a < 240" | "245 \<le> a" by linarith
  then show ?thesis by cases (simp_all add: decode_rune_def)
qed

lemma decode_rune_4: "snd (decode_rune (a # b # c # d # ys)) = 4 \<Longrightarrow>
    decode_rune (a # b # c # d # zs) = decode_rune (a # b # c # d # ys)"
  by (simp add: decode_rune_def)

lemma decode_rune_local:
  assumes "decode_rune (string_bytes (take 4 s)) = (r, w)" "2 \<le> w"
  shows "decode_rune (string_bytes (take 4 (take w s @ t))) = (r, w)" "w \<le> length s" "s \<noteq> []"
proof -
  have ne: "s \<noteq> []" using assms by (auto simp: string_bytes_def decode_rune_def)
  then have "string_bytes (take 4 s) \<noteq> []" by (simp add: string_bytes_def)
  from decode_rune_width [OF this] assms(1) have w: "w \<le> length s" "w \<le> 4"
    by (auto simp: string_bytes_def)
  with ne show "w \<le> length s" "s \<noteq> []" by auto
  note sn = assms(1) [THEN arg_cong, of snd, simplified]
  consider "w = 2" | "w = 3" | "w = 4" using w(2) assms(2) by linarith
  then show "decode_rune (string_bytes (take 4 (take w s @ t))) = (r, w)"
  proof cases
    case 1
    with w(1) obtain a b u where s: "s = a # b # u" by (cases s; cases "tl s") auto
    from sn 1 decode_rune_2 [of "of_char a" "of_char b" "string_bytes (take 2 u)" "string_bytes (take 2 t)"] assms(1)
    show ?thesis by (simp add: s string_bytes_def)
  next
    case 2
    with w(1) obtain a b c u where s: "s = a # b # c # u" by (cases s; cases "tl s"; cases "tl (tl s)") auto
    from sn 2 decode_rune_3 [of "of_char a" "of_char b" "of_char c" "string_bytes (take 1 u)" "string_bytes (take 1 t)"] assms(1)
    show ?thesis by (simp add: s string_bytes_def)
  next
    case 3
    with w(1) obtain a b c d u where s: "s = a # b # c # d # u"
      by (cases s; cases "tl s"; cases "tl (tl s)"; cases "tl (tl (tl s))") auto
    from assms(1) 3 show ?thesis by (simp add: s)
  qed
qed

lemma hex_digits_sum:
  "n div 4096 * 4096 + n div 256 mod 16 * 256 + n div 16 mod 16 * 16 + n mod 16 = (n :: nat)"
proof -
  have "n div 4096 = n div 256 div 16" "n div 256 = n div 16 div 16" by (simp_all flip: div_mult2_eq)
  then have "n div 256 = 16 * (n div 4096) + n div 256 mod 16" "n div 16 = 16 * (n div 256) + n div 16 mod 16"
    by (metis mult_div_mod_eq)+
  moreover have "n = 16 * (n div 16) + n mod 16" by simp
  ultimately show ?thesis by linarith
qed

lemma parse_hex4_text:
  assumes "n < 65536" "\<not> (55296 \<le> n \<and> n < 57344)" "parse_string t = Some (x, r)"
  shows "\<exists>x. parse_string (hex4_text n @ t) = Some (x, r)"
proof -
  have "hex4 (tl (tl (hex4_text n)) @ t) = Some n"
    using assms(1) hex_digits_sum [of n] by (simp add: hex4_def hex4_text_def hex_val_digit)
  then show ?thesis using assms(2,3)
    by (subst parse_string.simps) (simp add: hex4_text_def join_surrogate_def)
qed

lemma parse_escape: "simple_escape e = Some [c] \<Longrightarrow> parse_string t = Some (x, r) \<Longrightarrow> e \<noteq> CHR ''u'' \<Longrightarrow>
    parse_string (CHR 0x5C # e # t) = Some (c # x, r)"
  by (subst parse_string.simps) simp

lemma parse_quote_ascii:
  assumes "ord c < 128" "parse_string t = Some (x, r)"
  shows "\<exists>x. parse_string (quote_ascii c @ t) = Some (x, r)"
proof -
  consider (quote) "c = CHR 0x22 \<or> c = CHR 0x5C" | (b) "c = CHR 0x08" | (f) "c = CHR 0x0C" | (n) "c = CHR 0x0A"
    | (cr) "c = CHR 0x0D" | (tab) "c = CHR 0x09"
    | (hex) "quote_ascii c = hex4_text (ord c)" | (self) "quote_ascii c = [c]" "32 \<le> ord c" "c \<noteq> CHR 0x22" "c \<noteq> CHR 0x5C"
  proof -
    let ?special = "c = CHR 0x22 \<or> c = CHR 0x5C \<or> c = CHR 0x08 \<or> c = CHR 0x0C \<or> c = CHR 0x0A \<or> c = CHR 0x0D \<or> c = CHR 0x09"
    have "quote_ascii c = hex4_text (ord c) \<or> quote_ascii c = [c] \<and> 32 \<le> ord c" if "\<not> ?special"
      using that by (cases "ord c < 32 \<or> c = CHR ''<'' \<or> c = CHR ''>'' \<or> c = CHR ''&''")
        (simp_all only: quote_ascii_def de_Morgan_disj if_True if_False simp_thms not_less split: if_split)
    then show thesis using that by blast
  qed
  then show ?thesis
  proof cases
    case quote
    then show ?thesis using parse_escape [of c c, OF _ assms(2)] by (auto simp: quote_ascii_def simple_escape_def)
  next
    case b
    then show ?thesis using parse_escape [of "CHR ''b''" "CHR 0x08", OF _ assms(2)] by (simp add: quote_ascii_def simple_escape_def)
  next
    case f
    then show ?thesis using parse_escape [of "CHR ''f''" "CHR 0x0C", OF _ assms(2)] by (simp add: quote_ascii_def simple_escape_def)
  next
    case n
    then show ?thesis using parse_escape [of "CHR ''n''" "CHR 0x0A", OF _ assms(2)] by (simp add: quote_ascii_def simple_escape_def)
  next
    case cr
    then show ?thesis using parse_escape [of "CHR ''r''" "CHR 0x0D", OF _ assms(2)] by (simp add: quote_ascii_def simple_escape_def)
  next
    case tab
    then show ?thesis using parse_escape [of "CHR ''t''" "CHR 0x09", OF _ assms(2)] by (simp add: quote_ascii_def simple_escape_def)
  next
    case hex
    then show ?thesis using parse_hex4_text [OF _ _ assms(2), of "ord c"] assms(1) by simp
  next
    case self
    then show ?thesis using assms by (subst parse_string.simps) simp
  qed
qed

lemma parse_quote_body: "\<exists>x. parse_string (quote_body s @ CHR 0x22 # t) = Some (x, t)"
proof (induction s rule: quote_body.induct)
  case (1 s)
  show ?case
  proof (cases s)
    case Nil
    then show ?thesis by (simp add: quote_body.simps parse_string_end)
  next
    case (Cons c u)
    show ?thesis
    proof (cases "ord c < 128")
      case True
      from "1"(1) [OF Cons True] parse_quote_ascii [OF True] True show ?thesis
        unfolding Cons by (subst quote_body.simps) auto
    next
      case False
      obtain r w where d: "decode_rune (string_bytes (take 4 s)) = (r, w)" by fastforce
      from "1"(2) [OF Cons False d [symmetric] refl] obtain x where
        x: "parse_string (quote_body (drop (max 1 w) s) @ CHR 0x22 # t) = Some (x, t)" by blast
      let ?front = "if r = rune_error \<and> w = 1 then hex4_text 65533 else if r = 8232 \<or> r = 8233 then hex4_text r else take w s"
      have q: "quote_body s = ?front @ quote_body (drop (max 1 w) s)"
        using Cons False d by (subst quote_body.simps) simp
      consider "?front = hex4_text 65533" | "?front = hex4_text 8232" | "?front = hex4_text 8233"
        | "?front = take w s" "\<not> (r = rune_error \<and> w = 1)" by presburger
      then show ?thesis
      proof cases
        case 4
        let ?rest = "quote_body (drop (max 1 w) s) @ CHR 0x22 # t"
        have "string_bytes (take 4 s) \<noteq> []" using Cons by (simp add: string_bytes_def)
        have "2 \<le> w"
        proof (rule ccontr)
          assume "\<not> 2 \<le> w"
          with d decode_rune_width [OF \<open>string_bytes (take 4 s) \<noteq> []\<close>] have "w = 1" by simp
          with d decode_rune_ascii [OF \<open>string_bytes (take 4 s) \<noteq> []\<close>] Cons False 4(2) show False
            by (auto simp: string_bytes_def decode_rune_def split: if_splits list.splits)
        qed
        note loc = decode_rune_local [OF d this]
        obtain v where v: "take w s = c # v" using Cons \<open>2 \<le> w\<close> by (cases w) auto
        have "drop (max 1 w) (take w s @ ?rest) = ?rest" using loc(2) \<open>2 \<le> w\<close> by simp
        with x have "\<exists>y. parse_string (take w s @ ?rest) = Some (y, t)"
          using False loc(1) [of ?rest] v
          by (subst parse_string.simps) (auto simp: not_less)
        with 4 q show ?thesis by simp
      qed (use parse_hex4_text [OF _ _ x] q in simp_all)
    qed
  qed
qed

lemma parse_json_string: "parse_json (render (JStr s)) \<noteq> None"
proof -
  obtain x where "parse_string (quote_body s @ [CHR 0x22]) = Some (x, [])" using parse_quote_body by blast
  then show ?thesis by (simp add: parse_json_def json_string_def parse_value.simps)
qed

end
