(* ===== verification/Channel.thy ===== *)
theory Channel
  imports Chunks Handshake
begin

text \<open>
  internal/bridge/server.go, \<open>conn.send\<close> and \<open>conn.recv\<close>: the message channel over the sealed frames, with
  \<open>PeekChannel\<close> and the JSON of \<open>Chunk\<close> (internal/protocol/messages.go). A write to the link is given by
  whether it succeeds; what the link delivers is a list of frames with their message type.
\<close>

section \<open>Channels and chunks as JSON\<close>

definition ChWS :: string where "ChWS = ''ws''"
definition ChHTTP :: string where "ChHTTP = ''http''"
definition ChCtl :: string where "ChCtl = ''ctl''"
definition ChChunk :: string where "ChChunk = ''chunk''"
definition ChConfirm :: string where "ChConfirm = ''confirm''"
definition ChPTY :: string where "ChPTY = ''pty''"
definition ChBlob :: string where "ChBlob = ''blob''"

definition known_channels :: "string list" where
  "known_channels = [ChWS, ChHTTP, ChCtl, ChChunk, ChConfirm, ChPTY, ChBlob]"

lemmas channel_names = ChWS_def ChHTTP_def ChCtl_def ChChunk_def ChConfirm_def ChPTY_def ChBlob_def

datatype peek_error = PeekBadJSON | ErrUnknownChannel

definition PeekChannel :: "bytes \<Rightarrow> peek_error + string" where
  "PeekChannel plaintext =
     (case unmarshal [''ch''] (\<lambda>f v r. as_string r v) [] (str_of plaintext) of
        None \<Rightarrow> Inl PeekBadJSON
      | Some ch \<Rightarrow> if List.member known_channels ch then Inr ch else Inl ErrUnknownChannel)"

definition chunk_json :: "Chunk \<Rightarrow> json" where
  "chunk_json c = JObj [(''ch'', JStr ChChunk), (''i'', JNum (int_lit (ch_index c))),
     (''n'', JNum (int_lit (ch_count c))), (''d'', Bytes_MarshalJSON (ch_data c))]"

definition MarshalChunk :: "Chunk \<Rightarrow> bytes" where
  "MarshalChunk c = bytes_of (render (chunk_json c))"

definition chunk_set :: "string \<Rightarrow> json \<Rightarrow> Chunk \<Rightarrow> Chunk option" where
  "chunk_set f v c =
     (if f = ''ch'' then map_option (\<lambda>_. c) (as_string [] v)
      else if f = ''i'' then map_option (\<lambda>x. c\<lparr>ch_index := x\<rparr>) (as_int64 (ch_index c) v)
      else if f = ''n'' then map_option (\<lambda>x. c\<lparr>ch_count := x\<rparr>) (as_int64 (ch_count c) v)
      else map_option (\<lambda>x. c\<lparr>ch_data := x\<rparr>) (Bytes_UnmarshalJSON v))"

definition UnmarshalChunk :: "bytes \<Rightarrow> Chunk option" where
  "UnmarshalChunk plaintext =
     unmarshal [''ch'', ''i'', ''n'', ''d''] chunk_set \<lparr>ch_index = 0, ch_count = 0, ch_data = []\<rparr> (str_of plaintext)"

section \<open>Sending\<close>

datatype link_error =
    PlaintextLimit nat | SealFailed envelope_error | WriteFault | ReadFault | NotBinary
  | OpenFailed envelope_error | PeekFailed peek_error | BadChunk | ChunkFailed chunk_error

text \<open>The result of a send: its error, if any, and the frames the link took.\<close>

definition sealAndWrite :: "crypto \<Rightarrow> bool \<Rightarrow> bytes \<Rightarrow> Suite \<Rightarrow> (link_error option \<times> bytes list) \<times> Suite" where
  "sealAndWrite C write_ok plaintext s =
     (case Seal C plaintext s of
        (Inl e, s') \<Rightarrow> ((Some (SealFailed e), []), s')
      | (Inr f, s') \<Rightarrow> (if write_ok then (None, [f]) else (Some WriteFault, []), s'))"

fun send_each :: "crypto \<Rightarrow> (nat \<Rightarrow> bool) \<Rightarrow> nat \<Rightarrow> bytes list \<Rightarrow> Suite \<Rightarrow> (link_error option \<times> bytes list) \<times> Suite" where
  "send_each C ok n [] s = ((None, []), s)"
| "send_each C ok n (p # ps) s =
     (case sealAndWrite C (ok n) p s of
        ((Some e, fs), s') \<Rightarrow> ((Some e, fs), s')
      | ((None, fs), s') \<Rightarrow> (case send_each C ok (Suc n) ps s' of
            ((e, gs), s'') \<Rightarrow> ((e, fs @ gs), s'')))"

definition sendLocked :: "crypto \<Rightarrow> (nat \<Rightarrow> bool) \<Rightarrow> bytes \<Rightarrow> Suite \<Rightarrow> (link_error option \<times> bytes list) \<times> Suite" where
  "sendLocked C ok plaintext s =
     (let chunks = SplitChunks plaintext in
      if chunks \<noteq> [] then send_each C ok 0 (map MarshalChunk chunks) s
      else sealAndWrite C (ok 0) plaintext s)"

definition send :: "crypto \<Rightarrow> (nat \<Rightarrow> bool) \<Rightarrow> bytes \<Rightarrow> Suite \<Rightarrow> (link_error option \<times> bytes list) \<times> Suite" where
  "send C ok plaintext s =
     (if length plaintext > MaxPlaintext then ((Some (PlaintextLimit (length plaintext)), []), s)
      else sendLocked C ok plaintext s)"

section \<open>Receiving\<close>

text \<open>The loop of \<open>recv\<close> over what the link delivers; running out of frames is a failing read.\<close>

fun recv :: "crypto \<Rightarrow> (bool \<times> bytes) list \<Rightarrow> ChunkAssembler \<Rightarrow> Suite \<Rightarrow>
    (link_error + bytes) \<times> (bool \<times> bytes) list \<times> ChunkAssembler \<times> Suite" where
  "recv C [] asm s = (Inl ReadFault, [], asm, s)"
| "recv C ((is_binary, frame) # rest) asm s =
     (if \<not> is_binary then (Inl NotBinary, rest, asm, s)
      else case Open C frame s of
        (Inl e, s') \<Rightarrow> (Inl (OpenFailed e), rest, asm, s')
      | (Inr plaintext, s') \<Rightarrow>
          (case PeekChannel plaintext of
             Inl e \<Rightarrow> (Inl (PeekFailed e), rest, asm, s')
           | Inr c \<Rightarrow>
               if c \<noteq> ChChunk then (Inr plaintext, rest, asm, s')
               else (case UnmarshalChunk plaintext of
                   None \<Rightarrow> (Inl BadChunk, rest, asm, s')
                 | Some chunk \<Rightarrow>
                     (case Add chunk asm of
                        (Inl e, asm') \<Rightarrow> (Inl (ChunkFailed e), rest, asm', s')
                      | (Inr (Some whole), asm') \<Rightarrow> (Inr whole, rest, asm', s')
                      | (Inr None, asm') \<Rightarrow> recv C rest asm' s'))))"

section \<open>What the chunks of a message look like on the wire\<close>

lemma chunk_json_plain: "plain_json (chunk_json c)" "json_depth (chunk_json c) \<le> 10000"
  by (auto simp: chunk_json_def plain_char_def channel_names Bytes_MarshalJSON_def plain_b64)

lemma parse_chunk: "parse_json (str_of (MarshalChunk c)) = Some (chunk_json c)"
  using parse_json_render [OF chunk_json_plain] by (simp add: MarshalChunk_def)

lemma PeekChannel_chunk: "PeekChannel (MarshalChunk c) = Inr ChChunk"
  unfolding PeekChannel_def unmarshal_def parse_chunk
  by (simp add: chunk_json_def fill_struct_def field_of_def as_string_def known_channels_def channel_names)

definition wire_chunk :: "Chunk \<Rightarrow> bool" where
  "wire_chunk c \<longleftrightarrow> 0 \<le> ch_index c \<and> ch_index c \<le> ch_count c \<and> ch_count c \<le> 1000 \<and> length (ch_data c) \<le> ChunkThreshold"

lemma UnmarshalChunk_Marshal:
  assumes "wire_chunk c" shows "UnmarshalChunk (MarshalChunk c) = Some c"
proof -
  have "as_int64 x (JNum (int_lit (ch_index c))) = Some (ch_index c)"
    "as_int64 x (JNum (int_lit (ch_count c))) = Some (ch_count c)" for x
    using assms by (auto simp: wire_chunk_def intro!: as_int_int_lit)
  then show ?thesis
    unfolding UnmarshalChunk_def unmarshal_def parse_chunk
    by (simp add: chunk_json_def fill_struct_def field_of_def chunk_set_def as_string_def Bytes_json_round)
qed

lemma length_nat_lit: "length (nat_lit n) \<le> Suc n"
proof (induction n rule: nat_lit.induct)
  case (1 n)
  then show ?case by (cases "n < 10") (simp_all add: nat_lit.simps [of n])
qed

lemma length_MarshalChunk:
  assumes "wire_chunk c" shows "length (MarshalChunk c) \<le> MaxPlaintext"
proof -
  have "length (int_lit (ch_index c)) \<le> 1001" "length (int_lit (ch_count c)) \<le> 1001"
    using assms length_nat_lit [of "nat (ch_index c)"] length_nat_lit [of "nat (ch_count c)"]
    by (auto simp: wire_chunk_def int_lit_def)
  moreover have "length (b64_encode (ch_data c)) \<le> 2 * 1048576"
    using assms b64_length_le [of "ch_data c"] by (simp add: wire_chunk_def ChunkThreshold_def)
  ultimately show ?thesis
    by (simp add: MarshalChunk_def chunk_json_def json_string_def quote_body_plain Bytes_MarshalJSON_def plain_b64
        plain_char_def channel_names MaxPlaintext_def)
qed

lemma split_count_le: "length p \<le> MaxPlaintext \<Longrightarrow> split_count p \<le> 16"
  unfolding split_count_def ChunkThreshold_def MaxPlaintext_def by linarith

lemma SplitChunks_wire:
  assumes "length p \<le> MaxPlaintext" "c \<in> set (SplitChunks p)" shows "wire_chunk c"
proof -
  have "length p > ChunkThreshold" using assms(2) by (auto simp: SplitChunks_def split: if_splits)
  moreover have "split_count p \<le> 16"
    using assms(1) by (rule split_count_le)
  moreover have "length (piece p i) \<le> ChunkThreshold" for i
    by (auto simp: piece_def min_def)
  ultimately show ?thesis using assms(2) by (auto simp: SplitChunks_alt wire_chunk_def)
qed

lemma length_SplitChunks: "length p \<le> MaxPlaintext \<Longrightarrow> length (SplitChunks p) \<le> 16"
  by (auto simp: SplitChunks_def dest: split_count_le)

lemma SplitChunks_Nil: "SplitChunks p = [] \<longleftrightarrow> length p \<le> ChunkThreshold"
  by (auto simp: SplitChunks_def split_count_def ChunkThreshold_def)

lemma SplitChunks_assemble:
  assumes "length p > ChunkThreshold" "length p \<le> MaxPlaintext"
  shows "add_all (SplitChunks p) reset_assembler =
    (replicate (length (SplitChunks p) - 1) (Inr None) @ [Inr (Some p)], reset_assembler)"
proof -
  have "0 < split_count p" using split_count_bounds [OF assms(1)] by simp
  with add_all_pieces [OF assms, of 0 "split_count p"] show ?thesis
    by (simp add: SplitChunks_alt [OF assms(1)] part_state_def)
qed

section \<open>Delivery\<close>

lemma sealAndWrite_opens:
  assumes "aead_correct C" "synced a b" "length p \<le> MaxPlaintext" "send_ctr a \<noteq> - 1"
  obtains f a' b' where "sealAndWrite C True p a = ((None, [f]), a')" "Open C f b = (Inr p, b')" "synced a' b'"
    "unat (send_ctr a') = Suc (unat (send_ctr a))"
proof -
  obtain f a' where s: "Seal C p a = (Inr f, a')" and a': "send_ctr a' = send_ctr a + 1"
    using assms(3,4) by (auto simp: Seal_def Let_def)
  obtain b' where "Open C f b = (Inr p, b')" "synced a' b'" using Open_Seal [OF assms(1,2) s] by blast
  with that s a' unat_ctr_succ [OF assms(4)] show thesis by (simp add: sealAndWrite_def)
qed

lemma recv_chunks:
  assumes "aead_correct C" "synced a b" "list_all wire_chunk cs" "cs \<noteq> []"
    and "unat (send_ctr a) + length cs < 2 ^ 64"
    and "add_all cs asm = (replicate (length cs - 1) (Inr None) @ [Inr (Some m)], asm')"
  shows "\<exists>fs a' b'. send_each C (\<lambda>_. True) n (map MarshalChunk cs) a = ((None, fs), a') \<and>
    recv C (map (Pair True) fs @ rest) asm b = (Inr m, rest, asm', b') \<and> synced a' b' \<and>
    unat (send_ctr a') = unat (send_ctr a) + length cs"
  using assms(2-6)
proof (induction cs arbitrary: a b asm n)
  case (Cons c cs)
  have w: "wire_chunk c" "list_all wire_chunk cs" using Cons.prems(2) by simp_all
  have "send_ctr a \<noteq> - 1" using Cons.prems(4) by (intro ctr_not_max) simp
  then obtain f a1 b1 where f: "sealAndWrite C True (MarshalChunk c) a = ((None, [f]), a1)"
    "Open C f b = (Inr (MarshalChunk c), b1)" "synced a1 b1" "unat (send_ctr a1) = Suc (unat (send_ctr a))"
    by (rule sealAndWrite_opens [OF assms(1) Cons.prems(1) length_MarshalChunk [OF w(1)]])
  obtain r asm1 where ad: "Add c asm = (r, asm1)" by fastforce
  show ?case
  proof (cases cs)
    case Nil
    with Cons.prems(5) ad have "r = Inr (Some m)" "asm1 = asm'" by simp_all
    with f ad Nil w(1) show ?thesis by (auto simp: PeekChannel_chunk UnmarshalChunk_Marshal)
  next
    case (Cons c' cs')
    with Cons.prems(5) ad have r: "r = Inr None"
      and t: "add_all cs asm1 = (replicate (length cs - 1) (Inr None) @ [Inr (Some m)], asm')"
      by (auto simp: case_prod_beta Let_def simp del: add_all.simps(2) dest: sym)
        (auto simp: case_prod_beta Let_def prod_eq_iff)
    have "unat (send_ctr a1) + length cs < 2 ^ 64" using f(4) Cons.prems(4) by simp
    from Cons.IH [OF f(3) w(2) _ this t, of "Suc n"] Cons obtain fs a' b' where
      "send_each C (\<lambda>_. True) (Suc n) (map MarshalChunk cs) a1 = ((None, fs), a')"
      "recv C (map (Pair True) fs @ rest) asm1 b1 = (Inr m, rest, asm', b')" "synced a' b'"
      "unat (send_ctr a') = unat (send_ctr a1) + length cs" by auto
    with f ad r w(1) show ?thesis by (auto simp: PeekChannel_chunk UnmarshalChunk_Marshal)
  qed
qed simp

definition sendable :: "bytes \<Rightarrow> bool" where
  "sendable p \<longleftrightarrow> length p \<le> MaxPlaintext \<and> (\<exists>c. PeekChannel p = Inr c \<and> c \<noteq> ChChunk)"

lemma send_recv:
  assumes "aead_correct C" "synced a b" "sendable p" "unat (send_ctr a) + 16 < 2 ^ 64"
  shows "\<exists>fs a' b'. send C (\<lambda>_. True) p a = ((None, fs), a') \<and>
    recv C (map (Pair True) fs @ rest) reset_assembler b = (Inr p, rest, reset_assembler, b') \<and> synced a' b' \<and>
    unat (send_ctr a') \<le> unat (send_ctr a) + 16"
proof (cases "length p > ChunkThreshold")
  case True
  have l: "length p \<le> MaxPlaintext" using assms(3) by (simp add: sendable_def)
  have ne: "SplitChunks p \<noteq> []" using True by (simp add: SplitChunks_Nil)
  have "list_all wire_chunk (SplitChunks p)" using SplitChunks_wire [OF l] by (simp add: list_all_iff)
  moreover have "unat (send_ctr a) + length (SplitChunks p) < 2 ^ 64"
    using assms(4) length_SplitChunks [OF l] by simp
  ultimately show ?thesis
    using recv_chunks [OF assms(1,2) _ ne _ SplitChunks_assemble [OF True l], of 0 rest] length_SplitChunks [OF l] l ne
    by (auto simp: send_def sendLocked_def Let_def)
next
  case False
  have l: "length p \<le> MaxPlaintext" using assms(3) by (simp add: sendable_def)
  have "send_ctr a \<noteq> - 1" using assms(4) by (intro ctr_not_max [of _ 15]) simp
  then obtain f a1 b1 where "sealAndWrite C True p a = ((None, [f]), a1)"
    "Open C f b = (Inr p, b1)" "synced a1 b1" "unat (send_ctr a1) = Suc (unat (send_ctr a))"
    by (rule sealAndWrite_opens [OF assms(1,2) l])
  with False l assms(3) show ?thesis
    by (auto simp: send_def sendLocked_def SplitChunks_Nil sendable_def not_less)
qed

fun send_stream :: "crypto \<Rightarrow> bytes list \<Rightarrow> Suite \<Rightarrow> bytes list \<times> Suite" where
  "send_stream C [] s = ([], s)"
| "send_stream C (p # ps) s =
     (case send C (\<lambda>_. True) p s of ((e, fs), s') \<Rightarrow>
        (case send_stream C ps s' of (gs, s'') \<Rightarrow> (fs @ gs, s'')))"

fun recv_stream :: "crypto \<Rightarrow> nat \<Rightarrow> (bool \<times> bytes) list \<Rightarrow> ChunkAssembler \<Rightarrow> Suite \<Rightarrow>
    (link_error + bytes) list \<times> (bool \<times> bytes) list" where
  "recv_stream C 0 fs asm s = ([], fs)"
| "recv_stream C (Suc n) fs asm s =
     (case recv C fs asm s of (r, rest, asm', s') \<Rightarrow>
        (case recv_stream C n rest asm' s' of (rs, rest') \<Rightarrow> (r # rs, rest')))"

text \<open>
  C19. The tunnel delivers messages whole, in order and once: for every list of messages within
  \<open>MaxPlaintext\<close>, small or chunked, sealing them one after the other and receiving the frames on the
  synchronised peer with as many \<open>recv\<close> calls returns exactly these messages and uses up all frames.
\<close>

theorem channel_delivers:
  assumes "aead_correct C" "synced a b" "\<forall>p \<in> set ps. sendable p"
    and "unat (send_ctr a) + 16 * length ps < 2 ^ 64"
  shows "recv_stream C (length ps) (map (Pair True) (fst (send_stream C ps a))) reset_assembler b = (map Inr ps, [])"
  using assms(2-4)
proof (induction ps arbitrary: a b)
  case (Cons p ps)
  obtain fs a1 where s: "send C (\<lambda>_. True) p a = ((None, fs), a1)" "unat (send_ctr a1) \<le> unat (send_ctr a) + 16"
    using send_recv [OF assms(1) Cons.prems(1), of p "[]"] Cons.prems(2,3) by auto
  obtain gs a2 where g: "send_stream C ps a1 = (gs, a2)" by fastforce
  obtain b1 where "recv C (map (Pair True) fs @ map (Pair True) gs) reset_assembler b =
      (Inr p, map (Pair True) gs, reset_assembler, b1)" "synced a1 b1"
    using send_recv [OF assms(1) Cons.prems(1), of p "map (Pair True) gs"] Cons.prems(2,3) s by auto
  with Cons.IH [of a1 b1] Cons.prems(2,3) s g show ?case by simp
qed simp

definition demo_message :: "string \<Rightarrow> bytes" where
  "demo_message ch = bytes_of (render (JObj [(''ch'', JStr ch)]))"

lemma demo_message_sendable: "x = ChWS \<or> x = ChCtl \<Longrightarrow> sendable (demo_message x)"
proof -
  assume x: "x = ChWS \<or> x = ChCtl"
  have "parse_json (render (JObj [(''ch'', JStr x)])) = Some (JObj [(''ch'', JStr x)])"
    using x by (intro parse_json_render) (auto simp: channel_names plain_char_def)
  with x show ?thesis
    by (auto simp: sendable_def demo_message_def PeekChannel_def unmarshal_def fill_struct_def field_of_def
        as_string_def known_channels_def channel_names json_string_def quote_body_plain plain_char_def MaxPlaintext_def)
qed

lemma channel_delivers_witness:
  "recv_stream toy_crypto 2 (map (Pair True) (fst (send_stream toy_crypto [demo_message ChWS, demo_message ChCtl] toy_suite)))
     reset_assembler toy_suite = (map Inr [demo_message ChWS, demo_message ChCtl], [])"
proof -
  have "synced toy_suite toy_suite" by (simp add: synced_def toy_suite_def)
  moreover have "\<forall>p \<in> set [demo_message ChWS, demo_message ChCtl]. sendable p"
    using demo_message_sendable by auto
  moreover have "unat (send_ctr toy_suite) + 16 * length [demo_message ChWS, demo_message ChCtl] < 2 ^ 64"
    by (simp add: toy_suite_def)
  ultimately have "recv_stream toy_crypto (length [demo_message ChWS, demo_message ChCtl])
      (map (Pair True) (fst (send_stream toy_crypto [demo_message ChWS, demo_message ChCtl] toy_suite)))
      reset_assembler toy_suite = (map Inr [demo_message ChWS, demo_message ChCtl], [])"
    by (rule channel_delivers [OF toy_crypto_laws(1)])
  then show ?thesis by (simp only: list.size One_nat_def numeral_2_eq_2 add_0_right add_Suc_right)
qed

end
