(* ===== verification/BlobValidation.thy ===== *)
theory BlobValidation
  imports Handshake JsonQuote Channel
begin

text \<open>
  internal/bridge/blob_validation.go: what the attachment channel accepts. A JSON object decoded into
  \<open>map[string]json.RawMessage\<close> is its list of members with the last of equal names; the raw text of a
  number is its literal. The bound of \<open>boundedJSONString\<close> on the raw text is implied by the one on the value,
  as no escape is longer than six characters for a byte.
\<close>

section \<open>Fields\<close>

type_synonym fields = "(string \<times> json) list"

definition as_fields :: "json \<Rightarrow> fields option" where
  "as_fields v = (case v of JObj ms \<Rightarrow> Some (fold (\<lambda>(k, x) m. AList.update k x m) ms []) | _ \<Rightarrow> None)"

definition boundedJSONString :: "json option \<Rightarrow> nat \<Rightarrow> string option" where
  "boundedJSONString raw limit =
     (case raw of
        None \<Rightarrow> None
      | Some v \<Rightarrow> (case as_string [] v of
            None \<Rightarrow> None
          | Some s \<Rightarrow> if valid_utf8 s \<and> length s \<le> limit then Some s else None))"

text \<open>The fields, id and operation of a message, as far as they are sound; the error is the text.\<close>

definition decodeBlobBase :: "string \<Rightarrow> (fields \<times> string \<times> string) \<times> string option" where
  "decodeBlobBase raw =
     (case parse_json raw of
        None \<Rightarrow> (([], [], []), Some ''malformed blob message'')
      | Some v \<Rightarrow>
          (case as_fields v of
             None \<Rightarrow> (([], [], []), Some ''malformed blob message'')
           | Some fs \<Rightarrow>
               if boundedJSONString (map_of fs ''ch'') 16 \<noteq> Some ChBlob then ((fs, [], []), Some ''invalid blob channel'')
               else (case boundedJSONString (map_of fs ''id'') 64 of
                   None \<Rightarrow> ((fs, [], []), Some ''invalid blob id'')
                 | Some i \<Rightarrow>
                     (case boundedJSONString (map_of fs ''op'') 16 of
                        None \<Rightarrow> ((fs, i, []), Some ''invalid blob operation'')
                      | Some op \<Rightarrow> ((fs, i, op), None)))))"

definition exactBlobFields :: "fields \<Rightarrow> string list \<Rightarrow> bool" where
  "exactBlobFields fs allowed \<longleftrightarrow> length fs = length allowed \<and> list_all (\<lambda>(k, _). List.member allowed k) fs"

definition strictNonnegativeInt :: "json option \<Rightarrow> int option" where
  "strictNonnegativeInt raw =
     (case raw of
        Some (JNum l) \<Rightarrow>
          if l = [] \<or> (length l > 1 \<and> hd l = CHR ''0'') \<or> \<not> list_all is_digit l then None
          else parse_int64 l
      | _ \<Rightarrow> None)"

definition encodedChunkLimit :: "nat \<Rightarrow> nat" where
  "encodedChunkLimit rawBytes = (rawBytes * 8 + 5) div 6"

section \<open>Names, digests and identifiers\<close>

definition containsControl :: "string \<Rightarrow> bool" where
  "containsControl s \<longleftrightarrow> list_ex (\<lambda>(r, _). is_control r) (runes s)"

definition validAttachmentName :: "string \<Rightarrow> bool" where
  "validAttachmentName name \<longleftrightarrow> name \<noteq> [] \<and> name \<noteq> ''.'' \<and> name \<noteq> ''..'' \<and> length name \<le> 255 \<and>
     \<not> contains_any name [CHR ''/'', CHR 0x5C] \<and> \<not> containsControl name"

definition validOriginalAttachmentName :: "string \<Rightarrow> bool" where
  "validOriginalAttachmentName name \<longleftrightarrow> name \<noteq> [] \<and> name \<noteq> ''.'' \<and> name \<noteq> ''..'' \<and> length name \<le> 255 \<and>
     \<not> contains_any name [CHR ''/'', CHR 0x5C] \<and> \<not> List.member name (CHR 0x00)"

definition lower_hex :: "char \<Rightarrow> bool" where
  "lower_hex c \<longleftrightarrow> (48 \<le> ord c \<and> ord c \<le> 57) \<or> (97 \<le> ord c \<and> ord c \<le> 102)"

definition isLowerHexDigest :: "string \<Rightarrow> bool" where
  "isLowerHexDigest s \<longleftrightarrow> length s = HashSize * 2 \<and> list_all lower_hex s"

definition isCanonicalUUID :: "string \<Rightarrow> bool" where
  "isCanonicalUUID s \<longleftrightarrow> length s = 36 \<and>
     list_all (\<lambda>i. if i = 8 \<or> i = 13 \<or> i = 18 \<or> i = 23 then s ! i = CHR ''-'' else lower_hex (s ! i)) [0..<36]"

text \<open>\<open>randomUUID\<close> from its 16 random bytes.\<close>

definition uuid_bytes :: "bytes \<Rightarrow> bytes" where
  "uuid_bytes v = v[6 := or (and (v ! 6) 0x0F) 0x40, 8 := or (and (v ! 8) 0x3F) 0x80]"

definition randomUUID :: "rng \<Rightarrow> (string \<times> rng) option" where
  "randomUUID r =
     (case read_full 16 r of
        None \<Rightarrow> None
      | Some (v, r') \<Rightarrow>
          let t = hex_encode (uuid_bytes v) in
            Some (take 8 t @ ''-'' @ take 4 (drop 8 t) @ ''-'' @ take 4 (drop 12 t) @ ''-'' @ take 4 (drop 16 t) @ ''-'' @
              drop 20 t, r'))"

section \<open>Error messages\<close>

definition blank_controls :: "string \<Rightarrow> string" where
  "blank_controls s = concat (map (\<lambda>(r, _). if is_control r then '' '' else encode_rune r) (runes s))"

function trim_to_valid :: "string \<Rightarrow> string" where
  "trim_to_valid s = (if valid_utf8 s \<or> s = [] then s else trim_to_valid (butlast s))"
  by pat_completeness auto
termination by (relation "measure length") auto

declare trim_to_valid.simps [simp del]

definition boundedMessage :: "string \<Rightarrow> string" where
  "boundedMessage s =
     (let m = blank_controls s in if length m \<le> 512 then m else trim_to_valid (take 512 m))"

section \<open>File references\<close>

definition is_quote_mark :: "char \<Rightarrow> bool" where
  "is_quote_mark c \<longleftrightarrow> c = CHR 0x60 \<or> c = CHR 0x22 \<or> c = CHR 0x27"

text \<open>The index in \<open>ref\<close> of the first \<open>q\<close> after its first character, 0 if there is none.\<close>

definition closing_index :: "char \<Rightarrow> string \<Rightarrow> nat" where
  "closing_index q rest = (if List.member rest q then length (takeWhile (\<lambda>c. c \<noteq> q) rest) + 1 else 0)"

definition parseFileToken :: "string \<Rightarrow> string option" where
  "parseFileToken value =
     (if \<not> has_prefix value ''@file:'' \<or> containsControl value then None
      else let ref = drop 6 value in
        case ref of
          [] \<Rightarrow> None
        | q # rest \<Rightarrow>
            if is_quote_mark q \<and> closing_index q rest > 1 then
              (if closing_index q rest \<noteq> length ref - 1 then None
               else Some (take (closing_index q rest - 1) rest))
            else if list_ex (\<lambda>(r, _). is_space r) (runes ref) then None
            else Some ref)"

end
