(* ===== verification/BlobUploads.thy ===== *)
theory BlobUploads
  imports BlobValidation
begin

text \<open>
  internal/bridge/blob.go: attachment uploads. A \<open>blobManager\<close> counts and bounds what all connections have
  spooled; a \<open>blobConnection\<close> holds at most one upload. The critical sections of the handlers and workers are
  the steps here. The contents of the spool file are the bytes written to it, which are the bytes hashed.
  What the file system and the gateway do is given to each step. \<open>finish\<close> is split at its locks, so
  \<open>up_finish\<close> says how far it has come.
\<close>

section \<open>Errors and messages\<close>

record blobLocalError =
  be_code :: int
  be_kind :: string
  be_message :: string

definition blobCodeInvalidRequest :: int where "blobCodeInvalidRequest = - 32070"
definition blobCodeBusy :: int where "blobCodeBusy = - 32071"
definition blobCodeQuota :: int where "blobCodeQuota = - 32072"
definition blobCodeInvalidState :: int where "blobCodeInvalidState = - 32073"
definition blobCodeOffset :: int where "blobCodeOffset = - 32074"
definition blobCodeSize :: int where "blobCodeSize = - 32075"
definition blobCodeDigest :: int where "blobCodeDigest = - 32076"
definition blobCodeTimeout :: int where "blobCodeTimeout = - 32077"
definition blobCodeGateway :: int where "blobCodeGateway = - 32078"
definition blobCodeGatewayUpdate :: int where "blobCodeGatewayUpdate = - 32079"
definition blobCodeIO :: int where "blobCodeIO = - 32080"

definition blobWireMaxBytes :: nat where "blobWireMaxBytes = 65536"

definition local_error :: "int \<Rightarrow> string \<Rightarrow> string \<Rightarrow> blobLocalError" where
  "local_error c k m = \<lparr>be_code = c, be_kind = k, be_message = m\<rparr>"

definition invalidBlob :: "string \<Rightarrow> blobLocalError" where
  "invalidBlob m = local_error blobCodeInvalidRequest ''invalid_request'' m"

datatype BlobMessage =
    BlobReady string int int
  | BlobAck string int
  | BlobResult string string
  | BlobFailed string blobLocalError

fun message_id :: "BlobMessage \<Rightarrow> string" where
  "message_id (BlobReady i off c) = i"
| "message_id (BlobAck i off) = i"
| "message_id (BlobResult i r) = i"
| "message_id (BlobFailed i e) = i"

definition blobErrorMessage :: "string \<Rightarrow> blobLocalError \<Rightarrow> BlobMessage" where
  "blobErrorMessage i e = BlobFailed i (e\<lparr>be_message := boundedMessage (be_message e)\<rparr>)"

section \<open>The manager\<close>

record blobManager =
  bm_maxBytes :: int
  bm_maxUploads :: int
  bm_active :: int
  bm_reserved :: int
  bm_peakActive :: int
  bm_peakReserved :: int
  bm_auxDispatches :: nat
  bm_lastAuxWrites :: int
  bm_lastAuxBytes :: int
  bm_lastAuxMaxWrite :: int
  bm_lastCommitNanos :: int
  bm_cleanupFailures :: nat
  bm_initErr :: bool

text \<open>\<open>newBlobManager\<close>, with what \<open>prepareRoot\<close> found: whether it failed and whether by a cleanup.\<close>

definition newBlobManager :: "string \<Rightarrow> int \<Rightarrow> int \<Rightarrow> bool \<Rightarrow> nat \<Rightarrow> blobManager" where
  "newBlobManager root maxBytes maxUploads prepared failures = \<lparr>bm_maxBytes = maxBytes, bm_maxUploads = maxUploads,
     bm_active = 0, bm_reserved = 0, bm_peakActive = 0, bm_peakReserved = 0, bm_auxDispatches = 0, bm_lastAuxWrites = 0,
     bm_lastAuxBytes = 0, bm_lastAuxMaxWrite = 0, bm_lastCommitNanos = 0,
     bm_cleanupFailures = (if root = [] then 0 else failures), bm_initErr = (root = [] \<or> \<not> prepared)\<rparr>"

datatype reserve_result = Reserved | RefusedReserve blobLocalError | SpoolUnavailable

definition reserve :: "int \<Rightarrow> blobManager \<Rightarrow> reserve_result \<times> blobManager" where
  "reserve sz m =
     (if bm_initErr m then (SpoolUnavailable, m)
      else if bm_active m \<ge> bm_maxUploads m
      then (RefusedReserve (local_error blobCodeBusy ''process_busy'' ''too many attachment uploads are active''), m)
      else if sz > bm_maxBytes m - bm_reserved m
      then (RefusedReserve (local_error blobCodeQuota ''spool_quota_exceeded'' ''attachment spool quota exceeded''), m)
      else (Reserved, m\<lparr>bm_active := bm_active m + 1, bm_reserved := bm_reserved m + sz,
          bm_peakActive := max (bm_peakActive m) (bm_active m + 1),
          bm_peakReserved := max (bm_peakReserved m) (bm_reserved m + sz)\<rparr>))"

definition settleCleanup :: "int \<Rightarrow> bool \<Rightarrow> blobManager \<Rightarrow> blobManager" where
  "settleCleanup sz failed m =
     (if failed then m\<lparr>bm_cleanupFailures := Suc (bm_cleanupFailures m), bm_initErr := True\<rparr>
      else m\<lparr>bm_active := bm_active m - 1, bm_reserved := bm_reserved m - sz\<rparr>)"

definition available :: "blobManager \<Rightarrow> bool" where
  "available m \<longleftrightarrow> \<not> bm_initErr m"

definition recordAuxiliaryDispatch :: "blobManager \<Rightarrow> blobManager" where
  "recordAuxiliaryDispatch m = m\<lparr>bm_auxDispatches := Suc (bm_auxDispatches m)\<rparr>"

record blobWriteStats =
  ws_writeCalls :: int
  ws_writtenBytes :: int
  ws_maxWriteBytes :: int

definition observe_write :: "int \<Rightarrow> blobWriteStats \<Rightarrow> blobWriteStats" where
  "observe_write n w = w\<lparr>ws_writeCalls := ws_writeCalls w + 1, ws_writtenBytes := ws_writtenBytes w + n,
     ws_maxWriteBytes := (if n > ws_maxWriteBytes w then n else ws_maxWriteBytes w)\<rparr>"

definition recordAuxiliaryWrite :: "blobWriteStats \<Rightarrow> blobManager \<Rightarrow> blobManager" where
  "recordAuxiliaryWrite w m = m\<lparr>bm_lastAuxWrites := ws_writeCalls w, bm_lastAuxBytes := ws_writtenBytes w,
     bm_lastAuxMaxWrite := ws_maxWriteBytes w\<rparr>"

definition recordCommitDuration :: "int \<Rightarrow> blobManager \<Rightarrow> blobManager" where
  "recordCommitDuration elapsed m = m\<lparr>bm_lastCommitNanos := elapsed\<rparr>"

section \<open>Uploads and connections\<close>

datatype blobPhase = blobReceiving | blobCommitting

text \<open>How far \<open>finish\<close> has come: not called; claimed by the monitor, with its answer; past its send, with the
  cleanup's outcome; settled.\<close>

datatype finish_stage = Unfinished | Claimed "BlobMessage option" | Finishing bool | Settled

definition finish_started :: "finish_stage \<Rightarrow> bool" where
  "finish_started st = (case st of Finishing _ \<Rightarrow> True | Settled \<Rightarrow> True | _ \<Rightarrow> False)"

record blobUpload =
  up_id :: string
  up_sessionID :: string
  up_name :: string
  up_size :: int
  up_digest :: string
  up_dirID :: string
  up_data :: bytes
  up_offset :: int
  up_phase :: blobPhase
  up_finished :: bool
  up_cancelled :: bool
  up_finish :: finish_stage

record blobConnection =
  bc_active :: "blobUpload option"
  bc_completed :: "BlobMessage option"

definition new_connection :: blobConnection where
  "new_connection = \<lparr>bc_active = None, bc_completed = None\<rparr>"

text \<open>A step of a connection: what is sent to the phone, the connection and the manager.\<close>

type_synonym blob_step = "BlobMessage list \<times> blobConnection \<times> blobManager"

definition set_upload :: "blobConnection \<Rightarrow> blobUpload \<Rightarrow> blobConnection" where
  "set_upload b u = b\<lparr>bc_active := Some u\<rparr>"

text \<open>\<open>finish\<close> up to the send; it runs once per upload. \<open>parent_done\<close>: the connection has ended, so nothing is
  sent; \<open>cleanup_ok\<close>: whether \<open>cleanupOwnedUpload\<close> succeeds.\<close>

definition finish :: "bool \<Rightarrow> bool \<Rightarrow> BlobMessage option \<Rightarrow> bool \<Rightarrow> blobUpload \<Rightarrow> blobConnection \<Rightarrow> blobManager \<Rightarrow> blob_step" where
  "finish parent_done cleanup_ok response cache u b m =
     (if finish_started (up_finish u) then ([], b, m)
      else let u' = u\<lparr>up_finished := True, up_cancelled := True, up_finish := Finishing cleanup_ok\<rparr>;
               m' = (if cleanup_ok then m else settleCleanup (up_size u) True m);
               (resp, keep) = (if cleanup_ok then (response, cache)
                 else (Some (blobErrorMessage (up_id u) (local_error blobCodeIO ''spool_cleanup_failed''
                   ''could not clean attachment spool data'')), True)) in
        ((case resp of Some r \<Rightarrow> if parent_done then [] else [r] | None \<Rightarrow> []),
         b\<lparr>bc_active := Some u', bc_completed := (if keep \<and> resp \<noteq> None then resp else bc_completed b)\<rparr>, m'))"

text \<open>The rest of \<open>finish\<close>: releasing the reservation, and leaving the connection.\<close>

definition finish_settle :: "blobConnection \<Rightarrow> blobManager \<Rightarrow> blobConnection \<times> blobManager" where
  "finish_settle b m =
     (case bc_active b of
        None \<Rightarrow> (b, m)
      | Some u \<Rightarrow>
          (case up_finish u of
             Finishing ok \<Rightarrow> (set_upload b (u\<lparr>up_finish := Settled\<rparr>), if ok then settleCleanup (up_size u) False m else m)
           | _ \<Rightarrow> (b, m)))"

definition finish_leave :: "blobConnection \<Rightarrow> blobConnection" where
  "finish_leave b =
     (case bc_active b of Some u \<Rightarrow> if up_finish u = Settled then b\<lparr>bc_active := None\<rparr> else b | None \<Rightarrow> b)"

definition failUpload :: "bool \<Rightarrow> bool \<Rightarrow> blobUpload \<Rightarrow> blobLocalError \<Rightarrow> blobConnection \<Rightarrow> blobManager \<Rightarrow> blob_step" where
  "failUpload parent_done cleanup_ok u e b m =
     finish parent_done cleanup_ok (Some (blobErrorMessage (up_id u) e)) False u b m"

text \<open>Why an upload takes no data now.\<close>

definition unwilling :: "string \<Rightarrow> blobConnection \<Rightarrow> blobLocalError option" where
  "unwilling i b =
     (case bc_active b of
        None \<Rightarrow> Some (local_error blobCodeInvalidState ''unknown_upload'' ''no matching attachment upload'')
      | Some u \<Rightarrow>
          if up_id u \<noteq> i
          then Some (local_error blobCodeInvalidState ''unknown_upload'' ''no matching attachment upload'')
          else if up_finished u \<or> up_cancelled u
          then Some (local_error blobCodeInvalidState ''upload_finished'' ''attachment upload has finished'')
          else if up_phase u \<noteq> blobReceiving
          then Some (local_error blobCodeInvalidState ''commit_in_progress'' ''attachment commit is already in progress'')
          else None)"

definition failMatchingUpload :: "bool \<Rightarrow> bool \<Rightarrow> string \<Rightarrow> blobLocalError \<Rightarrow> blobConnection \<Rightarrow> blobManager \<Rightarrow> blob_step" where
  "failMatchingUpload parent_done cleanup_ok i e b m =
     (case unwilling i b of
        Some x \<Rightarrow> ([blobErrorMessage i x], b, m)
      | None \<Rightarrow> (case bc_active b of
            Some u \<Rightarrow> failUpload parent_done cleanup_ok u e b m
          | None \<Rightarrow> ([], b, m)))"

section \<open>Messages of the phone\<close>

record blob_config =
  bf_maxFileBytes :: int
  bf_chunkBytes :: nat

text \<open>What the system does during one message: \<open>createPayload\<close> gives a directory, or fails with its cleanup done
  or not; a cleanup succeeds; a write to the spool file succeeds; the connection's context has ended.\<close>

datatype create_outcome = Created string | CreateFailed bool

record blob_env =
  en_create :: create_outcome
  en_cleanup_ok :: bool
  en_write_ok :: bool
  en_parent_done :: bool

definition new_upload :: "string \<Rightarrow> string \<Rightarrow> string \<Rightarrow> int \<Rightarrow> string \<Rightarrow> string \<Rightarrow> blobUpload" where
  "new_upload i session name sz digest dir = \<lparr>up_id = i, up_sessionID = session, up_name = name, up_size = sz,
     up_digest = digest, up_dirID = dir, up_data = [], up_offset = 0, up_phase = blobReceiving, up_finished = False,
     up_cancelled = False, up_finish = Unfinished\<rparr>"

definition sizeInvalid :: "blob_config \<Rightarrow> blobLocalError" where
  "sizeInvalid cfg = local_error blobCodeSize ''file_size_invalid''
     (''attachment size must be between 0 and '' @ int_lit (bf_maxFileBytes cfg) @ '' bytes'')"

text \<open>The fields of a begin: session, name, size and digest.\<close>

definition begin_fields :: "blob_config \<Rightarrow> fields \<Rightarrow> blobLocalError + string \<times> string \<times> int \<times> string" where
  "begin_fields cfg fs =
     (if \<not> exactBlobFields fs [''ch'', ''op'', ''id'', ''session_id'', ''name'', ''size'', ''sha256'']
      then Inl (invalidBlob ''blob operation has missing or unexpected fields'')
      else case boundedJSONString (map_of fs ''session_id'') 1024 of
        None \<Rightarrow> Inl (invalidBlob ''invalid session_id'')
      | Some session \<Rightarrow>
          if session = [] \<or> containsControl session then Inl (invalidBlob ''invalid session_id'')
          else case boundedJSONString (map_of fs ''name'') 255 of
            None \<Rightarrow> Inl (invalidBlob ''invalid attachment name'')
          | Some name \<Rightarrow>
              if \<not> validOriginalAttachmentName name then Inl (invalidBlob ''invalid attachment name'')
              else case strictNonnegativeInt (map_of fs ''size'') of
                None \<Rightarrow> Inl (sizeInvalid cfg)
              | Some n \<Rightarrow>
                  if n > bf_maxFileBytes cfg then Inl (sizeInvalid cfg)
                  else case boundedJSONString (map_of fs ''sha256'') 64 of
                    None \<Rightarrow> Inl (invalidBlob ''sha256 must be 64 lowercase hexadecimal characters'')
                  | Some digest \<Rightarrow>
                      if \<not> isLowerHexDigest digest
                      then Inl (invalidBlob ''sha256 must be 64 lowercase hexadecimal characters'')
                      else Inr (session, name, n, digest))"

definition handleBegin :: "blob_config \<Rightarrow> blob_env \<Rightarrow> fields \<Rightarrow> string \<Rightarrow> blobConnection \<Rightarrow> blobManager \<Rightarrow> blob_step" where
  "handleBegin cfg e fs i b m =
     (let reply = (\<lambda>x. ([blobErrorMessage i x], b, m)) in
      case begin_fields cfg fs of
        Inl x \<Rightarrow> reply x
      | Inr (session, name, n, digest) \<Rightarrow>
          if bc_active b \<noteq> None
          then reply (local_error blobCodeBusy ''upload_busy'' ''this connection already has an active attachment upload'')
          else (case reserve n m of
              (RefusedReserve x, _) \<Rightarrow> reply x
            | (SpoolUnavailable, _) \<Rightarrow> reply (local_error blobCodeIO ''spool_unavailable'' ''attachment spool is unavailable'')
            | (Reserved, m1) \<Rightarrow>
                (case en_create e of
                   CreateFailed cleaned \<Rightarrow>
                     ([blobErrorMessage i (if cleaned
                         then local_error blobCodeIO ''spool_io'' ''could not create attachment spool file''
                         else local_error blobCodeIO ''spool_cleanup_failed'' ''could not clean attachment spool data'')],
                      b, settleCleanup n (\<not> cleaned) m1)
                 | Created dir \<Rightarrow>
                     ([BlobReady i 0 (int (bf_chunkBytes cfg))],
                      set_upload b (new_upload i session name n digest dir), m1))))"

text \<open>The offset and the bytes of a data message.\<close>

definition data_fields :: "blob_config \<Rightarrow> fields \<Rightarrow> blobLocalError + int \<times> bytes" where
  "data_fields cfg fs =
     (let limit = encodedChunkLimit (bf_chunkBytes cfg) in
      if \<not> exactBlobFields fs [''ch'', ''op'', ''id'', ''offset'', ''d'']
      then Inl (invalidBlob ''blob operation has missing or unexpected fields'')
      else case strictNonnegativeInt (map_of fs ''offset'') of
        None \<Rightarrow> Inl (invalidBlob ''offset must be a nonnegative integer'')
      | Some offset \<Rightarrow>
          (case boundedJSONString (map_of fs ''d'') (limit + 1) of
             None \<Rightarrow> Inl (invalidBlob ''data must be nonempty unpadded base64url'')
           | Some encoded \<Rightarrow>
               if encoded = [] \<or> List.member encoded (CHR ''='')
               then Inl (invalidBlob ''data must be nonempty unpadded base64url'')
               else if length encoded > limit \<or> b64_decoded_len (length encoded) > bf_chunkBytes cfg
               then Inl (local_error blobCodeSize ''chunk_too_large'' ''attachment data chunk exceeds the negotiated limit'')
               else case b64_decode encoded of
                 None \<Rightarrow> Inl (invalidBlob ''invalid base64url attachment data'')
               | Some data \<Rightarrow>
                   if length data > bf_chunkBytes cfg then Inl (invalidBlob ''invalid base64url attachment data'')
                   else Inr (offset, data)))"

definition handleData :: "blob_config \<Rightarrow> blob_env \<Rightarrow> fields \<Rightarrow> string \<Rightarrow> blobConnection \<Rightarrow> blobManager \<Rightarrow> blob_step" where
  "handleData cfg e fs i b m =
     (case data_fields cfg fs of
        Inl x \<Rightarrow> failMatchingUpload (en_parent_done e) (en_cleanup_ok e) i x b m
      | Inr (offset, data) \<Rightarrow>
          (case (unwilling i b, bc_active b) of
             (Some x, _) \<Rightarrow> ([blobErrorMessage i x], b, m)
           | (None, None) \<Rightarrow> ([], b, m)
           | (None, Some u) \<Rightarrow>
               let fail_upload = (\<lambda>x. failUpload (en_parent_done e) (en_cleanup_ok e) u x b m) in
               if offset \<noteq> up_offset u
               then fail_upload (local_error blobCodeOffset ''offset_mismatch'' ''attachment data offset is not contiguous'')
               else if int (length data) > up_size u - up_offset u
               then fail_upload (local_error blobCodeSize ''declared_size_exceeded''
                 ''attachment data exceeds the declared size'')
               else if \<not> en_write_ok e
               then fail_upload (local_error blobCodeIO ''spool_io'' ''could not write attachment data'')
               else let u' = u\<lparr>up_data := up_data u @ data, up_offset := up_offset u + int (length data)\<rparr> in
                 ([BlobAck i (up_offset u')], set_upload b u', m)))"

definition completed_reply :: "string \<Rightarrow> blobConnection \<Rightarrow> BlobMessage list" where
  "completed_reply i b = (case bc_completed b of Some r \<Rightarrow> if message_id r = i then [r] else [] | None \<Rightarrow> [])"

definition handleCommit :: "blob_env \<Rightarrow> fields \<Rightarrow> string \<Rightarrow> blobConnection \<Rightarrow> blobManager \<Rightarrow> blob_step" where
  "handleCommit e fs i b m =
     (if \<not> exactBlobFields fs [''ch'', ''op'', ''id'']
      then failMatchingUpload (en_parent_done e) (en_cleanup_ok e) i
        (invalidBlob ''blob operation has missing or unexpected fields'') b m
      else let unknown = [blobErrorMessage i (local_error blobCodeInvalidState ''unknown_upload'' ''no matching attachment upload'')] in
        case bc_active b of
          None \<Rightarrow> (if completed_reply i b \<noteq> [] then completed_reply i b else unknown, b, m)
        | Some u \<Rightarrow>
            if up_id u \<noteq> i then (unknown, b, m)
            else if up_finished u then (completed_reply i b, b, m)
            else if up_cancelled u then ([], b, m)
            else if up_phase u = blobCommitting then (completed_reply i b, b, m)
            else ([], set_upload b (u\<lparr>up_phase := blobCommitting\<rparr>), m))"

definition handleAbort :: "fields \<Rightarrow> string \<Rightarrow> blobConnection \<Rightarrow> blobManager \<Rightarrow> blob_step" where
  "handleAbort fs i b m =
     (if \<not> exactBlobFields fs [''ch'', ''op'', ''id'']
      then ([blobErrorMessage i (invalidBlob ''blob operation has missing or unexpected fields'')], b, m)
      else case bc_active b of
          Some u \<Rightarrow> ([], if up_id u = i then set_upload b (u\<lparr>up_cancelled := True\<rparr>) else b, m)
        | None \<Rightarrow> ([], b, m))"

text \<open>\<open>handle\<close>; \<open>None\<close> is an error that ends the connection.\<close>

definition handle :: "blob_config \<Rightarrow> blob_env \<Rightarrow> string \<Rightarrow> blobConnection \<Rightarrow> blobManager \<Rightarrow> blob_step option" where
  "handle cfg e message b m =
     (case decodeBlobBase message of
        ((fs, i, op), Some err) \<Rightarrow> if i = [] then None else Some ([blobErrorMessage i (invalidBlob err)], b, m)
      | ((fs, i, op), None) \<Rightarrow>
          Some (if \<not> isCanonicalUUID i
            then ([blobErrorMessage i (invalidBlob ''id must be a canonical lowercase UUID'')], b, m)
            else if length message > ChunkThreshold
            then failMatchingUpload (en_parent_done e) (en_cleanup_ok e) i
              (local_error blobCodeSize ''chunk_too_large'' ''attachment blob frame exceeds the protocol limit'') b m
            else if op = ''begin'' then handleBegin cfg e fs i b m
            else if op = ''data'' then handleData cfg e fs i b m
            else if op = ''commit'' then handleCommit e fs i b m
            else if op = ''abort'' then handleAbort fs i b m
            else ([blobErrorMessage i (invalidBlob ''unknown blob operation'')], b, m)))"


section \<open>The monitor and the end of the connection\<close>

text \<open>\<open>claimReceivingFinish\<close>, keeping what the monitor will answer.\<close>

definition claimReceivingFinish :: "BlobMessage option \<Rightarrow> blobConnection \<Rightarrow> blobConnection" where
  "claimReceivingFinish response b =
     (case bc_active b of
        None \<Rightarrow> b
      | Some u \<Rightarrow> if up_phase u \<noteq> blobReceiving \<or> up_finished u then b
          else set_upload b (u\<lparr>up_finished := True, up_finish := Claimed response\<rparr>))"

text \<open>The monitor wakes when the upload is cancelled or idle for too long; later it calls \<open>finish\<close>.\<close>

datatype monitor_wake = WakeCancelled | WakeIdle

definition monitorUpload :: "monitor_wake \<Rightarrow> blobConnection \<Rightarrow> blobConnection" where
  "monitorUpload w b =
     (case bc_active b of
        None \<Rightarrow> b
      | Some u \<Rightarrow>
          (case w of
             WakeCancelled \<Rightarrow> if up_cancelled u then claimReceivingFinish None b else b
           | WakeIdle \<Rightarrow> claimReceivingFinish (Some (blobErrorMessage (up_id u) (local_error blobCodeTimeout
               ''upload_idle_timeout'' ''attachment upload timed out waiting for data''))) b))"

definition monitor_finish :: "bool \<Rightarrow> bool \<Rightarrow> blobConnection \<Rightarrow> blobManager \<Rightarrow> blob_step" where
  "monitor_finish parent_done cleanup_ok b m =
     (case bc_active b of
        None \<Rightarrow> ([], b, m)
      | Some u \<Rightarrow>
          (case up_finish u of
             Claimed response \<Rightarrow> finish parent_done cleanup_ok response False u b m
           | _ \<Rightarrow> ([], b, m)))"

text \<open>\<open>shutdownAndWait\<close> cancels the upload, then waits for its workers.\<close>

definition shutdown_cancel :: "blobConnection \<Rightarrow> blobConnection" where
  "shutdown_cancel b = (case bc_active b of None \<Rightarrow> b | Some u \<Rightarrow> set_upload b (u\<lparr>up_cancelled := True\<rparr>))"

definition readTimeout :: "int \<Rightarrow> int \<Rightarrow> int \<Rightarrow> blobConnection \<Rightarrow> int" where
  "readTimeout idle commit_timeout fallback b =
     (case bc_active b of
        None \<Rightarrow> fallback
      | Some u \<Rightarrow>
          (let timeout = (if up_phase u = blobCommitting then commit_timeout else idle) + 10 * 1000000000 in
           if timeout < fallback then fallback else timeout))"

end
