(* ===== verification/Routes.thy ===== *)
theory Routes
  imports GoText JsonText
begin

text \<open>
  internal/bridge/routes.go: the table of gateway routes a phone may reach, and the spellings of paths and
  queries that are admitted at all.
\<close>

section \<open>Bytes of paths and queries\<close>

definition isUnreserved :: "char \<Rightarrow> bool" where
  "isUnreserved b \<longleftrightarrow> (97 \<le> ord b \<and> ord b \<le> 122) \<or> (65 \<le> ord b \<and> ord b \<le> 90) \<or> (48 \<le> ord b \<and> ord b \<le> 57) \<or>
     b = CHR ''-'' \<or> b = CHR ''.'' \<or> b = CHR ''_'' \<or> b = CHR ''~''"

definition isPathByte :: "char \<Rightarrow> bool" where
  "isPathByte b \<longleftrightarrow> isUnreserved b \<or> b = CHR ''/'' \<or> List.member ''!$&'' b \<or> b = CHR 0x27 \<or> List.member ''()*+,;=:@'' b"

definition isQueryByte :: "char \<Rightarrow> bool" where
  "isQueryByte b \<longleftrightarrow> isUnreserved b \<or> List.member ''!$&'' b \<or> b = CHR 0x27 \<or> List.member ''()*+,;=:@/?'' b"

definition isHex :: "char \<Rightarrow> bool" where
  "isHex b \<longleftrightarrow> (48 \<le> ord b \<and> ord b \<le> 57) \<or> (97 \<le> ord b \<and> ord b \<le> 102) \<or> (65 \<le> ord b \<and> ord b \<le> 70)"

definition unhex :: "char \<Rightarrow> nat" where
  "unhex b = (if 48 \<le> ord b \<and> ord b \<le> 57 then ord b - 48
     else if 97 \<le> ord b \<and> ord b \<le> 102 then ord b - 97 + 10 else ord b - 65 + 10)"

definition unescaped :: "char \<Rightarrow> char \<Rightarrow> char" where
  "unescaped a b = chr (unhex a * 16 + unhex b)"

definition hasControlByte :: "string \<Rightarrow> bool" where
  "hasControlByte s \<longleftrightarrow> list_ex (\<lambda>c. ord c < 32 \<or> ord c = 127) s"

text \<open>\<open>url.PathUnescape\<close>.\<close>

fun PathUnescape :: "string \<Rightarrow> string option" where
  "PathUnescape [] = Some []"
| "PathUnescape (c # s) =
     (if c \<noteq> CHR ''%'' then map_option ((#) c) (PathUnescape s)
      else case s of
        a # b # t \<Rightarrow> if isHex a \<and> isHex b then map_option ((#) (unescaped a b)) (PathUnescape t) else None
      | _ \<Rightarrow> None)"

section \<open>Paths\<close>

record canonicalPath =
  cpPath :: string
  cpRawPath :: string

text \<open>The loop of \<open>canonicalizePath\<close>.\<close>

fun path_bytes_ok :: "string \<Rightarrow> bool" where
  "path_bytes_ok [] = True"
| "path_bytes_ok (c # s) =
     (if c \<noteq> CHR ''%'' then isPathByte c \<and> path_bytes_ok s
      else case s of
        a # b # t \<Rightarrow> isHex a \<and> isHex b \<and>
          (let d = unescaped a b in
           \<not> (d = CHR ''/'' \<or> d = CHR 0x5C \<or> d = CHR ''%'' \<or> isUnreserved d)) \<and> path_bytes_ok t
      | _ \<Rightarrow> False)"

fun has_double_slash :: "string \<Rightarrow> bool" where
  "has_double_slash (a # b # s) = ((a = CHR ''/'' \<and> b = CHR ''/'') \<or> has_double_slash (b # s))"
| "has_double_slash _ = False"

definition canonicalizePath :: "string \<Rightarrow> canonicalPath option" where
  "canonicalizePath raw =
     (if raw = [] \<or> hd raw \<noteq> CHR ''/'' \<or> contains_any raw [CHR ''?'', CHR ''#'', CHR 0x5C, CHR 0x00] \<or> has_double_slash raw
      then None
      else if \<not> path_bytes_ok raw then None
      else case PathUnescape raw of
        None \<Rightarrow> None
      | Some decoded \<Rightarrow>
          if \<not> valid_utf8 decoded \<or> List.member decoded (CHR 0x5C) \<or> hasControlByte decoded then None
          else if list_ex (\<lambda>seg. seg = ''.'' \<or> seg = ''..'') (split_on CHR ''/'' decoded) then None
          else Some \<lparr>cpPath = decoded, cpRawPath = raw\<rparr>)"

section \<open>Queries\<close>

fun validateRawQuery :: "string \<Rightarrow> bool" where
  "validateRawQuery [] = True"
| "validateRawQuery (c # s) =
     (if ord c \<ge> 128 \<or> ord c < 33 \<or> ord c = 127 \<or> c = CHR ''#'' then False
      else if c = CHR ''%'' then
        (case s of a # b # t \<Rightarrow> isHex a \<and> isHex b \<and> validateRawQuery t | _ \<Rightarrow> False)
      else isQueryByte c \<and> validateRawQuery s)"

section \<open>The route table\<close>

type_synonym route = "string \<times> string"

definition healthRoutes :: "route list" where
  "healthRoutes = [
     (''GET'', ''/api/status''), (''POST'', ''/api/gateway/restart''),
     (''GET'', ''/api/hermes/update/check''), (''POST'', ''/api/hermes/update''),
     (''GET'', ''/api/logs'')]"

definition sessionRoutes :: "route list" where
  "sessionRoutes = [
     (''GET'', ''/api/sessions''), (''GET'', ''/api/sessions/''),
     (''GET'', ''/api/sessions/search''), (''PATCH'', ''/api/sessions/''),
     (''DELETE'', ''/api/sessions/''), (''GET'', ''/api/media'')]"

definition configRoutes :: "route list" where
  "configRoutes = [
     (''GET'', ''/api/config''), (''PUT'', ''/api/config''),
     (''GET'', ''/api/config/schema''), (''GET'', ''/api/config/defaults''),
     (''GET'', ''/api/env''), (''PUT'', ''/api/env''),
     (''DELETE'', ''/api/env''), (''POST'', ''/api/env/reveal'')]"

definition modelRoutes :: "route list" where
  "modelRoutes = [
     (''GET'', ''/api/model/''), (''POST'', ''/api/model/set''),
     (''PUT'', ''/api/model/auxiliary''), (''PUT'', ''/api/model/moa''),
     (''GET'', ''/api/providers/''), (''POST'', ''/api/providers/''),
     (''PUT'', ''/api/providers/''), (''DELETE'', ''/api/providers/''),
     (''GET'', ''/api/local-models/''), (''POST'', ''/api/local-models/''),
     (''DELETE'', ''/api/local-models/'')]"

definition profileRoutes :: "route list" where
  "profileRoutes = [
     (''GET'', ''/api/profiles''), (''POST'', ''/api/profiles''),
     (''PUT'', ''/api/profiles/''), (''DELETE'', ''/api/profiles/'')]"

definition capabilityRoutes :: "route list" where
  "capabilityRoutes = [
     (''GET'', ''/api/skills''), (''POST'', ''/api/skills''),
     (''POST'', ''/api/skills/''), (''GET'', ''/api/skills/''),
     (''PUT'', ''/api/skills/''), (''GET'', ''/api/tools/''),
     (''PUT'', ''/api/tools/''), (''POST'', ''/api/tools/''),
     (''GET'', ''/api/mcp/''), (''POST'', ''/api/mcp/''),
     (''PUT'', ''/api/mcp/''), (''DELETE'', ''/api/mcp/'')]"

definition workspaceRoutes :: "route list" where
  "workspaceRoutes = [
     (''GET'', ''/api/fs/''), (''POST'', ''/api/fs/''),
     (''GET'', ''/api/git/''), (''POST'', ''/api/git/'')]"

definition knowledgeRoutes :: "route list" where
  "knowledgeRoutes = [
     (''GET'', ''/api/memory''), (''POST'', ''/api/memory/''),
     (''GET'', ''/api/memory/''), (''PUT'', ''/api/memory/providers/''),
     (''POST'', ''/api/memory/providers/''), (''GET'', ''/api/learning/''),
     (''POST'', ''/api/learning/''), (''PUT'', ''/api/learning/node''),
     (''DELETE'', ''/api/learning/node''), (''GET'', ''/api/curator''),
     (''POST'', ''/api/curator/''), (''PUT'', ''/api/curator/'')]"

definition opsRoutes :: "route list" where
  "opsRoutes = [
     (''POST'', ''/api/ops/''), (''GET'', ''/api/ops/''),
     (''GET'', ''/api/actions/''), (''GET'', ''/api/analytics/'')]"

definition messagingRoutes :: "route list" where
  "messagingRoutes = [
     (''GET'', ''/api/messaging/''), (''PUT'', ''/api/messaging/''),
     (''POST'', ''/api/messaging/''), (''DELETE'', ''/api/messaging/''),
     (''GET'', ''/api/pairing''), (''POST'', ''/api/pairing/''),
     (''GET'', ''/api/webhooks''), (''POST'', ''/api/webhooks''),
     (''POST'', ''/api/webhooks/''), (''PUT'', ''/api/webhooks/''),
     (''DELETE'', ''/api/webhooks/''), (''GET'', ''/api/cron/''),
     (''POST'', ''/api/cron/'')]"

definition voiceRoutes :: "route list" where
  "voiceRoutes = [
     (''GET'', ''/api/audio/''), (''POST'', ''/api/audio/'')]"

definition pluginRoutes :: "route list" where
  "pluginRoutes = [
     (''GET'', ''/api/plugins/''), (''POST'', ''/api/plugins/'')]"

definition allowedRoutes :: "route list" where
  "allowedRoutes = healthRoutes @ sessionRoutes @ configRoutes @ modelRoutes @ profileRoutes @ capabilityRoutes @
     workspaceRoutes @ knowledgeRoutes @ opsRoutes @ messagingRoutes @ voiceRoutes @ pluginRoutes"

lemmas route_tables = healthRoutes_def sessionRoutes_def configRoutes_def modelRoutes_def profileRoutes_def capabilityRoutes_def
  workspaceRoutes_def knowledgeRoutes_def opsRoutes_def messagingRoutes_def voiceRoutes_def pluginRoutes_def

definition route_matches :: "string \<Rightarrow> string \<Rightarrow> route \<Rightarrow> bool" where
  "route_matches m path r =
     (if fst r \<noteq> m then False
      else path = snd r \<or> path = trim_suffix (snd r) ''/'' \<or> (has_suffix (snd r) ''/'' \<and> has_prefix path (snd r)))"

definition routeAllowed :: "string \<Rightarrow> string \<Rightarrow> bool" where
  "routeAllowed m path = list_ex (route_matches m path) allowedRoutes"

definition bridgeRoutePrefix :: string where "bridgeRoutePrefix = ''/bridge/''"

definition isBridgeRoute :: "string \<Rightarrow> bool" where
  "isBridgeRoute path = has_prefix path bridgeRoutePrefix"

section \<open>What a request line carries\<close>

text \<open>\<open>URL.EscapedPath\<close> of net/url: the raw path when it is a valid encoding of the path, else the path
  escaped afresh.\<close>

definition shouldEscapePath :: "char \<Rightarrow> bool" where
  "shouldEscapePath c \<longleftrightarrow> \<not> isUnreserved c \<and> \<not> List.member ''$&+,/:;=@'' c"

definition enc_byte :: "char \<Rightarrow> bool" where
  "enc_byte c \<longleftrightarrow> List.member ''!$&()*+,;=:@[]%'' c \<or> c = CHR 0x27 \<or> \<not> shouldEscapePath c"

definition validEncodedPath :: "string \<Rightarrow> bool" where
  "validEncodedPath s = list_all enc_byte s"

definition upper_hex :: "nat \<Rightarrow> char" where
  "upper_hex n = ''0123456789ABCDEF'' ! (n mod 16)"

definition escape_path :: "string \<Rightarrow> string" where
  "escape_path s = concat (map (\<lambda>c. if shouldEscapePath c then [CHR ''%'', upper_hex (ord c div 16), upper_hex (ord c)] else [c]) s)"

definition EscapedPath :: "string \<Rightarrow> string \<Rightarrow> string" where
  "EscapedPath path rawPath =
     (if rawPath \<noteq> [] \<and> validEncodedPath rawPath \<and> PathUnescape rawPath = Some path then rawPath
      else if path = ''*'' then ''*'' else escape_path path)"

section \<open>Segments\<close>

lemma isHex_not_slash: "isHex a \<Longrightarrow> a \<noteq> CHR ''/''"
  by (auto simp: isHex_def)

lemma unescape_segments:
  assumes "path_bytes_ok s" "PathUnescape s = Some d"
  shows "split_on CHR ''/'' d = map (\<lambda>w. the (PathUnescape w)) (split_on CHR ''/'' s) \<and>
    (\<forall>w \<in> set (split_on CHR ''/'' s). PathUnescape w \<noteq> None)"
  using assms
proof (induction s arbitrary: d rule: path_bytes_ok.induct)
  case (2 c s)
  show ?case
  proof (cases "c = CHR ''%''")
    case False
    with "2.prems" obtain d' where d: "PathUnescape s = Some d'" "d = c # d'" "path_bytes_ok s" by auto
    from "2.IH"(1) [OF False d(3,1)] obtain w ws where w: "split_on CHR ''/'' s = w # ws"
      "split_on CHR ''/'' d' = the (PathUnescape w) # map (\<lambda>w. the (PathUnescape w)) ws"
      "PathUnescape w \<noteq> None" "\<forall>w \<in> set ws. PathUnescape w \<noteq> None"
      by (cases "split_on CHR ''/'' s") auto
    with False d show ?thesis by auto
  next
    case True
    with "2.prems" obtain a b t where s: "s = a # b # t" by (auto split: list.splits)
    with True "2.prems" obtain d' where d: "isHex a" "isHex b" "path_bytes_ok t" "unescaped a b \<noteq> CHR ''/''"
      "PathUnescape t = Some d'" "d = unescaped a b # d'"
      by (auto simp: Let_def)
    from "2.IH"(2) [OF _ s refl d(3,5)] True obtain w ws where w: "split_on CHR ''/'' t = w # ws"
      "split_on CHR ''/'' d' = the (PathUnescape w) # map (\<lambda>w. the (PathUnescape w)) ws"
      "PathUnescape w \<noteq> None" "\<forall>w \<in> set ws. PathUnescape w \<noteq> None"
      by (cases "split_on CHR ''/'' t") auto
    with True s d isHex_not_slash [OF d(1)] isHex_not_slash [OF d(2)] show ?thesis by auto
  qed
qed simp

lemma path_byte_encoded: "isPathByte c \<Longrightarrow> enc_byte c"
  by (auto simp: isPathByte_def enc_byte_def shouldEscapePath_def)

lemma hex_encoded: "isHex c \<Longrightarrow> enc_byte c"
proof -
  assume "isHex c"
  then have "isUnreserved c" unfolding isHex_def isUnreserved_def by linarith
  then show ?thesis by (simp add: enc_byte_def shouldEscapePath_def)
qed

lemma path_bytes_encoded: "path_bytes_ok s \<Longrightarrow> validEncodedPath s"
proof (induction s rule: path_bytes_ok.induct)
  case (2 c s)
  have pct: "enc_byte CHR ''%''" by (simp add: enc_byte_def)
  show ?case
  proof (cases "c = CHR ''%''")
    case False
    with 2 show ?thesis by (simp add: validEncodedPath_def path_byte_encoded)
  next
    case True
    with "2.prems" obtain a b t where s: "s = a # b # t" by (auto split: list.splits)
    with True "2.prems" "2.IH"(2) [OF _ s refl] pct show ?thesis
      by (simp add: validEncodedPath_def hex_encoded)
  qed
qed (simp add: validEncodedPath_def)

lemma canonicalizePath_Some:
  assumes "canonicalizePath raw = Some c"
  shows "cpRawPath c = raw" "PathUnescape raw = Some (cpPath c)" "path_bytes_ok raw" "valid_utf8 (cpPath c)"
    "\<not> hasControlByte (cpPath c)" "CHR 0x5C \<notin> set (cpPath c)" "raw \<noteq> []"
    "''.'' \<notin> set (split_on CHR ''/'' (cpPath c))" "''..'' \<notin> set (split_on CHR ''/'' (cpPath c))"
proof -
  let ?bad = "raw = [] \<or> hd raw \<noteq> CHR ''/'' \<or> contains_any raw [CHR ''?'', CHR ''#'', CHR 0x5C, CHR 0x00] \<or> has_double_slash raw"
  have "\<not> ?bad" using assms unfolding canonicalizePath_def by (metis option.distinct(1))
  moreover have p: "path_bytes_ok raw"
    using assms unfolding canonicalizePath_def by (metis option.distinct(1))
  ultimately obtain d where d: "PathUnescape raw = Some d"
    using assms unfolding canonicalizePath_def by (cases "PathUnescape raw") simp_all
  let ?odd = "\<not> valid_utf8 d \<or> List.member d (CHR 0x5C) \<or> hasControlByte d"
  let ?dots = "list_ex (\<lambda>seg. seg = ''.'' \<or> seg = ''..'') (split_on CHR ''/'' d)"
  have r: "(if ?odd then None else if ?dots then None else Some \<lparr>cpPath = d, cpRawPath = raw\<rparr>) = Some c"
    using assms d p \<open>\<not> ?bad\<close> unfolding canonicalizePath_def by (simp only: if_False if_True simp_thms option.case)
  then have n: "\<not> ?odd" "\<not> ?dots" by (metis option.distinct(1))+
  with r have c: "c = \<lparr>cpPath = d, cpRawPath = raw\<rparr>" by simp
  from n show "valid_utf8 (cpPath c)" "\<not> hasControlByte (cpPath c)" "CHR 0x5C \<notin> set (cpPath c)"
    by (simp_all add: c)
  from n(2) show "''.'' \<notin> set (split_on CHR ''/'' (cpPath c))" "''..'' \<notin> set (split_on CHR ''/'' (cpPath c))"
    unfolding c by (auto simp only: list_ex_iff canonicalPath.simps)
  show "cpRawPath c = raw" "PathUnescape raw = Some (cpPath c)" "path_bytes_ok raw" using d p by (simp_all add: c)
  show "raw \<noteq> []" using \<open>\<not> ?bad\<close> by blast
qed

section \<open>The table stays below /api\<close>

definition below_api :: "route \<Rightarrow> bool" where
  "below_api r \<longleftrightarrow> take 5 (snd r) = ''/api/'' \<and> drop 5 (snd r) \<noteq> []"

lemma healthRoutes_api: "list_all below_api healthRoutes"
  by (simp add: healthRoutes_def below_api_def)

lemma sessionRoutes_api: "list_all below_api sessionRoutes"
  by (simp add: sessionRoutes_def below_api_def)

lemma configRoutes_api: "list_all below_api configRoutes"
  by (simp add: configRoutes_def below_api_def)

lemma modelRoutes_api: "list_all below_api modelRoutes"
  by (simp add: modelRoutes_def below_api_def)

lemma profileRoutes_api: "list_all below_api profileRoutes"
  by (simp add: profileRoutes_def below_api_def)

lemma capabilityRoutes_api: "list_all below_api capabilityRoutes"
  by (simp add: capabilityRoutes_def below_api_def)

lemma workspaceRoutes_api: "list_all below_api workspaceRoutes"
  by (simp add: workspaceRoutes_def below_api_def)

lemma knowledgeRoutes_api: "list_all below_api knowledgeRoutes"
  by (simp add: knowledgeRoutes_def below_api_def)

lemma opsRoutes_api: "list_all below_api opsRoutes"
  by (simp add: opsRoutes_def below_api_def)

lemma messagingRoutes_api: "list_all below_api messagingRoutes"
  by (simp add: messagingRoutes_def below_api_def)

lemma voiceRoutes_api: "list_all below_api voiceRoutes"
  by (simp add: voiceRoutes_def below_api_def)

lemma pluginRoutes_api: "list_all below_api pluginRoutes"
  by (simp add: pluginRoutes_def below_api_def)

lemma routes_api: "r \<in> set allowedRoutes \<Longrightarrow> below_api r"
  using healthRoutes_api sessionRoutes_api configRoutes_api modelRoutes_api profileRoutes_api capabilityRoutes_api
    workspaceRoutes_api knowledgeRoutes_api opsRoutes_api messagingRoutes_api voiceRoutes_api pluginRoutes_api
  unfolding allowedRoutes_def list_all_iff set_append by blast

lemma trim_keeps_prefix:
  assumes "t \<noteq> []" shows "has_prefix (trim_suffix (p @ t) [c]) p"
proof -
  have "take (length (p @ t) - 1) (p @ t) = p @ take (length t - 1) t"
    using assms by (cases t) auto
  then show ?thesis by (auto simp: trim_suffix_def has_prefix_append)
qed

lemma routes_below_api:
  assumes "r \<in> set allowedRoutes"
  shows "has_prefix (snd r) ''/api/''" "has_prefix (trim_suffix (snd r) ''/'') ''/api/''"
proof -
  have "take 5 (snd r) = ''/api/''" "drop 5 (snd r) \<noteq> []"
    using routes_api [OF assms] unfolding below_api_def by blast+
  then obtain t where t: "snd r = ''/api/'' @ t" "t \<noteq> []"
    by (metis append_take_drop_id)
  then show "has_prefix (snd r) ''/api/''" unfolding has_prefix_append by blast
  from t(2) show "has_prefix (trim_suffix (snd r) ''/'') ''/api/''" unfolding t(1) by (rule trim_keeps_prefix)
qed

lemma has_prefix_trans: "has_prefix a b \<Longrightarrow> has_prefix b c \<Longrightarrow> has_prefix a c"
  by (auto simp: has_prefix_append)

lemma routeAllowed_api:
  assumes "routeAllowed m path" shows "has_prefix path ''/api/''"
proof -
  obtain r where r: "r \<in> set allowedRoutes" "route_matches m path r"
    using assms by (auto simp: routeAllowed_def list_ex_iff)
  then have "has_prefix (snd r) ''/api/''" "has_prefix (trim_suffix (snd r) ''/'') ''/api/''"
    using routes_below_api by blast+
  with r(2) show ?thesis
    by (auto simp: route_matches_def split: if_splits intro: has_prefix_trans)
qed

lemma split_api: "split_on CHR ''/'' (''/api/'' @ t) = [] # ''api'' # split_on CHR ''/'' t"
  by simp

text \<open>
  C12. What is checked is what is forwarded: if \<open>canonicalizePath\<close> admits a path and the table allows it,
  the request to the gateway carries exactly the admitted bytes, the segments that the gateway decodes
  from them are those of the decoded path the table was asked about, the first is "api", and none is "."
  or ".."; so no choice of encoding reaches anything but an allowed route below /api.
\<close>

theorem route_check_faithful:
  assumes "canonicalizePath raw = Some c" "routeAllowed m (cpPath c)"
  shows "EscapedPath (cpPath c) (cpRawPath c) = raw \<and>
    (\<exists>rest. split_on CHR ''/'' (cpPath c) = [] # ''api'' # rest) \<and>
    map PathUnescape (split_on CHR ''/'' raw) = map Some (split_on CHR ''/'' (cpPath c)) \<and>
    ''.'' \<notin> set (split_on CHR ''/'' (cpPath c)) \<and> ''..'' \<notin> set (split_on CHR ''/'' (cpPath c))"
proof -
  note c = canonicalizePath_Some [OF assms(1)]
  obtain t where "cpPath c = ''/api/'' @ t"
    using routeAllowed_api [OF assms(2)] by (auto simp: has_prefix_append)
  then have "\<exists>rest. split_on CHR ''/'' (cpPath c) = [] # ''api'' # rest" using split_api [of t] by metis
  moreover have "EscapedPath (cpPath c) (cpRawPath c) = raw"
    using c path_bytes_encoded [OF c(3)] by (simp add: EscapedPath_def)
  moreover have "map PathUnescape (split_on CHR ''/'' raw) = map Some (split_on CHR ''/'' (cpPath c))"
    using unescape_segments [OF c(3,2)] by (auto simp: comp_def)
  ultimately show ?thesis using c(8,9) by simp
qed

lemma route_check_faithful_witness:
  "\<exists>c. canonicalizePath ''/api/sessions/a%20b'' = Some c \<and> routeAllowed ''GET'' (cpPath c) \<and>
     split_on CHR ''/'' (cpPath c) = [[], ''api'', ''sessions'', ''a b''] \<and>
     EscapedPath (cpPath c) (cpRawPath c) = ''/api/sessions/a%20b''"
proof -
  let ?c = "\<lparr>cpPath = ''/api/sessions/a b'', cpRawPath = ''/api/sessions/a%20b''\<rparr>"
  have sp: "chr 32 = CHR '' ''" by (simp add: char_of_eq_iff)
  have c: "canonicalizePath ''/api/sessions/a%20b'' = Some ?c"
    by (simp add: canonicalizePath_def contains_any_def isPathByte_def isUnreserved_def isHex_def unescaped_def unhex_def
        valid_utf8_ascii hasControlByte_def sp)
  moreover have r: "routeAllowed ''GET'' (cpPath ?c)"
    by (simp add: routeAllowed_def allowedRoutes_def sessionRoutes_def route_matches_def has_prefix_def has_suffix_def)
  ultimately show ?thesis using route_check_faithful [OF c r] by auto
qed

end
