(* ===== verification/HTTPProxy.thy ===== *)
theory HTTPProxy
  imports Routes Channel WorkPools JsonQuote
begin

text \<open>
  internal/bridge/proxy_http.go and the dispatch of internal/bridge/bridge_routes.go: what becomes of a REST
  request of the phone. What the gateway, the pools and the contexts do to one request is the record
  \<open>call\<close>; a worker's visible actions are a list of effects. JSON bodies are texts, as in Go's
  \<open>json.RawMessage\<close>.
\<close>

section \<open>Responses\<close>

text \<open>How \<open>json.Marshal\<close> copies a \<open>RawMessage\<close>: blanks outside strings are dropped, and \<open><\<close>, \<open>>\<close>, \<open>&\<close>, U+2028 and
  U+2029 are escaped. The flag says whether the text is inside a string.\<close>

fun compact :: "bool \<Rightarrow> string \<Rightarrow> string" where
  "compact q [] = []"
| "compact False (c # s) =
     (if is_ws c then compact False s else c # compact (c = CHR 0x22) s)"
| "compact True [c] = (if c = CHR ''<'' \<or> c = CHR ''>'' \<or> c = CHR ''&'' then hex4_text (ord c) else [c])"
| "compact True (c # d # s) =
     (if c = CHR 0x5C then c # d # compact True s
      else if c = CHR 0x22 then c # compact False (d # s)
      else if c = CHR ''<'' \<or> c = CHR ''>'' \<or> c = CHR ''&'' then hex4_text (ord c) @ compact True (d # s)
      else if c = CHR 0xE2 \<and> d = CHR 0x80 \<and> s \<noteq> [] \<and> (hd s = CHR 0xA8 \<or> hd s = CHR 0xA9)
      then CHR 0x5C # ''u202'' @ [if hd s = CHR 0xA8 then CHR ''8'' else CHR ''9''] @ compact True (tl s)
      else c # compact True (d # s))"

record HTTPResponse =
  rsID :: "64 word"
  rsStatus :: int
  rsBody :: string

datatype response_error = MarshalFailed | PlaintextLimitExceeded nat

definition response_text :: "HTTPResponse \<Rightarrow> string" where
  "response_text r = ''{'' @ json_string ''ch'' @ '':'' @ json_string ChHTTP @ '','' @ json_string ''id'' @ '':'' @
     nat_lit (unat (rsID r)) @ '','' @ json_string ''status'' @ '':'' @ int_lit (rsStatus r) @
     (if rsBody r = [] then [] else '','' @ json_string ''body'' @ '':'' @ compact False (rsBody r)) @ ''}''"

definition marshalHTTPResponse :: "HTTPResponse \<Rightarrow> response_error + bytes" where
  "marshalHTTPResponse r =
     (if rsBody r \<noteq> [] \<and> parse_json (rsBody r) = None then Inl MarshalFailed
      else let raw = bytes_of (response_text r) in
        if length raw > MaxPlaintext then Inl (PlaintextLimitExceeded (length raw)) else Inr raw)"

definition responseBody :: "string \<Rightarrow> string \<Rightarrow> string" where
  "responseBody errorName detail = render (JObj ((''error'', JStr errorName) #
     (if detail = [] then [] else [(''detail'', JStr detail)])))"

definition gatewayResponseLimitDetail :: string where
  "gatewayResponseLimitDetail = ''gateway response exceeds the bridge limit''"

definition StatusBadGateway :: int where "StatusBadGateway = 502"
definition StatusServiceUnavailable :: int where "StatusServiceUnavailable = 503"
definition StatusGatewayTimeout :: int where "StatusGatewayTimeout = 504"
definition StatusForbidden :: int where "StatusForbidden = 403"
definition StatusNotFound :: int where "StatusNotFound = 404"
definition HTTPBadRequest :: int where "HTTPBadRequest = 400"
definition HTTPTooManyRequests :: int where "HTTPTooManyRequests = 429"
definition StatusOK :: int where "StatusOK = 200"
definition StatusInternalServerError :: int where "StatusInternalServerError = 500"

lemmas http_statuses = StatusBadGateway_def StatusServiceUnavailable_def StatusGatewayTimeout_def StatusForbidden_def
  StatusNotFound_def HTTPBadRequest_def HTTPTooManyRequests_def StatusOK_def StatusInternalServerError_def

definition prepareHTTPResponse :: "64 word \<Rightarrow> int \<Rightarrow> string \<Rightarrow> response_error + bytes" where
  "prepareHTTPResponse i status body =
     (case marshalHTTPResponse \<lparr>rsID = i, rsStatus = status, rsBody = body\<rparr> of
        Inl (PlaintextLimitExceeded n) \<Rightarrow>
          marshalHTTPResponse \<lparr>rsID = i, rsStatus = StatusBadGateway,
            rsBody = responseBody ''gateway response too large'' gatewayResponseLimitDetail\<rparr>
      | r \<Rightarrow> r)"

section \<open>Targets and redirects\<close>

record URL =
  u_scheme :: string
  u_hostname :: string
  u_port :: string
  u_path :: string
  u_rawPath :: string
  u_rawQuery :: string

text \<open>\<open>strings.EqualFold\<close>; letters outside ASCII compare byte for byte here.\<close>

definition EqualFold :: "string \<Rightarrow> string \<Rightarrow> bool" where
  "EqualFold a b \<longleftrightarrow> fold_name a = fold_name b"

definition effectivePort :: "URL \<Rightarrow> string" where
  "effectivePort u = (if u_port u \<noteq> [] then u_port u else if EqualFold (u_scheme u) ''https'' then ''443'' else ''80'')"

definition sameOrigin :: "URL \<Rightarrow> URL \<Rightarrow> bool" where
  "sameOrigin l r \<longleftrightarrow> EqualFold (u_scheme l) (u_scheme r) \<and> EqualFold (u_hostname l) (u_hostname r) \<and>
     effectivePort l = effectivePort r"

text \<open>\<open>gatewayTarget\<close>; \<open>None\<close> for a base that does not parse. The host of a URL is its name and port.\<close>

definition gatewayTarget :: "URL option \<Rightarrow> canonicalPath \<Rightarrow> string \<Rightarrow> (URL \<times> URL) option" where
  "gatewayTarget base p query =
     (case base of
        None \<Rightarrow> None
      | Some b \<Rightarrow>
          if u_scheme b = [] \<or> (u_hostname b = [] \<and> u_port b = []) then None
          else Some (b\<lparr>u_path := cpPath p, u_rawPath := cpRawPath p, u_rawQuery := query\<rparr>, b))"

datatype redirect_error = RedirectLimit | RedirectOrigin | RedirectRoute

text \<open>What the policy makes of a redirect: the refusal, or the request to send next with its token.\<close>

definition redirectPolicy ::
  "URL \<Rightarrow> string \<Rightarrow> nat \<Rightarrow> string \<Rightarrow> URL \<Rightarrow> redirect_error + (URL \<times> string option)" where
  "redirectPolicy base token via m u =
     (if via \<ge> 10 then Inl RedirectLimit
      else if \<not> sameOrigin base u then Inl RedirectOrigin
      else case canonicalizePath (EscapedPath (u_path u) (u_rawPath u)) of
        None \<Rightarrow> Inl RedirectRoute
      | Some p \<Rightarrow>
          if \<not> validateRawQuery (u_rawQuery u) \<or> \<not> routeAllowed m (cpPath p) then Inl RedirectRoute
          else Inr (u\<lparr>u_path := cpPath p, u_rawPath := cpRawPath p\<rparr>, Some token))"

text \<open>The requests \<open>client.Do\<close> sends when the gateway answers with the given redirects: method, URL and
  the session token, if any.\<close>

fun follow :: "URL \<Rightarrow> string \<Rightarrow> nat \<Rightarrow> (string \<times> URL) list \<Rightarrow> (string \<times> URL \<times> string option) list" where
  "follow base token via [] = []"
| "follow base token via ((m, u) # rs) =
     (case redirectPolicy base token via m u of
        Inl e \<Rightarrow> []
      | Inr (u', t) \<Rightarrow> (m, u', t) # follow base token (Suc via) rs)"

definition sent_requests ::
  "URL \<Rightarrow> string \<Rightarrow> string \<Rightarrow> canonicalPath \<Rightarrow> string \<Rightarrow> (string \<times> URL) list \<Rightarrow> (string \<times> URL \<times> string option) list" where
  "sent_requests base token m p query redirects =
     (case gatewayTarget (Some base) p query of
        None \<Rightarrow> []
      | Some (target, b) \<Rightarrow> (m, target, Some token) # follow b token 1 redirects)"

section \<open>The worker of one admitted request\<close>

record HTTPRequest =
  rqID :: "64 word"
  rqMethod :: string
  rqPath :: string
  rqQuery :: string
  rqBody :: string

text \<open>What \<open>client.Do\<close> and reading the body give. An error is a timeout or not; the body as far as the
  limit of one byte above \<open>MaxPlaintext\<close> lets it through.\<close>

datatype do_outcome = DoFailed bool | ReadFailed bool | Responded int string

record call =
  cl_ctx_done :: bool
  cl_base :: "URL option option"
  cl_request_ok :: bool
  cl_do :: do_outcome
  cl_list :: "(int \<times> string) option"
  cl_write_ok :: bool

datatype effect = WriteResponse bytes | FailConnection | ReleaseLease

text \<open>\<open>finishHTTP\<close>, its deferred release included, and \<open>finishHTTPError\<close>.\<close>

definition finishHTTP :: "call \<Rightarrow> 64 word \<Rightarrow> int \<Rightarrow> string \<Rightarrow> effect list" where
  "finishHTTP e i status body =
     (case prepareHTTPResponse i status body of
        Inl _ \<Rightarrow> [FailConnection]
      | Inr raw \<Rightarrow> if cl_write_ok e then [WriteResponse raw] else [FailConnection]) @ [ReleaseLease]"

definition finishHTTPError :: "call \<Rightarrow> 64 word \<Rightarrow> bool \<Rightarrow> effect list" where
  "finishHTTPError e i timeout =
     (if cl_ctx_done e then [ReleaseLease]
      else if timeout then finishHTTP e i StatusGatewayTimeout (responseBody ''gateway timeout'' ''gateway request timed out'')
      else finishHTTP e i StatusBadGateway (responseBody ''gateway request failed'' ''gateway request failed''))"

definition proxyFSList :: "call \<Rightarrow> HTTPRequest \<Rightarrow> effect list" where
  "proxyFSList e rq =
     (case cl_list e of
        None \<Rightarrow> [ReleaseLease]
      | Some (status, body) \<Rightarrow> finishHTTP e (rqID rq) status body)"

text \<open>The body as JSON: itself when it is, else a JSON string of it.\<close>

definition json_body :: "string \<Rightarrow> string" where
  "json_body body = (if parse_json body \<noteq> None then body else render (JStr body))"

text \<open>The part of \<open>proxyHTTP\<close> that asks the gateway.\<close>

definition proxyGateway :: "call \<Rightarrow> HTTPRequest \<Rightarrow> canonicalPath \<Rightarrow> effect list" where
  "proxyGateway e rq p =
     (case cl_base e of
        None \<Rightarrow> finishHTTP e (rqID rq) StatusServiceUnavailable (responseBody ''gateway not ready'' ''gateway not ready'')
      | Some base \<Rightarrow>
          (case gatewayTarget base p (rqQuery rq) of
             None \<Rightarrow> finishHTTP e (rqID rq) StatusBadGateway (responseBody ''gateway request failed'' ''invalid gateway target'')
           | Some (target, b) \<Rightarrow>
               if \<not> cl_request_ok e
               then finishHTTP e (rqID rq) HTTPBadRequest (responseBody ''malformed bridge request'' ''invalid request'')
               else (case cl_do e of
                   DoFailed timeout \<Rightarrow> finishHTTPError e (rqID rq) timeout
                 | ReadFailed timeout \<Rightarrow> finishHTTPError e (rqID rq) timeout
                 | Responded status body \<Rightarrow>
                     if length body > MaxPlaintext
                     then finishHTTP e (rqID rq) StatusBadGateway
                       (responseBody ''gateway response too large'' gatewayResponseLimitDetail)
                     else finishHTTP e (rqID rq) status (json_body body))))"

definition proxyHTTP :: "call \<Rightarrow> HTTPRequest \<Rightarrow> canonicalPath \<Rightarrow> effect list" where
  "proxyHTTP e rq p =
     (if rqMethod rq = ''GET'' \<and> cpPath p = ''/api/fs/list'' then proxyFSList e rq else proxyGateway e rq p)
     @ [ReleaseLease]"

section \<open>Dispatch\<close>

definition RefusedRouteError :: string where
  "RefusedRouteError = render (JObj [(''error'', JStr ''path not allowed through the bridge'')])"

definition UnknownBridgeRouteError :: string where
  "UnknownBridgeRouteError = render (JObj [(''error'', JStr ''unknown bridge route'')])"

text \<open>The daemon's \<open>StatusProvider\<close>: the encoded status, and the encoded answer of an update check when the
  provider makes them. An encoding fails as \<open>None\<close>.\<close>

record StatusProvider =
  pv_status :: "string option"
  pv_check :: "(bool \<Rightarrow> string option) option"

definition trim_newlines :: "string \<Rightarrow> string" where
  "trim_newlines s = rev (dropWhile (\<lambda>c. c = CHR 0x0A) (rev s))"

definition bridgeReply :: "string option \<Rightarrow> int \<times> string" where
  "bridgeReply encoded =
     (case encoded of
        None \<Rightarrow> (StatusInternalServerError, responseBody ''bridge route failed'' [])
      | Some t \<Rightarrow> (StatusOK, trim_newlines t))"

definition serveBridgeStatus :: "StatusProvider \<Rightarrow> string \<Rightarrow> int \<times> string" where
  "serveBridgeStatus pv query = bridgeReply (pv_status pv)"

definition serveUpdateCheck :: "StatusProvider \<Rightarrow> string \<Rightarrow> int \<times> string" where
  "serveUpdateCheck pv query =
     (case pv_check pv of
        None \<Rightarrow> (StatusNotFound, UnknownBridgeRouteError)
      | Some check \<Rightarrow> bridgeReply (check (query = ''force=true'')))"

definition bridgeRoutes :: "(string \<times> (StatusProvider \<Rightarrow> string \<Rightarrow> int \<times> string)) list" where
  "bridgeRoutes = [(''GET /bridge/v1/status'', serveBridgeStatus), (''GET /bridge/v1/update/check'', serveUpdateCheck)]"

text \<open>What a request leads to: an immediate answer, a handler of the bridge itself, a call of the gateway,
  or nothing because the context has ended.\<close>

datatype start = Answered int string | BridgeAnswers int string | GatewayCall canonicalPath | StartCanceled

definition startBridgeRoute :: "admissionResult \<Rightarrow> StatusProvider \<Rightarrow> HTTPRequest \<Rightarrow> canonicalPath \<Rightarrow> start" where
  "startBridgeRoute adm pv rq p =
     (case map_of bridgeRoutes (rqMethod rq @ '' '' @ cpPath p) of
        None \<Rightarrow> Answered StatusNotFound UnknownBridgeRouteError
      | Some handler \<Rightarrow>
          (case adm of
             admissionCanceled \<Rightarrow> StartCanceled
           | admissionBusy \<Rightarrow> Answered HTTPTooManyRequests (responseBody ''bridge busy'' ''too many bridge HTTP requests'')
           | admissionGranted \<Rightarrow> (case handler pv (rqQuery rq) of (status, body) \<Rightarrow> BridgeAnswers status body)))"

definition startProxyHTTP :: "admissionResult \<Rightarrow> StatusProvider option \<Rightarrow> HTTPRequest \<Rightarrow> start" where
  "startProxyHTTP adm provider rq =
     (case canonicalizePath (rqPath rq) of
        None \<Rightarrow> Answered HTTPBadRequest (responseBody ''malformed bridge request'' ''invalid path'')
      | Some p \<Rightarrow>
          if \<not> validateRawQuery (rqQuery rq)
          then Answered HTTPBadRequest (responseBody ''malformed bridge request'' ''invalid query'')
          else if provider \<noteq> None \<and> isBridgeRoute (cpPath p) then startBridgeRoute adm (the provider) rq p
          else if \<not> routeAllowed (rqMethod rq) (cpPath p) then Answered StatusForbidden RefusedRouteError
          else (case adm of
              admissionCanceled \<Rightarrow> StartCanceled
            | admissionBusy \<Rightarrow> Answered HTTPTooManyRequests (responseBody ''bridge busy'' ''too many bridge HTTP requests'')
            | admissionGranted \<Rightarrow> GatewayCall p))"

section \<open>Every request is answered, within the limit\<close>

lemma length_compact: "length (compact q s) \<le> 6 * length s"
proof (induction q s rule: compact.induct)
  case (2 c s)
  then show ?case by (cases "is_ws c") simp_all
next
  case (4 c d s)
  have h: "length (hex4_text (ord c)) = 6" by (simp add: hex4_text_def)
  consider (esc) "c = CHR 0x5C" | (quote) "c \<noteq> CHR 0x5C" "c = CHR 0x22"
    | (html) "c \<noteq> CHR 0x5C" "c \<noteq> CHR 0x22" "c = CHR ''<'' \<or> c = CHR ''>'' \<or> c = CHR ''&''"
    | (sep) "c \<noteq> CHR 0x5C" "c \<noteq> CHR 0x22" "\<not> (c = CHR ''<'' \<or> c = CHR ''>'' \<or> c = CHR ''&'')"
        "c = CHR 0xE2 \<and> d = CHR 0x80 \<and> s \<noteq> [] \<and> (hd s = CHR 0xA8 \<or> hd s = CHR 0xA9)"
    | (other) "c \<noteq> CHR 0x5C" "c \<noteq> CHR 0x22" "\<not> (c = CHR ''<'' \<or> c = CHR ''>'' \<or> c = CHR ''&'')"
        "\<not> (c = CHR 0xE2 \<and> d = CHR 0x80 \<and> s \<noteq> [] \<and> (hd s = CHR 0xA8 \<or> hd s = CHR 0xA9))"
    by argo
  then show ?case
  proof cases
    case esc
    with "4.IH"(1) show ?thesis by simp
  next
    case quote
    with "4.IH"(2) show ?thesis by simp
  next
    case html
    have "length (compact True (d # s)) \<le> 6 * length (d # s)" using "4.IH"(3) html by blast
    moreover have "compact True (c # d # s) = hex4_text (ord c) @ compact True (d # s)"
      using html by (simp only: compact.simps if_True if_False)
    ultimately show ?thesis using h by simp
  next
    case sep
    with "4.IH"(4) show ?thesis
      by (cases s) (simp_all only: compact.simps if_True if_False length_append list.size list.sel, simp_all)
  next
    case other
    have "length (compact True (d # s)) \<le> 6 * length (d # s)" using "4.IH"(5) other by blast
    moreover have "compact True (c # d # s) = c # compact True (d # s)"
      using other by (simp only: compact.simps if_True if_False)
    ultimately show ?thesis by simp
  qed
qed (simp_all add: hex4_text_def)

lemma length_nat_lit_digits: "n < 10 ^ k \<Longrightarrow> 0 < k \<Longrightarrow> length (nat_lit n) \<le> k"
proof (induction k arbitrary: n)
  case (Suc k)
  show ?case
  proof (cases "n < 10")
    case True
    then show ?thesis by (simp add: nat_lit.simps [of n])
  next
    case False
    with Suc.prems have "0 < k" "n div 10 < 10 ^ k" by (cases k, auto)
    from Suc.IH [OF this(2,1)] False show ?thesis by (simp add: nat_lit.simps [of n])
  qed
qed simp

lemma responseBody_json: "plain e \<Longrightarrow> plain d \<Longrightarrow> parse_json (responseBody e d) \<noteq> None"
  unfolding responseBody_def by (subst parse_json_render) (auto simp: plain_char_def)

lemma limit_body:
  "parse_json (responseBody ''gateway response too large'' gatewayResponseLimitDetail) \<noteq> None"
  "length (responseBody ''gateway response too large'' gatewayResponseLimitDetail) \<le> 200"
  "responseBody ''gateway response too large'' gatewayResponseLimitDetail \<noteq> []"
proof -
  have p: "plain ''gateway response too large''" "plain gatewayResponseLimitDetail"
    by (simp_all add: gatewayResponseLimitDetail_def plain_char_def)
  then show "parse_json (responseBody ''gateway response too large'' gatewayResponseLimitDetail) \<noteq> None"
    by (rule responseBody_json)
  show "length (responseBody ''gateway response too large'' gatewayResponseLimitDetail) \<le> 200"
    using p by (simp add: responseBody_def json_string_plain plain_char_def)
      (simp add: gatewayResponseLimitDetail_def)
  show "responseBody ''gateway response too large'' gatewayResponseLimitDetail \<noteq> []"
    by (simp add: responseBody_def)
qed

lemma length_response_text:
  "length (response_text r) \<le> 100 + length (int_lit (rsStatus r)) + 6 * length (rsBody r)"
proof -
  have "unat (rsID r) < 10 ^ 20"
    using unsigned_less [of "rsID r", where ?'a = nat] by simp
  then have "length (nat_lit (unat (rsID r))) \<le> 20" by (rule length_nat_lit_digits) simp
  with length_compact [of False "rsBody r"] show ?thesis
    by (simp add: response_text_def json_string_plain plain_char_def channel_names)
qed

lemma marshal_limit:
  "\<exists>raw. marshalHTTPResponse \<lparr>rsID = i, rsStatus = StatusBadGateway,
      rsBody = responseBody ''gateway response too large'' gatewayResponseLimitDetail\<rparr> = Inr raw \<and> length raw \<le> MaxPlaintext"
proof -
  let ?r = "\<lparr>rsID = i, rsStatus = StatusBadGateway,
      rsBody = responseBody ''gateway response too large'' gatewayResponseLimitDetail\<rparr>"
  have "length (int_lit StatusBadGateway) \<le> 3"
    using length_nat_lit_digits [of 502 3] by (simp add: int_lit_def StatusBadGateway_def)
  with length_response_text [of ?r] limit_body(2) have "length (response_text ?r) \<le> MaxPlaintext"
    by (simp add: MaxPlaintext_def)
  with limit_body(1) show ?thesis by (simp add: marshalHTTPResponse_def Let_def)
qed

lemma prepare_fits:
  assumes "body = [] \<or> parse_json body \<noteq> None"
  shows "\<exists>raw. prepareHTTPResponse i status body = Inr raw \<and> length raw \<le> MaxPlaintext"
proof (cases "length (response_text \<lparr>rsID = i, rsStatus = status, rsBody = body\<rparr>) \<le> MaxPlaintext")
  case True
  with assms show ?thesis by (auto simp: prepareHTTPResponse_def marshalHTTPResponse_def Let_def)
next
  case False
  with assms marshal_limit [of i] show ?thesis by (auto simp: prepareHTTPResponse_def marshalHTTPResponse_def Let_def)
qed

lemma prepare_Inr: "prepareHTTPResponse i status body = Inr raw \<Longrightarrow> length raw \<le> MaxPlaintext"
  by (auto simp: prepareHTTPResponse_def marshalHTTPResponse_def Let_def split: if_splits sum.splits response_error.splits)

definition answered :: "bool \<Rightarrow> effect list \<Rightarrow> bool" where
  "answered write_ok es \<longleftrightarrow> (if write_ok then \<exists>raw. length raw \<le> MaxPlaintext \<and> es = [WriteResponse raw, ReleaseLease]
     else es = [FailConnection, ReleaseLease])"

lemma finishHTTP_answered:
  "body = [] \<or> parse_json body \<noteq> None \<Longrightarrow> answered (cl_write_ok e) (finishHTTP e i status body)"
  using prepare_fits [of body i status] by (auto simp: finishHTTP_def answered_def)

lemma finish_plain: "plain n \<Longrightarrow> plain d \<Longrightarrow> answered (cl_write_ok e) (finishHTTP e i status (responseBody n d))"
  by (rule finishHTTP_answered) (simp add: responseBody_json)

lemma json_body_valid: "parse_json (json_body body) \<noteq> None"
  unfolding json_body_def by (cases "parse_json body = None") (simp_all only: parse_json_string if_True if_False simp_thms)

lemma finishHTTPError_answered:
  "finishHTTPError e i timeout = [ReleaseLease] \<and> cl_ctx_done e \<or> answered (cl_write_ok e) (finishHTTPError e i timeout)"
  by (auto simp: finishHTTPError_def plain_char_def intro!: finish_plain)

text \<open>How the body of the worker ends.\<close>

definition concluded :: "call \<Rightarrow> effect list \<Rightarrow> bool" where
  "concluded e es \<longleftrightarrow> answered (cl_write_ok e) es \<or> es = [ReleaseLease] \<and> (cl_ctx_done e \<or> cl_list e = None)"

lemma proxyFSList_concluded:
  assumes "\<forall>status body. cl_list e = Some (status, body) \<longrightarrow> parse_json body \<noteq> None"
  shows "concluded e (proxyFSList e rq)"
  using assms by (cases "cl_list e") (auto simp: proxyFSList_def concluded_def intro!: finishHTTP_answered)

lemma proxyGateway_concluded: "concluded e (proxyGateway e rq p)"
proof -
  have plain: "answered (cl_write_ok e) (finishHTTP e (rqID rq) StatusServiceUnavailable (responseBody ''gateway not ready'' ''gateway not ready''))"
    "answered (cl_write_ok e) (finishHTTP e (rqID rq) StatusBadGateway (responseBody ''gateway request failed'' ''invalid gateway target''))"
    "answered (cl_write_ok e) (finishHTTP e (rqID rq) HTTPBadRequest (responseBody ''malformed bridge request'' ''invalid request''))"
    by (rule finish_plain; simp add: plain_char_def)+
  have ok: "answered (cl_write_ok e) (finishHTTP e (rqID rq) status (json_body body))" for status body
    by (rule finishHTTP_answered) (simp add: json_body_valid)
  note big = finishHTTP_answered [OF disjI2 [OF limit_body(1)]]
  have er: "finishHTTPError e (rqID rq) timeout = [ReleaseLease] \<and> cl_ctx_done e \<or>
      answered (cl_write_ok e) (finishHTTPError e (rqID rq) timeout)" for timeout
    by (rule finishHTTPError_answered)
  show ?thesis
    unfolding proxyGateway_def concluded_def
    by (cases "cl_base e"; cases "gatewayTarget (the (cl_base e)) p (rqQuery rq)"; cases "cl_request_ok e"; cases "cl_do e")
      (use plain ok er big in auto)
qed

text \<open>
  An admitted request is answered exactly once and always gives its capacity back: whatever the
  gateway does (not ready, unreachable, slow, an oversized or non-JSON body), the worker writes one response
  of at most \<open>MaxPlaintext\<close> bytes or, when the link refuses it, fails the connection, and then releases its
  lease; it stays silent only when its context has ended or the listing was abandoned.
\<close>

theorem http_answered_once:
  assumes "\<forall>status body. cl_list e = Some (status, body) \<longrightarrow> parse_json body \<noteq> None"
  shows "(\<exists>raw. length raw \<le> MaxPlaintext \<and> proxyHTTP e rq p = [WriteResponse raw, ReleaseLease, ReleaseLease]) \<and> cl_write_ok e \<or>
    proxyHTTP e rq p = [FailConnection, ReleaseLease, ReleaseLease] \<and> \<not> cl_write_ok e \<or>
    proxyHTTP e rq p = [ReleaseLease, ReleaseLease] \<and> (cl_ctx_done e \<or> cl_list e = None)"
proof -
  obtain es where "proxyHTTP e rq p = es @ [ReleaseLease]" "concluded e es"
    using proxyFSList_concluded [OF assms] proxyGateway_concluded by (simp add: proxyHTTP_def split: if_splits)
  then show ?thesis by (cases "cl_write_ok e") (auto simp: concluded_def answered_def)
qed

definition demo_call :: call where
  "demo_call = \<lparr>cl_ctx_done = False, cl_base = Some None, cl_request_ok = True, cl_do = DoFailed True,
     cl_list = Some (200, ''{}''), cl_write_ok = True\<rparr>"

definition demo_request :: HTTPRequest where
  "demo_request = \<lparr>rqID = 7, rqMethod = ''GET'', rqPath = ''/api/status'', rqQuery = [], rqBody = []\<rparr>"

lemma http_answered_once_witness:
  "\<exists>raw. length raw \<le> MaxPlaintext \<and>
     proxyHTTP demo_call demo_request \<lparr>cpPath = ''/api/status'', cpRawPath = ''/api/status''\<rparr> =
       [WriteResponse raw, ReleaseLease, ReleaseLease]"
proof -
  have "parse_json ''{}'' \<noteq> None" using parse_json_render [of "JObj []"] by simp
  then have "\<forall>status body. cl_list demo_call = Some (status, body) \<longrightarrow> parse_json body \<noteq> None"
    by (simp add: demo_call_def)
  from http_answered_once [OF this, of demo_request "\<lparr>cpPath = ''/api/status'', cpRawPath = ''/api/status''\<rparr>"]
  show ?thesis by (auto simp: demo_call_def)
qed

section \<open>The session token stays with the gateway\<close>

lemma follow_confined:
  "(m, u, t) \<in> set (follow base token via rs) \<Longrightarrow>
     t = Some token \<and> sameOrigin base u \<and> routeAllowed m (u_path u) \<and>
     canonicalizePath (EscapedPath (u_path u) (u_rawPath u)) \<noteq> None"
proof (induction base token via rs rule: follow.induct)
  case (2 base token via m' u' rs)
  show ?case
  proof (cases "redirectPolicy base token via m' u'")
    case (Inr x)
    obtain v t' where x: "x = (v, t')" by (cases x)
    from Inr x obtain p where p: "canonicalizePath (EscapedPath (u_path u') (u_rawPath u')) = Some p"
      "routeAllowed m' (cpPath p)" "sameOrigin base u'" "v = u'\<lparr>u_path := cpPath p, u_rawPath := cpRawPath p\<rparr>" "t' = Some token"
      by (auto simp: redirectPolicy_def split: if_splits option.splits)
    note c = canonicalizePath_Some [OF p(1)]
    have "EscapedPath (cpPath p) (cpRawPath p) = cpRawPath p"
      using c(1,2,3,7) path_bytes_encoded [OF c(3)] by (simp add: EscapedPath_def)
    moreover have "sameOrigin base v" using p(3,4) by (simp add: sameOrigin_def effectivePort_def)
    ultimately have "sameOrigin base v" "canonicalizePath (EscapedPath (u_path v) (u_rawPath v)) \<noteq> None" "u_path v = cpPath p"
      using p(1,4) c(1) by simp_all
    with "2.prems" "2.IH" [OF Inr x [symmetric]] Inr x p show ?thesis by auto
  qed (use 2 in simp)
qed simp

lemma length_follow: "length (follow base token via rs) \<le> 10 - via"
proof (induction rs arbitrary: via)
  case (Cons r rs)
  obtain m u where r: "r = (m, u)" by (cases r)
  show ?case
  proof (cases "redirectPolicy base token via m u")
    case (Inr x)
    then have "via < 10" by (simp add: redirectPolicy_def split: if_splits)
    with Cons.IH [of "Suc via"] r Inr show ?thesis by (simp split: prod.split)
  qed (simp add: r)
qed simp

text \<open>
  C11. The session token goes only to the gateway and only for allowed routes: of all requests sent for a
  request of the phone, redirects of any kind included, there are at most ten, and each carries the token to
  the scheme, host and port of the gateway's base URL, with a path that is canonical and allowed for its method.
\<close>

theorem token_confined:
  assumes "startProxyHTTP adm provider rq = GatewayCall p"
    and "(m, u, t) \<in> set (sent_requests base token (rqMethod rq) p (rqQuery rq) redirects)"
  shows "t = Some token \<and> sameOrigin base u \<and> routeAllowed m (u_path u) \<and>
    canonicalizePath (EscapedPath (u_path u) (u_rawPath u)) \<noteq> None \<and>
    length (sent_requests base token (rqMethod rq) p (rqQuery rq) redirects) \<le> 10"
proof -
  have p: "canonicalizePath (rqPath rq) = Some p" "routeAllowed (rqMethod rq) (cpPath p)"
    using assms(1) by (auto simp: startProxyHTTP_def startBridgeRoute_def
      split: if_splits option.splits admissionResult.splits prod.splits)
  note c = canonicalizePath_Some [OF p(1)]
  have e: "EscapedPath (cpPath p) (cpRawPath p) = rqPath rq"
    using c(1,2,3,7) path_bytes_encoded [OF c(3)] by (simp add: EscapedPath_def)
  obtain target where g: "gatewayTarget (Some base) p (rqQuery rq) = Some (target, base)"
    "target = base\<lparr>u_path := cpPath p, u_rawPath := cpRawPath p, u_rawQuery := rqQuery rq\<rparr>"
    using assms(2) by (auto simp: sent_requests_def gatewayTarget_def split: if_splits)
  have "sameOrigin base target" "u_path target = cpPath p" "u_rawPath target = cpRawPath p"
    using g(2) by (simp_all add: sameOrigin_def effectivePort_def EqualFold_def)
  with assms(2) g(1) follow_confined [of m u t base token 1 redirects] length_follow [of base token 1 redirects] p e
  show ?thesis by (auto simp: sent_requests_def)
qed

definition demo_base :: URL where
  "demo_base = \<lparr>u_scheme = ''http'', u_hostname = ''127.0.0.1'', u_port = ''9119'', u_path = [], u_rawPath = [], u_rawQuery = []\<rparr>"

lemma token_confined_witness:
  "\<exists>p u. startProxyHTTP admissionGranted None demo_request = GatewayCall p \<and>
     (''GET'', u, Some ''secret'') \<in> set (sent_requests demo_base ''secret'' ''GET'' p [] [(''GET'', demo_base\<lparr>u_path := ''/etc''\<rparr>)]) \<and>
     routeAllowed ''GET'' (u_path u) \<and>
     length (sent_requests demo_base ''secret'' ''GET'' p [] [(''GET'', demo_base\<lparr>u_path := ''/etc''\<rparr>)]) \<le> 10"
proof -
  let ?p = "\<lparr>cpPath = ''/api/status'', cpRawPath = ''/api/status''\<rparr>"
  let ?u = "demo_base\<lparr>u_path := ''/api/status'', u_rawPath := ''/api/status'', u_rawQuery := []\<rparr>"
  have "canonicalizePath ''/api/status'' = Some ?p"
    by (simp add: canonicalizePath_def contains_any_def isPathByte_def isUnreserved_def valid_utf8_ascii hasControlByte_def)
  moreover have "routeAllowed ''GET'' ''/api/status''"
    by (simp add: routeAllowed_def allowedRoutes_def healthRoutes_def route_matches_def)
  ultimately have s: "startProxyHTTP admissionGranted None demo_request = GatewayCall ?p"
    by (simp add: startProxyHTTP_def demo_request_def)
  have "(''GET'', ?u, Some ''secret'') \<in> set (sent_requests demo_base ''secret'' ''GET'' ?p [] [(''GET'', demo_base\<lparr>u_path := ''/etc''\<rparr>)])"
    by (simp add: sent_requests_def gatewayTarget_def demo_base_def)
  with token_confined [OF s, of "''GET''" ?u "Some ''secret''" demo_base "''secret''" "[(''GET'', demo_base\<lparr>u_path := ''/etc''\<rparr>)]"] s
  show ?thesis by (auto simp: demo_request_def)
qed

end
