(* ===== verification/JsonRaw.thy ===== *)
theory JsonRaw
  imports JsonText
begin

text \<open>
  \<open>encoding/json\<close> again: decoding a struct some of whose fields are \<open>json.RawMessage\<close>, which keep the text of
  the member's value. The members of an object are listed with that text.
\<close>

fun raw_members :: "nat \<Rightarrow> string \<Rightarrow> (string \<times> string) list option" where
  "raw_members 0 s = None"
| "raw_members (Suc n) s =
     (case skip_ws s of
        [] \<Rightarrow> None
      | q # s1 \<Rightarrow>
          (case parse_string s1 of
             None \<Rightarrow> None
           | Some (k, s2) \<Rightarrow>
               (let s3 = skip_ws (tl (skip_ws s2)) in
                case parse_value (2 * length s3 + 2) 9999 s3 of
                  None \<Rightarrow> None
                | Some (v, s4) \<Rightarrow>
                    (let raw = take (length s3 - length s4) s3 in
                     case skip_ws s4 of
                       [] \<Rightarrow> None
                     | e # s5 \<Rightarrow> if e = CHR '','' then map_option (Cons (k, raw)) (raw_members n s5) else Some [(k, raw)]))))"

definition raw_object :: "string \<Rightarrow> (string \<times> string) list option" where
  "raw_object s =
     (case parse_json s of
        Some JNull \<Rightarrow> Some []
      | Some (JObj []) \<Rightarrow> Some []
      | Some (JObj _) \<Rightarrow> raw_members (length s) (tl (skip_ws s))
      | _ \<Rightarrow> None)"

fun fill_raw :: "string list \<Rightarrow> (string \<Rightarrow> string \<Rightarrow> 'r \<Rightarrow> 'r option) \<Rightarrow> (string \<times> string) list \<Rightarrow> 'r \<Rightarrow> 'r option" where
  "fill_raw names setf [] r = Some r"
| "fill_raw names setf ((k, v) # ms) r =
     (case field_of names k of
        None \<Rightarrow> fill_raw names setf ms r
      | Some f \<Rightarrow> (case setf f v r of None \<Rightarrow> None | Some r' \<Rightarrow> fill_raw names setf ms r'))"

definition unmarshal_raw :: "string list \<Rightarrow> (string \<Rightarrow> string \<Rightarrow> 'r \<Rightarrow> 'r option) \<Rightarrow> 'r \<Rightarrow> string \<Rightarrow> 'r option" where
  "unmarshal_raw names setf zero s =
     (case raw_object s of None \<Rightarrow> None | Some ms \<Rightarrow> fill_raw names setf ms zero)"


lemma skip_render: "plain_json v \<Longrightarrow> skip_ws (render v @ r) = render v @ r"
  using render_start [of v] by (auto simp: value_start_def)

lemma raw_members_render:
  "list_all (\<lambda>m. plain (fst m) \<and> plain_json (snd m)) ms \<Longrightarrow> ms \<noteq> [] \<Longrightarrow> members_depth ms \<le> 9999 \<Longrightarrow> length ms \<le> n \<Longrightarrow>
     raw_members n (render_members ms) = Some (map (\<lambda>m. (fst m, render (snd m))) ms)"
proof (induction ms arbitrary: n)
  case (Cons m ms)
  then obtain n' where n: "n = Suc n'" by (cases n) auto
  have k: "parse_string (fst m @ CHR 0x22 # x) = Some (fst m, x)" "json_string (fst m) = CHR 0x22 # fst m @ [CHR 0x22]" for x
    using Cons.prems by (auto simp: parse_string_plain json_string_plain)
  have pj: "plain_json (snd m)" using Cons.prems by simp
  have v: "parse_value k 9999 (render (snd m) @ c # x) = Some (snd m, c # x)"
    if "c = CHR '','' \<or> c = CHR ''}''" "json_fuel (snd m) \<le> k" for k c x
    using Cons.prems that by (intro parse_render(1)) (auto intro: num_end_stop)
  have f: "json_fuel (snd m) \<le> 2 * length (render (snd m))" by (rule json_fuel_bound(1) [OF pj])
  show ?case
  proof (cases ms)
    case Nil
    with k v n pj f show ?thesis by (simp add: skip_render Let_def del: parse_value.simps)
  next
    case (Cons w ws)
    have "raw_members n' (render_members ms) = Some (map (\<lambda>m. (fst m, render (snd m))) ms)"
      using Cons.prems n Cons by (intro Cons.IH) auto
    with k v n pj f Cons show ?thesis by (simp add: skip_render Let_def del: parse_value.simps)
  qed
qed simp

lemma length_render_members: "length ms \<le> length (render_members ms)"
proof (induction ms)
  case (Cons m ms)
  then show ?case by (cases ms) auto
qed simp

lemma raw_object_render:
  assumes "plain_json (JObj ms)" "json_depth (JObj ms) \<le> 10000"
  shows "raw_object (render (JObj ms)) = Some (map (\<lambda>m. (fst m, render (snd m))) ms)"
proof (cases ms)
  case Nil
  with parse_json_render [OF assms] show ?thesis by (simp add: raw_object_def)
next
  case (Cons m ms')
  have "raw_members (length (render (JObj ms))) (render_members ms) = Some (map (\<lambda>m. (fst m, render (snd m))) ms)"
    using assms Cons length_render_members [of ms] by (intro raw_members_render) auto
  moreover have "tl (skip_ws (render (JObj ms))) = render_members ms" using Cons by simp
  ultimately show ?thesis
    using parse_json_render [OF assms] Cons by (simp add: raw_object_def del: raw_members.simps render.simps render_members.simps)
qed

end
