(* ===== verification/Paths.thy ===== *)
theory Paths
  imports Prelude "HOL-Library.Sublist"
begin

text \<open>
  The parts of \<open>path/filepath\<close> that the bridge uses, for Unix paths.
\<close>

section \<open>Paths\<close>

text \<open>A cleaned rooted path is its list of elements.\<close>

definition clean_push :: "string \<Rightarrow> string list \<Rightarrow> string list" where
  "clean_push seg acc = (if seg = [] \<or> seg = ''.'' then acc else if seg = ''..'' then butlast acc else acc @ [seg])"

definition Clean :: "string \<Rightarrow> string list" where
  "Clean p = fold clean_push (split_on (CHR ''/'') p) []"

definition Abs :: "string option \<Rightarrow> string \<Rightarrow> string list option" where
  "Abs cwd p = (if has_prefix p ''/'' then Some (Clean p) else map_option (\<lambda>d. Clean (d @ ''/'' @ p)) cwd)"

text \<open>\<open>filepath.Rel\<close> between cleaned rooted paths; its text is the elements joined.\<close>

fun Rel :: "string list \<Rightarrow> string list \<Rightarrow> string list" where
  "Rel (b # bs) (t # ts) = (if b = t then Rel bs ts else replicate (Suc (length bs)) ''..'' @ t # ts)"
| "Rel [] ts = ts"
| "Rel bs [] = replicate (length bs) ''..''"

fun join_path :: "string list \<Rightarrow> string" where
  "join_path [] = ''.''"
| "join_path [s] = s"
| "join_path (s # t # ts) = s @ ''/'' @ join_path (t # ts)"

text \<open>A rooted path as text.\<close>

definition rooted :: "string list \<Rightarrow> string" where
  "rooted p = (if p = [] then ''/'' else concat (map (\<lambda>s. CHR ''/'' # s) p))"

definition clean_path :: "string list \<Rightarrow> bool" where
  "clean_path p \<longleftrightarrow> list_all (\<lambda>s. s \<noteq> [] \<and> s \<noteq> ''.'' \<and> s \<noteq> ''..'' \<and> CHR ''/'' \<notin> set s) p"

lemma clean_Clean: "clean_path (Clean p)"
proof -
  have "clean_path (fold clean_push segs acc)" if "clean_path acc" "list_all (\<lambda>s. CHR ''/'' \<notin> set s) segs" for segs acc
    using that
  proof (induction segs arbitrary: acc)
    case (Cons s segs)
    have "clean_path (clean_push s acc)"
      using Cons.prems by (auto simp: clean_push_def clean_path_def list_all_iff dest: in_set_butlastD)
    with Cons show ?case by simp
  qed simp
  moreover have "list_all (\<lambda>s. CHR ''/'' \<notin> set s) (split_on (CHR ''/'') p)"
    by (auto simp: list_all_iff dest: split_on_no_sep)
  ultimately show ?thesis by (simp add: Clean_def clean_path_def)
qed

lemma Rel_inside: "Rel r (r @ ts) = ts"
  by (induction r) simp_all

lemma Rel_outside: "\<not> prefix r p \<Longrightarrow> \<exists>ts. Rel r p = ''..'' # ts"
  by (induction r p rule: Rel.induct) auto

text \<open>The text of a cleaned rooted path reads back.\<close>

lemma split_on_snoc: "split_on x (s @ x # t) = split_on x s @ split_on x t"
  by (induction s) (auto split: list.split)

lemma split_on_none: "x \<notin> set t \<Longrightarrow> split_on x t = [t]"
  by (induction t) auto

lemma split_on_rooted: "clean_path q \<Longrightarrow> q \<noteq> [] \<Longrightarrow> split_on (CHR ''/'') (rooted q) = [] # q"
proof -
  have "split_on (CHR ''/'') (s @ concat (map (\<lambda>s. CHR ''/'' # s) ss)) = s # ss"
    if "list_all (\<lambda>s. CHR ''/'' \<notin> set s) (s # ss)" for s ss
    using that by (induction ss arbitrary: s) (auto simp: split_on_none split_on_snoc)
  then show "clean_path q \<Longrightarrow> q \<noteq> [] \<Longrightarrow> ?thesis" by (cases q) (auto simp: rooted_def clean_path_def list_all_iff)
qed

lemma fold_clean_push: "clean_path p \<Longrightarrow> fold clean_push p acc = acc @ p"
  by (induction p arbitrary: acc) (auto simp: clean_path_def clean_push_def)

lemma Clean_rooted: "clean_path q \<Longrightarrow> Clean (rooted q) = q"
  by (cases "q = []") (simp_all add: Clean_def split_on_rooted fold_clean_push, simp_all add: rooted_def clean_push_def fold_clean_push)

lemma Clean_slash: "Clean (p @ ''/'') = Clean p"
  by (simp add: Clean_def split_on_snoc clean_push_def)

end
