(* ===== verification/BlobGateway.thy ===== *)
theory BlobGateway
  imports BlobUploads HTTPProxy JsonRaw Paths
begin

text \<open>
  internal/bridge/blob.go (commit) and blob_writer.go: how a verified upload reaches the gateway, what the gateway
  may answer, and how the upload ends. A WebSocket, the spool file and the file system are given by what they
  return.
\<close>

section \<open>The request\<close>

text \<open>\<open>base64.StdEncoding\<close>: the other alphabet for 62 and 63, and padding.\<close>

definition std_char :: "char \<Rightarrow> char" where
  "std_char c = (if c = CHR ''-'' then CHR ''+'' else if c = CHR ''_'' then CHR ''/'' else c)"

definition b64_std :: "bytes \<Rightarrow> string" where
  "b64_std data = map std_char (b64_encode data) @ replicate ((3 - length data mod 3) mod 3) (CHR ''='')"

definition defaultBlobChunkBytes :: nat where "defaultBlobChunkBytes = 524288"

definition attach_prefix :: "string \<Rightarrow> string \<Rightarrow> string" where
  "attach_prefix requestID sessionID = ''{'' @ json_string ''jsonrpc'' @ '':'' @ json_string ''2.0'' @ '','' @ json_string ''id'' @ '':'' @
     json_string requestID @ '','' @ json_string ''method'' @ '':'' @ json_string ''file.attach'' @ '','' @ json_string ''params'' @ '':{'' @
     json_string ''session_id'' @ '':'' @ json_string sessionID @ '','' @ json_string ''data_url'' @ '':'' @ [CHR 0x22] @
     ''data:application/octet-stream;base64,''"

definition attach_suffix :: "string \<Rightarrow> string" where
  "attach_suffix name = [CHR 0x22] @ '','' @ json_string ''name'' @ '':'' @ json_string name @ ''}}''"

text \<open>The message, of frames of at most \<open>frameBytes\<close> bytes, and its error. \<open>writes_ok n\<close>: the first \<open>n\<close> bytes can
  be written.\<close>

datatype write_error = BadFrameSize | WriteFailed | UnexpectedEOF

definition writeFileAttachMessage ::
  "(nat \<Rightarrow> bool) \<Rightarrow> bytes \<Rightarrow> nat \<Rightarrow> string \<Rightarrow> string \<Rightarrow> string \<Rightarrow> int \<Rightarrow> write_error + bytes" where
  "writeFileAttachMessage writes_ok source declaredBytes requestID sessionID name frameBytes =
     (if frameBytes \<le> 0 \<or> frameBytes > int defaultBlobChunkBytes then Inl BadFrameSize
      else let copied = take declaredBytes source;
               message = bytes_of (attach_prefix requestID sessionID @ b64_std copied @ attach_suffix name) in
        if length copied \<noteq> declaredBytes then
          Inl (if writes_ok (length (attach_prefix requestID sessionID @ b64_std copied)) then UnexpectedEOF else WriteFailed)
        else if writes_ok (length message) then Inr message else Inl WriteFailed)"

section \<open>The answer\<close>

datatype attach_error =
    GatewayRPC int string
  | MessageTooBig
  | DeadlineExceeded
  | MalformedResult string
  | TransportFault

definition blobErrorForGateway :: "attach_error \<Rightarrow> blobLocalError" where
  "blobErrorForGateway e =
     (case e of
        GatewayRPC c m \<Rightarrow> local_error c ''gateway_rpc'' m
      | MessageTooBig \<Rightarrow> local_error blobCodeGatewayUpdate ''gateway_update_required''
          ''the desktop gateway rejected this attachment size; update Hermes on the Mac and retry''
      | DeadlineExceeded \<Rightarrow> local_error blobCodeTimeout ''commit_timeout'' ''attachment commit timed out''
      | MalformedResult m \<Rightarrow> local_error blobCodeGateway ''invalid_gateway_receipt'' m
      | TransportFault \<Rightarrow> local_error blobCodeGateway ''gateway_transport'' ''attachment commit failed at the desktop gateway'')"

definition blobStringMaxBytes :: nat where "blobStringMaxBytes = 4096"
definition blobResultMaxBytes :: nat where "blobResultMaxBytes = 61440"

record receipt =
  rc_attached :: bool
  rc_uploaded :: bool
  rc_name :: string
  rc_path :: string
  rc_ref_path :: string
  rc_ref_text :: string

definition receipt_set :: "string \<Rightarrow> json \<Rightarrow> receipt \<Rightarrow> receipt option" where
  "receipt_set f v r =
     (if f = ''attached'' then map_option (\<lambda>x. r\<lparr>rc_attached := x\<rparr>) (as_bool (rc_attached r) v)
      else if f = ''uploaded'' then map_option (\<lambda>x. r\<lparr>rc_uploaded := x\<rparr>) (as_bool (rc_uploaded r) v)
      else if f = ''name'' then map_option (\<lambda>x. r\<lparr>rc_name := x\<rparr>) (as_string (rc_name r) v)
      else if f = ''path'' then map_option (\<lambda>x. r\<lparr>rc_path := x\<rparr>) (as_string (rc_path r) v)
      else if f = ''ref_path'' then map_option (\<lambda>x. r\<lparr>rc_ref_path := x\<rparr>) (as_string (rc_ref_path r) v)
      else map_option (\<lambda>x. r\<lparr>rc_ref_text := x\<rparr>) (as_string (rc_ref_text r) v))"

definition parse_receipt :: "string \<Rightarrow> receipt option" where
  "parse_receipt raw =
     unmarshal [''attached'', ''uploaded'', ''name'', ''path'', ''ref_path'', ''ref_text''] receipt_set
       \<lparr>rc_attached = False, rc_uploaded = False, rc_name = [], rc_path = [], rc_ref_path = [], rc_ref_text = []\<rparr> raw"

definition bounded_field :: "nat \<Rightarrow> string \<Rightarrow> bool" where
  "bounded_field n s \<longleftrightarrow> s \<noteq> [] \<and> length s \<le> n"

text \<open>\<open>validateAttachmentReceipt\<close>; \<open>is_file\<close> is what the file system says of a path. \<open>None\<close> is success.\<close>

definition validateAttachmentReceipt :: "(string \<Rightarrow> bool) \<Rightarrow> string \<Rightarrow> attach_error option" where
  "validateAttachmentReceipt is_file raw =
     (case parse_receipt raw of
        None \<Rightarrow> Some (MalformedResult ''gateway returned a malformed attachment receipt'')
      | Some r \<Rightarrow>
          if \<not> (rc_attached r \<and> rc_uploaded r \<and> bounded_field 255 (rc_name r) \<and> bounded_field blobStringMaxBytes (rc_path r) \<and>
              bounded_field blobStringMaxBytes (rc_ref_path r) \<and> bounded_field blobStringMaxBytes (rc_ref_text r) \<and>
              validAttachmentName (rc_name r))
          then Some (MalformedResult ''gateway returned an invalid attachment receipt'')
          else if parseFileToken (rc_ref_text r) \<noteq> Some (rc_ref_path r)
          then Some (MalformedResult ''gateway attachment reference does not match ref_path'')
          else if \<not> has_prefix (rc_path r) ''/''
          then Some (MalformedResult ''gateway attachment path is not absolute'')
          else if \<not> is_file (rc_path r)
          then Some (MalformedResult ''gateway attachment path is not a readable regular file'')
          else None)"


record gateway_reply =
  gr_jsonrpc :: string
  gr_result :: string
  gr_error :: "(int \<times> string) option"

definition gateway_error_set :: "string \<Rightarrow> json \<Rightarrow> int \<times> string \<Rightarrow> (int \<times> string) option" where
  "gateway_error_set f v e =
     (if f = ''code'' then map_option (\<lambda>x. (x, snd e)) (as_int64 (fst e) v)
      else map_option (\<lambda>x. (fst e, x)) (as_string (snd e) v))"

text \<open>A null \<open>error\<close> clears the pointer, an object fills what it points to.\<close>

definition reply_set :: "string \<Rightarrow> string \<Rightarrow> gateway_reply \<Rightarrow> gateway_reply option" where
  "reply_set f raw r =
     (case parse_json raw of
        None \<Rightarrow> None
      | Some v \<Rightarrow>
          if f = ''jsonrpc'' then map_option (\<lambda>x. r\<lparr>gr_jsonrpc := x\<rparr>) (as_string (gr_jsonrpc r) v)
          else if f = ''id'' then Some r
          else if f = ''result'' then Some (r\<lparr>gr_result := raw\<rparr>)
          else if v = JNull then Some (r\<lparr>gr_error := None\<rparr>)
          else map_option (\<lambda>x. r\<lparr>gr_error := Some x\<rparr>)
            (fill_struct [''code'', ''message''] gateway_error_set v (case gr_error r of None \<Rightarrow> (0, []) | Some e \<Rightarrow> e)))"

definition parse_reply :: "string \<Rightarrow> gateway_reply option" where
  "parse_reply raw = unmarshal_raw [''jsonrpc'', ''id'', ''result'', ''error''] reply_set
     \<lparr>gr_jsonrpc = [], gr_result = [], gr_error = None\<rparr> raw"

definition probe_id :: "string \<Rightarrow> string" where
  "probe_id raw = (case unmarshal_raw [''id''] (\<lambda>f v r. Some v) [] raw of None \<Rightarrow> [] | Some i \<Rightarrow> i)"

text \<open>The frames of the gateway until the answer to the request; running out of them is the error of the read.\<close>

fun readMatchingGatewayResult ::
  "(string \<Rightarrow> bool) \<Rightarrow> string \<Rightarrow> string list \<Rightarrow> attach_error \<Rightarrow> attach_error + string" where
  "readMatchingGatewayResult is_file requestIDJSON [] read_err = Inl read_err"
| "readMatchingGatewayResult is_file requestIDJSON (raw # rest) read_err =
     (if probe_id raw = [] \<or> TrimSpace (probe_id raw) \<noteq> requestIDJSON
      then readMatchingGatewayResult is_file requestIDJSON rest read_err
      else case parse_reply raw of
        None \<Rightarrow> Inl (MalformedResult ''gateway returned a malformed attachment response'')
      | Some r \<Rightarrow>
          if gr_jsonrpc r \<noteq> ''2.0'' then Inl (MalformedResult ''gateway returned a malformed attachment response'')
          else (case gr_error r of
              Some (c, m) \<Rightarrow>
                if gr_result r \<noteq> [] \<and> gr_result r \<noteq> ''null''
                then Inl (MalformedResult ''gateway returned both an attachment result and error'')
                else Inl (GatewayRPC c (boundedMessage m))
            | None \<Rightarrow>
                if gr_result r = [] \<or> length (gr_result r) > blobResultMaxBytes
                then Inl (MalformedResult ''gateway returned an invalid attachment receipt'')
                else (case validateAttachmentReceipt is_file (gr_result r) of
                    Some e \<Rightarrow> Inl e | None \<Rightarrow> Inr (gr_result r))))"

section \<open>The spool root\<close>

definition requirePathOutsideRoot ::
  "string option \<Rightarrow> (string list \<Rightarrow> string list option) \<Rightarrow> string \<Rightarrow> string \<Rightarrow> attach_error option" where
  "requirePathOutsideRoot cwd evalSymlinks root path =
     (case (Abs cwd root, Abs cwd path) of
        (Some r, Some p) \<Rightarrow>
          (let r' = (case evalSymlinks r of Some x \<Rightarrow> x | None \<Rightarrow> r);
               p' = (case evalSymlinks p of Some x \<Rightarrow> x | None \<Rightarrow> p);
               relative = join_path (Rel r' p') in
           if relative = ''.'' \<or> (relative \<noteq> ''..'' \<and> \<not> has_prefix relative ''../'')
           then Some (MalformedResult ''gateway attachment path remained inside the bridge spool'')
           else None)
      | _ \<Rightarrow> Some (MalformedResult ''gateway attachment path could not be validated''))"


section \<open>The exchange\<close>

text \<open>The reading and writing goroutines end, each at most once, or the context of \<open>callFileAttach\<close> does.\<close>

datatype attach_event = ReadDone | WriteDone | ContextDone attach_error

text \<open>The loop of \<open>callFileAttach\<close> from what the goroutines return; \<open>None\<close> while it waits.\<close>

fun attach_loop ::
  "attach_error + string \<Rightarrow> attach_error option \<Rightarrow> (attach_error + string) option \<Rightarrow> bool \<Rightarrow> attach_event list \<Rightarrow>
    (attach_error + string) option" where
  "attach_loop readResult writeErr outcome writerFinished [] =
     (if outcome \<noteq> None \<and> writerFinished then outcome else None)"
| "attach_loop readResult writeErr outcome writerFinished (e # es) =
     (if outcome \<noteq> None \<and> writerFinished then outcome
      else case e of
        ReadDone \<Rightarrow> attach_loop readResult writeErr (Some readResult) writerFinished es
      | WriteDone \<Rightarrow>
          (case writeErr of
             None \<Rightarrow> attach_loop readResult writeErr outcome True es
           | Some x \<Rightarrow> Some (case outcome of Some (Inl y) \<Rightarrow> Inl y | _ \<Rightarrow> Inl x))
      | ContextDone x \<Rightarrow> Some (Inl x))"

text \<open>What the system does during one exchange: the gateway's frames, how many bytes of the message can be
  written, the order in which the goroutines end, the state of the file system. \<open>ex_wait\<close> is the error if the
  loop gets no further event: the deadline of the commit.\<close>

record exchange =
  ex_gateway_ready :: bool
  ex_dial :: "attach_error option"
  ex_open_ok :: bool
  ex_stat :: "int option"
  ex_frames :: "string list"
  ex_read_err :: attach_error
  ex_writes_ok :: "nat \<Rightarrow> bool"
  ex_write_err :: attach_error
  ex_events :: "attach_event list"
  ex_wait :: attach_error
  ex_is_file :: "string \<Rightarrow> bool"
  ex_cwd :: "string option"
  ex_root :: string
  ex_evalSymlinks :: "string list \<Rightarrow> string list option"

definition attach_id :: "blobUpload \<Rightarrow> string" where
  "attach_id u = ''attachment-blob-'' @ up_id u"

definition exchange_read :: "exchange \<Rightarrow> blobUpload \<Rightarrow> attach_error + string" where
  "exchange_read x u = readMatchingGatewayResult (ex_is_file x) (json_string (attach_id u)) (ex_frames x) (ex_read_err x)"

definition exchange_write :: "int \<Rightarrow> exchange \<Rightarrow> blobUpload \<Rightarrow> write_error + bytes" where
  "exchange_write chunkBytes x u = writeFileAttachMessage (ex_writes_ok x) (up_data u) (nat (up_size u)) (attach_id u)
     (up_sessionID u) (up_name u) chunkBytes"

definition write_fault :: "exchange \<Rightarrow> write_error + bytes \<Rightarrow> attach_error option" where
  "write_fault x r = (case r of Inr _ \<Rightarrow> None | Inl WriteFailed \<Rightarrow> Some (ex_write_err x) | Inl _ \<Rightarrow> Some TransportFault)"

definition validateReceiptOutsideSpool :: "exchange \<Rightarrow> string \<Rightarrow> attach_error option" where
  "validateReceiptOutsideSpool x raw =
     (case unmarshal [''path''] (\<lambda>f v p. as_string p v) [] raw of
        None \<Rightarrow> Some TransportFault
      | Some p \<Rightarrow> requirePathOutsideRoot (ex_cwd x) (ex_evalSymlinks x) (ex_root x) p)"

definition callFileAttach :: "int \<Rightarrow> exchange \<Rightarrow> blobUpload \<Rightarrow> attach_error + string" where
  "callFileAttach chunkBytes x u =
     (if \<not> ex_gateway_ready x then Inl TransportFault
      else case ex_dial x of
        Some e \<Rightarrow> Inl e
      | None \<Rightarrow>
          if \<not> ex_open_ok x then Inl TransportFault
          else if ex_stat x \<noteq> Some (up_size u)
          then Inl (MalformedResult ''verified attachment spool file changed before commit'')
          else (case attach_loop (exchange_read x u) (write_fault x (exchange_write chunkBytes x u)) None False (ex_events x) of
              None \<Rightarrow> Inl (ex_wait x)
            | Some (Inl e) \<Rightarrow> Inl e
            | Some (Inr raw) \<Rightarrow>
                (case validateReceiptOutsideSpool x raw of Some e \<Rightarrow> Inl e | None \<Rightarrow> Inr raw)))"

section \<open>The commit worker\<close>

definition result_text :: "string \<Rightarrow> string \<Rightarrow> string" where
  "result_text i raw = ''{'' @ json_string ''ch'' @ '':'' @ json_string ChBlob @ '','' @ json_string ''op'' @ '':'' @
     json_string ''result'' @ '','' @ json_string ''id'' @ '':'' @ json_string i @
     (if raw = [] then [] else '','' @ json_string ''result'' @ '':'' @ compact False raw) @ ''}''"

definition result_message :: "string \<Rightarrow> string \<Rightarrow> BlobMessage" where
  "result_message i raw =
     (if (raw \<noteq> [] \<and> parse_json raw = None) \<or> length (result_text i raw) > blobWireMaxBytes
      then blobErrorMessage i (local_error blobCodeGateway ''invalid_gateway_receipt''
        ''gateway attachment receipt exceeds the blob result limit'')
      else BlobResult i raw)"

text \<open>The answer of \<open>commit\<close> and whether it is kept for a repeated commit. \<open>parent_done\<close>: the connection has
  ended by the time the exchange fails.\<close>

definition commit_answer :: "crypto \<Rightarrow> int \<Rightarrow> bool \<Rightarrow> bool \<Rightarrow> bool \<Rightarrow> exchange \<Rightarrow> blobUpload \<Rightarrow> BlobMessage option \<times> bool" where
  "commit_answer C chunkBytes sync_ok close_ok parent_done x u =
     (let failed = (\<lambda>e. (Some (blobErrorMessage (up_id u) e), True)) in
      if up_offset u \<noteq> up_size u
      then failed (local_error blobCodeSize ''size_mismatch'' ''attachment byte count does not match the declared size'')
      else if hex_encode (sha256 C (up_data u)) \<noteq> up_digest u
      then failed (local_error blobCodeDigest ''hash_mismatch'' ''attachment sha256 does not match'')
      else if \<not> sync_ok then failed (local_error blobCodeIO ''spool_io'' ''could not sync attachment data'')
      else if \<not> close_ok then failed (local_error blobCodeIO ''spool_io'' ''could not close attachment data'')
      else case callFileAttach chunkBytes x u of
        Inl e \<Rightarrow> if parent_done \<or> up_cancelled u then (None, False) else failed (blobErrorForGateway e)
      | Inr raw \<Rightarrow> (Some (result_message (up_id u) raw), True))"

definition commit :: "crypto \<Rightarrow> int \<Rightarrow> bool \<Rightarrow> bool \<Rightarrow> bool \<Rightarrow> bool \<Rightarrow> exchange \<Rightarrow> blobConnection \<Rightarrow> blobManager \<Rightarrow> blob_step" where
  "commit C chunkBytes sync_ok close_ok parent_done cleanup_ok x b m =
     (case bc_active b of
        None \<Rightarrow> ([], b, m)
      | Some u \<Rightarrow> if up_phase u \<noteq> blobCommitting then ([], b, m)
          else (case commit_answer C chunkBytes sync_ok close_ok parent_done x u of
              (response, cache) \<Rightarrow> finish parent_done cleanup_ok response cache u b m))"


section \<open>Outside the spool\<close>

lemma join_path_up: "join_path (''..'' # ts) = ''..'' \<or> has_prefix (join_path (''..'' # ts)) ''../''"
  by (cases ts) (auto simp: has_prefix_def)

lemma join_path_down:
  assumes "s \<noteq> ''..''" "CHR ''/'' \<notin> set s"
  shows "join_path (s # ts) \<noteq> ''..'' \<and> \<not> has_prefix (join_path (s # ts)) ''../''"
proof (cases ts)
  case Nil
  have "\<not> has_prefix s ''../''"
  proof
    assume "has_prefix s ''../''"
    then obtain t where "s = ''../'' @ t" by (auto simp: has_prefix_append)
    with assms(2) show False by simp
  qed
  with Nil assms show ?thesis by simp
next
  case (Cons u us)
  have "s @ ''/'' @ t \<noteq> ''..''" for t
  proof
    assume "s @ ''/'' @ t = ''..''"
    then have "CHR ''/'' \<in> set ''..''" by (metis in_set_conv_decomp append_Cons)
    then show False by simp
  qed
  moreover have "\<not> has_prefix (s @ ''/'' @ t) ''../''" for t
  proof
    assume "has_prefix (s @ ''/'' @ t) ''../''"
    then obtain x where e: "s @ ''/'' @ t = ''../'' @ x" by (auto simp: has_prefix_append)
    then have "takeWhile (\<lambda>c. c \<noteq> CHR ''/'') (s @ ''/'' @ t) = ''..''" by simp
    moreover have "takeWhile (\<lambda>c. c \<noteq> CHR ''/'') (s @ ''/'' @ t) = s"
      using assms(2) by (subst takeWhile_append2) auto
    ultimately show False using assms(1) by simp
  qed
  ultimately show ?thesis using Cons by simp
qed

lemma relative_outside_iff:
  assumes "clean_path p"
  shows "(let relative = join_path (Rel r p) in relative = ''.'' \<or> (relative \<noteq> ''..'' \<and> \<not> has_prefix relative ''../''))
    \<longleftrightarrow> prefix r p"
proof (cases "prefix r p")
  case True
  then obtain ts where p: "p = r @ ts" by (auto simp: prefix_def)
  then have "Rel r p = ts" by (simp add: Rel_inside)
  with p assms True join_path_down show ?thesis by (cases ts) (auto simp: clean_path_def)
next
  case False
  then obtain ts where t: "Rel r p = ''..'' # ts" using Rel_outside by blast
  have "join_path (''..'' # ts) \<noteq> ''.''" by (cases ts) auto
  with t False join_path_up show ?thesis by (simp add: Let_def)
qed

text \<open>
  The string test of \<open>requirePathOutsideRoot\<close> means what it should: with symbolic links resolved to
  cleaned rooted paths, a receipt path passes exactly when the elements of the spool root are not a prefix of its
  elements; no dot element, doubled slash or name such as \<open>..x\<close> makes a path inside the spool look outside,
  nor one outside look inside.
\<close>

theorem outside_spool_iff:
  assumes "\<And>x y. evalSymlinks x = Some y \<Longrightarrow> clean_path y"
  shows "requirePathOutsideRoot cwd evalSymlinks root path = None \<longleftrightarrow>
    (\<exists>r p. Abs cwd root = Some r \<and> Abs cwd path = Some p \<and>
      \<not> prefix (case evalSymlinks r of Some x \<Rightarrow> x | None \<Rightarrow> r) (case evalSymlinks p of Some x \<Rightarrow> x | None \<Rightarrow> p))"
proof (cases "Abs cwd root \<noteq> None \<and> Abs cwd path \<noteq> None")
  case True
  then obtain r p where rp: "Abs cwd root = Some r" "Abs cwd path = Some p" by auto
  then have "clean_path p" by (auto simp: Abs_def clean_Clean split: if_splits)
  then have "clean_path (case evalSymlinks p of Some x \<Rightarrow> x | None \<Rightarrow> p)" using assms by (auto split: option.splits)
  from relative_outside_iff [OF this] rp show ?thesis by (simp add: requirePathOutsideRoot_def Let_def)
next
  case False
  then show ?thesis by (auto simp: requirePathOutsideRoot_def split: option.splits)
qed

theorem outside_spool_iff_witness:
  "requirePathOutsideRoot None (\<lambda>_. None) ''/spool'' ''/spool/../spool/..x'' \<noteq> None \<and>
   requirePathOutsideRoot None (\<lambda>_. None) ''/spool'' ''/spoolx'' = None"
  using outside_spool_iff [of "\<lambda>_. None" None "''/spool''" "''/spool/../spool/..x''"]
    outside_spool_iff [of "\<lambda>_. None" None "''/spool''" "''/spoolx''"]
  by (simp add: Abs_def has_prefix_def Clean_def clean_push_def)

end
