(* ===== verification/BlobSafety.thy ===== *)
theory BlobSafety
  imports BlobGateway
begin

text \<open>
  The attachment uploads of all connections as one transition system, and its invariant: the manager's account of
  what is spooled is right and within its limits.
\<close>

section \<open>The transition system\<close>

record blob_state =
  bs_manager :: blobManager
  bs_conns :: "(nat, blobConnection) gomap"

text \<open>A step of one connection.\<close>

inductive conn_step ::
  "crypto \<Rightarrow> blob_config \<Rightarrow> blobConnection \<Rightarrow> blobManager \<Rightarrow> BlobMessage list \<Rightarrow> blobConnection \<Rightarrow> blobManager \<Rightarrow> bool"
  for C cfg where
  message: "handle cfg e p b m = Some (out, b', m') \<Longrightarrow> conn_step C cfg b m out b' m'"
| monitor: "conn_step C cfg b m [] (monitorUpload w b) m"
| monitor_finish: "monitor_finish pd co b m = (out, b', m') \<Longrightarrow> conn_step C cfg b m out b' m'"
| commit: "commit C (int (bf_chunkBytes cfg)) sy cl pd co x b m = (out, b', m') \<Longrightarrow> conn_step C cfg b m out b' m'"
| settle: "finish_settle b m = (b', m') \<Longrightarrow> conn_step C cfg b m [] b' m'"
| leave: "conn_step C cfg b m [] (finish_leave b) m"
| cancel: "conn_step C cfg b m [] (shutdown_cancel b) m"
| record_dispatch: "conn_step C cfg b m [] b (recordAuxiliaryDispatch m)"
| record_write: "conn_step C cfg b m [] b (recordAuxiliaryWrite w m)"
| record_duration: "conn_step C cfg b m [] b (recordCommitDuration t m)"

text \<open>A connection ends once its upload is gone.\<close>

inductive blob_step_rel :: "crypto \<Rightarrow> blob_config \<Rightarrow> blob_state \<Rightarrow> BlobMessage list \<Rightarrow> blob_state \<Rightarrow> bool"
  for C cfg where
  opened: "map_of (bs_conns s) c = None \<Longrightarrow>
    blob_step_rel C cfg s [] (s\<lparr>bs_conns := AList.update c new_connection (bs_conns s)\<rparr>)"
| closed: "map_of (bs_conns s) c = Some b \<Longrightarrow> bc_active b = None \<Longrightarrow>
    blob_step_rel C cfg s [] (s\<lparr>bs_conns := AList.delete c (bs_conns s)\<rparr>)"
| stepped: "map_of (bs_conns s) c = Some b \<Longrightarrow> conn_step C cfg b (bs_manager s) out b' m' \<Longrightarrow>
    blob_step_rel C cfg s out \<lparr>bs_manager = m', bs_conns = AList.update c b' (bs_conns s)\<rparr>"

inductive blob_reachable :: "crypto \<Rightarrow> blob_config \<Rightarrow> blobManager \<Rightarrow> blob_state \<Rightarrow> bool" for C cfg m where
  start: "blob_reachable C cfg m \<lparr>bs_manager = m, bs_conns = []\<rparr>"
| step: "blob_reachable C cfg m s \<Longrightarrow> blob_step_rel C cfg s out s' \<Longrightarrow> blob_reachable C cfg m s'"

inductive_cases conn_stepE: "conn_step C cfg b m out b' m'"
inductive_cases blob_stepE: "blob_step_rel C cfg s out s'"

section \<open>What an upload holds\<close>

definition holding :: "blobUpload \<Rightarrow> bool" where
  "holding u \<longleftrightarrow> (case up_finish u of Settled \<Rightarrow> False | Finishing ok \<Rightarrow> ok | _ \<Rightarrow> True)"

definition held_count :: "blobConnection \<Rightarrow> int" where
  "held_count b = (case bc_active b of Some u \<Rightarrow> if holding u then 1 else 0 | None \<Rightarrow> 0)"

definition held_bytes :: "blobConnection \<Rightarrow> int" where
  "held_bytes b = (case bc_active b of Some u \<Rightarrow> if holding u then up_size u else 0 | None \<Rightarrow> 0)"

definition msum :: "('v \<Rightarrow> int) \<Rightarrow> ('k, 'v) gomap \<Rightarrow> int" where
  "msum f m = sum_list (map (f \<circ> snd) m)"

lemma msum_Nil [simp]: "msum f [] = 0"
  by (simp add: msum_def)

lemma msum_Cons [simp]: "msum f ((k, v) # m) = f v + msum f m"
  by (simp add: msum_def)

lemma msum_update: "msum f (AList.update k v m) = msum f m + f v - (case map_of m k of None \<Rightarrow> 0 | Some w \<Rightarrow> f w)"
  by (induction m) auto

lemma msum_delete: "wf_map m \<Longrightarrow> msum f (AList.delete k m) = msum f m - (case map_of m k of None \<Rightarrow> 0 | Some w \<Rightarrow> f w)"
proof (induction m)
  case (Cons p m)
  obtain a w where p: "p = (a, w)" by (cases p)
  show ?case
  proof (cases "a = k")
    case True
    then have "map_of m k = None" using Cons.prems p by (auto simp: map_of_eq_None_iff)
    then show ?thesis using True p by (simp add: delete_absent)
  qed (use Cons p in auto)
qed simp

definition upload_ok :: "blobUpload \<Rightarrow> bool" where
  "upload_ok u \<longleftrightarrow> up_offset u = int (length (up_data u)) \<and> up_offset u \<le> up_size u \<and>
     (up_finished u \<or> up_finish u = Unfinished)"

definition conn_ok :: "blobConnection \<Rightarrow> bool" where
  "conn_ok b \<longleftrightarrow> (case bc_active b of Some u \<Rightarrow> upload_ok u | None \<Rightarrow> True)"

text \<open>What a step does to the account: it keeps it, unless a cleanup fails, which leaves the reservation.\<close>

definition accounts :: "blobConnection \<Rightarrow> blobManager \<Rightarrow> blobConnection \<Rightarrow> blobManager \<Rightarrow> bool" where
  "accounts b m b' m' \<longleftrightarrow>
     bm_maxBytes m' = bm_maxBytes m \<and> bm_maxUploads m' = bm_maxUploads m \<and>
     bm_cleanupFailures m \<le> bm_cleanupFailures m' \<and>
     bm_active m - held_count b \<le> bm_active m' - held_count b' \<and>
     bm_reserved m - held_bytes b \<le> bm_reserved m' - held_bytes b' \<and>
     (bm_cleanupFailures m' = bm_cleanupFailures m \<longrightarrow>
        bm_active m' - held_count b' = bm_active m - held_count b \<and>
        bm_reserved m' - held_bytes b' = bm_reserved m - held_bytes b) \<and>
     (bm_active m \<le> bm_maxUploads m \<longrightarrow> bm_active m' \<le> bm_maxUploads m) \<and>
     (bm_reserved m \<le> bm_maxBytes m \<longrightarrow> bm_reserved m' \<le> bm_maxBytes m)"

definition good_step :: "blobConnection \<Rightarrow> blobManager \<Rightarrow> blobConnection \<Rightarrow> blobManager \<Rightarrow> bool" where
  "good_step b m b' m' \<longleftrightarrow> conn_ok b' \<and> accounts b m b' m'"

lemma accounts_refl: "accounts b m b m"
  by (simp add: accounts_def)

lemma good_refl: "conn_ok b \<Longrightarrow> good_step b m b m"
  by (simp add: good_step_def accounts_refl)

lemmas held_defs = held_count_def held_bytes_def holding_def

lemma good_same_upload:
  assumes "conn_ok b" "bc_active b = Some u" "up_finish u = st" "bc_active b' = Some u'" "upload_ok u'"
    "up_size u' = up_size u" "holding u' = holding u"
  shows "good_step b m b' m"
  using assms by (simp add: good_step_def accounts_def held_count_def held_bytes_def conn_ok_def)

lemma upload_size_nonneg: "upload_ok u \<Longrightarrow> 0 \<le> up_size u"
  by (simp add: upload_ok_def)

lemma good_finish:
  assumes "conn_ok b" "bc_active b = Some u"
  shows "finish pd co r ca u b m = (out, b', m') \<Longrightarrow> good_step b m b' m'"
proof -
  assume f: "finish pd co r ca u b m = (out, b', m')"
  have u: "upload_ok u" using assms by (simp add: conn_ok_def)
  show "good_step b m b' m'"
  proof (cases "finish_started (up_finish u)")
    case True
    with f assms(1) show ?thesis by (simp add: finish_def good_refl)
  next
    case False
    then have "holding u" by (simp add: holding_def finish_started_def split: finish_stage.splits)
    with f False assms u upload_size_nonneg [OF u] show ?thesis
      by (cases co) (auto simp: finish_def Let_def good_step_def accounts_def held_count_def held_bytes_def holding_def
        conn_ok_def upload_ok_def settleCleanup_def)
  qed
qed


lemma good_settle:
  assumes "conn_ok b" "finish_settle b m = (b', m')" shows "good_step b m b' m'"
proof (cases "bc_active b")
  case None
  with assms show ?thesis by (simp add: finish_settle_def good_refl)
next
  case (Some u)
  then have u: "upload_ok u" using assms(1) by (simp add: conn_ok_def)
  show ?thesis
  proof (cases "\<exists>ok. up_finish u = Finishing ok")
    case True
    with assms(2) Some u upload_size_nonneg [OF u] show ?thesis
      by (auto simp: finish_settle_def set_upload_def good_step_def accounts_def held_defs conn_ok_def upload_ok_def
        settleCleanup_def)
  next
    case False
    with assms Some have "b' = b" "m' = m" by (auto simp: finish_settle_def split: finish_stage.splits)
    with assms(1) show ?thesis by (simp add: good_refl)
  qed
qed

lemma good_leave: "conn_ok b \<Longrightarrow> good_step b m (finish_leave b) m"
  by (auto simp: finish_leave_def good_step_def accounts_def held_defs conn_ok_def split: option.splits)

lemma good_cancel: "conn_ok b \<Longrightarrow> good_step b m (shutdown_cancel b) m"
  by (auto simp: shutdown_cancel_def set_upload_def good_step_def accounts_def held_defs conn_ok_def upload_ok_def
    split: option.splits)

lemma good_claim: "conn_ok b \<Longrightarrow> (\<And>u. bc_active b = Some u \<Longrightarrow> \<not> up_finished u \<Longrightarrow> holding u) \<Longrightarrow>
    good_step b m (claimReceivingFinish r b) m"
  by (auto simp: claimReceivingFinish_def set_upload_def good_step_def accounts_def held_count_def held_bytes_def
    holding_def conn_ok_def upload_ok_def split: option.splits)

lemma good_failMatching:
  assumes "conn_ok b" "failMatchingUpload pd co i x b m = (out, b', m')" shows "good_step b m b' m'"
proof (cases "unwilling i b")
  case None
  then obtain u where u: "bc_active b = Some u" by (auto simp: unwilling_def split: option.splits)
  with None assms(2) show ?thesis
    by (auto simp: failMatchingUpload_def failUpload_def intro: good_finish [OF assms(1) u])
next
  case (Some e)
  with assms show ?thesis by (simp add: failMatchingUpload_def good_refl)
qed

section \<open>Messages\<close>

lemma strictNonnegativeInt_nonneg: "strictNonnegativeInt raw = Some i \<Longrightarrow> 0 \<le> i"
proof -
  assume "strictNonnegativeInt raw = Some i"
  then obtain l where l: "list_all is_digit l" "l \<noteq> []" "parse_int64 l = Some i"
    by (auto simp: strictNonnegativeInt_def split: option.splits json.splits if_splits)
  then obtain c t where ct: "l = c # t" "is_digit c" by (cases l) auto
  then have "c \<noteq> CHR ''-''" "c \<noteq> CHR ''+''" by (auto simp: is_digit_def)
  with l ct show "0 \<le> i" by (auto simp: parse_int64_def parse_decimal_def split: if_splits)
qed

lemma good_reserved:
  assumes "conn_ok b" "bc_active b = None" "0 \<le> n" "reserve n m = (Reserved, m1)"
  shows "good_step b m (set_upload b (new_upload i session name n digest dir)) m1"
    "good_step b m b (settleCleanup n failed m1)"
  using assms by (auto simp: reserve_def good_step_def accounts_def held_defs conn_ok_def upload_ok_def set_upload_def
    new_upload_def settleCleanup_def split: if_splits)

lemma begin_size: "begin_fields cfg fs = Inr (session, name, n, digest) \<Longrightarrow> 0 \<le> n"
  unfolding begin_fields_def
  by (auto split: if_splits option.splits intro: strictNonnegativeInt_nonneg)

lemma good_begin:
  assumes ok: "conn_ok b" and step: "handleBegin cfg e fs i b m = (out, b', m')"
  shows "good_step b m b' m'"
proof (cases "begin_fields cfg fs")
  case (Inl x)
  with ok step show ?thesis by (simp add: handleBegin_def good_refl)
next
  case (Inr f)
  obtain session name n digest where f: "f = (session, name, n, digest)" by (metis prod.exhaust)
  note n = begin_size [OF Inr [unfolded f]]
  obtain r m1 where r: "reserve n m = (r, m1)" by fastforce
  show ?thesis
  proof (cases "bc_active b = None \<and> r = Reserved")
    case True
    note g = good_reserved [OF ok conjunct1 [OF True] n r [unfolded conjunct2 [OF True]]]
    from step Inr f r True g show ?thesis
      by (auto simp: handleBegin_def split: create_outcome.splits)
  next
    case False
    with step Inr f r have "b' = b" "m' = m" by (auto simp: handleBegin_def Let_def split: reserve_result.splits if_splits)
    with ok show ?thesis by (simp add: good_refl)
  qed
qed

lemma good_data:
  assumes ok: "conn_ok b" and step: "handleData cfg e fs i b m = (out, b', m')"
  shows "good_step b m b' m'"
proof (cases "data_fields cfg fs")
  case (Inl x)
  with step good_failMatching [OF ok] show ?thesis by (simp add: handleData_def)
next
  case (Inr f)
  obtain offset data where f: "f = (offset, data)" by (cases f)
  show ?thesis
  proof (cases "unwilling i b = None")
    case True
    then obtain u where u: "bc_active b = Some u" by (auto simp: unwilling_def split: option.splits)
    have ok_u: "upload_ok u" using ok u by (simp add: conn_ok_def)
    consider (failed) x where "failUpload (en_parent_done e) (en_cleanup_ok e) u x b m = (out, b', m')"
      | (taken) "int (length data) \<le> up_size u - up_offset u" "m' = m"
          "b' = set_upload b (u\<lparr>up_data := up_data u @ data, up_offset := up_offset u + int (length data)\<rparr>)"
      using step Inr f True u by (auto simp: handleData_def Let_def split: if_splits)
    then show ?thesis
    proof cases
      case (failed x)
      then show ?thesis using good_finish [OF ok u] by (simp add: failUpload_def)
    next
      case taken
      with ok_u u show ?thesis
        by (auto simp: good_step_def accounts_def held_defs conn_ok_def upload_ok_def set_upload_def)
    qed
  next
    case False
    with step Inr f ok show ?thesis by (auto simp: handleData_def good_refl)
  qed
qed

lemma good_commit_request:
  assumes ok: "conn_ok b" and step: "handleCommit e fs i b m = (out, b', m')"
  shows "good_step b m b' m'"
proof -
  consider (refused) x where "failMatchingUpload (en_parent_done e) (en_cleanup_ok e) i x b m = (out, b', m')"
    | (same) "b' = b" "m' = m"
    | (taken) u where "bc_active b = Some u" "m' = m" "b' = set_upload b (u\<lparr>up_phase := blobCommitting\<rparr>)"
    using step unfolding handleCommit_def Let_def by (auto split: if_splits option.splits)
  then show ?thesis
  proof cases
    case (taken u)
    have "upload_ok u" using ok taken(1) by (simp add: conn_ok_def)
    with taken show ?thesis
      by (auto simp: good_step_def accounts_def held_defs conn_ok_def upload_ok_def set_upload_def)
  qed (use ok good_refl good_failMatching in blast)+
qed

lemma good_abort:
  assumes ok: "conn_ok b" and step: "handleAbort fs i b m = (out, b', m')"
  shows "good_step b m b' m'"
  using assms unfolding handleAbort_def
  by (auto simp: good_refl set_upload_def good_step_def accounts_def held_defs conn_ok_def upload_ok_def
    split: if_splits option.splits)

lemma good_handle:
  assumes ok: "conn_ok b" and step: "handle cfg e p b m = Some (out, b', m')"
  shows "good_step b m b' m'"
  using ok step unfolding handle_def
  by (auto split: prod.splits option.splits if_splits
    intro: good_refl good_failMatching good_begin good_data good_commit_request good_abort)

section \<open>Every step\<close>

lemma good_monitor: "conn_ok b \<Longrightarrow> good_step b m (monitorUpload w b) m"
  unfolding monitorUpload_def
  by (auto split: option.splits monitor_wake.splits intro!: good_refl good_claim simp: conn_ok_def upload_ok_def holding_def)

lemma good_monitor_finish: "conn_ok b \<Longrightarrow> monitor_finish pd co b m = (out, b', m') \<Longrightarrow> good_step b m b' m'"
  by (auto simp: monitor_finish_def intro: good_refl good_finish split: option.splits finish_stage.splits)

lemma good_commit: "conn_ok b \<Longrightarrow> commit C k sy cl pd co x b m = (out, b', m') \<Longrightarrow> good_step b m b' m'"
  unfolding commit_def
  by (auto intro: good_refl good_finish split: option.splits if_splits prod.splits)

lemma good_record: "conn_ok b \<Longrightarrow> good_step b m b (recordAuxiliaryDispatch m)"
  "conn_ok b \<Longrightarrow> good_step b m b (recordAuxiliaryWrite w m)" "conn_ok b \<Longrightarrow> good_step b m b (recordCommitDuration t m)"
  by (simp_all add: good_step_def accounts_def recordAuxiliaryDispatch_def recordAuxiliaryWrite_def recordCommitDuration_def)

lemma good_conn_step: "conn_step C cfg b m out b' m' \<Longrightarrow> conn_ok b \<Longrightarrow> good_step b m b' m'"
  by (induction rule: conn_step.induct)
    (auto intro: good_handle good_monitor good_monitor_finish good_commit good_settle good_leave good_cancel good_record)


section \<open>The account of the manager\<close>

definition spooled :: "blobConnection \<Rightarrow> int" where
  "spooled b = (case bc_active b of Some u \<Rightarrow> if holding u then int (length (up_data u)) else 0 | None \<Rightarrow> 0)"

definition account_inv :: "blobManager \<Rightarrow> blob_state \<Rightarrow> bool" where
  "account_inv m0 s \<longleftrightarrow> wf_map (bs_conns s) \<and> list_all (\<lambda>(_, b). conn_ok b) (bs_conns s) \<and>
     bm_maxBytes (bs_manager s) = bm_maxBytes m0 \<and> bm_maxUploads (bs_manager s) = bm_maxUploads m0 \<and>
     bm_active (bs_manager s) \<le> bm_maxUploads m0 \<and> bm_reserved (bs_manager s) \<le> bm_maxBytes m0 \<and>
     bm_cleanupFailures m0 \<le> bm_cleanupFailures (bs_manager s) \<and>
     msum held_count (bs_conns s) \<le> bm_active (bs_manager s) \<and> msum held_bytes (bs_conns s) \<le> bm_reserved (bs_manager s) \<and>
     (bm_cleanupFailures (bs_manager s) = bm_cleanupFailures m0 \<longrightarrow>
        msum held_count (bs_conns s) = bm_active (bs_manager s) \<and> msum held_bytes (bs_conns s) = bm_reserved (bs_manager s))"

lemma msum_mono: "list_all (\<lambda>(_, b). f b \<le> g b) m \<Longrightarrow> msum f m \<le> msum g m"
  by (induction m) auto

lemma msum_nonneg: "list_all (\<lambda>(_, b). 0 \<le> f b) m \<Longrightarrow> 0 \<le> msum f m"
  by (induction m) auto

lemma list_all_update: "list_all (\<lambda>(_, b). P b) m \<Longrightarrow> P v \<Longrightarrow> list_all (\<lambda>(_, b). P b) (AList.update k v m)"
  by (induction m) auto

lemma list_all_delete: "list_all (\<lambda>(_, b). P b) m \<Longrightarrow> list_all (\<lambda>(_, b). P b) (AList.delete k m)"
  by (auto simp: delete_filter list_all_iff)

lemma list_all_map_of: "list_all (\<lambda>(_, b). P b) m \<Longrightarrow> map_of m k = Some v \<Longrightarrow> P v"
  by (induction m) (auto split: if_splits)

lemma held_new [simp]: "held_count new_connection = 0" "held_bytes new_connection = 0" "conn_ok new_connection"
  by (simp_all add: held_count_def held_bytes_def conn_ok_def new_connection_def)

lemma held_inactive [simp]: "bc_active b = None \<Longrightarrow> held_count b = 0" "bc_active b = None \<Longrightarrow> held_bytes b = 0"
  by (simp_all add: held_count_def held_bytes_def)

lemma account_step:
  assumes inv: "account_inv m0 s" and step: "blob_step_rel C cfg s out s'" shows "account_inv m0 s'"
  using step
proof cases
  case (opened c)
  with inv show ?thesis by (simp add: account_inv_def msum_update list_all_update)
next
  case (closed c b)
  with inv show ?thesis by (simp add: account_inv_def msum_delete list_all_delete)
next
  case (stepped c b b' m')
  have "conn_ok b" using inv stepped(2) by (auto simp: account_inv_def intro: list_all_map_of)
  from good_conn_step [OF stepped(3) this] have g: "conn_ok b'" "accounts b (bs_manager s) b' m'"
    by (simp_all add: good_step_def)
  have "bm_cleanupFailures (bs_manager s) = bm_cleanupFailures m0 \<and> bm_cleanupFailures m' = bm_cleanupFailures (bs_manager s)"
    if "bm_cleanupFailures m' = bm_cleanupFailures m0"
    using that g(2) inv by (auto simp: accounts_def account_inv_def)
  with inv stepped g show ?thesis
    by (auto simp: account_inv_def accounts_def msum_update list_all_update)
qed

lemma account_reachable:
  assumes "blob_reachable C cfg m0 s" "bm_active m0 = 0" "bm_reserved m0 = 0" "0 \<le> bm_maxUploads m0" "0 \<le> bm_maxBytes m0"
  shows "account_inv m0 s"
  using assms(1)
proof (induction rule: blob_reachable.induct)
  case start
  then show ?case using assms(2-) by (simp add: account_inv_def)
next
  case (step s out s')
  then show ?case by (blast intro: account_step)
qed

text \<open>
  C13. The spool stays within its quota, whatever phones send and whatever fails: in every reachable state of the
  process the uploads counted never exceed the limit of concurrent uploads, the bytes reserved never exceed
  the quota, the bytes that live uploads have spooled never exceed the bytes reserved, and as long as every cleanup
  succeeded the two counters are exactly those of the live uploads: no slot and no byte is lost or released
  twice.
\<close>

theorem spool_quota:
  assumes "blob_reachable C cfg (newBlobManager root maxBytes maxUploads prepared failures) s"
    and "0 \<le> maxUploads" "0 \<le> maxBytes"
  shows "0 \<le> bm_active (bs_manager s) \<and> bm_active (bs_manager s) \<le> maxUploads \<and>
    msum spooled (bs_conns s) \<le> bm_reserved (bs_manager s) \<and> bm_reserved (bs_manager s) \<le> maxBytes \<and>
    (bm_cleanupFailures (bs_manager s) = (if root = [] then 0 else failures) \<longrightarrow>
       bm_active (bs_manager s) = msum held_count (bs_conns s) \<and> bm_reserved (bs_manager s) = msum held_bytes (bs_conns s))"
proof -
  let ?m0 = "newBlobManager root maxBytes maxUploads prepared failures"
  have inv: "account_inv ?m0 s"
    using assms by (intro account_reachable) (auto simp: newBlobManager_def)
  have ok: "list_all (\<lambda>(_, b). conn_ok b) (bs_conns s)" using inv by (simp add: account_inv_def)
  have "list_all (\<lambda>(_, b). spooled b \<le> held_bytes b) (bs_conns s)"
    using ok by (auto simp: list_all_iff conn_ok_def upload_ok_def spooled_def held_bytes_def split: option.splits)
  note sp = msum_mono [OF this]
  have "list_all (\<lambda>(_, b). 0 \<le> held_count b) (bs_conns s)"
    by (auto simp: list_all_iff held_count_def split: option.splits)
  note nn = msum_nonneg [OF this]
  from inv sp nn show ?thesis by (auto simp: account_inv_def newBlobManager_def)
qed

theorem spool_quota_witness:
  "let m = newBlobManager ''spool'' 100 2 True 0; s = \<lparr>bs_manager = m, bs_conns = [(0, new_connection)]\<rparr> in
     blob_reachable toy_crypto \<lparr>bf_maxFileBytes = 50, bf_chunkBytes = 16\<rparr> m s \<and> bm_active (bs_manager s) \<le> 2"
proof -
  let ?m = "newBlobManager ''spool'' 100 2 True 0" and ?g = "\<lparr>bf_maxFileBytes = 50, bf_chunkBytes = 16\<rparr>"
  have "blob_step_rel toy_crypto ?g \<lparr>bs_manager = ?m, bs_conns = []\<rparr> [] \<lparr>bs_manager = ?m, bs_conns = [(0, new_connection)]\<rparr>"
    using blob_step_rel.opened [of "\<lparr>bs_manager = ?m, bs_conns = []\<rparr>" 0 toy_crypto ?g] by simp
  then have r: "blob_reachable toy_crypto ?g ?m \<lparr>bs_manager = ?m, bs_conns = [(0, new_connection)]\<rparr>"
    by (intro blob_reachable.step [OF blob_reachable.start])
  from spool_quota [OF this] r show ?thesis by (simp add: Let_def)
qed


section \<open>What reaches the gateway\<close>

lemma attach_loop_result:
  "attach_loop rd we oc wd es = Some (Inr raw) \<Longrightarrow> oc = None \<or> oc = Some rd \<Longrightarrow> (wd \<longrightarrow> we = None) \<Longrightarrow>
    rd = Inr raw \<and> we = None"
proof (induction es arbitrary: oc wd)
  case Nil
  then show ?case by (auto split: if_splits)
next
  case (Cons e es)
  show ?case
  proof (cases "oc \<noteq> None \<and> wd")
    case True
    with Cons.prems show ?thesis by (cases oc) simp_all
  next
    case False
    then have go: "attach_loop rd we oc wd (e # es) = (case e of
        ReadDone \<Rightarrow> attach_loop rd we (Some rd) wd es
      | WriteDone \<Rightarrow> (case we of None \<Rightarrow> attach_loop rd we oc True es
          | Some x \<Rightarrow> Some (case oc of Some (Inl y) \<Rightarrow> Inl y | _ \<Rightarrow> Inl x))
      | ContextDone x \<Rightarrow> Some (Inl x))"
      by (simp only: attach_loop.simps if_False)
    have errors: "(case z of Some (Inl y) \<Rightarrow> Inl y | _ \<Rightarrow> Inl x) \<noteq> (Inr raw :: attach_error + string)"
      for z :: "(attach_error + string) option" and x
      by (auto split: option.splits sum.splits)
    note r = Cons.prems(1) [unfolded go]
    show ?thesis
    proof (cases e)
      case ReadDone
      from r have "attach_loop rd we (Some rd) wd es = Some (Inr raw)" unfolding ReadDone by (simp only: attach_event.case)
      then show ?thesis by (rule Cons.IH) (use Cons.prems(3) in simp_all)
    next
      case WriteDone
      show ?thesis
      proof (cases we)
        case None
        from r have "attach_loop rd we oc True es = Some (Inr raw)" unfolding WriteDone None by (simp only: attach_event.case option.case)
        then show ?thesis by (rule Cons.IH) (use Cons.prems(2) None in simp_all)
      next
        case (Some x)
        from r have False unfolding WriteDone Some using errors by (simp only: attach_event.case option.case option.inject)
        then show ?thesis ..
      qed
    next
      case (ContextDone x)
      from r show ?thesis unfolding ContextDone by simp
    qed
  qed
qed

lemma read_valid: "readMatchingGatewayResult is_file i frames err = Inr raw \<Longrightarrow> validateAttachmentReceipt is_file raw = None"
proof (induction frames)
  case (Cons f frames)
  then show ?case by (auto split: if_splits option.splits)
qed simp

lemma callFileAttach_result:
  assumes "callFileAttach k x u = Inr raw"
  shows "ex_stat x = Some (up_size u)" "\<exists>msg. exchange_write k x u = Inr msg"
    "validateAttachmentReceipt (ex_is_file x) raw = None" "validateReceiptOutsideSpool x raw = None"
proof -
  from assms have *: "ex_stat x = Some (up_size u)" "validateReceiptOutsideSpool x raw = None"
    "attach_loop (exchange_read x u) (write_fault x (exchange_write k x u)) None False (ex_events x) = Some (Inr raw)"
    by (auto simp: callFileAttach_def split: if_splits option.splits sum.splits)
  from attach_loop_result [OF *(3)] have "exchange_read x u = Inr raw" "write_fault x (exchange_write k x u) = None" by auto
  with * show "ex_stat x = Some (up_size u)" "\<exists>msg. exchange_write k x u = Inr msg"
    "validateAttachmentReceipt (ex_is_file x) raw = None" "validateReceiptOutsideSpool x raw = None"
    by (auto simp: write_fault_def exchange_read_def intro: read_valid split: sum.splits write_error.splits)
qed

lemma finish_out: "finish pd co r ca u b m = (out, b', m') \<Longrightarrow> BlobResult i raw \<in> set out \<Longrightarrow> r = Some (BlobResult i raw)"
  by (auto simp: finish_def Let_def blobErrorMessage_def split: if_splits option.splits)

text \<open>
  C14. The phone is told that an attachment was stored only if it was stored whole: in every reachable state, if the
  commit worker of a connection sends a result, then the bytes spooled for that upload number exactly the
  declared size, their SHA-256 is the declared digest, the complete \<open>file.attach\<close> message over exactly those bytes was
  written to the gateway, the gateway's receipt passed its validation, and its path is outside the spool.
\<close>

theorem committed_whole:
  assumes "blob_reachable C cfg (newBlobManager root maxBytes maxUploads prepared failures) s"
    and "0 \<le> maxUploads" "0 \<le> maxBytes"
    and "map_of (bs_conns s) c = Some b"
    and "commit C k sync_ok close_ok parent_done cleanup_ok x b m = (out, b', m')" "BlobResult i raw \<in> set out"
  shows "\<exists>u msg. bc_active b = Some u \<and> up_id u = i \<and> int (length (up_data u)) = up_size u \<and>
    hex_encode (sha256 C (up_data u)) = up_digest u \<and>
    exchange_write k x u = Inr msg \<and> validateAttachmentReceipt (ex_is_file x) raw = None \<and>
    validateReceiptOutsideSpool x raw = None"
proof -
  have "account_inv (newBlobManager root maxBytes maxUploads prepared failures) s"
    using assms by (intro account_reachable) (auto simp: newBlobManager_def)
  then have ok: "conn_ok b" using assms(4) by (auto simp: account_inv_def intro: list_all_map_of)
  from assms(5,6) obtain u r ca where u: "bc_active b = Some u"
      and a: "commit_answer C k sync_ok close_ok parent_done x u = (r, ca)"
      and f: "finish parent_done cleanup_ok r ca u b m = (out, b', m')"
    unfolding commit_def by (auto split: option.splits if_splits prod.splits)
  from finish_out [OF f assms(6)] a have a: "commit_answer C k sync_ok close_ok parent_done x u = (Some (BlobResult i raw), ca)"
    by simp
  then have len: "up_offset u = up_size u" and dig: "hex_encode (sha256 C (up_data u)) = up_digest u"
      and call: "callFileAttach k x u = Inr raw" and i: "i = up_id u"
    by (auto simp: commit_answer_def Let_def blobErrorMessage_def result_message_def
      split: if_splits option.splits sum.splits)
  from ok u have "up_offset u = int (length (up_data u))" by (simp add: conn_ok_def upload_ok_def)
  with u i len dig callFileAttach_result [OF call] show ?thesis by auto
qed


section \<open>A committed upload\<close>


definition demo_id :: string where "demo_id = ''00000000-0000-4000-8000-000000000000''"
definition demo_digest :: string where "demo_digest = ''0000000000000000000000000000000000000000000000000000000000000000''"
definition demo_cfg :: blob_config where "demo_cfg = \<lparr>bf_maxFileBytes = 50, bf_chunkBytes = 16\<rparr>"
definition demo_blob_env :: blob_env where
  "demo_blob_env = \<lparr>en_create = Created ''d'', en_cleanup_ok = True, en_write_ok = True, en_parent_done = False\<rparr>"

definition demo_begin :: json where
  "demo_begin = JObj [(''ch'', JStr ''blob''), (''op'', JStr ''begin''), (''id'', JStr demo_id), (''session_id'', JStr ''s''),
     (''name'', JStr ''a''), (''size'', JNum (int_lit 0)), (''sha256'', JStr demo_digest)]"
definition demo_commit :: json where
  "demo_commit = JObj [(''ch'', JStr ''blob''), (''op'', JStr ''commit''), (''id'', JStr demo_id)]"

lemma demo_plain: "plain demo_id" "plain demo_digest" "plain_json demo_begin" "plain_json demo_commit"
  "json_depth demo_begin \<le> 10000" "json_depth demo_commit \<le> 10000"
  by (simp_all add: demo_id_def demo_digest_def demo_begin_def demo_commit_def plain_char_def)

lemma demo_parse: "parse_json (render demo_begin) = Some demo_begin" "parse_json (render demo_commit) = Some demo_commit"
  using demo_plain by (simp_all add: parse_json_render)

lemma demo_strings: "boundedJSONString (Some (JStr demo_id)) 64 = Some demo_id"
  "boundedJSONString (Some (JStr demo_digest)) 64 = Some demo_digest"
  by (simp_all add: boundedJSONString_def as_string_def valid_utf8_ascii demo_id_def demo_digest_def)

lemma demo_decode: "decodeBlobBase (render demo_commit) = (([(''ch'', JStr ''blob''), (''op'', JStr ''commit''), (''id'', JStr demo_id)], demo_id, ''commit''), None)"
  unfolding decodeBlobBase_def demo_parse
  by (simp add: demo_commit_def as_fields_def demo_strings) (simp add: boundedJSONString_def as_string_def valid_utf8_ascii ChBlob_def)

lemma demo_decode_begin: "decodeBlobBase (render demo_begin) = (([(''ch'', JStr ''blob''), (''op'', JStr ''begin''), (''id'', JStr demo_id), (''session_id'', JStr ''s''),
     (''name'', JStr ''a''), (''size'', JNum (int_lit 0)), (''sha256'', JStr demo_digest)], demo_id, ''begin''), None)"
  unfolding decodeBlobBase_def demo_parse
  by (simp add: demo_begin_def as_fields_def demo_strings) (simp add: boundedJSONString_def as_string_def valid_utf8_ascii ChBlob_def)

lemma demo_uuid: "isCanonicalUUID demo_id" "isLowerHexDigest demo_digest"
  by (simp_all add: isCanonicalUUID_def isLowerHexDigest_def demo_id_def demo_digest_def lower_hex_def HashSize_def upt_rec)

lemma demo_size: "strictNonnegativeInt (Some (JNum (int_lit 0))) = Some 0"
  by (simp add: strictNonnegativeInt_def int_lit_def nat_lit.simps parse_int64_def parse_decimal_def digits_val_def is_digit_def digit_char_def char_of_eq_iff)


definition demo_upload :: blobUpload where
  "demo_upload = new_upload demo_id ''s'' ''a'' 0 demo_digest ''d''"

abbreviation demo_manager :: blobManager where "demo_manager \<equiv> newBlobManager ''r'' 100 2 True 0"

lemma demo_handle_begin: "\<exists>m. handle demo_cfg demo_blob_env (render demo_begin) new_connection demo_manager =
    Some ([BlobReady demo_id 0 16], set_upload new_connection demo_upload, m)"
proof -
  have "length (render demo_begin) \<le> ChunkThreshold"
    by (simp add: demo_begin_def demo_id_def demo_digest_def json_string_plain plain_char_def int_lit_def nat_lit.simps ChunkThreshold_def)
  moreover have "begin_fields demo_cfg [(''ch'', JStr ''blob''), (''op'', JStr ''begin''), (''id'', JStr demo_id), (''session_id'', JStr ''s''),
     (''name'', JStr ''a''), (''size'', JNum (int_lit 0)), (''sha256'', JStr demo_digest)] = Inr (''s'', ''a'', 0, demo_digest)"
    by (simp add: begin_fields_def exactBlobFields_def demo_strings demo_uuid demo_size demo_cfg_def,
      simp add: boundedJSONString_def as_string_def valid_utf8_ascii containsControl_def is_control_def runes_ascii
        validOriginalAttachmentName_def contains_any_def, simp add: demo_size demo_strings demo_uuid)
  ultimately show ?thesis
    by (simp add: handle_def demo_decode_begin demo_uuid handleBegin_def demo_cfg_def demo_blob_env_def demo_upload_def
      new_connection_def reserve_def newBlobManager_def)
qed

lemma demo_handle_commit: "handle demo_cfg demo_blob_env (render demo_commit) (set_upload new_connection demo_upload) m =
    Some ([], set_upload new_connection (demo_upload\<lparr>up_phase := blobCommitting\<rparr>), m)"
proof -
  have "length (render demo_commit) \<le> ChunkThreshold"
    by (simp add: demo_commit_def demo_id_def json_string_plain plain_char_def ChunkThreshold_def)
  then show ?thesis
    by (simp add: handle_def demo_decode demo_uuid handleCommit_def exactBlobFields_def set_upload_def demo_upload_def
      new_upload_def new_connection_def)
qed

definition demo_receipt :: json where
  "demo_receipt = JObj [(''attached'', JBool True), (''uploaded'', JBool True), (''name'', JStr ''a''), (''path'', JStr ''/p/a''),
     (''ref_path'', JStr ''a''), (''ref_text'', JStr ''@file:a'')]"

definition demo_frame :: json where
  "demo_frame = JObj [(''jsonrpc'', JStr ''2.0''), (''id'', JStr (attach_id demo_upload)), (''result'', demo_receipt)]"

definition demo_exchange :: exchange where
  "demo_exchange = \<lparr>ex_gateway_ready = True, ex_dial = None, ex_open_ok = True, ex_stat = Some 0,
     ex_frames = [render demo_frame], ex_read_err = TransportFault, ex_writes_ok = (\<lambda>_. True), ex_write_err = TransportFault,
     ex_events = [WriteDone, ReadDone], ex_wait = DeadlineExceeded, ex_is_file = (\<lambda>p. p = ''/p/a''), ex_cwd = None,
     ex_root = ''/r'', ex_evalSymlinks = (\<lambda>_. None)\<rparr>"

lemma demo_receipt_plain: "plain_json demo_receipt" "json_depth demo_receipt \<le> 10000"
  "plain (attach_id demo_upload)" "plain_json demo_frame" "json_depth demo_frame \<le> 10000"
  by (simp_all add: demo_receipt_def plain_char_def attach_id_def demo_upload_def new_upload_def demo_id_def demo_frame_def)

lemma demo_receipt_parse: "parse_json (render demo_receipt) = Some demo_receipt"
  using demo_receipt_plain by (simp add: parse_json_render)

lemma demo_receipt_valid: "validateAttachmentReceipt (\<lambda>p. p = ''/p/a'') (render demo_receipt) = None"
proof -
  have "parseFileToken ''@file:a'' = Some ''a''"
    by (simp add: parseFileToken_def has_prefix_def containsControl_def is_control_def runes_ascii is_quote_mark_def is_space_def)
  moreover have "parse_receipt (render demo_receipt) = Some \<lparr>rc_attached = True, rc_uploaded = True, rc_name = ''a'',
      rc_path = ''/p/a'', rc_ref_path = ''a'', rc_ref_text = ''@file:a''\<rparr>"
    unfolding parse_receipt_def unmarshal_def demo_receipt_parse
    by (simp add: demo_receipt_def fill_struct_def field_of_def receipt_set_def as_string_def as_bool_def)
  ultimately show ?thesis
    by (simp add: validateAttachmentReceipt_def bounded_field_def blobStringMaxBytes_def validAttachmentName_def
      contains_any_def containsControl_def is_control_def runes_ascii has_prefix_def)
qed

lemma demo_members: "raw_object (render demo_frame) = Some [(''jsonrpc'', render (JStr ''2.0'')),
    (''id'', render (JStr (attach_id demo_upload))), (''result'', render demo_receipt)]"
  using raw_object_render [of "[(''jsonrpc'', JStr ''2.0''), (''id'', JStr (attach_id demo_upload)), (''result'', demo_receipt)]"]
    demo_receipt_plain by (simp add: demo_frame_def del: render.simps)

lemma trim_front_stop:
  assumes "list_all (\<lambda>e. e \<noteq> [] \<and> hd e \<noteq> c) encs" shows "trim_front encs (c # s) = c # s"
proof -
  have "find (has_prefix (c # s)) encs = None"
    using assms by (auto simp: find_None_iff list_all_iff has_prefix_append Cons_eq_append_conv)
  then show ?thesis by (simp add: trim_front.simps)
qed

lemma trim_json_string: "TrimSpace (json_string s) = json_string s"
proof -
  have e: "list_all (\<lambda>e. e \<noteq> [] \<and> hd e \<noteq> CHR 0x22) space_encodings"
    "list_all (\<lambda>e. e \<noteq> [] \<and> hd e \<noteq> CHR 0x22) (map rev space_encodings)"
    by code_simp+
  show ?thesis by (simp add: TrimSpace_def json_string_def trim_front_stop [OF e(1)] trim_front_stop [OF e(2)])
qed

lemma demo_read: "exchange_read demo_exchange demo_upload = Inr (render demo_receipt)"
proof -
  have p: "parse_json (render (JStr ''2.0'')) = Some (JStr ''2.0'')"
    "parse_json (render (JStr (attach_id demo_upload))) = Some (JStr (attach_id demo_upload))"
    using parse_json_render [of "JStr ''2.0''"] parse_json_render [of "JStr (attach_id demo_upload)"] demo_receipt_plain(3)
    by (simp_all add: plain_char_def del: render.simps)
  have r: "parse_reply (render demo_frame) = Some \<lparr>gr_jsonrpc = ''2.0'', gr_result = render demo_receipt, gr_error = None\<rparr>"
    unfolding parse_reply_def unmarshal_raw_def demo_members
    using p demo_receipt_parse by (simp add: field_of_def reply_set_def as_string_def del: render.simps)
  have i: "probe_id (render demo_frame) = json_string (attach_id demo_upload)"
    unfolding probe_id_def unmarshal_raw_def demo_members by (simp add: field_of_def fold_name.simps)
  have l: "length (render demo_receipt) \<le> blobResultMaxBytes" "render demo_receipt \<noteq> []"
    by (simp_all add: demo_receipt_def json_string_plain plain_char_def blobResultMaxBytes_def)
  have "json_string (attach_id demo_upload) \<noteq> []" by (simp add: json_string_def)
  with r i l trim_json_string demo_receipt_valid show ?thesis
    by (simp add: exchange_read_def demo_exchange_def del: render.simps(4-))
qed

lemma demo_path: "validateReceiptOutsideSpool demo_exchange (render demo_receipt) = None"
  unfolding validateReceiptOutsideSpool_def unmarshal_def demo_receipt_parse
  by (simp add: demo_receipt_def fill_struct_def field_of_def as_string_def requirePathOutsideRoot_def demo_exchange_def
    Abs_def has_prefix_def Clean_def clean_push_def)

lemma demo_written: "write_fault demo_exchange (exchange_write 16 demo_exchange demo_upload) = None"
  by (simp add: exchange_write_def writeFileAttachMessage_def demo_upload_def new_upload_def demo_exchange_def
    defaultBlobChunkBytes_def write_fault_def Let_def)

definition demo_committing :: blobConnection where
  "demo_committing = set_upload new_connection (demo_upload\<lparr>up_phase := blobCommitting\<rparr>)"

lemma reach_message:
  assumes "blob_reachable C cfg m0 \<lparr>bs_manager = m, bs_conns = [(c, b)]\<rparr>" "handle cfg e p b m = Some (out, b', m')"
  shows "blob_reachable C cfg m0 \<lparr>bs_manager = m', bs_conns = [(c, b')]\<rparr>"
proof -
  have "conn_step C cfg b (bs_manager \<lparr>bs_manager = m, bs_conns = [(c, b)]\<rparr>) out b' m'"
    using assms(2) by (simp add: conn_step.message)
  then have "blob_step_rel C cfg \<lparr>bs_manager = m, bs_conns = [(c, b)]\<rparr> out
      \<lparr>bs_manager = m', bs_conns = AList.update c b' (bs_conns \<lparr>bs_manager = m, bs_conns = [(c, b)]\<rparr>)\<rparr>"
    by (rule blob_step_rel.stepped [rotated]) simp
  from blob_reachable.step [OF assms(1) this] show ?thesis by simp
qed

lemma reach_open: "blob_reachable C cfg m0 \<lparr>bs_manager = m0, bs_conns = [(c, new_connection)]\<rparr>"
  using blob_reachable.step [OF blob_reachable.start blob_step_rel.opened [of "\<lparr>bs_manager = m0, bs_conns = []\<rparr>" c]]
  by simp

lemma demo_reach: "\<exists>m. blob_reachable toy_crypto demo_cfg demo_manager \<lparr>bs_manager = m, bs_conns = [(0, demo_committing)]\<rparr>"
proof -
  obtain m where m: "handle demo_cfg demo_blob_env (render demo_begin) new_connection demo_manager =
      Some ([BlobReady demo_id 0 16], set_upload new_connection demo_upload, m)" using demo_handle_begin by blast
  from reach_message [OF reach_message [OF reach_open m] demo_handle_commit] show ?thesis
    unfolding demo_committing_def by blast
qed

lemma exchange_phase: "exchange_read x (u\<lparr>up_phase := p\<rparr>) = exchange_read x u"
  "exchange_write k x (u\<lparr>up_phase := p\<rparr>) = exchange_write k x u"
  by (simp_all add: exchange_read_def exchange_write_def attach_id_def)

lemma demo_call: "callFileAttach 16 demo_exchange (demo_upload\<lparr>up_phase := blobCommitting\<rparr>) = Inr (render demo_receipt)"
proof -
  have "ex_gateway_ready demo_exchange" "ex_dial demo_exchange = None" "ex_open_ok demo_exchange"
    "ex_stat demo_exchange = Some (up_size demo_upload)" "ex_events demo_exchange = [WriteDone, ReadDone]"
    by (simp_all add: demo_exchange_def demo_upload_def new_upload_def)
  then show ?thesis
    by (simp add: callFileAttach_def exchange_phase demo_read demo_written demo_path del: render.simps)
qed

lemma length_result_text: "length (result_text i raw) \<le>
    length (json_string ''ch'') + length (json_string ChBlob) + length (json_string ''op'') + 2 * length (json_string ''result'') +
    length (json_string ''id'') + length (json_string i) + length (compact False raw) + 9"
  unfolding result_text_def by (cases "raw = []") simp_all

lemma length_json_plain: "plain s \<Longrightarrow> length (json_string s) = length s + 2"
  by (simp add: json_string_plain)

lemma demo_result: "result_message demo_id (render demo_receipt) = BlobResult demo_id (render demo_receipt)"
proof -
  have "length (render demo_receipt) \<le> 200"
    by (simp add: demo_receipt_def json_string_plain plain_char_def)
  then have "length (compact False (render demo_receipt)) \<le> 1200"
    using length_compact [of False "render demo_receipt"] by linarith
  moreover have "length (json_string ''ch'') = 4" "length (json_string ChBlob) = 6" "length (json_string ''op'') = 4"
    "length (json_string ''result'') = 8" "length (json_string ''id'') = 4"
    by (simp_all add: length_json_plain plain_char_def ChBlob_def)
  moreover have "length (json_string demo_id) = 38" using demo_plain(1) by (simp add: length_json_plain demo_id_def)
  ultimately have "length (result_text demo_id (render demo_receipt)) \<le> 65536"
    using length_result_text [of demo_id "render demo_receipt"] by linarith
  then show ?thesis by (simp add: result_message_def demo_receipt_parse blobWireMaxBytes_def del: render.simps)
qed

lemma hex_zeros: "hex_encode (replicate n 0) = concat (replicate n ''00'')"
  by (induction n) (simp_all add: hex_digit_def char_of_eq_iff)

lemma demo_commit_sends: "\<exists>b' m'. commit toy_crypto 16 True True False True demo_exchange demo_committing m =
    ([BlobResult demo_id (render demo_receipt)], b', m')"
proof -
  have "hex_encode (sha256 toy_crypto []) = demo_digest"
    by (simp add: toy_crypto_def pad_to_def hex_zeros) (simp add: demo_digest_def numeral_eq_Suc)
  then have "commit_answer toy_crypto 16 True True False demo_exchange (demo_upload\<lparr>up_phase := blobCommitting\<rparr>) =
      (Some (BlobResult demo_id (render demo_receipt)), True)"
    using demo_call demo_result by (simp add: commit_answer_def demo_upload_def new_upload_def del: render.simps)
  then show ?thesis
    by (simp add: commit_def demo_committing_def set_upload_def finish_def finish_started_def demo_upload_def new_upload_def
      del: render.simps)
qed

theorem committed_whole_witness:
  "\<exists>b m x out b' m'. commit toy_crypto 16 True True False True x b m = (out, b', m') \<and>
     BlobResult demo_id (render demo_receipt) \<in> set out \<and> (\<exists>u. bc_active b = Some u \<and> up_id u = demo_id \<and>
       hex_encode (sha256 toy_crypto (up_data u)) = up_digest u)"
proof -
  obtain m where r: "blob_reachable toy_crypto demo_cfg demo_manager \<lparr>bs_manager = m, bs_conns = [(0, demo_committing)]\<rparr>"
    using demo_reach by blast
  obtain b' m' where c: "commit toy_crypto 16 True True False True demo_exchange demo_committing m =
      ([BlobResult demo_id (render demo_receipt)], b', m')" using demo_commit_sends by blast
  from committed_whole [OF r _ _ _ c, of 0 demo_id "render demo_receipt"] c show ?thesis by fastforce
qed


end
