(* ===== verification/BlobSpool.thy ===== *)
theory BlobSpool
  imports BlobValidation
begin

text \<open>
  internal/bridge/blob.go, the spool directory: creating the payload of an upload and cleaning up after it. The
  root is a directory of named entries; each call of the file system may fail.
\<close>

datatype inode = Regular | Symlink | Directory "(string \<times> inode) list"

type_synonym spool = "(string, inode) gomap"

definition blobPayloadName :: string where "blobPayloadName = ''payload''"

datatype spool_call = LstatDir | ReadDirCall | LstatPayload | RemovePayload | RemoveDir

type_synonym spool_faults = "spool_call \<Rightarrow> bool"

datatype cleanup_error = NotOwned | NotDirectory | UnknownEntry | PayloadNotRegular | CallFailed spool_call

text \<open>\<open>cleanupOwnedUpload\<close>; \<open>os.Remove\<close> of the directory fails when it is not empty.\<close>

definition remove_entry :: "string \<Rightarrow> (string \<times> inode) list \<Rightarrow> (string \<times> inode) list" where
  "remove_entry n es = filter (\<lambda>(k, _). k \<noteq> n) es"

definition remove_dir :: "spool_faults \<Rightarrow> string \<Rightarrow> (string \<times> inode) list \<Rightarrow> spool \<Rightarrow> cleanup_error option \<times> spool" where
  "remove_dir f d es s =
     (if f RemoveDir \<or> es \<noteq> [] then (Some (CallFailed RemoveDir), AList.update d (Directory es) s)
      else (None, AList.delete d s))"

definition cleanupOwnedUpload :: "spool_faults \<Rightarrow> string \<Rightarrow> spool \<Rightarrow> cleanup_error option \<times> spool" where
  "cleanupOwnedUpload f d s =
     (if \<not> isCanonicalUUID d then (Some NotOwned, s)
      else case map_of s d of
        None \<Rightarrow> (if f LstatDir then (Some (CallFailed LstatDir), s) else (None, s))
      | Some node \<Rightarrow>
          if f LstatDir then (Some (CallFailed LstatDir), s)
          else (case node of
              Directory es \<Rightarrow>
                if f ReadDirCall then (Some (CallFailed ReadDirCall), s)
                else if \<not> list_all (\<lambda>(k, _). k = blobPayloadName) es then (Some UnknownEntry, s)
                else if f LstatPayload then (Some (CallFailed LstatPayload), s)
                else (case map_of es blobPayloadName of
                    None \<Rightarrow> remove_dir f d es s
                  | Some Regular \<Rightarrow>
                      if f RemovePayload then (Some (CallFailed RemovePayload), s)
                      else remove_dir f d (remove_entry blobPayloadName es) s
                  | Some _ \<Rightarrow> (Some PayloadNotRegular, s))
            | _ \<Rightarrow> (Some NotDirectory, s)))"

text \<open>The loop of \<open>prepareRoot\<close> over the entries of the root; the result says whether it failed and the
  number of failed cleanups.\<close>

fun clean_stale :: "(nat \<Rightarrow> spool_faults) \<Rightarrow> nat \<Rightarrow> (string \<times> inode) list \<Rightarrow> spool \<Rightarrow> (bool \<times> nat) \<times> spool" where
  "clean_stale f n [] s = ((False, 0), s)"
| "clean_stale f n ((k, node) # es) s =
     (if (case node of Directory _ \<Rightarrow> False | _ \<Rightarrow> True) \<or> \<not> isCanonicalUUID k then clean_stale f n es s
      else case cleanupOwnedUpload (f n) k s of
        (Some _, s') \<Rightarrow> ((True, 1), s')
      | (None, s') \<Rightarrow> clean_stale f (Suc n) es s')"

record root_env =
  re_mkdir_ok :: bool
  re_lstat_ok :: bool
  re_is_directory :: bool
  re_chmod_ok :: bool
  re_readdir_ok :: bool

definition prepareRoot :: "root_env \<Rightarrow> (nat \<Rightarrow> spool_faults) \<Rightarrow> spool \<Rightarrow> (bool \<times> nat) \<times> spool" where
  "prepareRoot e f s =
     (if re_mkdir_ok e \<and> re_lstat_ok e \<and> re_is_directory e \<and> re_chmod_ok e \<and> re_readdir_ok e
      then clean_stale f 0 s s else ((True, 0), s))"

text \<open>\<open>createPayload\<close>: a fresh directory of 16 attempts, then its payload. A failing open may leave the
  payload behind (\<open>opened_partly\<close>: created, but its mode could not be set).\<close>

datatype open_outcome = Opened | OpenedPartly | NotOpened

datatype create_result =
    CreatedPayload string
  | NoDirectory
  | AllocationFailed "cleanup_error option"

fun createPayload ::
  "nat \<Rightarrow> (nat \<Rightarrow> bool) \<Rightarrow> open_outcome \<Rightarrow> spool_faults \<Rightarrow> rng \<Rightarrow> spool \<Rightarrow> create_result \<times> spool \<times> rng" where
  "createPayload 0 mkdir_ok outcome f r s = (NoDirectory, s, r)"
| "createPayload (Suc n) mkdir_ok outcome f r s =
     (case randomUUID r of
        None \<Rightarrow> (NoDirectory, s, r)
      | Some (d, r') \<Rightarrow>
          if map_of s d \<noteq> None then createPayload n mkdir_ok outcome f r' s
          else if \<not> mkdir_ok n then (NoDirectory, s, r')
          else (case outcome of
              Opened \<Rightarrow> (CreatedPayload d, AList.update d (Directory [(blobPayloadName, Regular)]) s, r')
            | OpenedPartly \<Rightarrow>
                (case cleanupOwnedUpload f d (AList.update d (Directory [(blobPayloadName, Regular)]) s) of
                   (e, s') \<Rightarrow> (AllocationFailed e, s', r'))
            | NotOpened \<Rightarrow>
                (case cleanupOwnedUpload f d (AList.update d (Directory []) s) of
                   (e, s') \<Rightarrow> (AllocationFailed e, s', r'))))"

definition createAttempts :: nat where "createAttempts = 16"


section \<open>Only what is owned is removed\<close>

lemma remove_dir_other: "remove_dir f d es s = (e, s') \<Longrightarrow> k \<noteq> d \<Longrightarrow> map_of s' k = map_of s k"
  by (auto simp: remove_dir_def update_conv' delete_conv' split: if_splits)

text \<open>
  A cleanup of the spool touches only what the bridge owns: whatever the spool holds and whichever call
  fails, no entry other than the named one changes; nothing at all changes for a name that is not an upload
  id, or when the named entry is not a directory or holds anything but a regular payload; what remains of a directory
  after a failure is the directory with at most its payload gone; and success means the entry is gone.
\<close>

theorem cleanup_confined:
  assumes "cleanupOwnedUpload f d s = (e, s')" "wf_map s"
  shows "(\<forall>k. k \<noteq> d \<longrightarrow> map_of s' k = map_of s k) \<and>
    (\<not> isCanonicalUUID d \<longrightarrow> e \<noteq> None \<and> s' = s) \<and>
    (e = None \<longrightarrow> map_of s' d = None) \<and>
    (\<forall>node. map_of s d = Some node \<and> \<not> (\<exists>es. node = Directory es \<and> (\<forall>k n. map_of es k = Some n \<longrightarrow> k = blobPayloadName \<and> n = Regular)) \<longrightarrow>
       e \<noteq> None \<and> map_of s' d = Some node) \<and>
    (\<forall>node. map_of s' d = Some node \<longrightarrow> map_of s d = Some node \<or>
       (\<exists>es. map_of s d = Some (Directory es) \<and> node = Directory (remove_entry blobPayloadName es)))"
proof -
  have other: "map_of s' k = map_of s k" if "k \<noteq> d" for k
    using assms(1) that unfolding cleanupOwnedUpload_def
    by (auto split: if_splits option.splits inode.splits dest: remove_dir_other)
  have name: "\<not> isCanonicalUUID d \<Longrightarrow> e \<noteq> None \<and> s' = s" using assms(1) by (auto simp: cleanupOwnedUpload_def)
  have gone: "e = None \<Longrightarrow> map_of s' d = None"
    using assms unfolding cleanupOwnedUpload_def remove_dir_def
    by (auto split: if_splits option.splits inode.splits simp: delete_conv')
  have kept: "e \<noteq> None \<and> map_of s' d = Some node" if node: "map_of s d = Some node"
      and bad: "\<not> (\<exists>es. node = Directory es \<and> (\<forall>k n. map_of es k = Some n \<longrightarrow> k = blobPayloadName \<and> n = Regular))" for node
  proof (cases node)
    case (Directory es)
    with bad obtain k n where kn: "map_of es k = Some n" "k \<noteq> blobPayloadName \<or> n \<noteq> Regular" by blast
    show ?thesis
    proof (cases "k = blobPayloadName")
      case True
      with assms(1) node Directory kn show ?thesis
        unfolding cleanupOwnedUpload_def by (cases n) (auto split: if_splits)
    next
      case False
      with kn(1) have "\<not> list_all (\<lambda>(k, _). k = blobPayloadName) es" by (auto simp: list_all_iff dest: map_of_SomeD)
      with assms(1) node Directory show ?thesis
        unfolding cleanupOwnedUpload_def by (auto split: if_splits)
    qed
  qed (use assms(1) node in \<open>auto simp: cleanupOwnedUpload_def split: if_splits\<close>)
  have left: "map_of s d = Some node \<or> (\<exists>es. map_of s d = Some (Directory es) \<and> node = Directory (remove_entry blobPayloadName es))"
    if "map_of s' d = Some node" for node
    using assms that unfolding cleanupOwnedUpload_def remove_dir_def
    by (auto split: if_splits option.splits inode.splits simp: update_conv' delete_conv')
  from other name gone kept left show ?thesis by blast
qed


theorem cleanup_confined_witness:
  "\<exists>e s'. cleanupOwnedUpload (\<lambda>_. False) ''x'' [(''x'', Directory [(''note'', Regular)])] = (e, s') \<and> e \<noteq> None \<and>
     map_of s' ''x'' = Some (Directory [(''note'', Regular)])"
  using cleanup_confined [of "\<lambda>_. False" "''x''" "[(''x'', Directory [(''note'', Regular)])]"]
  by (cases "cleanupOwnedUpload (\<lambda>_. False) ''x'' [(''x'', Directory [(''note'', Regular)])]")
    (fastforce simp: isCanonicalUUID_def)

end
