(* ===== verification/FolderLister.thy ===== *)
theory FolderLister
  imports Routes WorkPools Paths "HOL-Library.Product_Lexorder" "HOL-Library.List_Lexorder"
begin

text \<open>
  internal/bridge/fs.go and fs_listing.go: directory listings answered in the daemon. The first part is one listing
  (query, path, entries, order, JSON); the second is \<open>folderLister\<close>, which shares one read per folder and
  bounds how many process slots a stuck folder can hold. What the file system answers is given. \<open>lower\<close> stands for
  Go's Unicode table of lower-case runes, used from rune 128 on.
\<close>

section \<open>Queries\<close>

fun QueryUnescape :: "string \<Rightarrow> string option" where
  "QueryUnescape [] = Some []"
| "QueryUnescape (c # s) =
     (if c = CHR ''+'' then map_option ((#) CHR '' '') (QueryUnescape s)
      else if c \<noteq> CHR ''%'' then map_option ((#) c) (QueryUnescape s)
      else case s of
        a # b # t \<Rightarrow> if isHex a \<and> isHex b then map_option ((#) (unescaped a b)) (QueryUnescape t) else None
      | _ \<Rightarrow> None)"

definition cut :: "char \<Rightarrow> string \<Rightarrow> string \<times> string" where
  "cut c s = (takeWhile (\<lambda>x. x \<noteq> c) s, drop 1 (dropWhile (\<lambda>x. x \<noteq> c) s))"

text \<open>One setting of a query; \<open>None\<close> is an error.\<close>

definition query_pair :: "string \<Rightarrow> (string \<times> string) option" where
  "query_pair s =
     (if List.member s (CHR '';'') then None
      else case (QueryUnescape (fst (cut (CHR ''='') s)), QueryUnescape (snd (cut (CHR ''='') s))) of
        (Some k, Some v) \<Rightarrow> Some (k, v)
      | _ \<Rightarrow> None)"

definition ParseQuery :: "string \<Rightarrow> (string \<times> string) list option" where
  "ParseQuery q =
     (let settings = filter (\<lambda>s. s \<noteq> []) (split_on (CHR ''&'') q) in
      if list_ex (\<lambda>s. query_pair s = None) settings then None else Some (map (the \<circ> query_pair) settings))"

definition Get :: "(string \<times> string) list \<Rightarrow> string \<Rightarrow> string" where
  "Get values k = (case map_of values k of Some v \<Rightarrow> v | None \<Rightarrow> [])"

section \<open>Paths\<close>

definition lower_rune :: "(nat \<Rightarrow> nat) \<Rightarrow> nat \<Rightarrow> nat" where
  "lower_rune lower r = (if 65 \<le> r \<and> r \<le> 90 then r + 32 else if r < 128 then r else lower r)"

definition ToLower :: "(nat \<Rightarrow> nat) \<Rightarrow> string \<Rightarrow> string" where
  "ToLower lower s = concat (map (\<lambda>(r, _). encode_rune (lower_rune lower r)) (runes s))"

definition valid_userinfo :: "string \<Rightarrow> bool" where
  "valid_userinfo s \<longleftrightarrow> list_all (\<lambda>c. isUnreserved c \<or> List.member ''!$&()*+,;=:%@'' c \<or> c = CHR 0x27) s \<and> PathUnescape s \<noteq> None"

text \<open>The authority of a file URL must be empty or localhost, with or without user information.\<close>

definition local_authority :: "string \<Rightarrow> bool" where
  "local_authority a =
     (let host = rev (takeWhile (\<lambda>c. c \<noteq> CHR ''@'') (rev a));
          user = take (length a - length host - 1) a in
      (host = [] \<or> host = ''localhost'') \<and> (List.member a (CHR ''@'') \<longrightarrow> valid_userinfo user))"

text \<open>The path that \<open>url.Parse\<close> finds in a \<open>file:\<close> URL; \<open>None\<close> when it fails or names another host.\<close>

definition file_url_path :: "string \<Rightarrow> string option" where
  "file_url_path raw =
     (let (u, frag) = cut (CHR ''#'') raw;
          (rest, query) = cut (CHR ''?'') (drop 5 u) in
      if \<not> has_prefix (map (\<lambda>c. if 65 \<le> ord c \<and> ord c \<le> 90 then chr (ord c + 32) else c) u) ''file:'' then None
      else if hasControlByte u \<or> PathUnescape frag = None then None
      else if \<not> has_prefix rest ''/'' then Some []
      else if has_prefix rest ''//'' then
        (let a = takeWhile (\<lambda>c. c \<noteq> CHR ''/'') (drop 2 rest) in
         if local_authority a then PathUnescape (dropWhile (\<lambda>c. c \<noteq> CHR ''/'') (drop 2 rest)) else None)
      else PathUnescape rest)"

record fs_system =
  sys_home :: "string option"
  sys_cwd :: "string option"
  sys_evalSymlinks :: "string \<Rightarrow> string option"
  sys_lower :: "nat \<Rightarrow> nat"

definition expand_home :: "fs_system \<Rightarrow> string \<Rightarrow> string" where
  "expand_home y raw =
     (if raw = ''~'' \<or> has_prefix raw ''~/'' then (case sys_home y of Some h \<Rightarrow> h @ drop 1 raw | None \<Rightarrow> raw) else raw)"

text \<open>The error is the text of the answer.\<close>

definition fsResolvePath :: "fs_system \<Rightarrow> string \<Rightarrow> string + string" where
  "fsResolvePath y raw0 =
     (let raw = TrimSpace raw0 in
      if raw = [] then Inl ''Path is required''
      else if List.member raw (CHR 0x00) then Inl ''Invalid path''
      else case (if has_prefix (ToLower (sys_lower y) raw) ''file:'' then file_url_path raw else Some raw) of
        None \<Rightarrow> Inl ''Invalid path''
      | Some path \<Rightarrow>
          (case Abs (sys_cwd y) (expand_home y path) of
             None \<Rightarrow> Inl ''Invalid path''
           | Some p \<Rightarrow> (case sys_evalSymlinks y (rooted p) of Some q \<Rightarrow> Inr q | None \<Rightarrow> Inr (rooted p))))"

section \<open>One listing\<close>

definition fsHiddenNames :: "string list" where
  "fsHiddenNames = [''.git'', ''.hg'', ''.svn'', ''.cache'', ''.next'', ''.turbo'', ''.venv'', ''__pycache__'', ''build'',
     ''dist'', ''node_modules'', ''target'', ''venv'']"

record fsEntry =
  fe_name :: string
  fe_path :: string
  fe_isDirectory :: bool

record fsListing =
  fl_entries :: "fsEntry list"
  fl_error :: string
  fl_detail :: string

definition entry_json :: "fsEntry \<Rightarrow> json" where
  "entry_json e = JObj [(''name'', JStr (fe_name e)), (''path'', JStr (fe_path e)), (''isDirectory'', JBool (fe_isDirectory e))]"

definition fsListingResponse :: "int \<Rightarrow> fsListing \<Rightarrow> int \<times> string" where
  "fsListingResponse status l = (status, render (JObj ([(''entries'', JArr (map entry_json (fl_entries l)))] @
     (if fl_error l = [] then [] else [(''error'', JStr (fl_error l))]) @
     (if fl_detail l = [] then [] else [(''detail'', JStr (fl_detail l))]))))"

definition listing_error :: "string \<Rightarrow> string \<Rightarrow> fsListing" where
  "listing_error e d = \<lparr>fl_entries = [], fl_error = e, fl_detail = d\<rparr>"

text \<open>The order of entries: directories first, then by lower-case name, then by name, byte by byte.\<close>

definition entry_key :: "(nat \<Rightarrow> nat) \<Rightarrow> fsEntry \<Rightarrow> bool \<times> nat list \<times> nat list" where
  "entry_key lower e = (\<not> fe_isDirectory e, string_bytes (ToLower lower (fe_name e)), string_bytes (fe_name e))"

datatype readdir_error = ErrNotExist | ErrPermission | ErrNotDir | ErrOther

type_synonym readdir = "string \<Rightarrow> readdir_error + (string \<times> bool) list"

definition list_folder :: "fs_system \<Rightarrow> readdir \<Rightarrow> string \<Rightarrow> fsListing" where
  "list_folder y rd target =
     (case rd target of
        Inr entries \<Rightarrow>
          \<lparr>fl_entries = sort_key (entry_key (sys_lower y)) (map (\<lambda>(n, d). \<lparr>fe_name = n,
             fe_path = rooted (Clean (target @ ''/'' @ n)), fe_isDirectory = d\<rparr>)
             (filter (\<lambda>(n, _). \<not> List.member fsHiddenNames n) entries)), fl_error = [], fl_detail = []\<rparr>
      | Inl ErrNotExist \<Rightarrow> listing_error ''ENOENT'' []
      | Inl ErrPermission \<Rightarrow> listing_error ''EACCES'' []
      | Inl ErrNotDir \<Rightarrow> listing_error ''ENOTDIR'' []
      | Inl ErrOther \<Rightarrow> listing_error ''read-error'' [])"

text \<open>What the worker of \<open>fsListSettling\<close> completes with.\<close>

definition completed :: "fs_system \<Rightarrow> readdir \<Rightarrow> (string \<times> string) list \<Rightarrow> int \<times> string" where
  "completed y rd values =
     (case fsResolvePath y (Get values ''path'') of
        Inl e \<Rightarrow> fsListingResponse 400 (listing_error [] e)
      | Inr target \<Rightarrow> fsListingResponse 200 (list_folder y rd target))"

definition fsFlightKey :: "string \<Rightarrow> string" where
  "fsFlightKey rawQuery = (case ParseQuery rawQuery of None \<Rightarrow> [] | Some values \<Rightarrow> TrimSpace (Get values ''path''))"

section \<open>The lister\<close>

text \<open>Reads are numbered; number \<open>i\<close> is also the number of the read's lease. Pool 0 holds the process slots, the
  others are those of connections. \<open>rd_settled\<close>: \<open>finish\<close> has run, so \<open>rd_answer\<close> is known.\<close>

record folderRead =
  rd_key :: string
  rd_values :: "(string \<times> string) list"
  rd_started :: gotime
  rd_joins :: nat
  rd_pool :: nat
  rd_answer :: "(int \<times> string) option"
  rd_settled :: bool

record folderLister =
  ls_pools :: pool_system
  ls_reads :: "(string, nat) gomap"
  ls_abandoned :: "(string, nat) gomap"
  ls_table :: "(nat, folderRead) gomap"
  ls_next :: nat

record fs_deps =
  dep_listTimeout :: gotime
  dep_staleAfter :: gotime

definition newFolderLister :: "pool_system \<Rightarrow> folderLister" where
  "newFolderLister pools = \<lparr>ls_pools = pools, ls_reads = [], ls_abandoned = [], ls_table = [], ls_next = 0\<rparr>"

datatype list_answer =
    Answered int string
  | ListCanceled
  | Joining nat gotime
  | Reading nat

definition timed_out_response :: "int \<times> string" where
  "timed_out_response = fsListingResponse 200 (listing_error ''ETIMEDOUT'' [])"

definition admissionAnswer :: "admissionResult \<Rightarrow> list_answer" where
  "admissionAnswer r =
     (if r = admissionCanceled then ListCanceled
      else case fsListingResponse 200 (listing_error ''EBUSY'' ''too many filesystem listings'') of (st, body) \<Rightarrow> Answered st body)"

definition list_env :: "bool \<Rightarrow> env" where
  "list_env expired = \<lparr>e_parent = (\<lambda>_. expired), e_wait = (\<lambda>_. False), e_before = (\<lambda>_. []), e_during = (\<lambda>_. []), e_wins = (\<lambda>_. False)\<rparr>"

text \<open>Admission and the start of a read.\<close>

definition start_read ::
  "bool \<Rightarrow> gotime \<Rightarrow> string \<Rightarrow> (string \<times> string) list \<Rightarrow> nat \<Rightarrow> nat option \<Rightarrow> folderLister \<Rightarrow> list_answer \<times> folderLister" where
  "start_read expired now key values pool stale l =
     (let i = ls_next l in
      case acquirePools (list_env expired) 0 i [pool, 0] (ls_pools l) of
        (admissionGranted, ps) \<Rightarrow>
          (Reading i, l\<lparr>ls_pools := ps, ls_next := Suc i,
             ls_abandoned := (case stale of Some x \<Rightarrow> AList.update key x (ls_abandoned l) | None \<Rightarrow> ls_abandoned l),
             ls_reads := (if key = [] then ls_reads l else AList.update key i (ls_reads l)),
             ls_table := AList.update i \<lparr>rd_key = key, rd_values = values, rd_started = now, rd_joins = 0, rd_pool = pool,
               rd_answer = None, rd_settled = False\<rparr> (ls_table l)\<rparr>)
      | (r, ps) \<Rightarrow> (admissionAnswer r, l\<lparr>ls_pools := ps, ls_next := Suc i\<rparr>))"

text \<open>The answer to a query that cannot be parsed; its lease is given back at once.\<close>

definition list_unparsed :: "bool \<Rightarrow> nat \<Rightarrow> folderLister \<Rightarrow> list_answer \<times> folderLister" where
  "list_unparsed expired pool l =
     (let i = ls_next l in
      case acquirePools (list_env expired) 0 i [pool, 0] (ls_pools l) of
        (admissionGranted, ps) \<Rightarrow>
          (case fsListingResponse 400 (listing_error [] ''Invalid path'') of (st, body) \<Rightarrow>
            (Answered st body, l\<lparr>ls_pools := lease_release i ps, ls_next := Suc i\<rparr>))
      | (r, ps) \<Rightarrow> (admissionAnswer r, l\<lparr>ls_pools := ps, ls_next := Suc i\<rparr>))"

text \<open>\<open>list\<close> up to its wait.\<close>

definition list_begin :: "fs_deps \<Rightarrow> bool \<Rightarrow> gotime \<Rightarrow> string \<Rightarrow> nat \<Rightarrow> folderLister \<Rightarrow> list_answer \<times> folderLister" where
  "list_begin d expired now rawQuery pool l =
     (case ParseQuery rawQuery of
        None \<Rightarrow> list_unparsed expired pool l
      | Some values \<Rightarrow>
          (let key = fsFlightKey rawQuery in
           if key = [] then start_read expired now [] values pool None l
           else case map_of (ls_reads l) key of
             None \<Rightarrow> start_read expired now key values pool None l
           | Some i \<Rightarrow>
               (case map_of (ls_table l) i of
                  None \<Rightarrow> (ListCanceled, l)
                | Some r \<Rightarrow>
                    if now - rd_started r < dep_staleAfter d
                    then (Joining i (dep_listTimeout d - (now - rd_started r)),
                      l\<lparr>ls_table := AList.update i (r\<lparr>rd_joins := Suc (rd_joins r)\<rparr>) (ls_table l)\<rparr>)
                    else if map_of (ls_abandoned l) key \<noteq> None
                    then (case timed_out_response of (st, body) \<Rightarrow> (Answered st body, l))
                    else start_read expired now key values pool (Some i) l)))"

text \<open>A request waiting on another's read: \<open>done\<close> is whether the read settled before the timer and the context.\<close>

datatype wait_end = ReadSettled | TimerFired | ContextEnded

definition read_wait :: "gotime \<Rightarrow> wait_end \<Rightarrow> folderRead \<Rightarrow> list_answer" where
  "read_wait remaining w r =
     (if remaining \<le> 0 then (case timed_out_response of (st, body) \<Rightarrow> Answered st body)
      else case w of
        ReadSettled \<Rightarrow> (case rd_answer r of Some (st, body) \<Rightarrow> Answered st body | None \<Rightarrow> ListCanceled)
      | TimerFired \<Rightarrow> (case timed_out_response of (st, body) \<Rightarrow> Answered st body)
      | ContextEnded \<Rightarrow> ListCanceled)"

text \<open>The deadline of the request that started read \<open>i\<close>: its connection slot is given back, the process slot stays
  with the read.\<close>

definition read_timeout :: "nat \<Rightarrow> folderLister \<Rightarrow> folderLister" where
  "read_timeout i l =
     (case map_of (ls_table l) i of
        None \<Rightarrow> l
      | Some r \<Rightarrow> l\<lparr>ls_pools := releasePool i (rd_pool r) (ls_pools l)\<rparr>)"

text \<open>The worker ends: it completes, gives the lease back, and settles the read.\<close>

definition read_release :: "fs_system \<Rightarrow> readdir \<Rightarrow> nat \<Rightarrow> folderLister \<Rightarrow> folderLister" where
  "read_release y rd i l =
     (case map_of (ls_table l) i of
        None \<Rightarrow> l
      | Some r \<Rightarrow> if rd_answer r \<noteq> None then l
          else l\<lparr>ls_pools := lease_release i (ls_pools l),
            ls_table := AList.update i (r\<lparr>rd_answer := Some (completed y rd (rd_values r))\<rparr>) (ls_table l)\<rparr>)"

definition drop_if :: "string \<Rightarrow> nat \<Rightarrow> (string, nat) gomap \<Rightarrow> (string, nat) gomap" where
  "drop_if key i m = (if map_of m key = Some i then AList.delete key m else m)"

definition lister_finish :: "nat \<Rightarrow> folderLister \<Rightarrow> folderLister" where
  "lister_finish i l =
     (case map_of (ls_table l) i of
        None \<Rightarrow> l
      | Some r \<Rightarrow> if rd_answer r = None \<or> rd_settled r then l
          else l\<lparr>ls_reads := drop_if (rd_key r) i (ls_reads l), ls_abandoned := drop_if (rd_key r) i (ls_abandoned l),
            ls_table := AList.update i (r\<lparr>rd_settled := True\<rparr>) (ls_table l)\<rparr>)"

datatype lister_event =
    LList bool gotime string nat
  | LTimeout nat
  | LRelease fs_system readdir nat
  | LFinish nat

fun lister_step :: "fs_deps \<Rightarrow> lister_event \<Rightarrow> folderLister \<Rightarrow> folderLister" where
  "lister_step d (LList expired now q pool) l = snd (list_begin d expired now q pool l)"
| "lister_step d (LTimeout i) l = read_timeout i l"
| "lister_step d (LRelease y rd i) l = read_release y rd i l"
| "lister_step d (LFinish i) l = lister_finish i l"

end
