(* ===== verification/FolderSafety.thy ===== *)
theory FolderSafety
  imports FolderLister
begin

text \<open>How many process slots one folder can hold (internal/bridge/fs_listing.go).\<close>

section \<open>Acquisition leaves other leases alone\<close>

definition keeps_others :: "nat \<Rightarrow> pool_system \<Rightarrow> admissionResult \<times> pool_system \<Rightarrow> bool" where
  "keeps_others l s r \<longleftrightarrow> (\<forall>m. m \<noteq> l \<longrightarrow> lease_of (snd r) m = lease_of s m)"

lemma release_other: "m \<noteq> l \<Longrightarrow> lease_of (lease_release l s) m = lease_of s m"
  using lease_step_other [of "PRelease l" m s] by simp

lemma releasePool_other: "m \<noteq> l \<Longrightarrow> lease_of (releasePool l i s) m = lease_of s m"
  using lease_step_other [of "PReleasePool l i" m s] by simp

lemma take_other: "take_slot l i s = Some s' \<Longrightarrow> m \<noteq> l \<Longrightarrow> lease_of s' m = lease_of s m"
  using lease_step_other [of "PTake l i" m s] by simp

lemma keeps_validate: "keeps_others l s (validateAdmission e n w l s)"
  by (simp add: keeps_others_def validateAdmission_def release_other)

lemma keeps_refuse: "keeps_others l s (refuse e n l s)"
  by (simp add: keeps_others_def refuse_def release_other)

lemma keeps_trans: "keeps_others l s (v, s') \<Longrightarrow> keeps_others l s' r \<Longrightarrow> keeps_others l s r"
  by (simp add: keeps_others_def)

lemma keeps_loop: "keeps_others l s (acquire_loop (list_env x) False l is n False s)"
proof (induction "is" arbitrary: n s)
  case Nil
  show ?case by (simp add: keeps_validate)
next
  case (Cons i "is")
  have e: "fold pool_step (e_before (list_env x) n) s = s" by (simp add: list_env_def)
  show ?case
  proof (cases "take_slot l i s")
    case None
    then show ?thesis by (simp add: e keeps_refuse Let_def)
  next
    case (Some s')
    then have t: "keeps_others l s (v, s')" for v by (simp add: keeps_others_def take_other)
    obtain v s'' where v: "validateAdmission (list_env x) (Suc n) False l s' = (v, s'')" by fastforce
    with keeps_trans [OF t keeps_validate [of l s' "list_env x" "Suc n" False]] have k: "keeps_others l s (v, s'')" by simp
    show ?thesis
    proof (cases "v = admissionGranted")
      case True
      with Some v e keeps_trans [OF k Cons.IH] show ?thesis by (simp add: Let_def)
    next
      case False
      with Some v e k show ?thesis by (simp add: Let_def)
    qed
  qed
qed

lemma acquire_other:
  assumes "acquirePools (list_env x) 0 l is s = (v, s')" "m \<noteq> l" shows "lease_of s' m = lease_of s m"
proof -
  have p: "keeps_others l s (w, put_lease l new_lease s)" for w by (simp add: keeps_others_def lease_put)
  obtain w s1 where w: "validateAdmission (list_env x) 0 False l (put_lease l new_lease s) = (w, s1)" by fastforce
  with keeps_trans [OF p keeps_validate [of l "put_lease l new_lease s" "list_env x" 0 False]] have k: "keeps_others l s (w, s1)"
    by simp
  have "keeps_others l s (acquirePools (list_env x) 0 l is s)"
    using w k keeps_trans [OF k keeps_loop [of l s1 x "is" 1]] by (cases "w = admissionGranted") (simp_all add: acquirePools_def Let_def)
  with assms show ?thesis by (simp add: keeps_others_def)
qed

section \<open>The invariant\<close>

definition holds_slot :: "folderLister \<Rightarrow> nat \<Rightarrow> bool" where
  "holds_slot l i \<longleftrightarrow> List.member (lz_pools (lease_of (ls_pools l) i)) 0"

definition read_ok :: "folderLister \<Rightarrow> nat \<Rightarrow> folderRead \<Rightarrow> bool" where
  "read_ok l i r \<longleftrightarrow> i < ls_next l \<and>
     (rd_answer r = None \<longrightarrow> \<not> rd_settled r \<and> \<not> lz_released (lease_of (ls_pools l) i)) \<and> (rd_answer r \<noteq> None \<longrightarrow> \<not> holds_slot l i) \<and>
     (rd_key r \<noteq> [] \<longrightarrow> \<not> rd_settled r \<longrightarrow>
        map_of (ls_reads l) (rd_key r) = Some i \<or> map_of (ls_abandoned l) (rd_key r) = Some i)"

definition lister_inv :: "folderLister \<Rightarrow> bool" where
  "lister_inv l \<longleftrightarrow> (\<forall>i r. map_of (ls_table l) i = Some r \<longrightarrow> read_ok l i r)"

lemma lister_invI: "(\<And>i r. map_of (ls_table l) i = Some r \<Longrightarrow> read_ok l i r) \<Longrightarrow> lister_inv l"
  by (simp add: lister_inv_def)

lemma lister_invD: "lister_inv l \<Longrightarrow> map_of (ls_table l) i = Some r \<Longrightarrow> read_ok l i r"
  by (simp add: lister_inv_def)

lemma read_ok_pools:
  assumes "read_ok l i r" "lease_of ps i = lease_of (ls_pools l) i" "ls_next l \<le> n"
  shows "read_ok (l\<lparr>ls_pools := ps, ls_next := n\<rparr>) i r"
  using assms by (auto simp: read_ok_def holds_slot_def)

lemma inv_start:
  assumes inv: "lister_inv l" and stale: "key \<noteq> [] \<Longrightarrow> stale = map_of (ls_reads l) key"
    and free: "stale \<noteq> None \<Longrightarrow> map_of (ls_abandoned l) key = None"
    and key: "key = [] \<Longrightarrow> stale = None"
  shows "lister_inv (snd (start_read x now key values pool stale l))"
proof -
  let ?i = "ls_next l"
  obtain v ps where a: "acquirePools (list_env x) 0 ?i [pool, 0] (ls_pools l) = (v, ps)" by fastforce
  note other = acquire_other [OF a]
  show ?thesis
  proof (cases "v = admissionGranted")
    case False
    then have r: "snd (start_read x now key values pool stale l) = l\<lparr>ls_pools := ps, ls_next := Suc ?i\<rparr>"
      using a by (cases v) (simp_all add: start_read_def Let_def)
    show ?thesis unfolding r
    proof (rule lister_invI)
      fix i r
      assume "map_of (ls_table (l\<lparr>ls_pools := ps, ls_next := Suc ?i\<rparr>)) i = Some r"
      then have ok: "read_ok l i r" using lister_invD [OF inv] by simp
      then have "i \<noteq> ?i" by (simp add: read_ok_def)
      with read_ok_pools [OF ok other] show "read_ok (l\<lparr>ls_pools := ps, ls_next := Suc ?i\<rparr>) i r" by simp
    qed
  next
    case True
    let ?new = "snd (start_read x now key values pool stale l)"
    have "settled ?i [pool, 0] (v, ps)"
      using acquire_settled [of "list_env x" ?i "[pool, 0]" 0 "ls_pools l"] a by (simp add: quiet_def list_env_def)
    then have granted: "\<not> lz_released (lease_of ps ?i)" using True by (simp add: settled_def holds_def)
    have r: "ls_pools ?new = ps" "ls_next ?new = Suc ?i"
      "ls_abandoned ?new = (case stale of Some x \<Rightarrow> AList.update key x (ls_abandoned l) | None \<Rightarrow> ls_abandoned l)"
      "ls_reads ?new = (if key = [] then ls_reads l else AList.update key ?i (ls_reads l))"
      "ls_table ?new = AList.update ?i \<lparr>rd_key = key, rd_values = values, rd_started = now, rd_joins = 0, rd_pool = pool,
         rd_answer = None, rd_settled = False\<rparr> (ls_table l)"
      using a True by (simp_all add: start_read_def Let_def)
    show ?thesis
    proof (rule lister_invI)
      fix i r'
      assume m: "map_of (ls_table ?new) i = Some r'"
      show "read_ok ?new i r'"
      proof (cases "i = ?i")
        case True
        with m r granted show ?thesis by (auto simp: read_ok_def update_conv')
      next
        case False
        with m r have "map_of (ls_table l) i = Some r'" by (simp add: update_conv')
        then have ok: "read_ok l i r'" using lister_invD [OF inv] by blast
        have hs: "holds_slot ?new i = holds_slot l i" "lease_of (ls_pools ?new) i = lease_of (ls_pools l) i"
          using other [OF False] r by (simp_all add: holds_slot_def)
        have found: "map_of (ls_reads ?new) (rd_key r') = Some i \<or> map_of (ls_abandoned ?new) (rd_key r') = Some i"
          if "rd_key r' \<noteq> []" "\<not> rd_settled r'"
        proof (cases "rd_key r' = key")
          case True
          from ok that have "map_of (ls_reads l) key = Some i \<or> map_of (ls_abandoned l) key = Some i"
            by (simp add: read_ok_def True)
          note reads = stale [unfolded True [symmetric], OF that(1)]
          show ?thesis
          proof (cases stale)
            case None
            with \<open>map_of (ls_reads l) key = Some i \<or> map_of (ls_abandoned l) key = Some i\<close> reads True
              have "map_of (ls_abandoned l) (rd_key r') = Some i" by simp
            with None r show ?thesis by simp
          next
            case (Some a)
            then have "map_of (ls_abandoned l) key = None" using free by blast
            with \<open>map_of (ls_reads l) key = Some i \<or> map_of (ls_abandoned l) key = Some i\<close> reads Some True
              have "a = i" by simp
            with Some r True show ?thesis by (simp add: update_conv')
          qed
        next
          case False
          with ok that r show ?thesis by (cases stale) (auto simp: read_ok_def update_conv')
        qed
        from ok hs found r show ?thesis by (simp add: read_ok_def)
      qed
    qed
  qed
qed


lemma inv_table:
  assumes inv: "lister_inv l" and r: "map_of (ls_table l) i = Some r" and r': "read_ok l' i r'"
    and table: "ls_table l' = AList.update i r' (ls_table l)"
    and rest: "\<And>j q. j \<noteq> i \<Longrightarrow> read_ok l j q \<Longrightarrow> read_ok l' j q"
  shows "lister_inv l'"
proof (rule lister_invI)
  fix j q
  assume "map_of (ls_table l') j = Some q"
  then show "read_ok l' j q" using lister_invD [OF inv] r' rest table by (cases "j = i") (auto simp: update_conv')
qed

lemma inv_list: "lister_inv l \<Longrightarrow> lister_inv (snd (list_begin d x now q pool l))"
proof -
  assume inv: "lister_inv l"
  have unparsed: "lister_inv (snd (list_unparsed x pool l))"
  proof -
    let ?i = "ls_next l"
    obtain v ps where a: "acquirePools (list_env x) 0 ?i [pool, 0] (ls_pools l) = (v, ps)" by fastforce
    note other = acquire_other [OF a]
    obtain st body where f: "fsListingResponse 400 (listing_error [] ''Invalid path'') = (st, body)" by fastforce
    obtain ps' where s: "snd (list_unparsed x pool l) = l\<lparr>ls_pools := ps', ls_next := Suc ?i\<rparr>"
      and o: "\<And>m. m \<noteq> ?i \<Longrightarrow> lease_of ps' m = lease_of (ls_pools l) m"
      using a other that [of "lease_release ?i ps"] that [of ps]
      by (cases v) (simp_all add: list_unparsed_def Let_def f release_other)
    show ?thesis unfolding s
    proof (rule lister_invI)
      fix i r
      assume "map_of (ls_table (l\<lparr>ls_pools := ps', ls_next := Suc ?i\<rparr>)) i = Some r"
      then have ok: "read_ok l i r" using lister_invD [OF inv] by simp
      then have "i \<noteq> ?i" by (simp add: read_ok_def)
      with read_ok_pools [OF ok o] show "read_ok (l\<lparr>ls_pools := ps', ls_next := Suc ?i\<rparr>) i r" by simp
    qed
  qed
  show ?thesis
  proof (cases "ParseQuery q")
    case None
    with unparsed show ?thesis by (simp add: list_begin_def)
  next
    case (Some qs)
    let ?k = "fsFlightKey q"
    show ?thesis
    proof (cases "?k = [] \<or> map_of (ls_reads l) ?k = None")
      case True
      with Some show ?thesis
        using inv_start [OF inv, of "[]" None x now qs pool] inv_start [OF inv, of ?k None x now qs pool]
        by (cases "?k = []") (simp_all add: list_begin_def)
    next
      case False
      then obtain i where i: "map_of (ls_reads l) ?k = Some i" and k: "?k \<noteq> []" by auto
      show ?thesis
      proof (cases "map_of (ls_table l) i")
        case None
        with Some i k inv show ?thesis by (simp add: list_begin_def)
      next
        case r: (Some r)
        let ?fresh = "now - rd_started r < dep_staleAfter d"
        consider (join) ?fresh | (full) "\<not> ?fresh" "map_of (ls_abandoned l) ?k \<noteq> None"
          | (stale) "\<not> ?fresh" "map_of (ls_abandoned l) ?k = None" by blast
        then show ?thesis
        proof cases
          case join
          let ?l = "l\<lparr>ls_table := AList.update i (r\<lparr>rd_joins := Suc (rd_joins r)\<rparr>) (ls_table l)\<rparr>"
          have "lister_inv ?l"
            using inv_table [OF inv r, of ?l "r\<lparr>rd_joins := Suc (rd_joins r)\<rparr>"] lister_invD [OF inv r]
            by (simp add: read_ok_def holds_slot_def)
          with join Some i k r show ?thesis by (simp add: list_begin_def)
        next
          case full
          with Some i k r inv show ?thesis by (simp add: list_begin_def timed_out_response_def fsListingResponse_def)
        next
          case stale
          with Some i k r inv_start [OF inv, of ?k "Some i" x now qs pool] show ?thesis by (simp add: list_begin_def)
        qed
      qed
    qed
  qed
qed

lemma member_remove1: "b \<in> set (remove1 a xs) \<Longrightarrow> b \<in> set xs"
  using notin_set_remove1 by metis

lemma releasePool_holds: "List.member (lz_pools (lease_of (releasePool i p s) i)) q \<Longrightarrow> List.member (lz_pools (lease_of s i)) q"
  by (auto simp: releasePool_def lease_put Let_def lease_pools_upd split: if_splits dest: member_remove1)

lemma released_empty: "\<not> lz_released (lease_of s i) \<Longrightarrow> lz_pools (lease_of (lease_release i s) i) = []"
  by (simp add: lease_release_def lease_put Let_def)


lemma releasePool_open: "lz_released (lease_of (releasePool i p s) i) = lz_released (lease_of s i)"
  by (simp add: releasePool_def lease_put Let_def lease_pools_upd)

lemma inv_timeout: "lister_inv l \<Longrightarrow> lister_inv (read_timeout i l)"
proof (cases "map_of (ls_table l) i")
  case (Some r)
  assume inv: "lister_inv l"
  have "read_ok (read_timeout i l) j q" if q: "map_of (ls_table l) j = Some q" for j q
  proof (cases "j = i")
    case True
    have "holds_slot (read_timeout i l) i \<Longrightarrow> holds_slot l i"
      using releasePool_holds [of i "rd_pool r" "ls_pools l" 0] Some by (simp add: holds_slot_def read_timeout_def)
    with lister_invD [OF inv q] Some True show ?thesis by (auto simp: read_ok_def read_timeout_def releasePool_open)
  next
    case False
    with lister_invD [OF inv q] Some show ?thesis
      by (simp add: read_ok_def read_timeout_def holds_slot_def releasePool_other)
  qed
  then show ?thesis using Some by (simp add: lister_inv_def read_timeout_def)
qed (simp add: read_timeout_def)

lemma inv_release: "lister_inv l \<Longrightarrow> lister_inv (read_release y rd i l)"
proof (cases "map_of (ls_table l) i")
  case (Some r)
  assume inv: "lister_inv l"
  show ?thesis
  proof (cases "rd_answer r = None")
    case True
    let ?r = "r\<lparr>rd_answer := Some (completed y rd (rd_values r))\<rparr>"
    have ok: "read_ok l i r" using lister_invD [OF inv Some] .
    then have "\<not> lz_released (lease_of (ls_pools l) i)" using True by (simp add: read_ok_def)
    note empty = released_empty [OF this]
    show ?thesis
    proof (rule inv_table [OF inv Some])
      show "read_ok (read_release y rd i l) i ?r"
        using ok Some True empty by (simp add: read_release_def read_ok_def holds_slot_def)
      show "ls_table (read_release y rd i l) = AList.update i ?r (ls_table l)" using Some True by (simp add: read_release_def)
      show "read_ok (read_release y rd i l) j q" if "j \<noteq> i" "read_ok l j q" for j q
        using that Some True by (simp add: read_release_def read_ok_def holds_slot_def release_other)
    qed
  qed (use Some inv in \<open>simp add: read_release_def\<close>)
qed (simp add: read_release_def)

lemma map_of_drop_if: "map_of (drop_if k i m) k' = (if k' = k \<and> map_of m k = Some i then None else map_of m k')"
  by (simp add: drop_if_def delete_conv')

lemma inv_finish: "lister_inv l \<Longrightarrow> lister_inv (lister_finish i l)"
proof (cases "map_of (ls_table l) i")
  case (Some r)
  assume inv: "lister_inv l"
  show ?thesis
  proof (cases "rd_answer r = None \<or> rd_settled r")
    case False
    show ?thesis
    proof (rule inv_table [OF inv Some])
      show "read_ok (lister_finish i l) i (r\<lparr>rd_settled := True\<rparr>)"
        using lister_invD [OF inv Some] Some False by (auto simp: lister_finish_def read_ok_def holds_slot_def)
      show "ls_table (lister_finish i l) = AList.update i (r\<lparr>rd_settled := True\<rparr>) (ls_table l)"
        using Some False by (auto simp: lister_finish_def)
      show "read_ok (lister_finish i l) j q" if "j \<noteq> i" "read_ok l j q" for j q
        using that Some False by (auto simp: lister_finish_def read_ok_def holds_slot_def map_of_drop_if)
    qed
  qed (use Some inv in \<open>simp add: lister_finish_def\<close>)
qed (simp add: lister_finish_def)

interpretation lister: machine "lister_step d" lister_inv
  by unfold_locales (metis inv_finish inv_list inv_release inv_timeout lister_event.exhaust lister_step.simps)

lemma unsettled_two:
  assumes "lister_inv l" "k \<noteq> []"
  shows "card {i. \<exists>r. map_of (ls_table l) i = Some r \<and> rd_key r = k \<and> holds_slot l i} \<le> 2"
proof -
  let ?S = "{i. \<exists>r. map_of (ls_table l) i = Some r \<and> rd_key r = k \<and> holds_slot l i}"
  let ?f = "\<lambda>m. case map_of m k of Some i \<Rightarrow> {i} | None \<Rightarrow> ({} :: nat set)"
  have "i \<in> ?f (ls_reads l) \<union> ?f (ls_abandoned l)" if "i \<in> ?S" for i
  proof -
    from that obtain r where r: "map_of (ls_table l) i = Some r" "rd_key r = k" "holds_slot l i" by blast
    from lister_invD [OF assms(1) r(1)] r assms(2)
    have "map_of (ls_reads l) k = Some i \<or> map_of (ls_abandoned l) k = Some i" by (auto simp: read_ok_def)
    then show ?thesis by auto
  qed
  then have "?S \<subseteq> ?f (ls_reads l) \<union> ?f (ls_abandoned l)" by blast
  moreover have "finite (?f m)" "card (?f m) \<le> 1" for m by (cases "map_of m k"; simp)+
  moreover have "card (?f (ls_reads l) \<union> ?f (ls_abandoned l)) \<le> 2"
    using card_Un_le [of "?f (ls_reads l)" "?f (ls_abandoned l)"] calculation(3) [of "ls_reads l"]
      calculation(3) [of "ls_abandoned l"] by linarith
  ultimately show ?thesis using card_mono [of "?f (ls_reads l) \<union> ?f (ls_abandoned l)" ?S] by (meson finite_UnI le_trans)
qed

text \<open>
  A stuck folder cannot use up the bridge's listing capacity: whatever requests arrive, time out, are
  joined or retried, and whenever the reads return, the reads of one requested path that hold a process slot
  never number more than two.
\<close>

theorem two_slots_per_path:
  assumes "l = fold (lister_step d) es (newFolderLister pools)" and "key \<noteq> []"
  shows "card {i. \<exists>r. map_of (ls_table l) i = Some r \<and> rd_key r = key \<and>
    List.member (lz_pools (lease_of (ls_pools l) i)) 0} \<le> 2"
proof -
  have "lister_inv (newFolderLister pools)" by (simp add: lister_inv_def newFolderLister_def)
  then have "lister_inv l" unfolding assms(1) by (rule lister.run_inv)
  from unsettled_two [OF this assms(2)] show ?thesis by (simp add: holds_slot_def)
qed

text \<open>A read that is stuck, a retry after it went stale, and a third request, which gets no read.\<close>

theorem two_slots_per_path_witness:
  "let l = fold (lister_step \<lparr>dep_listTimeout = 10, dep_staleAfter = 20\<rparr>)
       [LList False 0 ''path=a'' 1, LList False 30 ''path=a'' 1, LList False 60 ''path=a'' 1] (newFolderLister (fresh_pools (\<lambda>_. 5)))
   in ls_next l = 2 \<and> card {i. \<exists>r. map_of (ls_table l) i = Some r \<and> rd_key r = ''a'' \<and>
     List.member (lz_pools (lease_of (ls_pools l) i)) 0} \<le> 2"
proof -
  have p: "ParseQuery ''path=a'' = Some [(''path'', ''a'')]"
    by (simp add: ParseQuery_def query_pair_def cut_def)
  have "TrimSpace ''a'' = ''a''" by code_simp
  then have k: "fsFlightKey ''path=a'' = ''a''" by (simp add: fsFlightKey_def p Get_def)
  let ?l = "fold (lister_step \<lparr>dep_listTimeout = 10, dep_staleAfter = 20\<rparr>)
       [LList False 0 ''path=a'' 1, LList False 30 ''path=a'' 1, LList False 60 ''path=a'' 1] (newFolderLister (fresh_pools (\<lambda>_. 5)))"
  have "ls_next ?l = 2"
    by (simp add: list_begin_def p k start_read_def newFolderLister_def acquirePools_def validateAdmission_def list_env_def
      fresh_pools_def take_slot_def tryAcquire_def put_lease_def lease_of_def new_lease_def timed_out_response_def
      fsListingResponse_def Let_def)
  with two_slots_per_path [of ?l "\<lparr>dep_listTimeout = 10, dep_staleAfter = 20\<rparr>"
      "[LList False 0 ''path=a'' 1, LList False 30 ''path=a'' 1, LList False 60 ''path=a'' 1]" "fresh_pools (\<lambda>_. 5)" "''a''"]
  show ?thesis unfolding Let_def by blast
qed

end
