(* ===== verification/RelayMux.thy ===== *)
theory RelayMux
  imports RelayServer
begin

text \<open>
  internal/bridge/relay_client.go: the bridge's side of the relay. \<open>RelayDialer\<close> attaches and redials; \<open>relayMux\<close>
  turns the channels of the one socket into links. A Go pointer to a \<open>relayChannel\<close> is its number. The critical
  sections of \<open>relayMux.mu\<close> and the effects of \<open>once\<close> are the steps; what is written to the socket is the list
  of frames, given whether the writes succeed.
\<close>

section \<open>The dialer\<close>

record RelayDialer =
  rd_attached :: bool
  rd_lastErr :: string

definition Attached :: "RelayDialer \<Rightarrow> bool \<times> string" where
  "Attached d = (rd_attached d, rd_lastErr d)"

definition setAttached :: "bool \<Rightarrow> string option \<Rightarrow> RelayDialer \<Rightarrow> RelayDialer" where
  "setAttached v err d = d\<lparr>rd_attached := v, rd_lastErr := (case err of Some e \<Rightarrow> e | None \<Rightarrow> [])\<rparr>"

definition second :: gotime where "second = 1000000000"

text \<open>One turn of the loop of \<open>Run\<close> after an attempt that lasted \<open>elapsed\<close>: the wait, and the backoff of the next turn.\<close>

definition redial_wait :: "gotime \<Rightarrow> gotime \<Rightarrow> gotime \<times> gotime" where
  "redial_wait elapsed backoff =
     (let b = (if elapsed > 60 * second then second else backoff) in (b, if b < 30 * second then b * 2 else b))"

fun redial_waits :: "gotime \<Rightarrow> gotime list \<Rightarrow> gotime list" where
  "redial_waits backoff [] = []"
| "redial_waits backoff (e # es) = (case redial_wait e backoff of (w, b) \<Rightarrow> w # redial_waits b es)"

text \<open>The state that \<open>Run\<close> shows: \<open>runOnce\<close> reports an attachment, and its end is recorded.\<close>

datatype dial_event = DialAttached | DialEnded string

fun dial_step :: "dial_event \<Rightarrow> RelayDialer \<Rightarrow> RelayDialer" where
  "dial_step DialAttached d = setAttached True None d"
| "dial_step (DialEnded e) d = setAttached False (Some e) d"

text \<open>The handshake of \<open>runOnce\<close>.\<close>

definition answer_challenge :: "crypto \<Rightarrow> Identity \<Rightarrow> bool \<Rightarrow> string \<Rightarrow> string option" where
  "answer_challenge C i is_text raw =
     (if \<not> is_text then None
      else case UnmarshalRelayChallenge raw of
        None \<Rightarrow> None
      | Some chal \<Rightarrow>
          if chT chal \<noteq> ''challenge'' then None
          else Some (MarshalRelayAttach \<lparr>raT = ''attach'', raS = SessionID C i, raK = Public C i,
            raSig = SignRelayAttach C i (chNonce chal)\<rparr>))"

definition attach_acknowledged :: "bool \<Rightarrow> string \<Rightarrow> bool" where
  "attach_acknowledged is_text raw \<longleftrightarrow> is_text \<and>
     unmarshal [''t''] (\<lambda>f v r. as_string r v) [] raw = Some ''attached''"

section \<open>Channels\<close>

record relayMsg =
  rm_text :: bool
  rm_data :: bytes

record relayChannel =
  rl_ch :: "16 word"
  rl_token :: string
  rl_inbox :: "relayMsg list"
  rl_done :: bool

record relayMux =
  mx_channels :: "(16 word, nat) gomap"
  mx_heap :: "nat \<Rightarrow> relayChannel"
  mx_next :: nat

definition inboxCapacity :: nat where "inboxCapacity = 256"

definition newRelayMux :: relayMux where
  "newRelayMux = \<lparr>mx_channels = [], mx_heap = (\<lambda>_. \<lparr>rl_ch = 0, rl_token = [], rl_inbox = [], rl_done = True\<rparr>), mx_next = 0\<rparr>"

definition put_channel :: "nat \<Rightarrow> relayChannel \<Rightarrow> relayMux \<Rightarrow> relayMux" where
  "put_channel i rc m = m\<lparr>mx_heap := (mx_heap m)(i := rc)\<rparr>"

text \<open>\<open>finish\<close>; \<open>once\<close> has run exactly when \<open>done\<close> is closed.\<close>

definition channel_finish :: "nat \<Rightarrow> relayMux \<Rightarrow> relayMux" where
  "channel_finish i m = put_channel i (mx_heap m i\<lparr>rl_done := True\<rparr>) m"

definition mux_open :: "16 word \<Rightarrow> string \<Rightarrow> relayMux \<Rightarrow> nat \<times> relayMux" where
  "mux_open c tok m =
     (let i = mx_next m;
          m1 = (put_channel i \<lparr>rl_ch = c, rl_token = tok, rl_inbox = [], rl_done = False\<rparr> m)
            \<lparr>mx_channels := AList.update c i (mx_channels m), mx_next := Suc i\<rparr> in
      (i, case map_of (mx_channels m) c of None \<Rightarrow> m1 | Some j \<Rightarrow> channel_finish j m1))"

text \<open>\<open>Close\<close>: the once, then the entry of the table if it is still this channel's, then the frame that tells the relay.\<close>

definition close_frame :: "relayChannel \<Rightarrow> string \<Rightarrow> bytes" where
  "close_frame rc reason = RelayFrame RelayControlChannel RelayKindText
     (MarshalRelayControl \<lparr>rcT = ''close'', rcC = rl_ch rc, rcToken = rl_token rc, rcReason = reason\<rparr>)"

definition channel_Close :: "nat \<Rightarrow> string \<Rightarrow> relayMux \<Rightarrow> bytes list \<times> relayMux" where
  "channel_Close i reason m =
     (let rc = mx_heap m i in
      if rl_done rc then ([], m)
      else let m1 = channel_finish i m in
        if map_of (mx_channels m) (rl_ch rc) = Some i
        then ([close_frame rc reason], m1\<lparr>mx_channels := AList.delete (rl_ch rc) (mx_channels m)\<rparr>)
        else ([], m1))"

definition mux_deliver :: "16 word \<Rightarrow> byte \<Rightarrow> bytes \<Rightarrow> relayMux \<Rightarrow> bytes list \<times> relayMux" where
  "mux_deliver c kind payload m =
     (case map_of (mx_channels m) c of
        None \<Rightarrow> ([], m)
      | Some i \<Rightarrow>
          (let rc = mx_heap m i in
           if length (rl_inbox rc) < inboxCapacity
           then ([], put_channel i (rc\<lparr>rl_inbox := rl_inbox rc @ [\<lparr>rm_text = (kind = RelayKindText), rm_data = payload\<rparr>]\<rparr>) m)
           else channel_Close i ''backlog'' m))"

definition remoteClosed :: "16 word \<Rightarrow> string \<Rightarrow> relayMux \<Rightarrow> relayMux" where
  "remoteClosed c tok m =
     (case map_of (mx_channels m) c of
        None \<Rightarrow> m
      | Some i \<Rightarrow>
          if tok \<noteq> [] \<and> rl_token (mx_heap m i) \<noteq> tok then m
          else channel_finish i (m\<lparr>mx_channels := AList.delete c (mx_channels m)\<rparr>))"

definition closeAll :: "relayMux \<Rightarrow> relayMux" where
  "closeAll m = fold (\<lambda>(_, i). channel_finish i) (mx_channels m) (m\<lparr>mx_channels := []\<rparr>)"

text \<open>\<open>Read\<close> when it returns: a message of the inbox, or the end of the channel when \<open>done\<close> is chosen.\<close>

definition channel_Read :: "bool \<Rightarrow> nat \<Rightarrow> relayMux \<Rightarrow> relayMsg option \<times> relayMux" where
  "channel_Read prefer_done i m =
     (let rc = mx_heap m i in
      if rl_done rc \<and> (prefer_done \<or> rl_inbox rc = []) then (None, m)
      else case rl_inbox rc of
        [] \<Rightarrow> (None, m)
      | x # xs \<Rightarrow> (Some x, put_channel i (rc\<lparr>rl_inbox := xs\<rparr>) m))"

text \<open>\<open>Write\<close> and \<open>vouch\<close>: the frame for the socket, or the error of a closed channel.\<close>

definition channel_Write :: "nat \<Rightarrow> bool \<Rightarrow> bytes \<Rightarrow> relayMux \<Rightarrow> bytes option" where
  "channel_Write i is_text p m =
     (if rl_done (mx_heap m i) then None
      else Some (RelayFrame (rl_ch (mx_heap m i)) (if is_text then RelayKindText else RelayKindBinary) p))"

definition hasVouchToken :: "nat \<Rightarrow> relayMux \<Rightarrow> bool" where
  "hasVouchToken i m \<longleftrightarrow> rl_token (mx_heap m i) \<noteq> []"

definition channel_vouch :: "nat \<Rightarrow> relayMux \<Rightarrow> bytes option" where
  "channel_vouch i m =
     (let rc = mx_heap m i in
      if rl_token rc = [] then None
      else Some (RelayFrame RelayControlChannel RelayKindText
        (MarshalRelayControl \<lparr>rcT = ''vouch'', rcC = rl_ch rc, rcToken = rl_token rc, rcReason = []\<rparr>)))"

definition relayKeepaliveFrame :: bytes where
  "relayKeepaliveFrame = RelayFrame RelayControlChannel RelayKindText
     (MarshalRelayControl \<lparr>rcT = ''ping'', rcC = 0, rcToken = [], rcReason = []\<rparr>)"

text \<open>The dispatch of \<open>runOnce\<close> over one frame of the relay; \<open>Some i\<close>: channel \<open>i\<close> was opened and is served.\<close>

definition mux_frame :: "bool \<Rightarrow> bytes \<Rightarrow> relayMux \<Rightarrow> (nat option \<times> bytes list) \<times> relayMux" where
  "mux_frame is_binary frame m =
     (if \<not> is_binary then ((None, []), m)
      else case ParseRelayFrame frame of
        None \<Rightarrow> ((None, []), m)
      | Some (c, kind, payload) \<Rightarrow>
          if c = RelayControlChannel then
            (case UnmarshalRelayControl payload of
               None \<Rightarrow> ((None, []), m)
             | Some x \<Rightarrow>
                 if rcT x = ''open'' then (case mux_open (rcC x) (rcToken x) m of (i, m') \<Rightarrow> ((Some i, []), m'))
                 else if rcT x = ''close'' then ((None, []), remoteClosed (rcC x) (rcToken x) m)
                 else ((None, []), m))
          else (case mux_deliver c kind payload m of (out, m') \<Rightarrow> ((None, out), m')))"

datatype mux_event =
    MFrame bool bytes
  | MRead nat bool
  | MClose nat string
  | MCloseAll

fun mux_step :: "mux_event \<Rightarrow> relayMux \<Rightarrow> relayMux" where
  "mux_step (MFrame b f) m = snd (mux_frame b f m)"
| "mux_step (MRead i p) m = snd (channel_Read p i m)"
| "mux_step (MClose i r) m = snd (channel_Close i r m)"
| "mux_step MCloseAll m = closeAll m"

section \<open>The table\<close>

text \<open>The entry of a number is the channel opened last for it.\<close>

definition mux_inv :: "relayMux \<Rightarrow> bool" where
  "mux_inv m \<longleftrightarrow> wf_map (mx_channels m) \<and>
     (\<forall>c i. map_of (mx_channels m) c = Some i \<longrightarrow> i < mx_next m \<and> rl_ch (mx_heap m i) = c \<and> \<not> rl_done (mx_heap m i) \<and>
        (\<forall>j < mx_next m. rl_ch (mx_heap m j) = c \<longrightarrow> j \<le> i)) \<and>
     (\<forall>j \<ge> mx_next m. rl_done (mx_heap m j))"

text \<open>Closing in two critical sections is one step here: between them the channel is done but in the table, where a
  frame may still reach its inbox.\<close>

interpretation mux_table: incarnation_table
  "\<lambda>m c. map_option (mx_heap m) (map_of (mx_channels m) c)" rl_token remoteClosed mux_inv
proof unfold_locales
  fix m c k d
  assume "mux_inv m"
  then have inj: "map_of (mx_channels m) d = Some i \<Longrightarrow> map_of (mx_channels m) c = Some i \<Longrightarrow> d = c" for i
    unfolding mux_inv_def by metis
  show "map_option (mx_heap (remoteClosed c k m)) (map_of (mx_channels (remoteClosed c k m)) d) =
      (if d = c \<and> (\<exists>e. map_option (mx_heap m) (map_of (mx_channels m) c) = Some e \<and> (k = [] \<or> rl_token e = k)) then None
       else map_option (mx_heap m) (map_of (mx_channels m) d))"
  proof (cases "map_of (mx_channels m) c")
    case None
    then show ?thesis by (auto simp: remoteClosed_def)
  next
    case (Some i)
    with inj show ?thesis
      by (cases "map_of (mx_channels m) d")
        (auto simp: remoteClosed_def channel_finish_def put_channel_def delete_conv')
  qed
qed


section \<open>Every step keeps the table\<close>

lemma mux_invI:
  assumes "wf_map (mx_channels m)"
    and "\<And>c i. map_of (mx_channels m) c = Some i \<Longrightarrow> i < mx_next m \<and> rl_ch (mx_heap m i) = c \<and> \<not> rl_done (mx_heap m i) \<and>
        (\<forall>j < mx_next m. rl_ch (mx_heap m j) = c \<longrightarrow> j \<le> i)"
    and "\<And>j. mx_next m \<le> j \<Longrightarrow> rl_done (mx_heap m j)"
  shows "mux_inv m"
  using assms by (simp add: mux_inv_def)

lemma mux_invD:
  assumes "mux_inv m"
  shows "wf_map (mx_channels m)"
    and "map_of (mx_channels m) c = Some i \<Longrightarrow> i < mx_next m \<and> rl_ch (mx_heap m i) = c \<and> \<not> rl_done (mx_heap m i)"
    and "map_of (mx_channels m) c = Some i \<Longrightarrow> j < mx_next m \<Longrightarrow> rl_ch (mx_heap m j) = c \<Longrightarrow> j \<le> i"
    and "mx_next m \<le> j \<Longrightarrow> rl_done (mx_heap m j)"
  using assms by (simp_all add: mux_inv_def)

lemma finish_fields [simp]:
  "mx_channels (channel_finish i m) = mx_channels m" "mx_next (channel_finish i m) = mx_next m"
  "rl_ch (mx_heap (channel_finish i m) j) = rl_ch (mx_heap m j)"
  "rl_done (mx_heap (channel_finish i m) j) = (j = i \<or> rl_done (mx_heap m j))"
  by (simp_all add: channel_finish_def put_channel_def)

text \<open>A step that changes only an inbox.\<close>

lemma inv_inbox: "mux_inv m \<Longrightarrow> mux_inv (put_channel i (mx_heap m i\<lparr>rl_inbox := xs\<rparr>) m)"
  by (simp add: mux_inv_def put_channel_def)

text \<open>A channel that leaves the table.\<close>

lemma inv_unlink:
  assumes "mux_inv m" "rl_ch (mx_heap m i) = c"
  shows "mux_inv (channel_finish i m\<lparr>mx_channels := AList.delete c (mx_channels m)\<rparr>)"
proof (rule mux_invI)
  let ?m = "channel_finish i m\<lparr>mx_channels := AList.delete c (mx_channels m)\<rparr>"
  show "wf_map (mx_channels ?m)" using mux_invD(1) [OF assms(1)] by simp
  fix d k
  assume "map_of (mx_channels ?m) d = Some k"
  then have k: "map_of (mx_channels m) d = Some k" "d \<noteq> c" by (auto simp: delete_conv' split: if_splits)
  have "k \<noteq> i" using mux_invD(2) [OF assms(1) k(1)] k(2) assms(2) by auto
  with mux_invD(2,3) [OF assms(1) k(1)] show "k < mx_next ?m \<and> rl_ch (mx_heap ?m k) = d \<and> \<not> rl_done (mx_heap ?m k) \<and>
      (\<forall>j < mx_next ?m. rl_ch (mx_heap ?m j) = d \<longrightarrow> j \<le> k)" by simp
next
  fix j
  assume "mx_next (channel_finish i m\<lparr>mx_channels := AList.delete c (mx_channels m)\<rparr>) \<le> j"
  with mux_invD(4) [OF assms(1)] show "rl_done (mx_heap (channel_finish i m\<lparr>mx_channels := AList.delete c (mx_channels m)\<rparr>) j)"
    by simp
qed

lemma inv_finish_stray:
  assumes "mux_inv m" "\<And>c. map_of (mx_channels m) c \<noteq> Some i" shows "mux_inv (channel_finish i m)"
proof (rule mux_invI)
  show "wf_map (mx_channels (channel_finish i m))" using mux_invD(1) [OF assms(1)] by simp
  fix d k
  assume k: "map_of (mx_channels (channel_finish i m)) d = Some k"
  then have "k \<noteq> i" using assms(2) by auto
  with k mux_invD(2,3) [OF assms(1), of d k] show "k < mx_next (channel_finish i m) \<and> rl_ch (mx_heap (channel_finish i m) k) = d \<and>
      \<not> rl_done (mx_heap (channel_finish i m) k) \<and>
      (\<forall>j < mx_next (channel_finish i m). rl_ch (mx_heap (channel_finish i m) j) = d \<longrightarrow> j \<le> k)" by simp
qed (use mux_invD(4) [OF assms(1)] in simp)

lemma inv_Close: "mux_inv m \<Longrightarrow> mux_inv (snd (channel_Close i r m))"
proof -
  assume inv: "mux_inv m"
  let ?c = "rl_ch (mx_heap m i)"
  consider "rl_done (mx_heap m i)" | "\<not> rl_done (mx_heap m i)" "map_of (mx_channels m) ?c = Some i"
    | "\<not> rl_done (mx_heap m i)" "map_of (mx_channels m) ?c \<noteq> Some i" by blast
  then show ?thesis
  proof cases
    case 3
    then have "map_of (mx_channels m) d \<noteq> Some i" for d using mux_invD(2) [OF inv, of d i] by auto
    with 3 inv_finish_stray [OF inv] show ?thesis by (simp add: channel_Close_def Let_def)
  qed (use inv inv_unlink [OF inv, of i ?c] in \<open>simp_all add: channel_Close_def Let_def\<close>)
qed

lemma inv_open: "mux_inv m \<Longrightarrow> mux_inv (snd (mux_open c tok m))"
proof -
  assume inv: "mux_inv m"
  let ?i = "mx_next m" and ?new = "\<lparr>rl_ch = c, rl_token = tok, rl_inbox = [], rl_done = False\<rparr>"
  let ?m1 = "(put_channel ?i ?new m)\<lparr>mx_channels := AList.update c ?i (mx_channels m), mx_next := Suc ?i\<rparr>"
  have "mux_inv ?m1"
  proof (rule mux_invI)
    show "wf_map (mx_channels ?m1)" using mux_invD(1) [OF inv] by simp
    fix d k
    assume k: "map_of (mx_channels ?m1) d = Some k"
    show "k < mx_next ?m1 \<and> rl_ch (mx_heap ?m1 k) = d \<and> \<not> rl_done (mx_heap ?m1 k) \<and>
        (\<forall>j < mx_next ?m1. rl_ch (mx_heap ?m1 j) = d \<longrightarrow> j \<le> k)"
    proof (cases "d = c")
      case True
      with k show ?thesis by (auto simp: update_conv' put_channel_def)
    next
      case False
      with k have k: "map_of (mx_channels m) d = Some k" by (simp add: update_conv')
      have "k < ?i" using mux_invD(2) [OF inv k] by simp
      with mux_invD(2,3) [OF inv k] False show ?thesis by (auto simp: put_channel_def less_Suc_eq)
    qed
  next
    fix j
    assume "mx_next ?m1 \<le> j"
    with mux_invD(4) [OF inv, of j] show "rl_done (mx_heap ?m1 j)" by (simp add: put_channel_def)
  qed
  moreover have "map_of (mx_channels ?m1) d \<noteq> Some j" if "map_of (mx_channels m) c = Some j" for d j
    using that mux_invD(2) [OF inv that] mux_invD(2) [OF inv, of d j] by (auto simp: update_conv' split: if_splits)
  ultimately show ?thesis
    by (auto simp: mux_open_def Let_def intro: inv_finish_stray split: option.splits)
qed

lemma inv_remoteClosed: "mux_inv m \<Longrightarrow> mux_inv (remoteClosed c tok m)"
proof (cases "map_of (mx_channels m) c")
  case (Some i)
  assume inv: "mux_inv m"
  have "channel_finish i (m\<lparr>mx_channels := AList.delete c (mx_channels m)\<rparr>) =
      channel_finish i m\<lparr>mx_channels := AList.delete c (mx_channels m)\<rparr>"
    by (simp add: channel_finish_def put_channel_def)
  with inv_unlink [OF inv, of i c] mux_invD(2) [OF inv Some] Some inv show ?thesis by (simp add: remoteClosed_def)
qed (simp add: remoteClosed_def)

lemma finish_all: "mx_channels (fold (\<lambda>(_, i). channel_finish i) ps m) = mx_channels m"
  "mx_next (fold (\<lambda>(_, i). channel_finish i) ps m) = mx_next m"
  "rl_done (mx_heap m j) \<Longrightarrow> rl_done (mx_heap (fold (\<lambda>(_, i). channel_finish i) ps m) j)"
  by (induction ps arbitrary: m) auto

lemma inv_closeAll: "mux_inv m \<Longrightarrow> mux_inv (closeAll m)"
  unfolding closeAll_def by (rule mux_invI) (auto simp: finish_all dest: mux_invD(4))

lemma inv_frame: "mux_inv m \<Longrightarrow> mux_inv (snd (mux_frame b f m))"
  unfolding mux_frame_def mux_deliver_def Let_def
  by (auto split: option.splits prod.splits intro: inv_inbox inv_remoteClosed dest: inv_open inv_Close
    simp: snd_def) (metis inv_open inv_Close snd_conv)+


lemma inv_Read: "mux_inv m \<Longrightarrow> mux_inv (snd (channel_Read p i m))"
  by (auto simp: channel_Read_def Let_def inv_inbox split: list.splits)

interpretation mux: machine mux_step mux_inv
  by unfold_locales (metis inv_frame inv_Read inv_Close inv_closeAll mux_event.exhaust mux_step.simps)

lemma newRelayMux_inv: "mux_inv newRelayMux"
  by (simp add: mux_inv_def newRelayMux_def)

section \<open>Properties\<close>

text \<open>Channel \<open>i\<close> is the open one of number \<open>c\<close>, opened last, and the only effect was on it.\<close>

definition delivered_to :: "relayMux \<Rightarrow> 16 word \<Rightarrow> byte \<Rightarrow> bytes \<Rightarrow> bytes list \<Rightarrow> relayMux \<Rightarrow> nat \<Rightarrow> bool" where
  "delivered_to m c kind payload out m' i \<longleftrightarrow>
     i < mx_next m \<and> rl_ch (mx_heap m i) = c \<and> \<not> rl_done (mx_heap m i) \<and>
     (\<forall>j < mx_next m. rl_ch (mx_heap m j) = c \<longrightarrow> j \<le> i) \<and>
     (if length (rl_inbox (mx_heap m i)) < inboxCapacity
      then out = [] \<and> mx_heap m' i = mx_heap m i\<lparr>rl_inbox := rl_inbox (mx_heap m i) @
        [\<lparr>rm_text = (kind = RelayKindText), rm_data = payload\<rparr>]\<rparr>
      else out = [close_frame (mx_heap m i) ''backlog''] \<and> mx_heap m' i = mx_heap m i\<lparr>rl_done := True\<rparr>)"

text \<open>
  A phone's frames reach only the connection that now has its channel number: in every interleaving of frames,
  reads and closes, a data frame of the relay changes nothing but the channel opened last for its number, if
  that one is still open; there it appends exactly that message behind those already queued, or, if 256 messages wait, it
  closes the channel and tells the relay so, naming this incarnation by its token.
\<close>

theorem frame_reaches_current:
  assumes "m = fold mux_step es newRelayMux" and "c \<noteq> RelayControlChannel"
    and "mux_frame True (RelayFrame c kind payload) m = ((started, out), m')"
  shows "started = None \<and> (\<forall>i. mx_heap m' i \<noteq> mx_heap m i \<longrightarrow> delivered_to m c kind payload out m' i)"
proof -
  have inv: "mux_inv m" unfolding assms(1) by (rule mux.run_inv [OF newRelayMux_inv])
  from assms(2,3) have d: "mux_deliver c kind payload m = (out, m')" "started = None"
    by (auto simp: mux_frame_def ParseRelayFrame_RelayFrame split: prod.splits)
  show ?thesis
  proof (cases "map_of (mx_channels m) c")
    case None
    with d show ?thesis by (simp add: mux_deliver_def)
  next
    case (Some k)
    note f = mux_invD(2) [OF inv Some]
    have last: "\<forall>j < mx_next m. rl_ch (mx_heap m j) = c \<longrightarrow> j \<le> k" using mux_invD(3) [OF inv Some] by blast
    have other: "mx_heap m' i = mx_heap m i" if "i \<noteq> k" for i
      using d(1) Some that by (auto simp: mux_deliver_def Let_def put_channel_def channel_Close_def channel_finish_def
        split: if_splits)
    have this_one: "if length (rl_inbox (mx_heap m k)) < inboxCapacity
        then out = [] \<and> mx_heap m' k = mx_heap m k\<lparr>rl_inbox := rl_inbox (mx_heap m k) @
          [\<lparr>rm_text = (kind = RelayKindText), rm_data = payload\<rparr>]\<rparr>
        else out = [close_frame (mx_heap m k) ''backlog''] \<and> mx_heap m' k = mx_heap m k\<lparr>rl_done := True\<rparr>"
      using d(1) Some f by (auto simp: mux_deliver_def Let_def put_channel_def channel_Close_def channel_finish_def
        split: if_splits)
    have "i = k" if "mx_heap m' i \<noteq> mx_heap m i" for i using other that by blast
    moreover have "delivered_to m c kind payload out m' k" using f last this_one by (simp add: delivered_to_def)
    ultimately show ?thesis using d(2) by blast
  qed
qed

text \<open>Channel 7 is opened twice; the frame reaches the second connection.\<close>

definition demo_open :: "string \<Rightarrow> bytes" where
  "demo_open tok = RelayFrame 0 RelayKindText (MarshalRelayControl \<lparr>rcT = ''open'', rcC = 7, rcToken = tok, rcReason = []\<rparr>)"

lemma demo_opened: "plain tok \<Longrightarrow> mux_frame True (demo_open tok) m = ((Some (fst (mux_open 7 tok m)), []), snd (mux_open 7 tok m))"
  by (simp add: mux_frame_def demo_open_def ParseRelayFrame_RelayFrame RelayControlChannel_def UnmarshalRelayControl_Marshal
    plain_char_def split: prod.split)

theorem frame_reaches_current_witness:
  "let m = fold mux_step [MFrame True (demo_open ''a''), MFrame True (demo_open ''b'')] newRelayMux;
       m' = snd (mux_frame True (RelayFrame 7 1 [42]) m)
   in rl_inbox (mx_heap m' 1) = [\<lparr>rm_text = False, rm_data = [42]\<rparr>] \<and> rl_done (mx_heap m 0)"
proof -
  let ?m = "fold mux_step [MFrame True (demo_open ''a''), MFrame True (demo_open ''b'')] newRelayMux"
  let ?m' = "snd (mux_frame True (RelayFrame 7 1 [42]) ?m)"
  have m: "?m = snd (mux_open 7 ''b'' (snd (mux_open 7 ''a'' newRelayMux)))"
    by (simp add: demo_opened plain_char_def)
  have h: "rl_inbox (mx_heap ?m 1) = []" "rl_done (mx_heap ?m 0)" "map_of (mx_channels ?m) 7 = Some 1"
    unfolding m by (simp_all add: mux_open_def newRelayMux_def put_channel_def channel_finish_def)
  then have "rl_inbox (mx_heap ?m' 1) \<noteq> rl_inbox (mx_heap ?m 1)"
    by (simp add: mux_frame_def ParseRelayFrame_RelayFrame RelayControlChannel_def mux_deliver_def inboxCapacity_def
      put_channel_def Let_def del: fold.simps)
  then have "mx_heap ?m' 1 \<noteq> mx_heap ?m 1" by metis
  moreover obtain st out where "mux_frame True (RelayFrame 7 1 [42]) ?m = ((st, out), ?m')" by (metis prod.collapse)
  moreover have "(7 :: 16 word) \<noteq> RelayControlChannel" by (simp add: RelayControlChannel_def)
  ultimately have "delivered_to ?m 7 1 [42] out ?m' 1" using frame_reaches_current [OF refl] by blast
  then have "rl_inbox (mx_heap ?m' 1) = [\<lparr>rm_text = (1 = RelayKindText), rm_data = [42]\<rparr>]"
    unfolding delivered_to_def h(1) by (simp add: inboxCapacity_def del: fold.simps One_nat_def)
  with h(2) show ?thesis unfolding Let_def by (simp add: RelayKindText_def del: fold.simps)
qed

section \<open>Backing off\<close>

definition backoff_ok :: "gotime \<Rightarrow> bool" where
  "backoff_ok b \<longleftrightarrow> b \<in> {second, 2 * second, 4 * second, 8 * second, 16 * second, 32 * second}"

lemma redial_wait_ok: "backoff_ok b \<Longrightarrow> redial_wait e b = (w, b') \<Longrightarrow>
    backoff_ok w \<and> backoff_ok b' \<and> w \<le> b' \<and> (if e > 60 * second then w = second else w = b)"
  by (auto simp: backoff_ok_def redial_wait_def Let_def second_def split: if_splits)

lemma redial_waits_ok:
  assumes "backoff_ok b"
  shows "(\<forall>w \<in> set (redial_waits b es). backoff_ok w) \<and> length (redial_waits b es) = length es \<and>
    (\<forall>i < length es. (es ! i > 60 * second \<longrightarrow> redial_waits b es ! i = second) \<and>
       (es ! i \<le> 60 * second \<longrightarrow> (if i = 0 then b else redial_waits b es ! (i - 1)) \<le> redial_waits b es ! i))"
  using assms
proof (induction es arbitrary: b)
  case (Cons e es)
  obtain w b' where w: "redial_wait e b = (w, b')" by fastforce
  note k = redial_wait_ok [OF Cons.prems w]
  then have IH: "\<forall>w \<in> set (redial_waits b' es). backoff_ok w" "length (redial_waits b' es) = length es"
    "\<And>i. i < length es \<Longrightarrow> (es ! i > 60 * second \<longrightarrow> redial_waits b' es ! i = second) \<and>
       (es ! i \<le> 60 * second \<longrightarrow> (if i = 0 then b' else redial_waits b' es ! (i - 1)) \<le> redial_waits b' es ! i)"
    using Cons.IH [of b'] by auto
  have "(es ! j \<le> 60 * second \<longrightarrow> (w # redial_waits b' es) ! j \<le> redial_waits b' es ! j)" if "j < length es" for j
    using IH(3) [OF that] k by (cases j) (auto split: if_splits)
  with IH k w show ?case by (auto simp: nth_Cons split: nat.split if_splits)
qed simp

text \<open>
  Redialing backs off within bounds: whatever the lengths of the attempts, every wait of \<open>Run\<close> is between one
  and thirty-two seconds, the wait after an attempt of more than a minute is one second, and otherwise a wait is
  never shorter than the one before it.
\<close>

theorem redial_bounds:
  assumes "i < length es"
  shows "second \<le> redial_waits second es ! i \<and> redial_waits second es ! i \<le> 32 * second \<and>
    (if es ! i > 60 * second then redial_waits second es ! i = second
     else i = 0 \<or> redial_waits second es ! (i - 1) \<le> redial_waits second es ! i)"
proof -
  have "backoff_ok second" by (simp add: backoff_ok_def)
  note k = redial_waits_ok [OF this, of es]
  then have "backoff_ok (redial_waits second es ! i)" using assms by (metis nth_mem)
  then have "second \<le> redial_waits second es ! i \<and> redial_waits second es ! i \<le> 32 * second"
    by (auto simp: backoff_ok_def second_def)
  moreover have "(es ! i > 60 * second \<longrightarrow> redial_waits second es ! i = second) \<and>
      (es ! i \<le> 60 * second \<longrightarrow> (if i = 0 then second else redial_waits second es ! (i - 1)) \<le> redial_waits second es ! i)"
    using k assms by blast
  ultimately show ?thesis by (cases "i = 0") (simp_all add: not_less)
qed

text \<open>Seven attempts that fail at once: the last two waits are 32 seconds, two more than the documented cap.\<close>

theorem redial_bounds_witness:
  "redial_waits second [0, 0, 0, 0, 0, 0, 0] ! 5 = 32 * second \<and>
   redial_waits second [0, 0, 0, 0, 0, 0, 0] ! 5 \<le> redial_waits second [0, 0, 0, 0, 0, 0, 0] ! 6"
  using redial_bounds [of 6 "[0, 0, 0, 0, 0, 0, 0]"] by (simp add: redial_wait_def second_def)

section \<open>Attaching\<close>

text \<open>
  The bridge's answer satisfies the relay: for every challenge the relay can send, \<open>RelayDialer\<close> answers it, and
  \<open>serveBridge\<close>, having parsed the answer, attaches this bridge under its own session id.
\<close>

theorem attach_completes:
  assumes "sig_correct C" "length (priv i) = SeedSize" "length nonce = NonceSize"
    and "fst (allowIP (ConnectionsPerIPPerMinute L) (clientIP remote forwarded (TrustedProxies L)) now (sv_ipRate srv))"
  shows "\<exists>answer m. answer_challenge C i True (MarshalRelayChallenge \<lparr>chT = ''challenge'', chNonce = nonce\<rparr>) = Some answer \<and>
    serveBridge_attach C L remote forwarded now nonce True answer srv = attach_bridge (SessionID C i) (srv\<lparr>sv_ipRate := m\<rparr>)"
proof -
  let ?a = "\<lparr>raT = ''attach'', raS = SessionID C i, raK = Public C i, raSig = SignRelayAttach C i nonce\<rparr>"
  let ?v = "JObj [(''t'', JStr ''challenge''), (''nonce'', Bytes_MarshalJSON nonce)]"
  have "parse_json (render ?v) = Some ?v" by (intro parse_json_render) (auto simp: plain_char_def)
  then have chal: "UnmarshalRelayChallenge (MarshalRelayChallenge \<lparr>chT = ''challenge'', chNonce = nonce\<rparr>) =
      Some \<lparr>chT = ''challenge'', chNonce = nonce\<rparr>"
    by (simp add: UnmarshalRelayChallenge_def MarshalRelayChallenge_def unmarshal_def fill_struct_def field_of_def
      challenge_set_def as_string_def del: render.simps)
  have "plain (SessionID C i)"
    using plain_b64 by (auto simp: SessionID_def SessionIDFor_def list_all_iff dest: in_set_takeD)
  then have "UnmarshalRelayAttach (MarshalRelayAttach ?a) = Some ?a"
    by (intro UnmarshalRelayAttach_Marshal) (simp_all add: plain_char_def)
  moreover note VerifyRelayAttach_honest [OF assms(1-3)]
  moreover obtain m where "allowIP (ConnectionsPerIPPerMinute L) (clientIP remote forwarded (TrustedProxies L)) now (sv_ipRate srv) = (True, m)"
    using assms(4) by (metis prod.collapse)
  ultimately have "serveBridge_attach C L remote forwarded now nonce True (MarshalRelayAttach ?a) srv =
      attach_bridge (SessionID C i) (srv\<lparr>sv_ipRate := m\<rparr>)"
    by (simp add: serveBridge_attach_def)
  moreover have "answer_challenge C i True (MarshalRelayChallenge \<lparr>chT = ''challenge'', chNonce = nonce\<rparr>) = Some (MarshalRelayAttach ?a)"
    by (simp add: answer_challenge_def chal)
  ultimately show ?thesis by blast
qed


theorem attach_completes_witness:
  "\<exists>answer m. answer_challenge toy_crypto \<lparr>priv = replicate 32 5\<rparr> True
       (MarshalRelayChallenge \<lparr>chT = ''challenge'', chNonce = replicate 32 1\<rparr>) = Some answer \<and>
     serveBridge_attach toy_crypto DefaultLimits ''1.2.3.4:5'' [] 0 (replicate 32 1) True answer new_server =
       attach_bridge (SessionID toy_crypto \<lparr>priv = replicate 32 5\<rparr>) (new_server\<lparr>sv_ipRate := m\<rparr>)"
  by (rule attach_completes [OF toy_crypto_laws(3)])
    (simp_all add: SeedSize_def NonceSize_def new_server_def DefaultLimits_def allowIP_def allowKey_def bump_window_def Let_def)

end
