(* ===== verification/Supervisor.thy ===== *)
theory Supervisor
  imports RelayMux Paths
begin

text \<open>
  internal/gateway/supervisor.go: the supervision of the gateway child. The goroutine of \<open>Run\<close> is a phase of the
  state; its selects, the ends of children, the probes of \<open>watch\<close> and the calls of \<open>Stop\<close> are events. A child is a
  number; \<open>su_alive\<close> says which still run. Times are given by the events.
\<close>

section \<open>State\<close>

datatype State = StateStarting | StateReady | StateDown

datatype RestartReason = RestartExited | RestartUnresponsive | RestartStartFailed

record Options =
  op_Python :: string
  op_HermesHome :: string
  op_StartTimeout :: gotime
  op_ProbeInterval :: gotime
  op_StopGrace :: gotime
  op_ProbeFailures :: int

definition with_defaults :: "Options \<Rightarrow> Options" where
  "with_defaults o1 = o1\<lparr>
     op_StartTimeout := (if op_StartTimeout o1 = 0 then 90 * second else op_StartTimeout o1),
     op_StopGrace := (if op_StopGrace o1 = 0 then 5 * second else op_StopGrace o1),
     op_ProbeInterval := (if op_ProbeInterval o1 = 0 then 15 * second else op_ProbeInterval o1),
     op_ProbeFailures := (if op_ProbeFailures o1 = 0 then 3 else op_ProbeFailures o1)\<rparr>"

text \<open>Where \<open>Run\<close> is: about to start a child; waiting for it to be ready; supervising it, with its port, the
  consecutive failures of the watch and whether the watch has killed it; waiting for it to end, with the reason
  \<open>runOnce\<close> will give; waiting to restart; returned.\<close>

datatype phase =
    RunNext
  | RunStarting nat
  | RunReady nat int int bool
  | RunEnding nat RestartReason
  | RunBackoff
  | RunReturned

record Supervisor =
  su_token :: string
  su_state :: State
  su_port :: int
  su_watchers :: "(nat \<times> State list) list"
  su_since :: gotime
  su_lastProbeOK :: "gotime option"
  su_restarts :: nat
  su_lastRestart :: "RestartReason option"
  su_stop :: bool
  su_cmd :: "nat option"
  su_phase :: phase
  su_backoff :: gotime
  su_started :: gotime
  su_alive :: "nat list"
  su_next :: nat
  su_next_watcher :: nat

text \<open>\<open>New\<close> from its options and random bytes.\<close>

definition New_supervisor :: "Options \<Rightarrow> rng \<Rightarrow> gotime \<Rightarrow> (Options \<times> Supervisor) option" where
  "New_supervisor opts r now =
     (if op_Python opts = [] then None
      else case read_full 32 r of
        None \<Rightarrow> None
      | Some (tok, _) \<Rightarrow> Some (with_defaults opts, \<lparr>su_token = hex_encode tok, su_state = StateDown, su_port = 0,
          su_watchers = [], su_since = now, su_lastProbeOK = None, su_restarts = 0, su_lastRestart = None, su_stop = False,
          su_cmd = None, su_phase = RunNext, su_backoff = second, su_started = now, su_alive = [], su_next = 0,
          su_next_watcher = 0\<rparr>))"

record Health =
  he_State :: State
  he_Since :: gotime
  he_LastProbeOK :: "gotime option"
  he_Restarts :: nat
  he_LastRestartReason :: "RestartReason option"

definition get_Health :: "Supervisor \<Rightarrow> Health" where
  "get_Health s = \<lparr>he_State = su_state s, he_Since = su_since s, he_LastProbeOK = su_lastProbeOK s,
     he_Restarts = su_restarts s, he_LastRestartReason = su_lastRestart s\<rparr>"

definition Port :: "Supervisor \<Rightarrow> int \<times> bool" where
  "Port s = (su_port s, su_state s = StateReady)"

definition BaseURL :: "Supervisor \<Rightarrow> string \<times> bool" where
  "BaseURL s = (''http://127.0.0.1:'' @ int_lit (fst (Port s)), snd (Port s))"

definition watchBuffer :: nat where "watchBuffer = 8"

definition Watch :: "Supervisor \<Rightarrow> nat \<times> Supervisor" where
  "Watch s = (su_next_watcher s, s\<lparr>su_watchers := su_watchers s @ [(su_next_watcher s, [])], su_next_watcher := Suc (su_next_watcher s)\<rparr>)"

fun drop_watcher :: "nat \<Rightarrow> (nat \<times> State list) list \<Rightarrow> (nat \<times> State list) list" where
  "drop_watcher w [] = []"
| "drop_watcher w (x # xs) = (if fst x = w then xs else x # drop_watcher w xs)"

definition Unwatch :: "nat \<Rightarrow> Supervisor \<Rightarrow> Supervisor" where
  "Unwatch w s = s\<lparr>su_watchers := drop_watcher w (su_watchers s)\<rparr>"

text \<open>A watcher whose buffer is full misses the state.\<close>

definition setState :: "gotime \<Rightarrow> State \<Rightarrow> int \<Rightarrow> Supervisor \<Rightarrow> Supervisor" where
  "setState now st port s = s\<lparr>su_since := (if st \<noteq> su_state s then now else su_since s), su_state := st, su_port := port,
     su_watchers := map (\<lambda>(w, buf). (w, if length buf < watchBuffer then buf @ [st] else buf)) (su_watchers s)\<rparr>"

definition recordRestart :: "RestartReason \<Rightarrow> Supervisor \<Rightarrow> Supervisor" where
  "recordRestart reason s = s\<lparr>su_restarts := Suc (su_restarts s), su_lastRestart := Some reason\<rparr>"

text \<open>The probe: what it sends and what its status means. \<open>None\<close> is a transport error.\<close>

definition probe_target :: "int \<Rightarrow> string" where
  "probe_target port = ''http://127.0.0.1:'' @ int_lit port @ ''/api/sessions?limit=1''"

definition probe :: "int option \<Rightarrow> bool" where
  "probe status \<longleftrightarrow> status = Some 200"

definition probeAndRecord :: "gotime \<Rightarrow> int option \<Rightarrow> Supervisor \<Rightarrow> bool \<times> Supervisor" where
  "probeAndRecord now status s = (if probe status then (True, s\<lparr>su_lastProbeOK := Some now\<rparr>) else (False, s))"

definition ProbeNow :: "gotime \<Rightarrow> int option \<Rightarrow> Supervisor \<Rightarrow> bool \<times> Supervisor" where
  "ProbeNow now status s = (if snd (Port s) then probeAndRecord now status s else (False, s))"

section \<open>The child\<close>

definition child_args :: "string list" where
  "child_args = [''-m'', ''hermes_cli.main'', ''serve'', ''--host'', ''127.0.0.1'', ''--port'', ''0'', ''--skip-build'']"

definition child_env :: "Options \<Rightarrow> string \<Rightarrow> string list \<Rightarrow> string \<Rightarrow> string list" where
  "child_env opts tok environ path =
     (let venv = rooted (butlast (butlast (Clean (op_Python opts)))) in
      environ @ [''HERMES_HOME='' @ op_HermesHome opts, ''HERMES_DASHBOARD_PUBLIC_URL=http://127.0.0.1'',
        ''HERMES_DASHBOARD_SESSION_TOKEN='' @ tok, ''VIRTUAL_ENV='' @ venv,
        ''PATH='' @ rooted (Clean (venv @ ''/bin'')) @ '':'' @ path, ''PYTHONUNBUFFERED=1''])"

text \<open>\<open>readyRe\<close>: the digits of the leftmost match in a line.\<close>

definition ready_here :: "string \<Rightarrow> string option" where
  "ready_here s =
     (let try_prefix = (\<lambda>p. if has_prefix s p \<and> takeWhile is_digit (drop (length p) s) \<noteq> []
        then Some (takeWhile is_digit (drop (length p) s)) else None) in
      case try_prefix ''HERMES_BACKEND_READY port='' of
        Some d \<Rightarrow> Some d
      | None \<Rightarrow> try_prefix ''HERMES_DASHBOARD_READY port='')"

fun readyRe :: "string \<Rightarrow> string option" where
  "readyRe [] = None"
| "readyRe (c # s) = (case ready_here (c # s) of Some d \<Rightarrow> Some d | None \<Rightarrow> readyRe s)"

text \<open>\<open>pump\<close> on the standard output: the port it reports; only the first matching line counts.\<close>

fun pump :: "string list \<Rightarrow> int option" where
  "pump [] = None"
| "pump (line # rest) = (case readyRe line of Some d \<Rightarrow> parse_int64 d | None \<Rightarrow> pump rest)"

section \<open>The watch\<close>

text \<open>\<open>watch\<close> over the results of its probes: the number of the probe after which it returns true.\<close>

fun watch_loop :: "int \<Rightarrow> int \<Rightarrow> nat \<Rightarrow> bool list \<Rightarrow> nat option" where
  "watch_loop limit failures n [] = None"
| "watch_loop limit failures n (ok # oks) =
     (if ok then watch_loop limit 0 (Suc n) oks
      else if failures + 1 \<ge> limit then Some (Suc n)
      else watch_loop limit (failures + 1) (Suc n) oks)"

section \<open>Supervision\<close>

datatype sup_event =
    SupStart gotime bool
  | SupPort gotime int "int option"
  | SupExit gotime nat
  | SupStartTimeout
  | SupStopSeen gotime
  | SupTick gotime "int option"
  | SupBackoffOver gotime
  | SupProbeNow gotime "int option"
  | SupStopCall
  | SupStopKill "nat option"
  | SupWatch
  | SupUnwatch nat

text \<open>The end of \<open>runOnce\<close> in \<open>Run\<close>.\<close>

definition attempt_ended :: "gotime \<Rightarrow> RestartReason \<Rightarrow> Supervisor \<Rightarrow> Supervisor" where
  "attempt_ended now reason s =
     (if su_stop s then s\<lparr>su_phase := RunReturned\<rparr>
      else (setState now StateDown 0 (recordRestart reason s))
        \<lparr>su_phase := RunBackoff,
         su_backoff := (if now - su_started s > 60 * second then second else su_backoff s)\<rparr>)"

definition kill :: "nat \<Rightarrow> Supervisor \<Rightarrow> Supervisor" where
  "kill c s = s\<lparr>su_alive := removeAll c (su_alive s)\<rparr>"

text \<open>A killed child ends; a child that is interrupted may go on, so an interrupt changes nothing here. \<open>SupExit\<close> is
  \<open>cmd.Wait\<close> returning: of a killed child, or of one that ends by itself.\<close>

definition child_exit :: "gotime \<Rightarrow> nat \<Rightarrow> Supervisor \<Rightarrow> Supervisor" where
  "child_exit now c s =
     (let s' = kill c s in
      case su_phase s of
        RunStarting d \<Rightarrow> if d = c then attempt_ended now RestartStartFailed s' else s'
      | RunReady d port failures unresponsive \<Rightarrow>
          if d = c then attempt_ended now (if unresponsive then RestartUnresponsive else RestartExited) s' else s'
      | RunEnding d reason \<Rightarrow> if d = c then attempt_ended now reason s' else s'
      | _ \<Rightarrow> s')"

definition start_child :: "gotime \<Rightarrow> bool \<Rightarrow> Supervisor \<Rightarrow> Supervisor" where
  "start_child now ok s =
     (let s1 = (setState now StateStarting 0 s)\<lparr>su_started := now\<rparr>; c = su_next s in
      if ok then s1\<lparr>su_cmd := Some c, su_phase := RunStarting c, su_alive := c # su_alive s, su_next := Suc c\<rparr>
      else attempt_ended now RestartStartFailed s1)"

fun sup_step :: "Options \<Rightarrow> sup_event \<Rightarrow> Supervisor \<Rightarrow> Supervisor" where
  "sup_step opts (SupStart now ok) s = (if su_phase s = RunNext then start_child now ok s else s)"
| "sup_step opts (SupPort now port status) s = (case su_phase s of
     RunStarting c \<Rightarrow>
       (case probeAndRecord now status s of
          (True, s1) \<Rightarrow> (setState now StateReady port s1)\<lparr>su_phase := RunReady c port 0 False\<rparr>
        | (False, s1) \<Rightarrow> (kill c s1)\<lparr>su_phase := RunEnding c RestartStartFailed\<rparr>)
   | _ \<Rightarrow> s)"
| "sup_step opts (SupExit now c) s = child_exit now c s"
| "sup_step opts SupStartTimeout s = (case su_phase s of
     RunStarting c \<Rightarrow> (kill c s)\<lparr>su_phase := RunEnding c RestartStartFailed\<rparr> | _ \<Rightarrow> s)"
| "sup_step opts (SupStopSeen now) s =
     (if \<not> su_stop s then s
      else case su_phase s of
        RunStarting c \<Rightarrow> s\<lparr>su_phase := RunEnding c RestartExited\<rparr>
      | RunBackoff \<Rightarrow> s\<lparr>su_phase := RunReturned\<rparr>
      | _ \<Rightarrow> s)"
| "sup_step opts (SupTick now status) s = (case su_phase s of
     RunReady c port failures unresponsive \<Rightarrow>
       if su_stop s \<or> unresponsive then s
       else (case probeAndRecord now status s of
           (True, s1) \<Rightarrow> s1\<lparr>su_phase := RunReady c port 0 False\<rparr>
         | (False, s1) \<Rightarrow>
             if failures + 1 \<ge> op_ProbeFailures opts
             then (kill c s1)\<lparr>su_phase := RunReady c port (failures + 1) True\<rparr>
             else s1\<lparr>su_phase := RunReady c port (failures + 1) False\<rparr>)
   | _ \<Rightarrow> s)"
| "sup_step opts (SupBackoffOver now) s =
     (if su_phase s = RunBackoff
      then s\<lparr>su_phase := RunNext, su_backoff := (if su_backoff s < 30 * second then su_backoff s * 2 else su_backoff s)\<rparr>
      else s)"
| "sup_step opts (SupProbeNow now status) s = snd (ProbeNow now status s)"
| "sup_step opts SupStopCall s = s\<lparr>su_stop := True\<rparr>"
| "sup_step opts (SupStopKill c) s = (if su_stop s then (case c of Some d \<Rightarrow> kill d s | None \<Rightarrow> s) else s)"
| "sup_step opts SupWatch s = snd (Watch s)"
| "sup_step opts (SupUnwatch w) s = Unwatch w s"

text \<open>\<open>Stop\<close> closes \<open>stop\<close>, then reads \<open>cmd\<close>; after the grace period it kills what it read.\<close>

definition Stop :: "Options \<Rightarrow> sup_event list \<Rightarrow> sup_event list \<Rightarrow> Supervisor \<Rightarrow> Supervisor" where
  "Stop opts before_read grace s =
     (let s1 = fold (sup_step opts) before_read (sup_step opts SupStopCall s) in
      sup_step opts (SupStopKill (su_cmd s1)) (fold (sup_step opts) grace s1))"

section \<open>Finding the interpreter\<close>

text \<open>The launcher's quoted path of the form that the regular expression of \<open>FindPython\<close> asks for.\<close>

fun launcher_python :: "string \<Rightarrow> string option" where
  "launcher_python [] = None"
| "launcher_python (c # s) =
     (let quoted = takeWhile (\<lambda>x. x \<noteq> CHR 0x22) s in
      if c = CHR 0x22 \<and> List.member s (CHR 0x22) \<and>
         has_suffix (rev (dropWhile (\<lambda>x. is_digit x \<or> x = CHR ''.'') (rev quoted))) ''venv/bin/python''
      then Some quoted else launcher_python s)"

definition FindPython :: "string \<Rightarrow> string option \<Rightarrow> (string \<Rightarrow> bool) \<Rightarrow> (string \<Rightarrow> bool) \<Rightarrow> string option" where
  "FindPython hermesHome launcher is_file imports_hermes =
     find (\<lambda>c. is_file c \<and> imports_hermes c)
       (rooted (Clean (hermesHome @ ''/hermes-agent/venv/bin/python'')) #
        (case launcher of None \<Rightarrow> [] | Some raw \<Rightarrow> (case launcher_python raw of None \<Rightarrow> [] | Some p \<Rightarrow> [p])))"

end
