(* ===== verification/SupervisorSafety.thy ===== *)
theory SupervisorSafety
  imports Supervisor
begin

text \<open>What the supervisor of internal/gateway/supervisor.go guarantees.\<close>

section \<open>One child at a time\<close>

fun phase_child :: "phase \<Rightarrow> nat option" where
  "phase_child (RunStarting c) = Some c"
| "phase_child (RunReady c port failures unresponsive) = Some c"
| "phase_child (RunEnding c reason) = Some c"
| "phase_child _ = None"

definition child_ok :: "Supervisor \<Rightarrow> bool" where
  "child_ok s \<longleftrightarrow> (case phase_child (su_phase s) of
     None \<Rightarrow> su_alive s = []
   | Some c \<Rightarrow> set (su_alive s) \<subseteq> {c} \<and> length (su_alive s) \<le> 1 \<and> su_cmd s = Some c)"

definition ready_ok :: "Supervisor \<Rightarrow> bool" where
  "ready_ok s \<longleftrightarrow> (su_state s = StateReady \<longrightarrow>
     (\<exists>c f u. su_phase s = RunReady c (su_port s) f u \<and> su_lastProbeOK s \<noteq> None) \<or> su_stop s \<and> su_phase s = RunReturned)"

definition sup_inv :: "Supervisor \<Rightarrow> bool" where
  "sup_inv s \<longleftrightarrow> child_ok s \<and> ready_ok s"

lemma setState_fields [simp]:
  "su_alive (setState now st p s) = su_alive s" "su_phase (setState now st p s) = su_phase s"
  "su_cmd (setState now st p s) = su_cmd s" "su_state (setState now st p s) = st" "su_port (setState now st p s) = p"
  "su_lastProbeOK (setState now st p s) = su_lastProbeOK s" "su_stop (setState now st p s) = su_stop s"
  by (simp_all add: setState_def)

lemma recordRestart_fields [simp]:
  "su_alive (recordRestart r s) = su_alive s" "su_phase (recordRestart r s) = su_phase s" "su_stop (recordRestart r s) = su_stop s"
  by (simp_all add: recordRestart_def)

lemma kill_fields [simp]:
  "su_phase (kill c s) = su_phase s" "su_cmd (kill c s) = su_cmd s" "su_state (kill c s) = su_state s"
  "su_port (kill c s) = su_port s" "su_lastProbeOK (kill c s) = su_lastProbeOK s" "su_stop (kill c s) = su_stop s"
  "su_alive (kill c s) = removeAll c (su_alive s)"
  by (simp_all add: kill_def)

lemma probe_fields:
  assumes "probeAndRecord now status s = (ok, s')"
  shows "su_alive s' = su_alive s" "su_phase s' = su_phase s" "su_cmd s' = su_cmd s" "su_state s' = su_state s"
    "su_port s' = su_port s" "su_stop s' = su_stop s" "ok \<Longrightarrow> su_lastProbeOK s' \<noteq> None"
    "su_lastProbeOK s \<noteq> None \<Longrightarrow> su_lastProbeOK s' \<noteq> None"
  using assms by (auto simp: probeAndRecord_def split: if_splits)

lemma inv_kill: "sup_inv s \<Longrightarrow> sup_inv (kill c s)"
  by (auto simp: sup_inv_def child_ok_def ready_ok_def split: option.splits intro: order.trans [OF length_removeAll_less_eq])

lemma inv_ended:
  assumes "sup_inv s" "su_alive s = []" shows "sup_inv (attempt_ended now r s)"
  using assms
  by (auto simp: attempt_ended_def sup_inv_def child_ok_def ready_ok_def)

lemma removeAll_only: "set xs \<subseteq> {c} \<Longrightarrow> removeAll c xs = []"
  by (induction xs) auto

lemma inv_exit: "sup_inv s \<Longrightarrow> sup_inv (child_exit now c s)"
proof -
  assume inv: "sup_inv s"
  have "su_alive (kill c s) = []" if "phase_child (su_phase s) = Some c"
    using that inv by (auto simp: sup_inv_def child_ok_def removeAll_only)
  then show ?thesis
    using inv_kill [OF inv, of c] inv_ended [of "kill c s"]
    by (auto simp: child_exit_def Let_def split: phase.splits)
qed

lemma sup_inv_start: "sup_inv s \<Longrightarrow> su_phase s = RunNext \<Longrightarrow> sup_inv (start_child now ok s)"
  by (auto simp: start_child_def Let_def sup_inv_def child_ok_def ready_ok_def attempt_ended_def)

lemma inv_port: "sup_inv s \<Longrightarrow> sup_inv (sup_step opts (SupPort now port status) s)"
proof -
  assume inv: "sup_inv s"
  obtain ok s1 where p: "probeAndRecord now status s = (ok, s1)" by fastforce
  note f = probe_fields [OF p]
  show ?thesis
    using inv p f by (cases ok; cases "su_phase s")
      (auto simp: sup_inv_def child_ok_def ready_ok_def intro: order.trans [OF length_removeAll_less_eq])
qed

lemma inv_tick: "sup_inv s \<Longrightarrow> sup_inv (sup_step opts (SupTick now status) s)"
proof -
  assume inv: "sup_inv s"
  obtain ok s1 where p: "probeAndRecord now status s = (ok, s1)" by fastforce
  note f = probe_fields [OF p]
  show ?thesis
    using inv p f by (cases ok; cases "su_phase s")
      (auto simp: sup_inv_def child_ok_def ready_ok_def intro: order.trans [OF length_removeAll_less_eq])
qed

lemma inv_plain:
  "sup_inv s \<Longrightarrow> sup_inv (sup_step opts SupStartTimeout s)"
  "sup_inv s \<Longrightarrow> sup_inv (sup_step opts (SupStopSeen now) s)"
  "sup_inv s \<Longrightarrow> sup_inv (sup_step opts (SupBackoffOver now) s)"
  "sup_inv s \<Longrightarrow> sup_inv (sup_step opts SupStopCall s)"
  "sup_inv s \<Longrightarrow> sup_inv (sup_step opts SupWatch s)"
  "sup_inv s \<Longrightarrow> sup_inv (sup_step opts (SupUnwatch w) s)"
  by (auto simp: sup_inv_def child_ok_def ready_ok_def Watch_def Unwatch_def split: phase.splits option.splits
    intro: order.trans [OF length_removeAll_less_eq])

lemma inv_probe_now: "sup_inv s \<Longrightarrow> sup_inv (sup_step opts (SupProbeNow now status) s)"
proof -
  assume inv: "sup_inv s"
  obtain ok s1 where p: "probeAndRecord now status s = (ok, s1)" by fastforce
  show ?thesis using inv p probe_fields [OF p] by (auto simp: ProbeNow_def sup_inv_def child_ok_def ready_ok_def split: option.splits)
qed

interpretation supervision: machine "sup_step opts" sup_inv
proof unfold_locales
  fix s e
  assume inv: "sup_inv s"
  show "sup_inv (sup_step opts e s)"
  proof (cases e)
    case (SupStart now ok)
    with inv sup_inv_start show ?thesis by simp
  next
    case (SupExit now c)
    with inv inv_exit show ?thesis by simp
  next
    case (SupStopKill c)
    with inv inv_kill show ?thesis by (cases c) simp_all
  qed (use inv inv_port inv_tick inv_plain inv_probe_now in \<open>simp_all del: sup_step.simps\<close>)
qed

lemma New_supervisor_inv: "New_supervisor opts r now = Some (opts', s) \<Longrightarrow> sup_inv s"
  by (auto simp: New_supervisor_def sup_inv_def child_ok_def ready_ok_def split: option.splits if_splits)


definition demo_options :: Options where
  "demo_options = \<lparr>op_Python = ''/v/bin/python'', op_HermesHome = ''/h'', op_StartTimeout = 0, op_ProbeInterval = 0, op_StopGrace = 0,
     op_ProbeFailures = 0\<rparr>"



section \<open>The watch\<close>

text \<open>The last \<open>k\<close> of the first \<open>n\<close> probes failed.\<close>

definition misses :: "bool list \<Rightarrow> nat \<Rightarrow> nat \<Rightarrow> bool" where
  "misses oks k n \<longleftrightarrow> k \<le> n \<and> n \<le> length oks \<and> list_all Not (drop (n - k) (take n oks))"

lemma misses_Suc: "n < length oks \<Longrightarrow> misses oks (Suc k) (Suc n) \<longleftrightarrow> \<not> oks ! n \<and> misses oks k n"
  by (auto simp: misses_def take_Suc_conv_app_nth)

lemma misses_le: "misses oks k n \<Longrightarrow> j \<le> k \<Longrightarrow> misses oks j n"
proof -
  assume m: "misses oks k n" and j: "j \<le> k"
  have "drop (n - j) (take n oks) = drop (k - j) (drop (n - k) (take n oks))"
    using m j by (simp add: misses_def)
  then have "set (drop (n - j) (take n oks)) \<subseteq> set (drop (n - k) (take n oks))" by (metis set_drop_subset)
  then have "list_all Not (drop (n - k) (take n oks)) \<Longrightarrow> list_all Not (drop (n - j) (take n oks))"
    unfolding list_all_iff by blast
  with m j show ?thesis unfolding misses_def by linarith
qed

lemma watch_loop_from:
  assumes "0 < limit" "f < limit" "misses oks f n" "n = length oks \<or> \<not> misses oks (Suc f) n"
    "\<And>m. m \<le> n \<Longrightarrow> \<not> misses oks limit m" "\<not> misses oks (Suc f) n"
  shows "watch_loop (int limit) (int f) n (drop n oks) = Some k \<longleftrightarrow>
    misses oks limit k \<and> (\<forall>m < k. \<not> misses oks limit m)"
  using assms
proof (induction "length oks - n" arbitrary: f n)
  case 0
  then have "length oks \<le> n" by simp
  moreover have "n \<le> length oks" using 0 by (simp add: misses_def)
  ultimately have "drop n oks = []" "\<not> misses oks limit k" using 0 by (auto simp: misses_def)
  then show ?case by simp
next
  case (Suc d)
  then have n: "n < length oks" by linarith
  then have dr: "drop n oks = oks ! n # drop (Suc n) oks" by (simp add: Cons_nth_drop_Suc)
  have IH: "watch_loop (int limit) (int g) (Suc n) (drop (Suc n) oks) = Some k \<longleftrightarrow>
      misses oks limit k \<and> (\<forall>m < k. \<not> misses oks limit m)"
    if "g < limit" "misses oks g (Suc n)" "\<not> misses oks (Suc g) (Suc n)" "\<not> misses oks limit (Suc n)" for g
    using that Suc.hyps Suc.prems n by (intro Suc.hyps(1)) (auto simp: le_Suc_eq)
  show ?case
  proof (cases "oks ! n")
    case True
    then have "\<not> misses oks (Suc g) (Suc n)" for g by (simp add: misses_Suc n)
    moreover from this have "\<not> misses oks limit (Suc n)" using Suc.prems(1) by (metis gr0_implies_Suc)
    moreover have "misses oks 0 (Suc n)" using n by (simp add: misses_def)
    ultimately have "watch_loop (int limit) (int 0) (Suc n) (drop (Suc n) oks) = Some k \<longleftrightarrow>
        misses oks limit k \<and> (\<forall>m < k. \<not> misses oks limit m)"
      using Suc.prems(1) by (intro IH) simp_all
    with True dr show ?thesis by simp
  next
    case False
    have m: "misses oks (Suc f) (Suc n)" "\<not> misses oks (Suc (Suc f)) (Suc n)"
      using False Suc.prems n by (simp_all add: misses_Suc)
    show ?thesis
    proof (cases "Suc f = limit")
      case True
      then have "watch_loop (int limit) (int f) n (drop n oks) = Some (Suc n)" using False dr by simp
      moreover have "misses oks limit (Suc n)" using m True by simp
      moreover have "k = Suc n \<longleftrightarrow> misses oks limit k \<and> (\<forall>m < k. \<not> misses oks limit m)"
        using Suc.prems(5) \<open>misses oks limit (Suc n)\<close> by (metis less_Suc_eq_le linorder_neqE_nat)
      ultimately show ?thesis by auto
    next
      case False
      then have g: "Suc f < limit" using Suc.prems(2) by simp
      then have "\<not> misses oks limit (Suc n)" using m(2) misses_le [of oks limit "Suc n" "Suc (Suc f)"] by auto
      with IH [OF g m] g \<open>\<not> oks ! n\<close> dr show ?thesis by (simp add: add.commute)
    qed
  qed
qed

text \<open>
  The watch ends the child exactly when it should: over any sequence of probes, \<open>watch\<close> returns true after probe
  \<open>k\<close> if and only if the last \<open>ProbeFailures\<close> probes up to \<open>k\<close> all failed and that was so for no earlier \<open>k\<close>. An
  answered probe in between always saves the child.
\<close>

theorem watch_exact:
  assumes "0 < limit"
  shows "watch_loop (int limit) 0 0 oks = Some k \<longleftrightarrow> misses oks limit k \<and> (\<forall>m < k. \<not> misses oks limit m)"
proof -
  have "watch_loop (int limit) (int 0) 0 (drop 0 oks) = Some k \<longleftrightarrow> misses oks limit k \<and> (\<forall>m < k. \<not> misses oks limit m)"
    using assms by (intro watch_loop_from) (auto simp: misses_def)
  then show ?thesis by simp
qed

theorem watch_exact_witness:
  "watch_loop (int 2) 0 0 [False, True, False, False, False] = Some 4 \<and> misses [False, True, False, False, False] 2 4"
  using watch_exact [of 2 "[False, True, False, False, False]" 4] by simp

section \<open>Stopping\<close>

lemma sup_step_returned: "su_phase s = RunReturned \<Longrightarrow> su_phase (sup_step opts e s) = RunReturned"
  by (cases e) (auto simp: child_exit_def Let_def ProbeNow_def probeAndRecord_def Watch_def Unwatch_def split: option.splits)

lemma stop_stays: "su_stop s \<Longrightarrow> su_stop (sup_step opts e s)"
  by (cases e) (auto simp: start_child_def child_exit_def attempt_ended_def Let_def ProbeNow_def probeAndRecord_def Watch_def Unwatch_def
    setState_def recordRestart_def kill_def split: phase.splits option.splits)

definition winding_down :: "nat \<Rightarrow> Supervisor \<Rightarrow> bool" where
  "winding_down c s \<longleftrightarrow> su_stop s \<and> sup_inv s \<and> (phase_child (su_phase s) = Some c \<or> su_phase s = RunReturned)"

lemma winding_step: "winding_down c s \<Longrightarrow> winding_down c (sup_step opts e s)"
proof -
  assume w: "winding_down c s"
  then have "su_stop s" "sup_inv s" "su_phase s \<noteq> RunNext" "su_phase s \<noteq> RunBackoff" by (auto simp: winding_down_def)
  moreover have "phase_child (su_phase (sup_step opts e s)) = Some c \<or> su_phase (sup_step opts e s) = RunReturned"
    using w by (cases e; cases "su_phase s")
      (auto simp: winding_down_def child_exit_def attempt_ended_def Let_def ProbeNow_def probeAndRecord_def Watch_def Unwatch_def
        split: option.splits)
  ultimately show ?thesis using supervision.step_inv stop_stays by (simp add: winding_down_def)
qed

lemma winding_run: "winding_down c s \<Longrightarrow> winding_down c (fold (sup_step opts) es s)"
  by (induction es arbitrary: s) (auto intro: winding_step)

text \<open>
  Stopping leaves no child behind: in every reachable state in which \<open>Run\<close> has a child, whatever happens before
  \<open>Stop\<close> reads the command and during its grace period, once its kill is done no child is alive, even one that ignores
  the interrupt, and \<open>Run\<close> starts no other.
\<close>

theorem stop_ends_child:
  assumes "New_supervisor opts r now = Some (opts', s0)" and "s = fold (sup_step opts') es s0"
    and "phase_child (su_phase s) = Some c"
  shows "su_alive (Stop opts' before_read grace s) = [] \<and> su_stop (Stop opts' before_read grace s)"
proof -
  have inv: "sup_inv s" unfolding assms(2) by (rule supervision.run_inv [OF New_supervisor_inv [OF assms(1)]])
  then have "winding_down c (sup_step opts' SupStopCall s)"
    using assms(3) inv_plain(4) [OF inv, of opts'] by (simp add: winding_down_def del: sup_step.simps) simp
  note w1 = winding_run [OF this, of opts' before_read]
  let ?s1 = "fold (sup_step opts') before_read (sup_step opts' SupStopCall s)"
  note w2 = winding_run [OF w1, of opts' grace]
  let ?s2 = "fold (sup_step opts') grace ?s1"
  have "su_alive ?s2 = [] \<or> su_cmd ?s1 = Some c"
  proof (cases "phase_child (su_phase ?s1) = Some c")
    case True
    with w1 show ?thesis by (auto simp: winding_down_def sup_inv_def child_ok_def)
  next
    case False
    have returned: "su_phase t = RunReturned \<Longrightarrow> su_phase (fold (sup_step opts') fs t) = RunReturned" for t fs
      by (induction fs arbitrary: t)
        (use sup_step_returned in \<open>auto simp del: sup_step.simps\<close>)
    from False w1 have "su_phase ?s1 = RunReturned" by (simp add: winding_down_def)
    from returned [OF this] w2 show ?thesis by (auto simp: winding_down_def sup_inv_def child_ok_def)
  qed
  moreover have "set (su_alive ?s2) \<subseteq> {c}"
    using w2 by (auto simp: winding_down_def sup_inv_def child_ok_def split: option.splits)
  moreover have "su_stop ?s2" using w2 by (simp add: winding_down_def)
  ultimately show ?thesis by (auto simp: Stop_def Let_def removeAll_only split: option.splits)
qed

theorem stop_ends_child_witness:
  "\<exists>opts s0. New_supervisor demo_options (replicate 32 1) 0 = Some (opts, s0) \<and>
     (let s = fold (sup_step opts) [SupStart 1 True, SupPort 2 8123 (Some 200)] s0 in
      su_alive s = [0] \<and> su_alive (Stop opts [] [SupTick 3 (Some 500)] s) = [])"
proof -
  obtain opts s0 where n: "New_supervisor demo_options (replicate 32 1) 0 = Some (opts, s0)"
    by (auto simp: New_supervisor_def demo_options_def read_full_def)
  then have p: "su_phase s0 = RunNext" "su_alive s0 = []" "su_next s0 = 0"
    by (auto simp: New_supervisor_def split: option.splits if_splits)
  let ?s = "fold (sup_step opts) [SupStart 1 True, SupPort 2 8123 (Some 200)] s0"
  have c: "phase_child (su_phase ?s) = Some 0" and a: "su_alive ?s = [0]"
    using p by (simp_all add: start_child_def probeAndRecord_def probe_def Let_def)
  from stop_ends_child [OF n refl c, of "[]" "[SupTick 3 (Some 500)]"] n a show ?thesis
    unfolding Let_def by blast
qed

text \<open>Without a child when \<open>Stop\<close> reads the command, a child that \<open>Run\<close> is just starting is not killed.\<close>

lemma stop_misses_starting_child:
  assumes "New_supervisor opts r now = Some (opts', s0)"
  shows "su_alive (Stop opts' [] [SupStart 1 True, SupStopSeen 2] s0) = [0]"
  using assms by (auto simp: Stop_def New_supervisor_def start_child_def Let_def setState_def split: option.splits if_splits)

end
