(* ===== verification/PushAlerts.thy ===== *)
theory PushAlerts
  imports JsonQuote
begin

text \<open>
  internal/push/config.go, apns.go and the classification of watcher.go: which gateway events become alerts, what an
  alert says, and how it is sent to APNs. \<open>signES256\<close> over the key is a parameter.
\<close>

section \<open>Configuration\<close>

record PushConfig =
  pc_TeamID :: string
  pc_KeyID :: string
  pc_KeyPath :: string
  pc_BundleID :: string

definition Validate :: "PushConfig \<Rightarrow> string option" where
  "Validate c =
     (if length (pc_TeamID c) \<noteq> 10 then Some ''team id must be 10 characters''
      else if length (pc_KeyID c) \<noteq> 10 then Some ''key id must be 10 characters''
      else if pc_KeyPath c = [] then Some ''key path is required''
      else if pc_BundleID c = [] then Some ''bundle id is required''
      else None)"

definition config_names :: "string list" where
  "config_names = [''team_id'', ''key_id'', ''key_path'', ''bundle_id'']"

definition config_set :: "string \<Rightarrow> json \<Rightarrow> PushConfig \<Rightarrow> PushConfig option" where
  "config_set f v c =
     (if f = ''team_id'' then map_option (\<lambda>x. c\<lparr>pc_TeamID := x\<rparr>) (as_string (pc_TeamID c) v)
      else if f = ''key_id'' then map_option (\<lambda>x. c\<lparr>pc_KeyID := x\<rparr>) (as_string (pc_KeyID c) v)
      else if f = ''key_path'' then map_option (\<lambda>x. c\<lparr>pc_KeyPath := x\<rparr>) (as_string (pc_KeyPath c) v)
      else map_option (\<lambda>x. c\<lparr>pc_BundleID := x\<rparr>) (as_string (pc_BundleID c) v))"

text \<open>The file: absent, unreadable, or its text.\<close>

datatype read_result = NoFile | ReadError | Contents string

datatype push_error = ErrNotConfigured | ConfigUnreadable | ConfigMalformed | ConfigInvalid string

definition LoadConfig :: "read_result \<Rightarrow> push_error + PushConfig" where
  "LoadConfig file1 =
     (case file1 of
        NoFile \<Rightarrow> Inl ErrNotConfigured
      | ReadError \<Rightarrow> Inl ConfigUnreadable
      | Contents raw \<Rightarrow>
          (case unmarshal config_names config_set \<lparr>pc_TeamID = [], pc_KeyID = [], pc_KeyPath = [], pc_BundleID = []\<rparr> raw of
             None \<Rightarrow> Inl ConfigMalformed
           | Some c \<Rightarrow> (case Validate c of Some e \<Rightarrow> Inl (ConfigInvalid e) | None \<Rightarrow> Inr c)))"

text \<open>\<open>MarshalIndent\<close> of the four fields.\<close>

definition config_text :: "PushConfig \<Rightarrow> string" where
  "config_text c =
     (let nl = [CHR 0x0A];
          member = (\<lambda>n v. ''  '' @ json_string n @ '': '' @ json_string v) in
      ''{'' @ nl @ member ''team_id'' (pc_TeamID c) @ '','' @ nl @ member ''key_id'' (pc_KeyID c) @ '','' @ nl @
      member ''key_path'' (pc_KeyPath c) @ '','' @ nl @ member ''bundle_id'' (pc_BundleID c) @ nl @ ''}'')"

text \<open>The text \<open>Save\<close> writes, or the refusal of an invalid configuration.\<close>

definition Save :: "PushConfig \<Rightarrow> push_error + string" where
  "Save c = (case Validate c of Some e \<Rightarrow> Inl (ConfigInvalid e) | None \<Rightarrow> Inr (config_text c))"

section \<open>Alerts\<close>

datatype Kind = KindApproval | KindInput | KindTurnDone | KindTurnError | KindBackgroundDone | KindCredits

fun kind_name :: "Kind \<Rightarrow> string" where
  "kind_name KindApproval = ''approval''"
| "kind_name KindInput = ''input''"
| "kind_name KindTurnDone = ''turnDone''"
| "kind_name KindTurnError = ''turnError''"
| "kind_name KindBackgroundDone = ''backgroundDone''"
| "kind_name KindCredits = ''credits''"

record Alert =
  al_Kind :: Kind
  al_Title :: string
  al_Body :: string
  al_Category :: string
  al_SessionID :: string
  al_RequestID :: string
  al_Sound :: string
  al_CollapseID :: string

record Event =
  ev_Type :: string
  ev_SessionID :: string
  ev_Payload :: json
  ev_Seq :: int

text \<open>Decoding that ignores its error: a member of the wrong type is left out, the others are kept.\<close>

fun fill_lenient :: "string list \<Rightarrow> (string \<Rightarrow> json \<Rightarrow> 'r \<Rightarrow> 'r option) \<Rightarrow> (string \<times> json) list \<Rightarrow> 'r \<Rightarrow> 'r" where
  "fill_lenient names setf [] r = r"
| "fill_lenient names setf ((k, v) # ms) r =
     fill_lenient names setf ms
       (case field_of names k of None \<Rightarrow> r | Some f \<Rightarrow> (case setf f v r of None \<Rightarrow> r | Some r' \<Rightarrow> r'))"

definition lenient :: "string list \<Rightarrow> (string \<Rightarrow> json \<Rightarrow> 'r \<Rightarrow> 'r option) \<Rightarrow> json \<Rightarrow> 'r \<Rightarrow> 'r" where
  "lenient names setf v r = (case v of JObj ms \<Rightarrow> fill_lenient names setf ms r | _ \<Rightarrow> r)"

text \<open>A slice of structs: element \<open>i\<close> is decoded over the old element \<open>i\<close>, or over a zero value.\<close>

fun over_old :: "(json \<Rightarrow> 'a \<Rightarrow> 'a) \<Rightarrow> 'a \<Rightarrow> 'a list \<Rightarrow> json list \<Rightarrow> 'a list" where
  "over_old dec zero old [] = []"
| "over_old dec zero [] (j # js) = dec j zero # over_old dec zero [] js"
| "over_old dec zero (x # old) (j # js) = dec j x # over_old dec zero old js"

record event_payload =
  ep_Command :: string
  ep_RequestID :: string
  ep_Prompt :: string
  ep_Questions :: "string list"
  ep_EnvVar :: string
  ep_Server :: string
  ep_Message :: string
  ep_Text :: string
  ep_Kind :: string

definition payload_names :: "string list" where
  "payload_names = [''command'', ''request_id'', ''prompt'', ''questions'', ''env_var'', ''server'', ''message'', ''text'', ''kind'']"

definition question_text :: "json \<Rightarrow> string \<Rightarrow> string" where
  "question_text j old = lenient [''text''] (\<lambda>_ v r. as_string r v) j old"

definition payload_set :: "string \<Rightarrow> json \<Rightarrow> event_payload \<Rightarrow> event_payload option" where
  "payload_set f v p =
     (if f = ''command'' then map_option (\<lambda>x. p\<lparr>ep_Command := x\<rparr>) (as_string (ep_Command p) v)
      else if f = ''request_id'' then map_option (\<lambda>x. p\<lparr>ep_RequestID := x\<rparr>) (as_string (ep_RequestID p) v)
      else if f = ''prompt'' then map_option (\<lambda>x. p\<lparr>ep_Prompt := x\<rparr>) (as_string (ep_Prompt p) v)
      else if f = ''questions'' then
        (case v of JArr js \<Rightarrow> Some (p\<lparr>ep_Questions := over_old question_text [] (ep_Questions p) js\<rparr>)
         | JNull \<Rightarrow> Some (p\<lparr>ep_Questions := []\<rparr>) | _ \<Rightarrow> None)
      else if f = ''env_var'' then map_option (\<lambda>x. p\<lparr>ep_EnvVar := x\<rparr>) (as_string (ep_EnvVar p) v)
      else if f = ''server'' then map_option (\<lambda>x. p\<lparr>ep_Server := x\<rparr>) (as_string (ep_Server p) v)
      else if f = ''message'' then map_option (\<lambda>x. p\<lparr>ep_Message := x\<rparr>) (as_string (ep_Message p) v)
      else if f = ''text'' then map_option (\<lambda>x. p\<lparr>ep_Text := x\<rparr>) (as_string (ep_Text p) v)
      else map_option (\<lambda>x. p\<lparr>ep_Kind := x\<rparr>) (as_string (ep_Kind p) v))"

definition event_fields :: "json \<Rightarrow> event_payload" where
  "event_fields v = lenient payload_names payload_set v
     \<lparr>ep_Command = [], ep_RequestID = [], ep_Prompt = [], ep_Questions = [], ep_EnvVar = [], ep_Server = [], ep_Message = [],
      ep_Text = [], ep_Kind = []\<rparr>"

text \<open>The ellipsis is three bytes.\<close>

definition clip :: "string \<Rightarrow> nat \<Rightarrow> string" where
  "clip s0 n = (let s = TrimSpace s0 in if length s \<le> n then s else take (n - 1) s @ [CHR 0xE2, CHR 0x80, CHR 0xA6])"

definition fallback :: "string \<Rightarrow> string \<Rightarrow> string" where
  "fallback s alt = (if TrimSpace s = [] then alt else s)"

definition Classify :: "Event \<Rightarrow> string \<Rightarrow> Alert option" where
  "Classify ev title =
     (let p = event_fields (ev_Payload ev);
          alert = (\<lambda>kind category title body collapse. Some \<lparr>al_Kind = kind, al_Title = title, al_Body = body,
            al_Category = category, al_SessionID = ev_SessionID ev, al_RequestID = ep_RequestID p, al_Sound = [],
            al_CollapseID = collapse\<rparr>);
          t = ev_Type ev in
      if t = ''approval.request''
      then alert KindApproval ''APPROVAL'' ''Approval needed'' (clip (ep_Command p) 140) (''approval:'' @ ev_SessionID ev)
      else if t = ''clarify.request''
      then alert KindInput ''INPUT'' ''Hermes has a question''
        (case ep_Questions p of q # _ \<Rightarrow> clip q 140 | [] \<Rightarrow> clip (ep_Prompt p) 140) []
      else if t = ''sudo.request''
      then alert KindInput ''INPUT'' (''Hermes needs the Mac'' @ [CHR 0x27] @ ''s administrator password'') (clip (ep_Command p) 140) []
      else if t = ''secret.request'' then alert KindInput ''INPUT'' ''Hermes needs a credential'' (ep_EnvVar p) []
      else if t = ''mcp.setup.request'' then alert KindInput ''INPUT'' ''Hermes wants to set up an MCP server'' (ep_Server p) []
      else if t = ''message.complete''
      then alert KindTurnDone ''TURN'' ''Hermes finished'' (fallback title ''Your reply is ready.'') (''turn:'' @ ev_SessionID ev)
      else if t = ''error''
      then alert KindTurnError ''TURN'' ''Turn failed'' (clip (fallback (ep_Message p) title) 140) (''turn:'' @ ev_SessionID ev)
      else if t = ''background.complete''
      then alert KindBackgroundDone ''TURN'' ''Background task finished'' (clip (fallback (ep_Text p) title) 140) []
      else if t = ''notification.show'' \<and> ep_Kind p = ''credits''
      then alert KindCredits [] ''Hermes credits'' (clip (ep_Text p) 140) []
      else None)"

section \<open>APNs\<close>

text \<open>The members of a Go map are printed in the order of their keys.\<close>

definition payload :: "Alert \<Rightarrow> json" where
  "payload a = JObj [
     (''aps'', JObj ([(''alert'', JObj [(''body'', JStr (al_Body a)), (''title'', JStr (al_Title a))])] @
        (if al_Category a = [] then [] else [(''category'', JStr (al_Category a))]) @
        [(''sound'', JStr (if al_Sound a = [] then ''default'' else al_Sound a))] @
        (if al_SessionID a = [] then [] else [(''thread-id'', JStr (al_SessionID a))]))),
     (''hermes'', JObj ([(''kind'', JStr (kind_name (al_Kind a)))] @
        (if al_SessionID a = [] then [] else [(''session_id'', JStr (al_SessionID a))]) @
        (if al_RequestID a = [] then [] else [(''request_id'', JStr (al_RequestID a))])))]"

record Client =
  ac_cfg :: PushConfig
  ac_host :: string
  ac_bearer :: string
  ac_bearerAt :: gotime

definition bearer_text :: "(string \<Rightarrow> bytes option) \<Rightarrow> gotime \<Rightarrow> Client \<Rightarrow> string option" where
  "bearer_text sign_es now c =
     (let signing = b64_encode (bytes_of (render (JObj [(''alg'', JStr ''ES256''), (''kid'', JStr (pc_KeyID (ac_cfg c)))]))) @ ''.'' @
        b64_encode (bytes_of (render (JObj [(''iat'', JNum (int_lit (now div 1000000000))), (''iss'', JStr (pc_TeamID (ac_cfg c)))]))) in
      map_option (\<lambda>sig. signing @ ''.'' @ b64_encode sig) (sign_es signing))"

definition bearerLifetime :: gotime where "bearerLifetime = 50 * 60 * 1000000000"

definition apns_token :: "(string \<Rightarrow> bytes option) \<Rightarrow> gotime \<Rightarrow> Client \<Rightarrow> string option \<times> Client" where
  "apns_token sign_es now c =
     (if ac_bearer c \<noteq> [] \<and> now - ac_bearerAt c < bearerLifetime then (Some (ac_bearer c), c)
      else case bearer_text sign_es now c of
        None \<Rightarrow> (None, c)
      | Some b \<Rightarrow> (Some b, c\<lparr>ac_bearer := b, ac_bearerAt := now\<rparr>))"

record apns_request =
  ar_url :: string
  ar_bearer :: string
  ar_topic :: string
  ar_expiration :: string
  ar_collapse :: "string option"
  ar_body :: string

definition apns_host :: "Client \<Rightarrow> string \<Rightarrow> string" where
  "apns_host c environment =
     (if ac_host c \<noteq> [] then ac_host c
      else if environment = ''sandbox'' then ''https://api.sandbox.push.apple.com'' else ''https://api.push.apple.com'')"

datatype send_result = Delivered | ErrUnregistered | SendFailed

text \<open>The request \<open>Send\<close> makes, and what its answer means: a transport error, or a status and a body.\<close>

definition apns_answer :: "(int \<times> string) option \<Rightarrow> send_result" where
  "apns_answer r =
     (case r of
        None \<Rightarrow> SendFailed
      | Some (status, reply) \<Rightarrow>
          if status = 200 then Delivered
          else let reason = (case parse_json reply of None \<Rightarrow> [] | Some v \<Rightarrow> lenient [''reason''] (\<lambda>_ v r. as_string r v) v []) in
            if status = 410 \<or> reason = ''BadDeviceToken'' \<or> reason = ''Unregistered'' then ErrUnregistered else SendFailed)"

definition Send ::
  "(string \<Rightarrow> bytes option) \<Rightarrow> gotime \<Rightarrow> (apns_request \<Rightarrow> (int \<times> string) option) \<Rightarrow> string \<Rightarrow> string \<Rightarrow> Alert \<Rightarrow> Client \<Rightarrow>
     send_result \<times> Client" where
  "Send sign_es now post deviceToken environment a c =
     (case apns_token sign_es now c of
        (None, c') \<Rightarrow> (SendFailed, c')
      | (Some b, c') \<Rightarrow>
          (apns_answer (post \<lparr>ar_url = apns_host c environment @ ''/3/device/'' @ deviceToken, ar_bearer = b,
             ar_topic = pc_BundleID (ac_cfg c), ar_expiration = int_lit ((now + 3600 * 1000000000) div 1000000000),
             ar_collapse = (if al_CollapseID a = [] then None else Some (al_CollapseID a)), ar_body = render (payload a)\<rparr>), c'))"

section \<open>Properties\<close>

lemma length_TrimSpace: "length (TrimSpace s) \<le> length s"
proof -
  have "length (trim_front encs t) \<le> length t" for encs t
    using trim_front_suffix [of t encs] by (metis length_append le_add2)
  then have "length (trim_front (map rev space_encodings) (rev (trim_front space_encodings s))) \<le> length s"
    by (metis le_trans length_rev)
  then show ?thesis by (simp add: TrimSpace_def)
qed

text \<open>\<open>clip\<close> can return up to two bytes more than its bound.\<close>

lemma length_clip: "0 < n \<Longrightarrow> length (clip s n) \<le> n + 2"
  by (auto simp: clip_def Let_def)

lemma clip_exceeds: "length (TrimSpace s) = 141 \<Longrightarrow> length (clip s 140) = 142"
  by (simp add: clip_def Let_def)

text \<open>A bearer is reused, and never used once it is 50 minutes old by the clock that made it.\<close>

lemma bearer_age:
  assumes "apns_token sign_es now c = (Some b, c')"
  shows "ac_bearer c' = b \<and> now - ac_bearerAt c' < bearerLifetime"
  using assms by (auto simp: apns_token_def bearerLifetime_def split: if_splits option.splits)

end
