(* ===== verification/PushWatcher.thy ===== *)
theory PushWatcher
  imports PushAlerts StateStore "HOL-Library.List_Lexorder"
begin

text \<open>
  internal/push/registry.go and the watcher of watcher.go: the registrations of phones and their file, and one round
  of polling. What a round asks the world (who is online, the gateway's replies, the paired devices, the outcome of
  each push and each write) is a record, indexed by the number of the question. The session loop of \<open>Poll\<close> does not
  depend on what \<open>deliver\<close> does, so a round is the list of its news and then their delivery, in that order.
\<close>

section \<open>Registrations\<close>

record PushRegistration =
  pr_Token :: string
  pr_Environment :: string
  pr_Kinds :: "string list"
  pr_Sound :: string

record Registration =
  rg_push :: PushRegistration
  rg_UpdatedAt :: gotime

record Entry =
  en_DeviceID :: string
  en_Registration :: Registration

definition Wants :: "Registration \<Rightarrow> Kind \<Rightarrow> bool" where
  "Wants r kind \<longleftrightarrow> List.member (pr_Kinds (rg_push r)) (kind_name kind)"

text \<open>The file holds what it decodes to. A write that fails half way leaves a text that does not decode.\<close>

datatype os_write = Written | BadClose | CutShort | NotOpened

record Registry =
  rg_devices :: "(string, Registration) gomap"
  rg_file :: "(string, Registration) gomap contents"

definition OpenRegistry :: "bool \<Rightarrow> (string, Registration) gomap contents \<Rightarrow> Registry option" where
  "OpenRegistry readable f =
     (case f of
        Absent \<Rightarrow> Some \<lparr>rg_devices = [], rg_file = Absent\<rparr>
      | Corrupt \<Rightarrow> None
      | Data m \<Rightarrow> if readable then Some \<lparr>rg_devices = m, rg_file = f\<rparr> else None)"

definition persist :: "os_write \<Rightarrow> Registry \<Rightarrow> bool \<times> Registry" where
  "persist w r =
     (case w of
        Written \<Rightarrow> (True, r\<lparr>rg_file := Data (rg_devices r)\<rparr>)
      | BadClose \<Rightarrow> (False, r\<lparr>rg_file := Data (rg_devices r)\<rparr>)
      | CutShort \<Rightarrow> (False, r\<lparr>rg_file := Corrupt\<rparr>)
      | NotOpened \<Rightarrow> (False, r))"

definition Set_registration :: "os_write \<Rightarrow> string \<Rightarrow> PushRegistration \<Rightarrow> gotime \<Rightarrow> Registry \<Rightarrow> bool \<times> Registry" where
  "Set_registration w d p now r = persist w
     (if pr_Token p = [] then r\<lparr>rg_devices := AList.delete d (rg_devices r)\<rparr>
      else r\<lparr>rg_devices := AList.update d \<lparr>rg_push = p, rg_UpdatedAt = now\<rparr> (rg_devices r)\<rparr>)"

definition Remove :: "os_write \<Rightarrow> string \<Rightarrow> Registry \<Rightarrow> bool \<times> Registry" where
  "Remove w d r = persist w (r\<lparr>rg_devices := AList.delete d (rg_devices r)\<rparr>)"

definition All :: "Registry \<Rightarrow> Entry list" where
  "All r = sort_key (\<lambda>e. string_bytes (en_DeviceID e)) (map (\<lambda>(d, g). \<lparr>en_DeviceID = d, en_Registration = g\<rparr>) (rg_devices r))"

section \<open>Polling\<close>

definition event_names :: "string list" where
  "event_names = [''type'', ''session_id'', ''payload'', ''seq'']"

definition event_set :: "string \<Rightarrow> json \<Rightarrow> Event \<Rightarrow> Event option" where
  "event_set f v e =
     (if f = ''type'' then map_option (\<lambda>x. e\<lparr>ev_Type := x\<rparr>) (as_string (ev_Type e) v)
      else if f = ''session_id'' then map_option (\<lambda>x. e\<lparr>ev_SessionID := x\<rparr>) (as_string (ev_SessionID e) v)
      else if f = ''payload'' then Some (e\<lparr>ev_Payload := v\<rparr>)
      else map_option (\<lambda>x. e\<lparr>ev_Seq := x\<rparr>) (as_int64 (ev_Seq e) v))"

definition zero_event :: Event where
  "zero_event = \<lparr>ev_Type = [], ev_SessionID = [], ev_Payload = JNull, ev_Seq = 0\<rparr>"

text \<open>A slice whose decoding can fail.\<close>

fun over_old_opt :: "(json \<Rightarrow> 'a \<Rightarrow> 'a option) \<Rightarrow> 'a \<Rightarrow> 'a list \<Rightarrow> json list \<Rightarrow> 'a list option" where
  "over_old_opt dec zero old [] = Some []"
| "over_old_opt dec zero old (j # js) =
     (case dec j (case old of [] \<Rightarrow> zero | x # _ \<Rightarrow> x) of
        None \<Rightarrow> None
      | Some y \<Rightarrow> map_option (Cons y) (over_old_opt dec zero (tl old) js))"

definition as_slice :: "(json \<Rightarrow> 'a \<Rightarrow> 'a option) \<Rightarrow> 'a \<Rightarrow> 'a list \<Rightarrow> json \<Rightarrow> 'a list option" where
  "as_slice dec zero old v = (case v of JArr js \<Rightarrow> over_old_opt dec zero old js | JNull \<Rightarrow> Some [] | _ \<Rightarrow> None)"

definition decode_events :: "string \<Rightarrow> Event list option" where
  "decode_events raw = unmarshal [''events''] (\<lambda>_ v old. as_slice (fill_struct event_names event_set) zero_event old v) [] raw"

definition session_set :: "string \<Rightarrow> json \<Rightarrow> string \<times> string \<Rightarrow> (string \<times> string) option" where
  "session_set f v s =
     (if f = ''id'' then map_option (\<lambda>x. (x, snd s)) (as_string (fst s) v)
      else map_option (\<lambda>x. (fst s, x)) (as_string (snd s) v))"

definition decode_sessions :: "string \<Rightarrow> (string \<times> string) list option" where
  "decode_sessions raw = unmarshal [''sessions'']
     (\<lambda>_ v old. as_slice (fill_struct [''id'', ''title''] session_set) ([], []) old v) [] raw"

definition maxSeq :: "Event list \<Rightarrow> int" where
  "maxSeq evs = fold (\<lambda>ev m. if ev_Seq ev > m then ev_Seq ev else m) evs 0"

record round =
  ro_online :: "string list"
  ro_active :: "string option"
  ro_events :: "nat \<Rightarrow> string \<Rightarrow> int \<Rightarrow> string option"
  ro_checked :: bool
  ro_trusted :: "nat \<Rightarrow> string list option"
  ro_send :: "nat \<Rightarrow> send_result"
  ro_write :: "nat \<Rightarrow> os_write"

type_synonym seen = "(string, int) gomap"

definition last_seen :: "seen \<Rightarrow> string \<Rightarrow> int" where
  "last_seen m sid = (case map_of m sid of None \<Rightarrow> 0 | Some q \<Rightarrow> q)"

text \<open>One piece of news: the session, the event's number and its alert.\<close>

type_synonym news = "string \<times> int \<times> Alert"

fun scan_events :: "int \<Rightarrow> bool \<Rightarrow> string \<Rightarrow> string \<Rightarrow> Event list \<Rightarrow> seen \<Rightarrow> news list \<times> seen" where
  "scan_events seq0 known sid title [] m = ([], m)"
| "scan_events seq0 known sid title (ev # evs) m =
     (if ev_Seq ev \<le> seq0 then scan_events seq0 known sid title evs m
      else let m' = (if ev_Seq ev > last_seen m sid then AList.update sid (ev_Seq ev) m else m);
               (rest, m2) = scan_events seq0 known sid title evs m' in
        if \<not> known then (rest, m2)
        else case Classify ev title of
          None \<Rightarrow> (rest, m2)
        | Some a \<Rightarrow> ((sid, ev_Seq ev, a) # rest, m2))"

definition poll_session :: "string option \<Rightarrow> string \<times> string \<Rightarrow> seen \<Rightarrow> news list \<times> seen" where
  "poll_session reply s m =
     (case s of (sid, title) \<Rightarrow>
       (case reply of
          None \<Rightarrow> ([], m)
        | Some raw \<Rightarrow>
            (case decode_events raw of
               None \<Rightarrow> ([], m)
             | Some evs \<Rightarrow>
                 (case scan_events (last_seen m sid) (map_of m sid \<noteq> None) sid title evs m of
                    (ns, m') \<Rightarrow> (ns, if map_of m sid = None then AList.update sid (maxSeq evs) m' else m')))))"

fun poll_sessions :: "round \<Rightarrow> nat \<Rightarrow> (string \<times> string) list \<Rightarrow> seen \<Rightarrow> news list \<times> seen" where
  "poll_sessions ro i [] m = ([], m)"
| "poll_sessions ro i (s # ss) m =
     (case poll_session (ro_events ro i (fst s) (last_seen m (fst s))) s m of
        (ns, m1) \<Rightarrow> (case poll_sessions ro (Suc i) ss m1 of (ns', m2) \<Rightarrow> (ns @ ns', m2)))"

section \<open>Delivery\<close>

record delivery =
  dv_reg :: Registry
  dv_sent :: "(Entry \<times> Alert) list"
  dv_writes :: nat

definition drop_registration :: "round \<Rightarrow> Entry \<Rightarrow> delivery \<Rightarrow> delivery" where
  "drop_registration ro e d =
     d\<lparr>dv_reg := snd (Remove (ro_write ro (dv_writes d)) (en_DeviceID e) (dv_reg d)), dv_writes := Suc (dv_writes d)\<rparr>"

text \<open>The loop of \<open>deliver\<close>. Its alert is one variable: the sound set for one phone stays set for those after it.\<close>

definition with_sound :: "Entry \<Rightarrow> Alert \<Rightarrow> Alert" where
  "with_sound e a =
     (let sound = pr_Sound (rg_push (en_Registration e)) in
      if al_Kind a = KindTurnDone \<and> sound \<noteq> [] then a\<lparr>al_Sound := sound\<rparr> else a)"

definition send_to :: "round \<Rightarrow> Entry \<Rightarrow> Alert \<Rightarrow> delivery \<Rightarrow> delivery" where
  "send_to ro e a d =
     (let d1 = d\<lparr>dv_sent := dv_sent d @ [(e, a)]\<rparr> in
      case ro_send ro (length (dv_sent d)) of
        Delivered \<Rightarrow> d1
      | ErrUnregistered \<Rightarrow> drop_registration ro e d1
      | SendFailed \<Rightarrow> d1)"

fun deliver_each :: "round \<Rightarrow> string list option \<Rightarrow> Entry list \<Rightarrow> Alert \<Rightarrow> delivery \<Rightarrow> delivery" where
  "deliver_each ro trusted [] a d = d"
| "deliver_each ro trusted (e # es) a d =
     (if (case trusted of None \<Rightarrow> False | Some ids \<Rightarrow> \<not> List.member ids (en_DeviceID e))
      then deliver_each ro trusted es a (drop_registration ro e d)
      else if \<not> Wants (en_Registration e) (al_Kind a) then deliver_each ro trusted es a d
      else deliver_each ro trusted es (with_sound e a) (send_to ro e (with_sound e a) d))"

text \<open>\<open>deliver\<close> of the \<open>k\<close>-th alert.\<close>

definition deliver :: "round \<Rightarrow> nat \<Rightarrow> Entry list \<Rightarrow> Alert \<Rightarrow> delivery \<Rightarrow> delivery" where
  "deliver ro k offline a d =
     (if \<not> ro_checked ro then deliver_each ro None offline a d
      else case ro_trusted ro k of
        None \<Rightarrow> d
      | Some ids \<Rightarrow> deliver_each ro (Some ids) offline a d)"

fun deliver_all :: "round \<Rightarrow> nat \<Rightarrow> Entry list \<Rightarrow> Alert list \<Rightarrow> delivery \<Rightarrow> delivery" where
  "deliver_all ro k offline [] d = d"
| "deliver_all ro k offline (a # as) d = deliver_all ro (Suc k) offline as (deliver ro k offline a d)"

definition offlineDevices :: "string list \<Rightarrow> Registry \<Rightarrow> Entry list" where
  "offlineDevices online r =
     filter (\<lambda>e. \<not> List.member online (en_DeviceID e) \<and> pr_Kinds (rg_push (en_Registration e)) \<noteq> []) (All r)"

record Watcher =
  wt_reg :: Registry
  wt_seen :: seen

definition Poll :: "round \<Rightarrow> Watcher \<Rightarrow> (news list \<times> (Entry \<times> Alert) list) \<times> Watcher" where
  "Poll ro w =
     (let offline = offlineDevices (ro_online ro) (wt_reg w) in
      if offline = [] then (([], []), w)
      else case ro_active ro of
        None \<Rightarrow> (([], []), w)
      | Some raw \<Rightarrow>
          (case decode_sessions raw of
             None \<Rightarrow> (([], []), w)
           | Some sessions \<Rightarrow>
               (case poll_sessions ro 0 sessions (wt_seen w) of
                  (ns, m) \<Rightarrow>
                    let d = deliver_all ro 0 offline (map (snd \<circ> snd) ns) \<lparr>dv_reg = wt_reg w, dv_sent = [], dv_writes = 0\<rparr> in
                    ((ns, dv_sent d), w\<lparr>wt_reg := dv_reg d, wt_seen := m\<rparr>))))"

text \<open>Between rounds phones register and withdraw.\<close>

datatype watch_event = Round round | Register os_write string PushRegistration gotime | Unregister os_write string

fun watch_step :: "watch_event \<Rightarrow> Watcher \<Rightarrow> Watcher" where
  "watch_step (Round ro) w = snd (Poll ro w)"
| "watch_step (Register wr d p now) w = w\<lparr>wt_reg := snd (Set_registration wr d p now (wt_reg w))\<rparr>"
| "watch_step (Unregister wr d) w = w\<lparr>wt_reg := snd (Remove wr d (wt_reg w))\<rparr>"

fun watch_news :: "watch_event list \<Rightarrow> Watcher \<Rightarrow> news list" where
  "watch_news [] w = []"
| "watch_news (e # es) w = (case e of Round ro \<Rightarrow> fst (fst (Poll ro w)) | _ \<Rightarrow> []) @ watch_news es (watch_step e w)"

end
