(* ===== verification/PushSafety.thy ===== *)
theory PushSafety
  imports PushWatcher Interfaces "HOL-Library.Multiset"
begin

text \<open>What the registry and the watcher of internal/push guarantee.\<close>

section \<open>The registry refines a finite map\<close>

text \<open>The contract of a store of registrations, as its client (the watcher, the daemon) sees it.\<close>

locale registration_store =
  fixes look :: "'r \<Rightarrow> string \<Rightarrow> 'v option"
    and put :: "string \<Rightarrow> 'v \<Rightarrow> 'r \<Rightarrow> 'r"
    and del :: "string \<Rightarrow> 'r \<Rightarrow> 'r"
    and listing :: "'r \<Rightarrow> (string \<times> 'v) list"
    and invar :: "'r \<Rightarrow> bool"
  assumes look_put: "look (put k v r) = (look r)(k \<mapsto> v)"
    and look_del: "look (del k r) = (look r)(k := None)"
    and listing_look: "invar r \<Longrightarrow> (k, v) \<in> set (listing r) \<longleftrightarrow> look r k = Some v"
    and listing_keys: "invar r \<Longrightarrow> distinct (map fst (listing r))"
    and invar_put: "invar r \<Longrightarrow> invar (put k v r)"
    and invar_del: "invar r \<Longrightarrow> invar (del k r)"
begin

lemma unlisted_after_del: "invar r \<Longrightarrow> (k, v) \<notin> set (listing (del k r))"
  by (simp add: listing_look invar_del look_del)

lemma listed_after_put: "invar r \<Longrightarrow> (k, v) \<in> set (listing (put k v r))"
  by (simp add: listing_look invar_put look_put)

lemma same_map_same_entries:
  assumes "invar r" "invar s" "look r = look s" shows "set (listing r) = set (listing s)"
  using assms listing_look by (auto simp: set_eq_iff)

end

definition entry_pair :: "Entry \<Rightarrow> string \<times> Registration" where
  "entry_pair e = (en_DeviceID e, en_Registration e)"

lemma All_pairs:
  "set (map entry_pair (All r)) = set (rg_devices r)"
  "mset (map entry_pair (All r)) = mset (rg_devices r)"
proof -
  have "map entry_pair (map (\<lambda>(d, g). \<lparr>en_DeviceID = d, en_Registration = g\<rparr>) m) = m" for m
    by (induction m) (auto simp: entry_pair_def)
  then show "mset (map entry_pair (All r)) = mset (rg_devices r)"
    by (simp only: All_def mset_map mset_sort) (simp only: mset_map [symmetric])
  then show "set (map entry_pair (All r)) = set (rg_devices r)" by (rule mset_eq_setD)
qed

lemma All_keys: "wf_map (rg_devices r) \<Longrightarrow> distinct (map fst (map entry_pair (All r)))"
proof -
  assume wf: "wf_map (rg_devices r)"
  have "mset (map fst (map entry_pair (All r))) = mset (map fst (rg_devices r))"
    using All_pairs(2) [of r] by (simp only: mset_map [of fst])
  from mset_eq_imp_distinct_iff [OF this] wf show ?thesis by simp
qed

lemma entry_in_pairs: "\<lparr>en_DeviceID = d, en_Registration = g\<rparr> \<in> set es \<longleftrightarrow> (d, g) \<in> set (map entry_pair es)"
proof -
  have "entry_pair e = (d, g) \<longleftrightarrow> e = \<lparr>en_DeviceID = d, en_Registration = g\<rparr>" for e
    by (cases e) (simp add: entry_pair_def)
  then show ?thesis unfolding set_map image_iff by metis
qed

definition reg_put :: "string \<Rightarrow> Registration \<Rightarrow> Registry \<Rightarrow> Registry" where
  "reg_put d g r = r\<lparr>rg_devices := AList.update d g (rg_devices r)\<rparr>"

definition reg_del :: "string \<Rightarrow> Registry \<Rightarrow> Registry" where
  "reg_del d r = r\<lparr>rg_devices := AList.delete d (rg_devices r)\<rparr>"

interpretation phones: registration_store "\<lambda>r. map_of (rg_devices r)" reg_put reg_del "\<lambda>r. map entry_pair (All r)"
  "\<lambda>r. wf_map (rg_devices r)"
proof (unfold_locales, goal_cases)
  case (1 k v r) show ?case by (simp add: reg_put_def update_conv')
next
  case (2 k r) show ?case by (simp add: reg_del_def delete_conv')
next
  case (3 r k v) then show ?case unfolding All_pairs(1) by (rule wf_map_mem)
next
  case (4 r) then show ?case by (rule All_keys)
next
  case (5 r k v) then show ?case by (simp add: reg_put_def)
next
  case (6 r k) then show ?case by (simp add: reg_del_def)
qed

text \<open>The specification: a partial map from device ids to registrations.\<close>

datatype reg_event = RSet os_write string PushRegistration gotime | RRemove os_write string

fun reg_step :: "reg_event \<Rightarrow> Registry \<Rightarrow> bool \<times> Registry" where
  "reg_step (RSet w d p now) r = Set_registration w d p now r"
| "reg_step (RRemove w d) r = Remove w d r"

fun spec_step :: "reg_event \<Rightarrow> (string \<rightharpoonup> Registration) \<Rightarrow> (string \<rightharpoonup> Registration)" where
  "spec_step (RSet w d p now) m = m(d := if pr_Token p = [] then None else Some \<lparr>rg_push = p, rg_UpdatedAt = now\<rparr>)"
| "spec_step (RRemove w d) m = m(d := None)"

definition reg_run :: "reg_event list \<Rightarrow> Registry \<Rightarrow> Registry" where
  "reg_run es r = fold (\<lambda>e r. snd (reg_step e r)) es r"

lemma persist_fields [simp]: "rg_devices (snd (persist w r)) = rg_devices r"
  by (simp add: persist_def split: os_write.split)

lemma persist_ok: "fst (persist w r) \<Longrightarrow> rg_file (snd (persist w r)) = Data (rg_devices r)"
  by (simp add: persist_def split: os_write.splits)

lemma reg_step_refines: "map_of (rg_devices (snd (reg_step e r))) = spec_step e (map_of (rg_devices r))"
  by (cases e) (auto simp: Set_registration_def Remove_def update_conv' delete_conv')

lemma reg_step_wf: "wf_map (rg_devices r) \<Longrightarrow> wf_map (rg_devices (snd (reg_step e r)))"
  by (cases e) (auto simp: Set_registration_def Remove_def)

lemma reg_run_refines:
  "map_of (rg_devices (reg_run es r)) = fold spec_step es (map_of (rg_devices r)) \<and>
   (wf_map (rg_devices r) \<longrightarrow> wf_map (rg_devices (reg_run es r)))"
  by (induction es arbitrary: r) (auto simp: reg_run_def reg_step_refines reg_step_wf simp del: spec_step.simps)

lemma reg_step_saved: "fst (reg_step e r) \<Longrightarrow> rg_file (snd (reg_step e r)) = Data (rg_devices (snd (reg_step e r)))"
  by (cases e) (auto simp: Set_registration_def Remove_def persist_ok)

text \<open>
  C32. The registry implements a map from device ids to registrations: after any operations, whatever happens to
  their writes, it holds exactly what the map specification holds, \<open>All\<close> lists each registered device once and no
  other, in the order of the ids, and when the last operation reported success, opening the file in a later process
  gives the same map.
\<close>

theorem registry_refines:
  assumes "wf_map (rg_devices r0)" and "r = reg_run es r0"
  shows "map_of (rg_devices r) = fold spec_step es (map_of (rg_devices r0)) \<and>
    sorted (map (string_bytes \<circ> en_DeviceID) (All r)) \<and> distinct (map en_DeviceID (All r)) \<and>
    (\<forall>d g. \<lparr>en_DeviceID = d, en_Registration = g\<rparr> \<in> set (All r) \<longleftrightarrow> fold spec_step es (map_of (rg_devices r0)) d = Some g) \<and>
    (\<forall>fs e. es = fs @ [e] \<longrightarrow> fst (reg_step e (reg_run fs r0)) \<longrightarrow>
      (\<exists>r'. OpenRegistry True (rg_file r) = Some r' \<and> map_of (rg_devices r') = map_of (rg_devices r)))"
proof (intro conjI allI impI)
  have wf: "wf_map (rg_devices r)" and map: "map_of (rg_devices r) = fold spec_step es (map_of (rg_devices r0))"
    using reg_run_refines assms by auto
  show "map_of (rg_devices r) = fold spec_step es (map_of (rg_devices r0))" by (rule map)
  show "sorted (map (string_bytes \<circ> en_DeviceID) (All r))" by (simp add: All_def comp_def)
  have keys: "map fst (map entry_pair (All r)) = map en_DeviceID (All r)" by (simp add: entry_pair_def comp_def)
  show "distinct (map en_DeviceID (All r))" using phones.listing_keys [OF wf] unfolding keys .
  fix d g
  have "\<lparr>en_DeviceID = d, en_Registration = g\<rparr> \<in> set (All r) \<longleftrightarrow> (d, g) \<in> set (map entry_pair (All r))"
    by (rule entry_in_pairs)
  with phones.listing_look [OF wf] map
  show "\<lparr>en_DeviceID = d, en_Registration = g\<rparr> \<in> set (All r) \<longleftrightarrow> fold spec_step es (map_of (rg_devices r0)) d = Some g" by simp
next
  fix fs e
  assume e: "es = fs @ [e]" "fst (reg_step e (reg_run fs r0))"
  then have "r = snd (reg_step e (reg_run fs r0))" using assms(2) by (simp add: reg_run_def)
  with reg_step_saved [OF e(2)] show "\<exists>r'. OpenRegistry True (rg_file r) = Some r' \<and> map_of (rg_devices r') = map_of (rg_devices r)"
    by (simp add: OpenRegistry_def)
qed

definition demo_push :: PushRegistration where
  "demo_push = \<lparr>pr_Token = ''aa'', pr_Environment = ''sandbox'', pr_Kinds = [''turnDone''], pr_Sound = ''chime.wav''\<rparr>"

definition demo_registry :: Registry where
  "demo_registry = \<lparr>rg_devices = [], rg_file = Absent\<rparr>"

theorem registry_refines_witness:
  "\<exists>r :: Registry. map_of (rg_devices r) = [''p'' \<mapsto> \<lparr>rg_push = demo_push, rg_UpdatedAt = 7\<rparr>] \<and>
     (\<exists>r'. OpenRegistry True (rg_file r) = Some r' \<and> map_of (rg_devices r') = map_of (rg_devices r))"
proof -
  let ?es = "[RSet CutShort ''p'' demo_push 7, RRemove Written ''q'']"
  have t: "pr_Token demo_push \<noteq> []" by (simp add: demo_push_def)
  have "wf_map (rg_devices demo_registry)" by (simp add: demo_registry_def)
  note R = registry_refines [OF this refl, of ?es]
  have m: "map_of (rg_devices (reg_run ?es demo_registry)) = fold spec_step ?es (map_of (rg_devices demo_registry))"
    using R by (rule conjunct1)
  have o: "fst (reg_step (RRemove Written ''q'') (reg_run [RSet CutShort ''p'' demo_push 7] demo_registry)) \<longrightarrow>
      (\<exists>r'. OpenRegistry True (rg_file (reg_run ?es demo_registry)) = Some r' \<and>
        map_of (rg_devices r') = map_of (rg_devices (reg_run ?es demo_registry)))"
    using R by (elim conjE) (erule allE [of _ "[RSet CutShort ''p'' demo_push 7]"], erule allE, erule impE, simp)
  have "fold spec_step ?es (map_of (rg_devices demo_registry)) = [''p'' \<mapsto> \<lparr>rg_push = demo_push, rg_UpdatedAt = 7\<rparr>]"
    using t by (auto simp: demo_registry_def)
  note m = m [unfolded this]
  have "fst (reg_step (RRemove Written ''q'') (reg_run [RSet CutShort ''p'' demo_push 7] demo_registry))"
    by (simp only: reg_step.simps Remove_def persist_def os_write.case fst_conv)
  note w = mp [OF o this]
  show ?thesis by (rule exI [of _ "reg_run ?es demo_registry"], rule conjI, rule m, rule w)
qed

section \<open>Every event is news once\<close>

abbreviation news_key :: "news \<Rightarrow> string \<times> int" where
  "news_key n \<equiv> (fst n, fst (snd n))"

lemma last_seen_update [simp]: "last_seen (AList.update k v m) x = (if x = k then v else last_seen m x)"
  by (simp add: last_seen_def update_conv')

definition seen_le :: "seen \<Rightarrow> seen \<Rightarrow> bool" where
  "seen_le m m' \<longleftrightarrow> (\<forall>x. last_seen m x \<le> last_seen m' x)"

lemma seen_le_refl [simp]: "seen_le m m" by (simp add: seen_le_def)

lemma seen_le_trans: "seen_le a b \<Longrightarrow> seen_le b c \<Longrightarrow> seen_le a c"
  unfolding seen_le_def using order_trans by blast

text \<open>What one piece of the loop may report: news above the old mark of its session and within the new one.\<close>

definition fresh :: "seen \<Rightarrow> seen \<Rightarrow> news list \<Rightarrow> bool" where
  "fresh m m' ns \<longleftrightarrow> seen_le m m' \<and> distinct (map news_key ns) \<and>
     (\<forall>n \<in> set ns. last_seen m (fst n) < fst (snd n) \<and> fst (snd n) \<le> last_seen m' (fst n))"

lemma fresh_Nil [simp]: "fresh m m' [] \<longleftrightarrow> seen_le m m'"
  by (simp add: fresh_def)

lemma fresh_append: "fresh m m1 ns \<Longrightarrow> fresh m1 m2 ns' \<Longrightarrow> fresh m m2 (ns @ ns')"
proof -
  assume a: "fresh m m1 ns" and b: "fresh m1 m2 ns'"
  have le: "seen_le m m1" "seen_le m1 m2" using a b by (simp_all add: fresh_def)
  have x: "last_seen m (fst n) < fst (snd n) \<and> fst (snd n) \<le> last_seen m1 (fst n)" if "n \<in> set ns" for n
    using a that by (simp add: fresh_def)
  have y: "last_seen m1 (fst n) < fst (snd n) \<and> fst (snd n) \<le> last_seen m2 (fst n)" if "n \<in> set ns'" for n
    using b that by (simp add: fresh_def)
  have "news_key n \<noteq> news_key n'" if "n \<in> set ns" "n' \<in> set ns'" for n n'
    using x [OF that(1)] y [OF that(2)] by auto
  then have "distinct (map news_key (ns @ ns'))" using a b by (auto simp: fresh_def)
  moreover have "last_seen m (fst n) < fst (snd n) \<and> fst (snd n) \<le> last_seen m2 (fst n)" if "n \<in> set (ns @ ns')" for n
  proof -
    have l: "last_seen m (fst n) \<le> last_seen m1 (fst n)" "last_seen m1 (fst n) \<le> last_seen m2 (fst n)"
      using le by (simp_all add: seen_le_def)
    from that consider "n \<in> set ns" | "n \<in> set ns'" by auto
    then show ?thesis by cases (use x [of n] y [of n] l in linarith)+
  qed
  ultimately show ?thesis using seen_le_trans [OF le] by (simp add: fresh_def)
qed

lemma scan_marks:
  "scan_events seq0 known sid title evs m = (ns, m') \<Longrightarrow>
     seen_le m m' \<and> (\<forall>x. x \<noteq> sid \<longrightarrow> map_of m' x = map_of m x) \<and>
     (\<forall>n \<in> set ns. fst n = sid \<and> seq0 < fst (snd n) \<and> fst (snd n) \<le> last_seen m' sid \<and> known \<and>
       fst (snd n) \<in> ev_Seq ` set evs)"
proof (induction evs arbitrary: m ns m')
  case (Cons ev evs)
  let ?m = "if ev_Seq ev > last_seen m sid then AList.update sid (ev_Seq ev) m else m"
  show ?case
  proof (cases "ev_Seq ev \<le> seq0")
    case True
    with Cons.prems have "scan_events seq0 known sid title evs m = (ns, m')" by simp
    from Cons.IH [OF this] show ?thesis by auto
  next
    case False
    obtain ns1 where s: "scan_events seq0 known sid title evs ?m = (ns1, m')"
      and n: "ns = ns1 \<or> known \<and> (\<exists>a. ns = (sid, ev_Seq ev, a) # ns1)"
      using Cons.prems False by (auto simp: Let_def split: prod.splits if_splits option.splits)
    note IH = Cons.IH [OF s]
    have le: "seen_le m ?m" and mark: "ev_Seq ev \<le> last_seen ?m sid" by (auto simp: seen_le_def)
    have "ev_Seq ev \<le> last_seen m' sid" using IH mark order_trans unfolding seen_le_def by blast
    moreover have "\<forall>x. x \<noteq> sid \<longrightarrow> map_of m' x = map_of m x" using IH by (auto simp: update_conv')
    moreover have "seen_le m m'" using IH le seen_le_trans by blast
    ultimately show ?thesis using IH n False by auto
  qed
qed simp

lemma scan_distinct:
  "scan_events seq0 known sid title evs m = (ns, m') \<Longrightarrow> distinct (map ev_Seq evs) \<Longrightarrow> distinct (map news_key ns)"
proof (induction evs arbitrary: m ns m')
  case (Cons ev evs)
  let ?m = "if ev_Seq ev > last_seen m sid then AList.update sid (ev_Seq ev) m else m"
  show ?case
  proof (cases "ev_Seq ev \<le> seq0")
    case True
    with Cons show ?thesis by auto
  next
    case False
    obtain ns1 where s: "scan_events seq0 known sid title evs ?m = (ns1, m')"
      and n: "ns = ns1 \<or> (\<exists>a. ns = (sid, ev_Seq ev, a) # ns1)"
      using Cons.prems False by (auto simp: Let_def split: prod.splits if_splits option.splits)
    have "distinct (map news_key ns1)" using Cons.IH [OF s] Cons.prems by simp
    moreover have "fst (snd n) \<in> ev_Seq ` set evs" if "n \<in> set ns1" for n
      using scan_marks [OF s] that by blast
    then have "(sid, ev_Seq ev) \<notin> news_key ` set ns1" using Cons.prems(2) by force
    ultimately show ?thesis using n by auto
  qed
qed simp

text \<open>The gateway numbers the events of a session.\<close>

definition numbered :: "round \<Rightarrow> bool" where
  "numbered ro \<longleftrightarrow> (\<forall>i sid q raw evs. ro_events ro i sid q = Some raw \<longrightarrow> decode_events raw = Some evs \<longrightarrow> distinct (map ev_Seq evs))"

lemma maxSeq_nonneg: "0 \<le> maxSeq evs"
proof -
  have "b \<le> fold (\<lambda>ev m. if ev_Seq ev > m then ev_Seq ev else m) evs b" for b
  proof (induction evs arbitrary: b)
    case (Cons e evs)
    have "b \<le> (if ev_Seq e > b then ev_Seq e else b)" by simp
    also note Cons.IH
    finally show ?case by simp
  qed simp
  then show ?thesis by (simp add: maxSeq_def)
qed

lemma poll_session_fresh:
  assumes "poll_session reply s m = (ns, m')"
    and "\<And>raw evs. reply = Some raw \<Longrightarrow> decode_events raw = Some evs \<Longrightarrow> distinct (map ev_Seq evs)"
  shows "fresh m m' ns"
proof (cases "ns = [] \<and> m' = m")
  case False
  obtain sid title where s: "s = (sid, title)" by (cases s)
  obtain raw where r1: "reply = Some raw" using False assms(1) by (cases reply) (auto simp: poll_session_def s)
  obtain evs where r2: "decode_events raw = Some evs"
    using False assms(1) by (cases "decode_events raw") (auto simp: poll_session_def s r1)
  obtain ns1 m1 where sc1: "scan_events (last_seen m sid) (map_of m sid \<noteq> None) sid title evs m = (ns1, m1)"
    by (metis prod.exhaust)
  have "ns1 = ns" and m': "m' = (if map_of m sid = None then AList.update sid (maxSeq evs) m1 else m1)"
    using assms(1) by (simp_all add: poll_session_def s r1 r2 sc1 del: not_None_eq)
  with sc1 have sc: "scan_events (last_seen m sid) (map_of m sid \<noteq> None) sid title evs m = (ns, m1)" by simp
  note r = r1 r2
  note marks = scan_marks [OF sc]
  show ?thesis
  proof (cases "map_of m sid")
    case None
    then have "ns = []" using marks by (cases ns) auto
    moreover have "seen_le m m'"
      using None marks maxSeq_nonneg [of evs] unfolding m' seen_le_def by (auto simp: last_seen_def update_conv')
    ultimately show ?thesis by simp
  next
    case Some
    then have "m' = m1" using m' by simp
    with marks scan_distinct [OF sc assms(2) [OF r]] show ?thesis by (auto simp: fresh_def)
  qed
qed simp

lemma poll_sessions_fresh: "numbered ro \<Longrightarrow> poll_sessions ro i ss m = (ns, m') \<Longrightarrow> fresh m m' ns"
proof (induction ss arbitrary: i m ns)
  case (Cons s ss)
  obtain n1 m1 n2 where p: "poll_session (ro_events ro i (fst s) (last_seen m (fst s))) s m = (n1, m1)"
    "poll_sessions ro (Suc i) ss m1 = (n2, m')" "ns = n1 @ n2"
    using Cons.prems by (auto split: prod.splits)
  have "fresh m m1 n1" using Cons.prems(1) by (intro poll_session_fresh [OF p(1)]) (auto simp: numbered_def)
  with Cons.IH [OF Cons.prems(1) p(2)] fresh_append p(3) show ?case by blast
qed simp

lemma Poll_fresh: "numbered ro \<Longrightarrow> Poll ro w = ((ns, sent), w') \<Longrightarrow> fresh (wt_seen w) (wt_seen w') ns"
  using poll_sessions_fresh by (auto simp: Poll_def Let_def split: if_splits option.splits prod.splits)

lemma watch_fresh:
  "(\<And>ro. Round ro \<in> set es \<Longrightarrow> numbered ro) \<Longrightarrow> fresh (wt_seen w) (wt_seen (fold watch_step es w)) (watch_news es w)"
proof (induction es arbitrary: w)
  case (Cons e es)
  have "fresh (wt_seen w) (wt_seen (watch_step e w)) (case e of Round ro \<Rightarrow> fst (fst (Poll ro w)) | _ \<Rightarrow> [])"
  proof (cases e)
    case (Round ro)
    obtain ns sent w' where p: "Poll ro w = ((ns, sent), w')" by (metis prod.exhaust)
    with Round Cons.prems Poll_fresh [of ro w ns sent w'] show ?thesis by simp
  qed simp_all
  from fresh_append [OF this Cons.IH] Cons.prems show ?case by simp
qed simp


definition demo_event :: Event where
  "demo_event = \<lparr>ev_Type = ''message.complete'', ev_SessionID = ''s'', ev_Payload = JNull, ev_Seq = 8\<rparr>"

definition demo_events_json :: json where
  "demo_events_json = JObj [(''events'', JArr [JObj [(''type'', JStr ''message.complete''), (''session_id'', JStr ''s''),
     (''payload'', JNull), (''seq'', JNum (int_lit 8))]])]"

definition demo_sessions_json :: json where
  "demo_sessions_json = JObj [(''sessions'', JArr [JObj [(''id'', JStr ''s''), (''title'', JStr [])]])]"

definition demo_round :: round where
  "demo_round = \<lparr>ro_online = [], ro_active = Some (render demo_sessions_json), ro_events = (\<lambda>_ _ _. Some (render demo_events_json)),
     ro_checked = True, ro_trusted = (\<lambda>_. Some [''p'']), ro_send = (\<lambda>_. Delivered), ro_write = (\<lambda>_. Written)\<rparr>"

definition demo_entry :: Entry where
  "demo_entry = \<lparr>en_DeviceID = ''p'', en_Registration = \<lparr>rg_push = demo_push, rg_UpdatedAt = 7\<rparr>\<rparr>"

definition demo_watcher :: Watcher where
  "demo_watcher = \<lparr>wt_reg = \<lparr>rg_devices = [(''p'', \<lparr>rg_push = demo_push, rg_UpdatedAt = 7\<rparr>)], rg_file = Absent\<rparr>, wt_seen = [(''s'', 5)]\<rparr>"

definition demo_alert :: Alert where
  "demo_alert = \<lparr>al_Kind = KindTurnDone, al_Title = ''Hermes finished'', al_Body = ''Your reply is ready.'', al_Category = ''TURN'',
     al_SessionID = ''s'', al_RequestID = [], al_Sound = [], al_CollapseID = ''turn:s''\<rparr>"

lemma demo_texts: "parse_json (render demo_events_json) = Some demo_events_json"
  "parse_json (render demo_sessions_json) = Some demo_sessions_json"
  by (rule parse_json_render; simp add: demo_events_json_def demo_sessions_json_def plain_char_def)+

lemma demo_decode_reply: "decode_events (render demo_events_json) = Some [demo_event]"
  "decode_sessions (render demo_sessions_json) = Some [(''s'', [])]"
  unfolding decode_events_def decode_sessions_def unmarshal_def demo_texts
  by (simp_all add: demo_events_json_def demo_sessions_json_def fill_struct_def field_of_def as_slice_def event_names_def event_set_def
    session_set_def zero_event_def as_string_def demo_event_def as_int_int_lit)

lemma demo_numbered: "numbered demo_round"
  by (simp add: numbered_def demo_round_def demo_decode_reply)

lemma demo_classified: "Classify demo_event [] = Some demo_alert"
  by (simp add: Classify_def Let_def demo_event_def event_fields_def lenient_def fallback_def TrimSpace_def demo_alert_def)

lemma demo_Poll: "Poll demo_round demo_watcher = (([(''s'', 8, demo_alert)], [(demo_entry, demo_alert\<lparr>al_Sound := ''chime.wav''\<rparr>)]),
    demo_watcher\<lparr>wt_seen := [(''s'', 8)]\<rparr>)"
proof -
  have o: "offlineDevices (ro_online demo_round) (wt_reg demo_watcher) = [demo_entry]"
    by (simp add: offlineDevices_def demo_round_def demo_watcher_def All_def demo_push_def demo_entry_def)
  have "poll_sessions demo_round 0 [(''s'', [])] (wt_seen demo_watcher) = ([(''s'', 8, demo_alert)], [(''s'', 8)])"
    by (simp add: poll_session_def demo_round_def demo_decode_reply demo_watcher_def last_seen_def demo_classified)
      (simp add: demo_event_def)
  with o show ?thesis
    by (simp add: Poll_def Let_def deliver_def demo_decode_reply)
      (simp add: demo_round_def demo_decode_reply deliver_def demo_entry_def demo_push_def demo_alert_def Wants_def with_sound_def
        send_to_def Let_def demo_watcher_def)
qed


section \<open>Whom an alert reaches\<close>

definition allowed :: "round \<Rightarrow> Registry \<Rightarrow> news list \<Rightarrow> Entry \<Rightarrow> Alert \<Rightarrow> bool" where
  "allowed ro reg ns e a \<longleftrightarrow> e \<in> set (All reg) \<and> en_DeviceID e \<notin> set (ro_online ro) \<and> Wants (en_Registration e) (al_Kind a) \<and>
     (\<exists>k < length ns. (\<exists>sound. a = (snd (snd (ns ! k)))\<lparr>al_Sound := sound\<rparr>) \<and>
       (ro_checked ro \<longrightarrow> (\<exists>ids. ro_trusted ro k = Some ids \<and> en_DeviceID e \<in> set ids)))"

definition registered :: "string \<Rightarrow> delivery \<Rightarrow> bool" where
  "registered d v \<longleftrightarrow> map_of (rg_devices (dv_reg v)) d \<noteq> None"

lemma registered_drop [simp]: "registered x (drop_registration ro e v) \<longleftrightarrow> x \<noteq> en_DeviceID e \<and> registered x v"
  by (simp add: registered_def drop_registration_def Remove_def delete_conv')

lemma dv_sent_drop [simp]: "dv_sent (drop_registration ro e v) = dv_sent v"
  by (simp add: drop_registration_def)

lemma dv_sent_send [simp]: "dv_sent (send_to ro e a v) = dv_sent v @ [(e, a)]"
  by (simp add: send_to_def Let_def split: send_result.split)

lemma registered_send: "registered x (send_to ro e a v) \<Longrightarrow> registered x v"
  by (auto simp: send_to_def Let_def registered_def drop_registration_def Remove_def delete_conv' split: send_result.splits if_splits)

lemma registered_each: "registered x (deliver_each ro tr es a v) \<Longrightarrow> registered x v"
  by (induction ro tr es a v rule: deliver_each.induct) (auto dest: registered_send split: if_splits)

lemma unpaired_dropped:
  "e \<in> set es \<Longrightarrow> en_DeviceID e \<notin> set ids \<Longrightarrow> \<not> registered (en_DeviceID e) (deliver_each ro (Some ids) es a v)"
  by (induction ro "Some ids" es a v rule: deliver_each.induct) (auto dest: registered_each)

lemma with_sound_kind [simp]: "al_Kind (with_sound e a) = al_Kind a"
  by (simp add: with_sound_def Let_def)

lemma with_sound_only: "\<exists>sound. with_sound e a = a\<lparr>al_Sound := sound\<rparr>"
  by (cases a) (auto simp: with_sound_def Let_def)

lemma deliver_each_sent:
  "(e, b) \<in> set (dv_sent (deliver_each ro tr es a v)) \<Longrightarrow> (e, b) \<in> set (dv_sent v) \<or>
     e \<in> set es \<and> Wants (en_Registration e) (al_Kind a) \<and> (\<exists>sound. b = a\<lparr>al_Sound := sound\<rparr>) \<and>
     (\<forall>ids. tr = Some ids \<longrightarrow> en_DeviceID e \<in> set ids)"
proof (induction ro tr es a v rule: deliver_each.induct)
  case (2 ro tr x es a v)
  obtain sound where ws: "with_sound x a = a\<lparr>al_Sound := sound\<rparr>" using with_sound_only by blast
  consider ids where "tr = Some ids" "\<not> List.member ids (en_DeviceID x)"
    | "\<not> (case tr of None \<Rightarrow> False | Some ids \<Rightarrow> \<not> List.member ids (en_DeviceID x))" "\<not> Wants (en_Registration x) (al_Kind a)"
    | "\<not> (case tr of None \<Rightarrow> False | Some ids \<Rightarrow> \<not> List.member ids (en_DeviceID x))" "Wants (en_Registration x) (al_Kind a)"
    by (cases tr) auto
  then show ?case
  proof cases
    case 3
    with 2(4) have "(e, b) \<in> set (dv_sent (deliver_each ro tr es (with_sound x a) (send_to ro x (with_sound x a) v)))" by simp
    from 2(3) [OF 3(1) _ this] 3 show ?thesis
      by (cases tr) (auto simp: ws)
  qed (use 2 in auto)
qed simp

lemma deliver_sent:
  "(e, b) \<in> set (dv_sent (deliver ro k es a v)) \<Longrightarrow> (e, b) \<in> set (dv_sent v) \<or>
     e \<in> set es \<and> Wants (en_Registration e) (al_Kind a) \<and> (\<exists>sound. b = a\<lparr>al_Sound := sound\<rparr>) \<and>
     (ro_checked ro \<longrightarrow> (\<exists>ids. ro_trusted ro k = Some ids \<and> en_DeviceID e \<in> set ids))"
  by (auto simp: deliver_def dest!: deliver_each_sent split: if_splits option.splits)

lemma deliver_all_sent:
  "(e, b) \<in> set (dv_sent (deliver_all ro k es as v)) \<Longrightarrow> (e, b) \<in> set (dv_sent v) \<or>
     e \<in> set es \<and> (\<exists>i < length as. Wants (en_Registration e) (al_Kind (as ! i)) \<and> (\<exists>sound. b = (as ! i)\<lparr>al_Sound := sound\<rparr>) \<and>
     (ro_checked ro \<longrightarrow> (\<exists>ids. ro_trusted ro (k + i) = Some ids \<and> en_DeviceID e \<in> set ids)))"
proof (induction as arbitrary: k v)
  case (Cons a as)
  from Cons.prems have "(e, b) \<in> set (dv_sent (deliver_all ro (Suc k) es as (deliver ro k es a v)))" by simp
  from Cons.IH [OF this] consider
      "(e, b) \<in> set (dv_sent (deliver ro k es a v))"
    | i where "e \<in> set es" "i < length as" "Wants (en_Registration e) (al_Kind (as ! i))" "\<exists>sound. b = (as ! i)\<lparr>al_Sound := sound\<rparr>"
        "ro_checked ro \<longrightarrow> (\<exists>ids. ro_trusted ro (Suc k + i) = Some ids \<and> en_DeviceID e \<in> set ids)"
    by blast
  then show ?case
  proof cases
    case 1
    from deliver_sent [OF this] show ?thesis by (auto intro!: exI [of _ 0])
  next
    case (2 i)
    then show ?thesis by (intro disjI2 conjI exI [of _ "Suc i"]) auto
  qed
qed simp

lemma registered_deliver: "registered x (deliver ro k es a v) \<Longrightarrow> registered x v"
  by (auto simp: deliver_def dest: registered_each split: if_splits option.splits)

lemma registered_all: "registered x (deliver_all ro k es as v) \<Longrightarrow> registered x v"
  by (induction as arbitrary: k v) (auto dest: registered_deliver)

lemma all_unpaired_dropped:
  assumes "i < length as" "ro_checked ro" "ro_trusted ro (k + i) = Some ids" "e \<in> set es" "en_DeviceID e \<notin> set ids"
  shows "\<not> registered (en_DeviceID e) (deliver_all ro k es as v)"
  using assms
proof (induction as arbitrary: k v i)
  case (Cons a as)
  show ?case
  proof (cases i)
    case 0
    with Cons.prems have "\<not> registered (en_DeviceID e) (deliver ro k es a v)" by (simp add: deliver_def unpaired_dropped)
    then show ?thesis using registered_all by auto
  next
    case (Suc j)
    with Cons show ?thesis by simp
  qed
qed simp

text \<open>
  C30. An alert reaches only whom it may reach: every push of a round goes to a registered phone that was not
  connected, wants that kind, and, when the paired devices can be asked, was among them at that alert; its content is
  exactly that of one piece of news of the round, but for the sound. An offline phone that an answer shows to be no longer
  paired is not registered after the round.
\<close>

theorem push_confined:
  assumes "Poll ro w = ((ns, sent), w')"
  shows "(\<forall>(e, a) \<in> set sent. allowed ro (wt_reg w) ns e a) \<and>
    (\<forall>k < length ns. \<forall>ids. ro_checked ro \<and> ro_trusted ro k = Some ids \<longrightarrow>
      (\<forall>e \<in> set (offlineDevices (ro_online ro) (wt_reg w)). en_DeviceID e \<notin> set ids \<longrightarrow>
        map_of (rg_devices (wt_reg w')) (en_DeviceID e) = None))"
proof (cases "ns = [] \<and> sent = []")
  case True
  then show ?thesis by simp
next
  case False
  let ?off = "offlineDevices (ro_online ro) (wt_reg w)"
  let ?v = "\<lparr>dv_reg = wt_reg w, dv_sent = [], dv_writes = 0\<rparr>"
  let ?as = "map (snd \<circ> snd) ns"
  have sent: "sent = dv_sent (deliver_all ro 0 ?off ?as ?v)" and reg: "wt_reg w' = dv_reg (deliver_all ro 0 ?off ?as ?v)"
    using assms False by (auto simp: Poll_def Let_def split: if_splits option.splits prod.splits)
  have "allowed ro (wt_reg w) ns e a" if "(e, a) \<in> set sent" for e a
  proof -
    have "e \<in> set ?off \<and> (\<exists>i < length ns. Wants (en_Registration e) (al_Kind (snd (snd (ns ! i)))) \<and>
        (\<exists>sound. a = snd (snd (ns ! i))\<lparr>al_Sound := sound\<rparr>) \<and>
        (ro_checked ro \<longrightarrow> (\<exists>ids. ro_trusted ro i = Some ids \<and> en_DeviceID e \<in> set ids)))"
      using deliver_all_sent [of e a ro 0 ?off ?as ?v] that unfolding sent by (simp cong: conj_cong)
    then obtain i where "e \<in> set ?off" and i: "i < length ns" "Wants (en_Registration e) (al_Kind (snd (snd (ns ! i))))"
      "\<exists>sound. a = snd (snd (ns ! i))\<lparr>al_Sound := sound\<rparr>"
      "ro_checked ro \<longrightarrow> (\<exists>ids. ro_trusted ro i = Some ids \<and> en_DeviceID e \<in> set ids)"
      by blast
    moreover have "al_Kind a = al_Kind (snd (snd (ns ! i)))" using i(3) by auto
    ultimately show ?thesis unfolding allowed_def offlineDevices_def by auto
  qed
  moreover have "map_of (rg_devices (wt_reg w')) (en_DeviceID e) = None"
    if "k < length ns" "ro_checked ro" "ro_trusted ro k = Some ids" "e \<in> set ?off" "en_DeviceID e \<notin> set ids" for k ids e
    using all_unpaired_dropped [of k ?as ro 0 ids e ?off ?v] that by (simp add: registered_def reg)
  ultimately show ?thesis by blast
qed

theorem push_confined_witness:
  "snd (fst (Poll demo_round demo_watcher)) = [(demo_entry, demo_alert\<lparr>al_Sound := ''chime.wav''\<rparr>)] \<and>
   allowed demo_round (wt_reg demo_watcher) [(''s'', 8, demo_alert)] demo_entry (demo_alert\<lparr>al_Sound := ''chime.wav''\<rparr>)"
  using push_confined [OF demo_Poll] by (simp add: demo_Poll)

text \<open>The sound of one phone is also sent to a later phone that chose none.\<close>

lemma sound_leaks:
  assumes "en_DeviceID e1 = ''a''" "pr_Sound (rg_push (en_Registration e1)) = ''x.wav''" "pr_Sound (rg_push (en_Registration e2)) = []"
    "Wants (en_Registration e1) KindTurnDone" "Wants (en_Registration e2) KindTurnDone" "al_Kind a = KindTurnDone"
    "\<And>k. ro_send ro k = Delivered"
  shows "map snd (dv_sent (deliver_each ro None [e1, e2] a v)) = map snd (dv_sent v) @ [a\<lparr>al_Sound := ''x.wav''\<rparr>, a\<lparr>al_Sound := ''x.wav''\<rparr>]"
  using assms by (simp add: with_sound_def Let_def)

text \<open>What happened while every phone was connected is pushed when one leaves: with a phone online for all of it, a
  round does nothing, so the events stay above the mark.\<close>

lemma online_round_skipped:
  assumes "\<And>e. e \<in> set (All (wt_reg w)) \<Longrightarrow> en_DeviceID e \<in> set (ro_online ro)"
  shows "Poll ro w = (([], []), w)"
  using assms by (simp add: Poll_def offlineDevices_def filter_empty_conv)

end
