(* ===== verification/Terminals.thy ===== *)
theory Terminals
  imports Channel Interfaces
begin

text \<open>
  internal/bridge/pty.go: the shells of one phone connection. A terminal is a number; its \<open>tty\<close> and process are a
  record. \<open>handle\<close> runs in the reader of the connection, one message at a time; the \<open>pump\<close> of each terminal runs
  beside it, so its outputs and its end are events. What the system answers to one request is a record.
\<close>

record PTYMessage =
  pt_op :: string
  pt_id :: string
  pt_cols :: int
  pt_rows :: int
  pt_cwd :: string
  pt_data :: bytes
  pt_code :: int
  pt_reason :: string

definition empty_pty :: PTYMessage where
  "empty_pty = \<lparr>pt_op = [], pt_id = [], pt_cols = 0, pt_rows = 0, pt_cwd = [], pt_data = [], pt_code = 0, pt_reason = []\<rparr>"

definition pty_names :: "string list" where
  "pty_names = [''ch'', ''op'', ''id'', ''cols'', ''rows'', ''cwd'', ''d'', ''code'', ''reason'']"

definition pty_set :: "string \<Rightarrow> json \<Rightarrow> PTYMessage \<Rightarrow> PTYMessage option" where
  "pty_set f v m =
     (if f = ''ch'' then map_option (\<lambda>_. m) (as_string [] v)
      else if f = ''op'' then map_option (\<lambda>x. m\<lparr>pt_op := x\<rparr>) (as_string (pt_op m) v)
      else if f = ''id'' then map_option (\<lambda>x. m\<lparr>pt_id := x\<rparr>) (as_string (pt_id m) v)
      else if f = ''cols'' then map_option (\<lambda>x. m\<lparr>pt_cols := x\<rparr>) (as_int64 (pt_cols m) v)
      else if f = ''rows'' then map_option (\<lambda>x. m\<lparr>pt_rows := x\<rparr>) (as_int64 (pt_rows m) v)
      else if f = ''cwd'' then map_option (\<lambda>x. m\<lparr>pt_cwd := x\<rparr>) (as_string (pt_cwd m) v)
      else if f = ''d'' then map_option (\<lambda>x. m\<lparr>pt_data := x\<rparr>) (Bytes_UnmarshalJSON v)
      else if f = ''code'' then map_option (\<lambda>x. m\<lparr>pt_code := x\<rparr>) (as_int64 (pt_code m) v)
      else map_option (\<lambda>x. m\<lparr>pt_reason := x\<rparr>) (as_string (pt_reason m) v))"

definition UnmarshalPTY :: "bytes \<Rightarrow> PTYMessage option" where
  "UnmarshalPTY plaintext = unmarshal pty_names pty_set empty_pty (str_of plaintext)"

definition pty_json :: "PTYMessage \<Rightarrow> json" where
  "pty_json m =
     (let str = (\<lambda>n s. if s = [] then [] else [(n, JStr s)]); num = (\<lambda>n i. if i = 0 then [] else [(n, JNum (int_lit i))]) in
      JObj ([(''ch'', JStr ChPTY), (''op'', JStr (pt_op m)), (''id'', JStr (pt_id m))] @ num ''cols'' (pt_cols m) @
        num ''rows'' (pt_rows m) @ str ''cwd'' (pt_cwd m) @
        (if pt_data m = [] then [] else [(''d'', Bytes_MarshalJSON (pt_data m))]) @ num ''code'' (pt_code m) @
        str ''reason'' (pt_reason m)))"

definition MarshalPTY :: "PTYMessage \<Rightarrow> bytes" where
  "MarshalPTY m = bytes_of (render (pty_json m))"

section \<open>Terminals\<close>

definition maxTerminals :: nat where "maxTerminals = 8"
definition ptyReadChunk :: nat where "ptyReadChunk = 32 * 1024"

definition shellCommand :: "string \<Rightarrow> (string \<Rightarrow> bool) \<Rightarrow> string" where
  "shellCommand shell_env exists =
     (if TrimSpace shell_env \<noteq> [] then TrimSpace shell_env
      else case List.find exists [''/bin/zsh'', ''/bin/bash'', ''/bin/sh''] of Some c \<Rightarrow> c | None \<Rightarrow> ''/bin/sh'')"

text \<open>\<open>tm_hung\<close>: the tty is closed and the process killed; \<open>tm_ended\<close>: its pump is over.\<close>

record terminal =
  tm_id :: string
  tm_shell :: string
  tm_cwd :: string
  tm_cols :: "16 word"
  tm_rows :: "16 word"
  tm_input :: bytes
  tm_hung :: bool
  tm_ended :: bool

record terminalManager =
  tt_shell :: string
  tt_open :: "(string, nat) gomap"
  tt_heap :: "nat \<Rightarrow> terminal"
  tt_next :: nat

text \<open>What the system answers: whether a folder is one (\<open>isDir\<close>), the home folder (empty when unknown), the error of
  starting the shell, how much of a write the tty takes, and whether the tty accepts a size.\<close>

record pty_system =
  ps_isDir :: "string \<Rightarrow> bool"
  ps_home :: string
  ps_start :: "string option"
  ps_takes :: nat
  ps_size_ok :: bool

datatype pty_error = NoTerminalID | UnknownPTYOp string | ResizeFailed

definition newTerminalManager :: "string \<Rightarrow> terminalManager" where
  "newTerminalManager shell = \<lparr>tt_shell = shell, tt_open = [], tt_heap = (\<lambda>_. \<lparr>tm_id = [], tm_shell = [], tm_cwd = [],
     tm_cols = 0, tm_rows = 0, tm_input = [], tm_hung = True, tm_ended = True\<rparr>), tt_next = 0\<rparr>"

definition isDir :: "(string \<Rightarrow> bool) \<Rightarrow> string \<Rightarrow> bool" where
  "isDir is_dir path \<longleftrightarrow> has_prefix path ''/'' \<and> is_dir path"

text \<open>\<open>refuse\<close>: the frame it sends.\<close>

definition refuse :: "string \<Rightarrow> string \<Rightarrow> PTYMessage" where
  "refuse i reason = empty_pty\<lparr>pt_op := ''close'', pt_id := i, pt_reason := reason\<rparr>"

definition put_terminal :: "nat \<Rightarrow> terminal \<Rightarrow> terminalManager \<Rightarrow> terminalManager" where
  "put_terminal i t m = m\<lparr>tt_heap := (tt_heap m)(i := t)\<rparr>"

definition openTerminal :: "pty_system \<Rightarrow> PTYMessage \<Rightarrow> terminalManager \<Rightarrow> PTYMessage list \<times> terminalManager" where
  "openTerminal y msg m =
     (if map_of (tt_open m) (pt_id msg) \<noteq> None then ([refuse (pt_id msg) ''terminal id already open''], m)
      else if length (tt_open m) \<ge> maxTerminals then ([refuse (pt_id msg) ''too many terminals''], m)
      else
        let cols = (if pt_cols msg \<le> 0 then 80 else pt_cols msg);
            rows = (if pt_rows msg \<le> 0 then 24 else pt_rows msg);
            cwd = (if pt_cwd msg = [] \<or> \<not> isDir (ps_isDir y) (pt_cwd msg) then ps_home y else pt_cwd msg);
            i = tt_next m in
        case ps_start y of
          Some e \<Rightarrow> ([refuse (pt_id msg) (''could not start the shell: '' @ e)], m)
        | None \<Rightarrow>
            ([], (put_terminal i \<lparr>tm_id = pt_id msg, tm_shell = tt_shell m, tm_cwd = cwd, tm_cols = word_of_int cols,
                tm_rows = word_of_int rows, tm_input = [], tm_hung = False, tm_ended = False\<rparr> m)
              \<lparr>tt_open := AList.update (pt_id msg) i (tt_open m), tt_next := Suc i\<rparr>))"

definition terminal_write :: "pty_system \<Rightarrow> string \<Rightarrow> bytes \<Rightarrow> terminalManager \<Rightarrow> terminalManager" where
  "terminal_write y d data m =
     (case map_of (tt_open m) d of
        None \<Rightarrow> m
      | Some i \<Rightarrow> if tm_hung (tt_heap m i) then m
          else put_terminal i (tt_heap m i\<lparr>tm_input := tm_input (tt_heap m i) @ take (ps_takes y) data\<rparr>) m)"

definition resize :: "pty_system \<Rightarrow> string \<Rightarrow> int \<Rightarrow> int \<Rightarrow> terminalManager \<Rightarrow> pty_error option \<times> terminalManager" where
  "resize y d cols rows m =
     (case map_of (tt_open m) d of
        None \<Rightarrow> (None, m)
      | Some i \<Rightarrow>
          if cols \<le> 0 \<or> rows \<le> 0 then (None, m)
          else if tm_hung (tt_heap m i) \<or> \<not> ps_size_ok y then (Some ResizeFailed, m)
          else (None, put_terminal i (tt_heap m i\<lparr>tm_cols := word_of_int cols, tm_rows := word_of_int rows\<rparr>) m))"

definition closeTerminal :: "string \<Rightarrow> terminalManager \<Rightarrow> terminalManager" where
  "closeTerminal d m =
     (case map_of (tt_open m) d of None \<Rightarrow> m | Some i \<Rightarrow> put_terminal i (tt_heap m i\<lparr>tm_hung := True\<rparr>) m)"

definition closeAllTerminals :: "terminalManager \<Rightarrow> terminalManager" where
  "closeAllTerminals m = fold closeTerminal (map fst (tt_open m)) m"

definition handle_pty :: "pty_system \<Rightarrow> PTYMessage \<Rightarrow> terminalManager \<Rightarrow> (pty_error option \<times> PTYMessage list) \<times> terminalManager" where
  "handle_pty y msg m =
     (if pt_id msg = [] then ((Some NoTerminalID, []), m)
      else if pt_op msg = ''open'' then (case openTerminal y msg m of (out, m') \<Rightarrow> ((None, out), m'))
      else if pt_op msg = ''data'' then ((None, []), terminal_write y (pt_id msg) (pt_data msg) m)
      else if pt_op msg = ''resize''
      then (case resize y (pt_id msg) (pt_cols msg) (pt_rows msg) m of (e, m') \<Rightarrow> ((e, []), m'))
      else if pt_op msg = ''close'' then ((None, []), closeTerminal (pt_id msg) m)
      else ((Some (UnknownPTYOp (pt_op msg)), []), m))"

text \<open>The pump: one piece of output, and its end with the exit code, after the terminal is forgotten.\<close>

definition pump_data :: "nat \<Rightarrow> bytes \<Rightarrow> terminalManager \<Rightarrow> PTYMessage list" where
  "pump_data i data m =
     (if tm_ended (tt_heap m i) \<or> data = [] then []
      else [empty_pty\<lparr>pt_op := ''data'', pt_id := tm_id (tt_heap m i), pt_data := take ptyReadChunk data\<rparr>])"

text \<open>How \<open>Wait\<close> ends: success, an exit code, or another error.\<close>

datatype wait_result = WaitOK | WaitExit int | WaitError

definition exit_code :: "wait_result \<Rightarrow> int" where
  "exit_code w = (case w of WaitOK \<Rightarrow> 0 | WaitExit c \<Rightarrow> c | WaitError \<Rightarrow> -1)"

definition pump_end :: "nat \<Rightarrow> wait_result \<Rightarrow> terminalManager \<Rightarrow> PTYMessage list \<times> terminalManager" where
  "pump_end i w m =
     (let t = tt_heap m i in
      if tm_ended t then ([], m)
      else ([empty_pty\<lparr>pt_op := ''exit'', pt_id := tm_id t, pt_code := exit_code w\<rparr>],
        (put_terminal i (t\<lparr>tm_hung := True, tm_ended := True\<rparr>) m)\<lparr>tt_open := AList.delete (tm_id t) (tt_open m)\<rparr>))"

datatype pty_event = PMessage pty_system PTYMessage | PData nat bytes | PEnd nat wait_result | PCloseAll

fun pty_step :: "pty_event \<Rightarrow> terminalManager \<Rightarrow> terminalManager" where
  "pty_step (PMessage y msg) m = snd (handle_pty y msg m)"
| "pty_step (PData i data) m = m"
| "pty_step (PEnd i w) m = snd (pump_end i w m)"
| "pty_step PCloseAll m = closeAllTerminals m"

section \<open>The table\<close>

text \<open>The table holds exactly the terminals whose pump runs, each under its own id.\<close>

definition pty_inv :: "terminalManager \<Rightarrow> bool" where
  "pty_inv m \<longleftrightarrow> wf_map (tt_open m) \<and> length (tt_open m) \<le> maxTerminals \<and>
     (\<forall>i. \<not> tm_ended (tt_heap m i) \<longleftrightarrow> map_of (tt_open m) (tm_id (tt_heap m i)) = Some i) \<and>
     (\<forall>d i. map_of (tt_open m) d = Some i \<longrightarrow> tm_id (tt_heap m i) = d \<and> i < tt_next m) \<and>
     (\<forall>i. tm_ended (tt_heap m i) \<longrightarrow> tm_hung (tt_heap m i))"

lemma pty_invD:
  assumes "pty_inv m"
  shows "wf_map (tt_open m)" "length (tt_open m) \<le> maxTerminals"
    "\<And>i. \<not> tm_ended (tt_heap m i) \<longleftrightarrow> map_of (tt_open m) (tm_id (tt_heap m i)) = Some i"
    "\<And>d i. map_of (tt_open m) d = Some i \<Longrightarrow> tm_id (tt_heap m i) = d \<and> i < tt_next m"
    "\<And>i. tm_ended (tt_heap m i) \<Longrightarrow> tm_hung (tt_heap m i)"
  using assms by (auto simp: pty_inv_def)

lemma newTerminalManager_inv: "pty_inv (newTerminalManager shell)"
  by (simp add: pty_inv_def newTerminalManager_def)

text \<open>A change of a terminal that keeps its id and its pump.\<close>

lemma inv_put_terminal:
  assumes "pty_inv m" "tm_id t = tm_id (tt_heap m i)" "tm_ended t = tm_ended (tt_heap m i)" "tm_ended t \<Longrightarrow> tm_hung t"
  shows "pty_inv (put_terminal i t m)"
  using assms unfolding pty_inv_def put_terminal_def by simp

lemma inv_closeTerminal: "pty_inv m \<Longrightarrow> pty_inv (closeTerminal d m)"
  by (auto simp: closeTerminal_def split: option.split intro: inv_put_terminal)

lemma inv_openTerminal: "pty_inv m \<Longrightarrow> pty_inv (snd (openTerminal y msg m))"
proof -
  assume inv: "pty_inv m"
  note D = pty_invD [OF inv]
  show ?thesis
  proof (cases "map_of (tt_open m) (pt_id msg) = None \<and> length (tt_open m) < maxTerminals \<and> ps_start y = None")
    case True
    then have new: "map_of (tt_open m) (pt_id msg) = None" "length (tt_open m) < maxTerminals" by auto
    have stale: "map_of (tt_open m) d \<noteq> Some (tt_next m)" for d using D(4) by blast
    have len: "length (AList.update (pt_id msg) (tt_next m) (tt_open m)) = Suc (length (tt_open m))"
      using new(1) by (rule length_update_absent)
    show ?thesis
      using True D len stale unfolding pty_inv_def
      by (auto simp: openTerminal_def Let_def put_terminal_def update_conv' less_SucI)
  next
    case False
    with inv show ?thesis by (auto simp: openTerminal_def Let_def split: option.split)
  qed
qed

lemma inv_handle: "pty_inv m \<Longrightarrow> pty_inv (snd (handle_pty y msg m))"
proof -
  assume inv: "pty_inv m"
  have "pty_inv (terminal_write y d data m)" for d data
    using inv pty_invD(5) [OF inv] by (auto simp: terminal_write_def split: option.split intro!: inv_put_terminal)
  moreover have "pty_inv (snd (resize y d c r m))" for d c r
    using inv pty_invD(5) [OF inv] by (auto simp: resize_def split: option.split intro!: inv_put_terminal)
  ultimately show ?thesis
    using inv inv_openTerminal [OF inv, of y msg] inv_closeTerminal [OF inv]
    by (simp add: handle_pty_def split: prod.split) (metis snd_conv)
qed

lemma inv_closeAllTerminals: "pty_inv m \<Longrightarrow> pty_inv (closeAllTerminals m)"
proof -
  have "pty_inv m \<Longrightarrow> pty_inv (fold closeTerminal ds m)" for ds
    by (induction ds arbitrary: m) (auto intro: inv_closeTerminal)
  then show "pty_inv m \<Longrightarrow> pty_inv (closeAllTerminals m)" by (simp add: closeAllTerminals_def)
qed

lemma inv_pump_end: "pty_inv m \<Longrightarrow> pty_inv (snd (pump_end i w m))"
proof -
  assume inv: "pty_inv m"
  note D = pty_invD [OF inv]
  show ?thesis
  proof (cases "tm_ended (tt_heap m i)")
    case False
    then have i: "map_of (tt_open m) (tm_id (tt_heap m i)) = Some i" using D(3) by blast
    have len: "length (AList.delete (tm_id (tt_heap m i)) (tt_open m)) \<le> maxTerminals"
      by (rule order_trans [OF length_delete_le D(2)])
    have other: "tm_ended (tt_heap m j)" if "j \<noteq> i" "tm_id (tt_heap m j) = tm_id (tt_heap m i)" for j
      using that i D(3) [of j] by auto
    have same: "\<not> tm_ended (tt_heap m j) \<longleftrightarrow> (tm_id (tt_heap m j), j) \<in> set (tt_open m)" for j
      using D(3) [of j] D(1) by simp
    let ?m = "snd (pump_end i w m)"
    have f: "tt_open ?m = AList.delete (tm_id (tt_heap m i)) (tt_open m)" "tt_next ?m = tt_next m"
      "tt_heap ?m = (tt_heap m)(i := tt_heap m i\<lparr>tm_hung := True, tm_ended := True\<rparr>)"
      using False by (simp_all add: pump_end_def Let_def put_terminal_def)
    show ?thesis
      unfolding pty_inv_def f
      using other same len D(1,4,5) by (simp add: delete_conv')
  qed (simp add: pump_end_def Let_def inv)
qed

interpretation shells: machine pty_step pty_inv
proof unfold_locales
  fix m e
  assume inv: "pty_inv m"
  show "pty_inv (pty_step e m)"
    by (cases e) (simp_all add: inv inv_handle inv_pump_end inv_closeAllTerminals)
qed

lemma hung_after_close:
  assumes "map_of (tt_open m) d = Some i"
  shows "tm_hung (tt_heap (closeTerminal d m) i)" "tt_open (closeTerminal d m) = tt_open m"
    "tm_hung (tt_heap m j) \<Longrightarrow> tm_hung (tt_heap (closeTerminal d m) j)"
  using assms by (auto simp: closeTerminal_def put_terminal_def)

lemma closeTerminal_fields:
  "tt_open (closeTerminal d m) = tt_open m" "tm_hung (tt_heap m j) \<Longrightarrow> tm_hung (tt_heap (closeTerminal d m) j)"
  by (auto simp: closeTerminal_def put_terminal_def split: option.split)

lemma hung_after_fold:
  "tt_open (fold closeTerminal ds m) = tt_open m \<and> (tm_hung (tt_heap m j) \<longrightarrow> tm_hung (tt_heap (fold closeTerminal ds m) j)) \<and>
   (\<forall>d \<in> set ds. \<forall>i. map_of (tt_open m) d = Some i \<longrightarrow> tm_hung (tt_heap (fold closeTerminal ds m) i))"
proof (induction ds arbitrary: m j)
  case (Cons d ds)
  have step: "tt_open (fold closeTerminal ds (closeTerminal d m)) = tt_open (closeTerminal d m)"
    "tm_hung (tt_heap (closeTerminal d m) k) \<Longrightarrow> tm_hung (tt_heap (fold closeTerminal ds (closeTerminal d m)) k)"
    "\<And>x i. x \<in> set ds \<Longrightarrow> map_of (tt_open (closeTerminal d m)) x = Some i \<Longrightarrow>
       tm_hung (tt_heap (fold closeTerminal ds (closeTerminal d m)) i)" for k
    using Cons.IH [of "closeTerminal d m"] by auto
  show ?case using step closeTerminal_fields hung_after_close(1) [of m d] by auto
qed simp

text \<open>
  C33. A phone's shells are bounded and die with its connection: in every interleaving of the phone's messages and the
  shells' outputs and ends, at most \<open>maxTerminals\<close> shells run, each under one id that no other has; and when the
  connection ends, \<open>closeAll\<close> leaves no shell whose terminal is not hung up.
\<close>

theorem shells_bounded:
  "let m = fold pty_step es (newTerminalManager shell) in
    card {i. \<not> tm_ended (tt_heap m i)} \<le> maxTerminals \<and>
    inj_on (\<lambda>i. tm_id (tt_heap m i)) {i. \<not> tm_ended (tt_heap m i)} \<and>
    (\<forall>i. tm_hung (tt_heap (closeAllTerminals m) i))"
proof -
  define m where "m = fold pty_step es (newTerminalManager shell)"
  have inv: "pty_inv m" unfolding m_def by (rule shells.run_inv [OF newTerminalManager_inv])
  note D = pty_invD [OF inv]
  have inj: "inj_on (\<lambda>i. tm_id (tt_heap m i)) {i. \<not> tm_ended (tt_heap m i)}"
  proof (rule inj_onI)
    fix i j
    assume "i \<in> {i. \<not> tm_ended (tt_heap m i)}" "j \<in> {i. \<not> tm_ended (tt_heap m i)}" "tm_id (tt_heap m i) = tm_id (tt_heap m j)"
    with D(3) [of i] D(3) [of j] show "i = j" by simp
  qed
  have "(\<lambda>i. tm_id (tt_heap m i)) ` {i. \<not> tm_ended (tt_heap m i)} \<subseteq> fst ` set (tt_open m)"
  proof (rule image_subsetI)
    fix i
    assume "i \<in> {i. \<not> tm_ended (tt_heap m i)}"
    with D(3) [of i] have "(tm_id (tt_heap m i), i) \<in> set (tt_open m)" by (simp add: map_of_SomeD)
    then show "tm_id (tt_heap m i) \<in> fst ` set (tt_open m)" by (metis fst_conv imageI)
  qed
  then have "card {i. \<not> tm_ended (tt_heap m i)} \<le> card (fst ` set (tt_open m))"
    using card_inj_on_le [OF inj] by blast
  also have "\<dots> \<le> length (tt_open m)" using card_length [of "map fst (tt_open m)"] by simp
  finally have card: "card {i. \<not> tm_ended (tt_heap m i)} \<le> maxTerminals" using D(2) by simp
  have "tm_hung (tt_heap (closeAllTerminals m) i)" for i
  proof (cases "tm_ended (tt_heap m i)")
    case True
    with D(5) hung_after_fold show ?thesis by (auto simp: closeAllTerminals_def)
  next
    case False
    with D(3) have o: "map_of (tt_open m) (tm_id (tt_heap m i)) = Some i" by blast
    then have "tm_id (tt_heap m i) \<in> set (map fst (tt_open m))" using map_of_SomeD by force
    with o hung_after_fold [of "map fst (tt_open m)" m] show ?thesis by (auto simp: closeAllTerminals_def)
  qed
  with card inj show ?thesis unfolding Let_def m_def [symmetric] by blast
qed

text \<open>A resize that comes after a close and before the pump ends is an error, and an error of \<open>handle\<close> ends the
  connection.\<close>

lemma resize_after_close_fails:
  assumes "map_of (tt_open m) d = Some i" "0 < c" "0 < r"
  shows "fst (resize y d c r (closeTerminal d m)) = Some ResizeFailed"
  using assms hung_after_close [OF assms(1)] by (simp add: resize_def)

end
