(* ===== verification/Tunnel.thy ===== *)
theory Tunnel
  imports Terminals SupervisorSafety HTTPProxy JsonRaw PushWatcher StateStoreSafety
begin

text \<open>
  internal/bridge/tunnel.go with the messages of internal/protocol/messages.go and push.go: what a phone's message
  makes the bridge do, and the three loops of one connection as events. The gateway's socket, the link to the phone,
  the store and the shells answer as the events say. What \<open>startProxyHTTP\<close> and the upload handler do with a message
  is modelled in their own theories; here they are handed it.
\<close>

section \<open>Messages\<close>

definition MarshalWS :: "string \<Rightarrow> bytes" where
  "MarshalWS d = bytes_of (render (JObj [(''ch'', JStr ChWS), (''d'', JStr d)]))"

definition UnmarshalWS :: "bytes \<Rightarrow> string option" where
  "UnmarshalWS plaintext = unmarshal [''ch'', ''d'']
     (\<lambda>f v d. if f = ''ch'' then map_option (\<lambda>_. d) (as_string [] v) else as_string d v) [] (str_of plaintext)"

definition as_uint64 :: "64 word \<Rightarrow> json \<Rightarrow> 64 word option" where
  "as_uint64 old v =
     (case v of
        JNull \<Rightarrow> Some old
      | JNum l \<Rightarrow> if list_all is_digit l \<and> digits_val l < 2 ^ 64 then Some (word_of_nat (digits_val l)) else None
      | _ \<Rightarrow> None)"

definition request_set :: "string \<Rightarrow> string \<Rightarrow> HTTPRequest \<Rightarrow> HTTPRequest option" where
  "request_set f raw r =
     (case parse_json raw of
        None \<Rightarrow> None
      | Some v \<Rightarrow>
          if f = ''ch'' then map_option (\<lambda>_. r) (as_string [] v)
          else if f = ''id'' then map_option (\<lambda>x. r\<lparr>rqID := x\<rparr>) (as_uint64 (rqID r) v)
          else if f = ''method'' then map_option (\<lambda>x. r\<lparr>rqMethod := x\<rparr>) (as_string (rqMethod r) v)
          else if f = ''path'' then map_option (\<lambda>x. r\<lparr>rqPath := x\<rparr>) (as_string (rqPath r) v)
          else if f = ''query'' then map_option (\<lambda>x. r\<lparr>rqQuery := x\<rparr>) (as_string (rqQuery r) v)
          else Some (r\<lparr>rqBody := raw\<rparr>))"

definition UnmarshalHTTPRequest :: "bytes \<Rightarrow> HTTPRequest option" where
  "UnmarshalHTTPRequest plaintext = unmarshal_raw [''ch'', ''id'', ''method'', ''path'', ''query'', ''body''] request_set
     \<lparr>rqID = 0, rqMethod = [], rqPath = [], rqQuery = [], rqBody = []\<rparr> (str_of plaintext)"

record AttachmentBlobCapability =
  ab_Version :: int
  ab_MaxFileBytes :: int
  ab_ChunkBytes :: int

record BridgeCapability =
  bc_API :: int
  bc_Version :: string
  bc_Incarnation :: string
  bc_Status :: bool
  bc_Update :: bool

record Capabilities =
  ca_AttachmentBlob :: "AttachmentBlobCapability option"
  ca_Bridge :: "BridgeCapability option"

record CtlMessage =
  cm_Op :: string
  cm_Reason :: string
  cm_State :: string
  cm_Caps :: "Capabilities option"
  cm_Push :: "PushRegistration option"

definition ctl :: "string \<Rightarrow> CtlMessage" where
  "ctl op = \<lparr>cm_Op = op, cm_Reason = [], cm_State = [], cm_Caps = None, cm_Push = None\<rparr>"

definition caps_json :: "Capabilities \<Rightarrow> json" where
  "caps_json c = JObj (
     (case ca_AttachmentBlob c of
        None \<Rightarrow> []
      | Some a \<Rightarrow> [(''attachment_blob'', JObj [(''version'', JNum (int_lit (ab_Version a))),
          (''max_file_bytes'', JNum (int_lit (ab_MaxFileBytes a))), (''chunk_bytes'', JNum (int_lit (ab_ChunkBytes a)))])]) @
     (case ca_Bridge c of
        None \<Rightarrow> []
      | Some b \<Rightarrow> [(''bridge'', JObj [(''api'', JNum (int_lit (bc_API b))), (''version'', JStr (bc_Version b)),
          (''incarnation'', JStr (bc_Incarnation b)),
          (''features'', JObj [(''status'', JBool (bc_Status b)), (''update'', JBool (bc_Update b))])])]))"

definition push_json :: "PushRegistration \<Rightarrow> json" where
  "push_json p = JObj ([(''token'', JStr (pr_Token p)), (''environment'', JStr (pr_Environment p)),
     (''kinds'', JArr (map JStr (pr_Kinds p)))] @ (if pr_Sound p = [] then [] else [(''sound'', JStr (pr_Sound p))]))"

definition ctl_json :: "CtlMessage \<Rightarrow> json" where
  "ctl_json m =
     (let str = (\<lambda>n s. if s = [] then [] else [(n, JStr s)]) in
      JObj ([(''ch'', JStr ChCtl), (''op'', JStr (cm_Op m))] @ str ''reason'' (cm_Reason m) @ str ''state'' (cm_State m) @
        (case cm_Caps m of None \<Rightarrow> [] | Some c \<Rightarrow> [(''caps'', caps_json c)]) @
        (case cm_Push m of None \<Rightarrow> [] | Some p \<Rightarrow> [(''push'', push_json p)])))"

definition MarshalCtl :: "CtlMessage \<Rightarrow> bytes" where
  "MarshalCtl m = bytes_of (render (ctl_json m))"

definition push_set :: "string \<Rightarrow> json \<Rightarrow> PushRegistration \<Rightarrow> PushRegistration option" where
  "push_set f v p =
     (if f = ''token'' then map_option (\<lambda>x. p\<lparr>pr_Token := x\<rparr>) (as_string (pr_Token p) v)
      else if f = ''environment'' then map_option (\<lambda>x. p\<lparr>pr_Environment := x\<rparr>) (as_string (pr_Environment p) v)
      else if f = ''kinds'' then map_option (\<lambda>x. p\<lparr>pr_Kinds := x\<rparr>) (as_slice (\<lambda>j old. as_string old j) [] (pr_Kinds p) v)
      else map_option (\<lambda>x. p\<lparr>pr_Sound := x\<rparr>) (as_string (pr_Sound p) v))"

definition blob_cap_set :: "string \<Rightarrow> json \<Rightarrow> AttachmentBlobCapability \<Rightarrow> AttachmentBlobCapability option" where
  "blob_cap_set f v a =
     (if f = ''version'' then map_option (\<lambda>x. a\<lparr>ab_Version := x\<rparr>) (as_int64 (ab_Version a) v)
      else if f = ''max_file_bytes'' then map_option (\<lambda>x. a\<lparr>ab_MaxFileBytes := x\<rparr>) (as_int64 (ab_MaxFileBytes a) v)
      else map_option (\<lambda>x. a\<lparr>ab_ChunkBytes := x\<rparr>) (as_int64 (ab_ChunkBytes a) v))"

definition features_set :: "string \<Rightarrow> json \<Rightarrow> bool \<times> bool \<Rightarrow> (bool \<times> bool) option" where
  "features_set f v x =
     (if f = ''status'' then map_option (\<lambda>b. (b, snd x)) (as_bool (fst x) v) else map_option (\<lambda>b. (fst x, b)) (as_bool (snd x) v))"

definition bridge_cap_set :: "string \<Rightarrow> json \<Rightarrow> BridgeCapability \<Rightarrow> BridgeCapability option" where
  "bridge_cap_set f v b =
     (if f = ''api'' then map_option (\<lambda>x. b\<lparr>bc_API := x\<rparr>) (as_int64 (bc_API b) v)
      else if f = ''version'' then map_option (\<lambda>x. b\<lparr>bc_Version := x\<rparr>) (as_string (bc_Version b) v)
      else if f = ''incarnation'' then map_option (\<lambda>x. b\<lparr>bc_Incarnation := x\<rparr>) (as_string (bc_Incarnation b) v)
      else map_option (\<lambda>x. b\<lparr>bc_Status := fst x, bc_Update := snd x\<rparr>)
        (fill_struct [''status'', ''update''] features_set v (bc_Status b, bc_Update b)))"

text \<open>A pointer to a struct: null clears it, an object fills what it points to or a new zero value.\<close>

definition fill_pointer :: "string list \<Rightarrow> (string \<Rightarrow> json \<Rightarrow> 'r \<Rightarrow> 'r option) \<Rightarrow> 'r \<Rightarrow> 'r option \<Rightarrow> json \<Rightarrow> 'r option option" where
  "fill_pointer names setf zero old v =
     (if v = JNull then Some None
      else map_option Some (fill_struct names setf v (case old of None \<Rightarrow> zero | Some x \<Rightarrow> x)))"

definition caps_set :: "string \<Rightarrow> json \<Rightarrow> Capabilities \<Rightarrow> Capabilities option" where
  "caps_set f v c =
     (if f = ''attachment_blob''
      then map_option (\<lambda>x. c\<lparr>ca_AttachmentBlob := x\<rparr>) (fill_pointer [''version'', ''max_file_bytes'', ''chunk_bytes''] blob_cap_set
        \<lparr>ab_Version = 0, ab_MaxFileBytes = 0, ab_ChunkBytes = 0\<rparr> (ca_AttachmentBlob c) v)
      else map_option (\<lambda>x. c\<lparr>ca_Bridge := x\<rparr>) (fill_pointer [''api'', ''version'', ''incarnation'', ''features''] bridge_cap_set
        \<lparr>bc_API = 0, bc_Version = [], bc_Incarnation = [], bc_Status = False, bc_Update = False\<rparr> (ca_Bridge c) v))"

definition ctl_set :: "string \<Rightarrow> json \<Rightarrow> CtlMessage \<Rightarrow> CtlMessage option" where
  "ctl_set f v m =
     (if f = ''ch'' then map_option (\<lambda>_. m) (as_string [] v)
      else if f = ''op'' then map_option (\<lambda>x. m\<lparr>cm_Op := x\<rparr>) (as_string (cm_Op m) v)
      else if f = ''reason'' then map_option (\<lambda>x. m\<lparr>cm_Reason := x\<rparr>) (as_string (cm_Reason m) v)
      else if f = ''state'' then map_option (\<lambda>x. m\<lparr>cm_State := x\<rparr>) (as_string (cm_State m) v)
      else if f = ''caps''
      then map_option (\<lambda>x. m\<lparr>cm_Caps := x\<rparr>) (fill_pointer [''attachment_blob'', ''bridge''] caps_set
        \<lparr>ca_AttachmentBlob = None, ca_Bridge = None\<rparr> (cm_Caps m) v)
      else map_option (\<lambda>x. m\<lparr>cm_Push := x\<rparr>) (fill_pointer [''token'', ''environment'', ''kinds'', ''sound''] push_set
        \<lparr>pr_Token = [], pr_Environment = [], pr_Kinds = [], pr_Sound = []\<rparr> (cm_Push m) v))"

definition UnmarshalCtl :: "bytes \<Rightarrow> CtlMessage option" where
  "UnmarshalCtl plaintext = unmarshal [''ch'', ''op'', ''reason'', ''state'', ''caps'', ''push''] ctl_set (ctl []) (str_of plaintext)"

text \<open>The first message after the handshake: admission is granted, with what this bridge can do.\<close>

definition accepted_message :: "bool \<Rightarrow> int \<Rightarrow> int \<Rightarrow> BridgeCapability option \<Rightarrow> CtlMessage" where
  "accepted_message uploads maxFileBytes chunkBytes status = (ctl ''accepted'')\<lparr>cm_Caps := Some \<lparr>
     ca_AttachmentBlob = (if uploads then Some \<lparr>ab_Version = 1, ab_MaxFileBytes = maxFileBytes, ab_ChunkBytes = chunkBytes\<rparr> else None),
     ca_Bridge = status\<rparr>\<rparr>"

section \<open>Dispatch\<close>

text \<open>What \<open>dispatch\<close> decides for one message.\<close>

datatype dispatch_error = NotPeeked peek_error | BadMessage | PhoneClosed string | UnexpectedConfirm | NoSuchChannel

datatype action =
    GatewayWrite string
  | ProxyRequest HTTPRequest
  | AnswerPong
  | Nothing
  | NameDevice string
  | RegisterPush PushRegistration
  | ToShell PTYMessage
  | ToUploads bytes
  | Refuse dispatch_error

definition ctl_action :: "CtlMessage \<Rightarrow> action" where
  "ctl_action m =
     (if cm_Op m = ''ping'' then AnswerPong
      else if cm_Op m = ''pong'' then Nothing
      else if cm_Op m = ''close'' then Refuse (PhoneClosed (cm_Reason m))
      else if cm_Op m = ''name'' then NameDevice (cm_Reason m)
      else if cm_Op m = ''push'' then (case cm_Push m of Some p \<Rightarrow> RegisterPush p | None \<Rightarrow> Nothing)
      else Nothing)"

definition dispatch :: "bytes \<Rightarrow> action" where
  "dispatch plaintext =
     (case PeekChannel plaintext of
        Inl e \<Rightarrow> Refuse (NotPeeked e)
      | Inr chan \<Rightarrow>
          if chan = ChWS then (case UnmarshalWS plaintext of None \<Rightarrow> Refuse BadMessage | Some d \<Rightarrow> GatewayWrite d)
          else if chan = ChHTTP
          then (case UnmarshalHTTPRequest plaintext of None \<Rightarrow> Refuse BadMessage | Some r \<Rightarrow> ProxyRequest r)
          else if chan = ChCtl then (case UnmarshalCtl plaintext of None \<Rightarrow> Refuse BadMessage | Some m \<Rightarrow> ctl_action m)
          else if chan = ChPTY then (case UnmarshalPTY plaintext of None \<Rightarrow> Refuse BadMessage | Some m \<Rightarrow> ToShell m)
          else if chan = ChBlob then ToUploads plaintext
          else if chan = ChConfirm then Refuse UnexpectedConfirm
          else Refuse NoSuchChannel)"

section \<open>The loops\<close>

datatype phone_msg = PhoneWS string | PhoneCtl CtlMessage | PhonePTY PTYMessage

fun wire :: "phone_msg \<Rightarrow> bytes" where
  "wire (PhoneWS d) = MarshalWS d"
| "wire (PhoneCtl m) = MarshalCtl m"
| "wire (PhonePTY m) = MarshalPTY m"

datatype tunnel_error =
    GatewayRead | GatewayWriteFailed | PhoneRead | SendFailed | FrameTooLarge | DispatchFailed dispatch_error | RequestFailed
  | NameFailed "state_error list" | ShellFailed pty_error | UploadFailed | GatewayRestarted | WatcherClosed | ContextDone

record Tunnel =
  tn_device :: string
  tn_store :: Store
  tn_terminals :: terminalManager
  tn_gateway :: "string list"
  tn_phone :: "phone_msg list"
  tn_requests :: "HTTPRequest list"
  tn_uploads :: "bytes list"
  tn_pushes :: "(string \<times> PushRegistration) list"
  tn_err :: "tunnel_error option"

text \<open>\<open>fail\<close> keeps the first error, which \<open>tunnel\<close> returns.\<close>

definition tunnel_fail :: "tunnel_error \<Rightarrow> Tunnel \<Rightarrow> Tunnel" where
  "tunnel_fail e t = (case tn_err t of None \<Rightarrow> t\<lparr>tn_err := Some e\<rparr> | Some _ \<Rightarrow> t)"

definition fits :: "phone_msg \<Rightarrow> bool" where
  "fits m \<longleftrightarrow> length (wire m) \<le> MaxPlaintext"

text \<open>\<open>sendJSON\<close> whose error fails the tunnel.\<close>

definition send_msg :: "bool \<Rightarrow> phone_msg \<Rightarrow> Tunnel \<Rightarrow> Tunnel" where
  "send_msg ok m t =
     (if \<not> fits m then tunnel_fail FrameTooLarge t
      else if ok then t\<lparr>tn_phone := tn_phone t @ [m]\<rparr>
      else tunnel_fail SendFailed t)"

definition gateway_limit_close :: CtlMessage where
  "gateway_limit_close = (ctl ''close'')\<lparr>cm_Reason := ''gateway frame exceeds bridge limit''\<rparr>"

fun state_name :: "State \<Rightarrow> string" where
  "state_name StateStarting = ''starting''"
| "state_name StateReady = ''ready''"
| "state_name StateDown = ''down''"

definition gateway_state :: "State \<Rightarrow> CtlMessage" where
  "gateway_state st = (ctl ''gateway'')\<lparr>cm_State := state_name st\<rparr>"

definition mustDecodeID :: "string \<Rightarrow> bytes" where
  "mustDecodeID i = (case DecodeDeviceID i of Some raw \<Rightarrow> raw | None \<Rightarrow> [])"

text \<open>How the world answers while one message of the phone is dispatched.\<close>

record tunnel_env =
  te_write_ok :: bool
  te_send_ok :: bool
  te_request_ok :: bool
  te_upload_ok :: bool
  te_onPush :: bool
  te_faults :: faults
  te_now :: gotime
  te_pty :: pty_system

definition run_action :: "tunnel_env \<Rightarrow> action \<Rightarrow> Tunnel \<Rightarrow> Tunnel" where
  "run_action e a t =
     (case a of
        GatewayWrite d \<Rightarrow> if te_write_ok e then t\<lparr>tn_gateway := tn_gateway t @ [d]\<rparr> else tunnel_fail GatewayWriteFailed t
      | ProxyRequest r \<Rightarrow>
          (let t' = t\<lparr>tn_requests := tn_requests t @ [r]\<rparr> in if te_request_ok e then t' else tunnel_fail RequestFailed t')
      | AnswerPong \<Rightarrow> send_msg (te_send_ok e) (PhoneCtl (ctl ''pong'')) t
      | Nothing \<Rightarrow> t
      | NameDevice name \<Rightarrow>
          (case Trust (te_faults e) (te_now e) (mustDecodeID (tn_device t)) name (tn_store t) of
             (err, s) \<Rightarrow> let t' = t\<lparr>tn_store := s\<rparr> in if err = [] then t' else tunnel_fail (NameFailed err) t')
      | RegisterPush p \<Rightarrow> if te_onPush e then t\<lparr>tn_pushes := tn_pushes t @ [(tn_device t, p)]\<rparr> else t
      | ToShell m \<Rightarrow>
          (case handle_pty (te_pty e) m (tn_terminals t) of
             ((err, out), tt) \<Rightarrow>
               let t' = fold (\<lambda>x. send_msg (te_send_ok e) (PhonePTY x)) out (t\<lparr>tn_terminals := tt\<rparr>) in
               (case err of None \<Rightarrow> t' | Some x \<Rightarrow> tunnel_fail (ShellFailed x) t'))
      | ToUploads raw \<Rightarrow>
          (let t' = t\<lparr>tn_uploads := tn_uploads t @ [raw]\<rparr> in if te_upload_ok e then t' else tunnel_fail UploadFailed t')
      | Refuse x \<Rightarrow> tunnel_fail (DispatchFailed x) t)"

datatype tunnel_event =
    TnGateway string bool bool
  | TnGatewayError
  | TnPhone bytes tunnel_env
  | TnPhoneError
  | TnTick bool
  | TnState State bool
  | TnStatesClosed
  | TnContext
  | TnShellData nat bytes bool
  | TnShellEnd nat wait_result bool

text \<open>The flags are whether the send succeeds and, for a gateway frame over the limit, whether the best-effort close
  message goes out.\<close>

fun tunnel_step :: "tunnel_event \<Rightarrow> Tunnel \<Rightarrow> Tunnel" where
  "tunnel_step (TnGateway d ok close_ok) t =
     (if fits (PhoneWS d) then send_msg ok (PhoneWS d) t
      else tunnel_fail FrameTooLarge (if close_ok then t\<lparr>tn_phone := tn_phone t @ [PhoneCtl gateway_limit_close]\<rparr> else t))"
| "tunnel_step TnGatewayError t = tunnel_fail GatewayRead t"
| "tunnel_step (TnPhone plaintext e) t = run_action e (dispatch plaintext) t"
| "tunnel_step TnPhoneError t = tunnel_fail PhoneRead t"
| "tunnel_step (TnTick ok) t = send_msg ok (PhoneCtl (ctl ''ping'')) t"
| "tunnel_step (TnState st ok) t =
     (let t' = send_msg ok (PhoneCtl (gateway_state st)) t in if st \<noteq> StateReady then tunnel_fail GatewayRestarted t' else t')"
| "tunnel_step TnStatesClosed t = tunnel_fail WatcherClosed t"
| "tunnel_step TnContext t = tunnel_fail ContextDone t"
| "tunnel_step (TnShellData i data ok) t =
     fold (\<lambda>x. send_msg ok (PhonePTY x)) (pump_data i data (tn_terminals t)) t"
| "tunnel_step (TnShellEnd i w ok) t =
     (case pump_end i w (tn_terminals t) of
        (out, tt) \<Rightarrow> fold (\<lambda>x. send_msg ok (PhonePTY x)) out (t\<lparr>tn_terminals := tt\<rparr>))"

text \<open>The end of \<open>tunnel\<close>: the loops are over, the deferred calls run.\<close>

definition tunnel_end :: "Tunnel \<Rightarrow> tunnel_error option \<times> Tunnel" where
  "tunnel_end t = (tn_err t, t\<lparr>tn_terminals := closeAllTerminals (tn_terminals t)\<rparr>)"

text \<open>\<open>dialGateway\<close>: the attempts until one connects or one ends past the deadline. A gateway that is not ready is
  reported to the phone.\<close>

datatype dial_attempt = Connected | DialFailed | NotReady State

fun dialGateway :: "(dial_attempt \<times> bool) list \<Rightarrow> bool \<times> CtlMessage list" where
  "dialGateway [] = (False, [])"
| "dialGateway ((a, late) # rest) =
     (case a of
        Connected \<Rightarrow> (True, [])
      | DialFailed \<Rightarrow> if late then (False, []) else dialGateway rest
      | NotReady st \<Rightarrow>
          (case (if late then (False, []) else dialGateway rest) of (ok, ms) \<Rightarrow> (ok, gateway_state st # ms)))"

section \<open>Frames pass unchanged\<close>

definition ws_in :: "tunnel_event \<Rightarrow> string list" where
  "ws_in ev = (case ev of
     TnPhone plaintext e \<Rightarrow> (case dispatch plaintext of GatewayWrite d \<Rightarrow> if te_write_ok e then [d] else [] | _ \<Rightarrow> [])
   | _ \<Rightarrow> [])"

definition ws_out :: "tunnel_event \<Rightarrow> string list" where
  "ws_out ev = (case ev of TnGateway d ok _ \<Rightarrow> if ok \<and> fits (PhoneWS d) then [d] else [] | _ \<Rightarrow> [])"

definition phone_frames :: "phone_msg list \<Rightarrow> string list" where
  "phone_frames ms = concat (map (\<lambda>m. case m of PhoneWS d \<Rightarrow> [d] | _ \<Rightarrow> []) ms)"

lemma phone_frames_append [simp]: "phone_frames (a @ b) = phone_frames a @ phone_frames b"
  by (simp add: phone_frames_def)

lemma phone_frames_simps [simp]:
  "phone_frames [] = []" "phone_frames [PhoneWS d] = [d]" "phone_frames [PhoneCtl c] = []" "phone_frames [PhonePTY p] = []"
  by (simp_all add: phone_frames_def)

lemma tunnel_fail_fields [simp]:
  "tn_device (tunnel_fail e t) = tn_device t" "tn_store (tunnel_fail e t) = tn_store t" "tn_gateway (tunnel_fail e t) = tn_gateway t"
  "tn_phone (tunnel_fail e t) = tn_phone t" "tn_pushes (tunnel_fail e t) = tn_pushes t"
  by (simp_all add: tunnel_fail_def split: option.split)

lemma send_msg_fields [simp]:
  "tn_device (send_msg ok m t) = tn_device t" "tn_store (send_msg ok m t) = tn_store t" "tn_gateway (send_msg ok m t) = tn_gateway t"
  "tn_pushes (send_msg ok m t) = tn_pushes t"
  "tn_phone (send_msg ok m t) = tn_phone t @ (if ok \<and> fits m then [m] else [])"
  by (simp_all add: send_msg_def)

lemma send_shell_fields [simp]:
  "tn_device (fold (\<lambda>x. send_msg ok (PhonePTY x)) out t) = tn_device t"
  "tn_store (fold (\<lambda>x. send_msg ok (PhonePTY x)) out t) = tn_store t"
  "tn_gateway (fold (\<lambda>x. send_msg ok (PhonePTY x)) out t) = tn_gateway t"
  "tn_pushes (fold (\<lambda>x. send_msg ok (PhonePTY x)) out t) = tn_pushes t"
  "phone_frames (tn_phone (fold (\<lambda>x. send_msg ok (PhonePTY x)) out t)) = phone_frames (tn_phone t)"
  by (induction out arbitrary: t) auto

lemma run_action_ws:
  "tn_gateway (run_action e a t) = tn_gateway t @ (case a of GatewayWrite d \<Rightarrow> if te_write_ok e then [d] else [] | _ \<Rightarrow> []) \<and>
   phone_frames (tn_phone (run_action e a t)) = phone_frames (tn_phone t)"
  by (cases a) (auto simp: run_action_def Let_def split: prod.split option.split)

lemma tunnel_step_ws:
  "tn_gateway (tunnel_step ev t) = tn_gateway t @ ws_in ev \<and>
   phone_frames (tn_phone (tunnel_step ev t)) = phone_frames (tn_phone t) @ ws_out ev"
  using run_action_ws by (cases ev) (auto simp: ws_in_def ws_out_def Let_def split: prod.split)

lemma dispatch_ws: "plain d \<Longrightarrow> dispatch (MarshalWS d) = GatewayWrite d"
proof -
  assume d: "plain d"
  let ?v = "JObj [(''ch'', JStr ChWS), (''d'', JStr d)]"
  have "parse_json (render ?v) = Some ?v"
    using d by (intro parse_json_render) (simp_all add: ChWS_def plain_char_def)
  then show ?thesis
    by (simp add: dispatch_def PeekChannel_def UnmarshalWS_def MarshalWS_def unmarshal_def fill_struct_def field_of_def
      as_string_def known_channels_def del: render.simps)
qed


definition demo_tunnel :: Tunnel where
  "demo_tunnel = \<lparr>tn_device = DeviceID (replicate 32 7), tn_store = \<lparr>st_disk = \<lparr>dk_identity = Absent, dk_config = Absent,
     dk_devices = Data [], dk_temps = 0\<rparr>, st_closed = False\<rparr>, tn_terminals = newTerminalManager ''/bin/sh'', tn_gateway = [],
     tn_phone = [], tn_requests = [], tn_uploads = [], tn_pushes = [], tn_err = None\<rparr>"

definition demo_tunnel_env :: tunnel_env where
  "demo_tunnel_env = \<lparr>te_write_ok = True, te_send_ok = True, te_request_ok = True, te_upload_ok = True, te_onPush = True,
     te_faults = no_faults, te_now = 0, te_pty = \<lparr>ps_isDir = (\<lambda>_. False), ps_home = [], ps_start = None, ps_takes = 0, ps_size_ok = True\<rparr>\<rparr>"


section \<open>A connected phone's messages grant nothing\<close>

lemma run_action_store:
  "ids (tn_store (run_action e a t)) = ids (tn_store t) \<and> (distinct_ids (tn_store t) \<longrightarrow> distinct_ids (tn_store (run_action e a t))) \<and>
   tn_device (run_action e a t) = tn_device t \<and>
   (\<exists>ps. tn_pushes (run_action e a t) = tn_pushes t @ ps \<and> fst ` set ps \<subseteq> {tn_device t})"
proof (cases a)
  case (NameDevice name)
  obtain err s where tr: "Trust (te_faults e) (te_now e) (mustDecodeID (tn_device t)) name (tn_store t) = (err, s)" by fastforce
  from Trust_effect(1,2) [OF tr] show ?thesis by (simp add: run_action_def NameDevice tr Let_def)
qed (auto simp: run_action_def Let_def split: prod.split option.split)

lemma tunnel_step_store:
  "ids (tn_store (tunnel_step ev t)) = ids (tn_store t) \<and> (distinct_ids (tn_store t) \<longrightarrow> distinct_ids (tn_store (tunnel_step ev t))) \<and>
   tn_device (tunnel_step ev t) = tn_device t \<and>
   (\<exists>ps. tn_pushes (tunnel_step ev t) = tn_pushes t @ ps \<and> fst ` set ps \<subseteq> {tn_device t})"
  using run_action_store by (cases ev) (auto simp: Let_def split: prod.split)

text \<open>
  C21. A connected phone cannot widen trust: whatever messages it sends and whatever else happens on its tunnel, the
  set of trusted devices stays the same, and every push registration it makes is recorded under its own device id.
\<close>

theorem messages_grant_nothing:
  "ids (tn_store (fold tunnel_step es t)) = ids (tn_store t) \<and>
   (\<exists>ps. tn_pushes (fold tunnel_step es t) = tn_pushes t @ ps \<and> fst ` set ps \<subseteq> {tn_device t})"
proof -
  have "ids (tn_store (fold tunnel_step es t)) = ids (tn_store t) \<and> tn_device (fold tunnel_step es t) = tn_device t \<and>
      (\<exists>ps. tn_pushes (fold tunnel_step es t) = tn_pushes t @ ps \<and> fst ` set ps \<subseteq> {tn_device t})"
  proof (induction es arbitrary: t)
    case (Cons ev es)
    from tunnel_step_store [of ev t] obtain ps where s: "ids (tn_store (tunnel_step ev t)) = ids (tn_store t)"
      "tn_device (tunnel_step ev t) = tn_device t" "tn_pushes (tunnel_step ev t) = tn_pushes t @ ps" "fst ` set ps \<subseteq> {tn_device t}"
      by blast
    from Cons.IH [of "tunnel_step ev t"] obtain qs where
      "tn_pushes (fold tunnel_step es (tunnel_step ev t)) = tn_pushes (tunnel_step ev t) @ qs" "fst ` set qs \<subseteq> {tn_device t}"
      by (auto simp: s)
    with s Cons.IH [of "tunnel_step ev t"] show ?case
      by (auto intro!: exI [of _ "ps @ qs"] simp del: tunnel_step.simps)
  qed simp
  then show ?thesis by blast
qed

end
