(* ===== verification/Update.thy ===== *)
theory Update
  imports HTTPProxy StateStore FolderLister
begin

text \<open>
  internal/update: the release check (versions, the checker with its cache and its spacing of requests, the changelog,
  the GitHub source and its redirects) and what the bridge knows of its own installation. The answers of GitHub, the
  clock and the file system are given.
\<close>

section \<open>Versions\<close>

datatype version = Version nat nat nat

instantiation version :: linorder
begin

definition less_eq_version :: "version \<Rightarrow> version \<Rightarrow> bool" where
  "less_eq_version v w = (case (v, w) of (Version a b c, Version x y z) \<Rightarrow> a < x \<or> a = x \<and> (b < y \<or> b = y \<and> c \<le> z))"

definition less_version :: "version \<Rightarrow> version \<Rightarrow> bool" where
  "less_version v w = (case (v, w) of (Version a b c, Version x y z) \<Rightarrow> a < x \<or> a = x \<and> (b < y \<or> b = y \<and> c < z))"

instance
  by standard (auto simp: less_eq_version_def less_version_def split: version.splits)

end

text \<open>One numeric group of \<open>releaseTag\<close>, and \<open>strconv.Atoi\<close> with its error ignored: a number that is too large is the
  largest one.\<close>

definition numeric_group :: "string \<Rightarrow> bool" where
  "numeric_group s \<longleftrightarrow> s \<noteq> [] \<and> list_all is_digit s \<and> (s = ''0'' \<or> hd s \<noteq> CHR ''0'')"

definition atoi_clamped :: "string \<Rightarrow> nat" where
  "atoi_clamped s = min (digits_val s) (2 ^ 63 - 1)"

definition releaseTag :: "string \<Rightarrow> (string \<times> string \<times> string) option" where
  "releaseTag s =
     (case s of
        [] \<Rightarrow> None
      | c # t \<Rightarrow>
          if c \<noteq> CHR ''v'' then None
          else case split_on (CHR ''.'') t of
            [a, b, d] \<Rightarrow> if numeric_group a \<and> numeric_group b \<and> numeric_group d then Some (a, b, d) else None
          | _ \<Rightarrow> None)"

text \<open>The loop over the three groups.\<close>

fun newer_groups :: "(string \<times> string) list \<Rightarrow> bool" where
  "newer_groups [] = False"
| "newer_groups ((x, y) # gs) =
     (if atoi_clamped x \<noteq> atoi_clamped y then atoi_clamped y < atoi_clamped x else newer_groups gs)"

definition isNewer :: "string \<Rightarrow> string \<Rightarrow> bool" where
  "isNewer candidate running =
     (case (releaseTag candidate, releaseTag running) of
        (Some (a, b, c), Some (x, y, z)) \<Rightarrow> newer_groups [(a, x), (b, y), (c, z)]
      | _ \<Rightarrow> False)"

section \<open>Changelog\<close>

definition maxNotes :: nat where "maxNotes = 50"

definition is_lower_hex :: "char \<Rightarrow> bool" where
  "is_lower_hex c \<longleftrightarrow> is_digit c \<or> 97 \<le> ord c \<and> ord c \<le> 102"

text \<open>\<open>commitPrefix\<close>: seven to forty hexadecimal digits, a colon and a blank at the start.\<close>

definition drop_commit :: "string \<Rightarrow> string" where
  "drop_commit s =
     (let h = takeWhile is_lower_hex s; r = dropWhile is_lower_hex s in
      if 7 \<le> length h \<and> length h \<le> 40 \<and> has_prefix r '': '' then drop 2 r else s)"

text \<open>\<open>authorSuffix\<close>: a blank and a parenthesis without parentheses inside, at the end.\<close>

definition drop_author :: "string \<Rightarrow> string" where
  "drop_author s =
     (case rev s of
        [] \<Rightarrow> s
      | c # t \<Rightarrow>
          (let inner = takeWhile (\<lambda>x. x \<noteq> CHR ''('' \<and> x \<noteq> CHR '')'') t;
               before = dropWhile (\<lambda>x. x \<noteq> CHR ''('' \<and> x \<noteq> CHR '')'') t in
           if c = CHR '')'' \<and> has_prefix before [CHR ''('', CHR '' ''] then rev (drop 2 before) else s))"

definition note_subject :: "string \<Rightarrow> string option" where
  "note_subject line0 =
     (let line = TrimSpace line0 in
      if has_prefix line ''* '' \<or> has_prefix line ''- ''
      then let subject = TrimSpace (drop_author (drop_commit (TrimSpace (drop 2 line)))) in
        if subject = [] then None else Some subject
      else None)"

fun collect_notes :: "string list \<Rightarrow> string list \<Rightarrow> nat \<Rightarrow> string list \<times> nat" where
  "collect_notes [] notes extra = (notes, extra)"
| "collect_notes (l # ls) notes extra =
     (case note_subject l of
        None \<Rightarrow> collect_notes ls notes extra
      | Some s \<Rightarrow> if length notes = maxNotes then collect_notes ls notes (Suc extra) else collect_notes ls (notes @ [s]) extra)"

definition releaseNotes :: "string \<Rightarrow> string list \<times> nat" where
  "releaseNotes body = collect_notes (split_on (CHR 0x0A) body) [] 0"

section \<open>The GitHub source\<close>

datatype ErrorKind = ErrorNetwork | ErrorTimeout | ErrorRateLimited | ErrorMalformed

text \<open>\<open>None\<close> is the zero time.\<close>

record SourceError =
  se_Kind :: ErrorKind
  se_ResetAt :: "gotime option"

record Release =
  re_Tag :: string
  re_PublishedAt :: gotime
  re_Body :: string

definition maxAPIResponseBytes :: nat where "maxAPIResponseBytes = 2 ^ 20"
definition maxDownloadRedirects :: nat where "maxDownloadRedirects = 3"

definition releaseDownloadPath :: string where
  "releaseDownloadPath = ''/ShravanthReddy/Hermote-bridge/releases/download/''"

definition downloadHosts :: "string list" where
  "downloadHosts = [''release-assets.githubusercontent.com'', ''objects.githubusercontent.com'']"

record target = URL +
  u_user :: bool

datatype redirect_refusal = errAPIRedirect | errTooManyRedirects | errRedirectRefused

text \<open>\<open>checkRedirect\<close> of a request that follows the requests \<open>via\<close>.\<close>

definition checkRedirect :: "(nat \<Rightarrow> nat) \<Rightarrow> target \<Rightarrow> target list \<Rightarrow> redirect_refusal option" where
  "checkRedirect lower req via =
     (case via of
        [] \<Rightarrow> None
      | first # _ \<Rightarrow>
          if has_prefix (u_path first) ''/repos/'' then Some errAPIRedirect
          else if length via > maxDownloadRedirects then Some errTooManyRedirects
          else if u_scheme req \<noteq> ''https'' \<or> u_user req \<or> (u_port req \<noteq> [] \<and> u_port req \<noteq> ''443'') then Some errRedirectRefused
          else let host = ToLower lower (u_hostname req) in
            if List.member downloadHosts host then None
            else if host = ''github.com'' \<and> has_prefix (u_path req) releaseDownloadPath then None
            else Some errRedirectRefused)"

text \<open>The requests a client makes when each is answered with the next redirect.\<close>

fun follow_download :: "(nat \<Rightarrow> nat) \<Rightarrow> target list \<Rightarrow> target list \<Rightarrow> target list" where
  "follow_download lower via [] = via"
| "follow_download lower via (t # ts) =
     (if checkRedirect lower t via = None then follow_download lower (via @ [t]) ts else via)"

text \<open>One exchange: a transport error (with what \<open>transportError\<close> finds in it), or a status, the two rate-limit headers
  and the body.\<close>

datatype transport_fault = DeadlineFault | RedirectFault | OtherFault

definition transportError :: "transport_fault \<Rightarrow> SourceError" where
  "transportError f =
     (case f of
        DeadlineFault \<Rightarrow> \<lparr>se_Kind = ErrorTimeout, se_ResetAt = None\<rparr>
      | RedirectFault \<Rightarrow> \<lparr>se_Kind = ErrorMalformed, se_ResetAt = None\<rparr>
      | OtherFault \<Rightarrow> \<lparr>se_Kind = ErrorNetwork, se_ResetAt = None\<rparr>)"

record api_answer =
  aa_status :: int
  aa_remaining :: string
  aa_reset :: string
  aa_body :: "transport_fault + string"

definition statusError :: "api_answer \<Rightarrow> SourceError option" where
  "statusError r =
     (if aa_status r = 200 then None
      else if (aa_status r = 403 \<or> aa_status r = 429) \<and> aa_remaining r = ''0''
      then Some \<lparr>se_Kind = ErrorRateLimited, se_ResetAt = map_option (\<lambda>s. s * 1000000000) (parse_int64 (aa_reset r))\<rparr>
      else Some \<lparr>se_Kind = ErrorNetwork, se_ResetAt = None\<rparr>)"

text \<open>\<open>time.Time\<close> from its JSON text is a parameter.\<close>

definition release_set :: "(json \<Rightarrow> gotime option) \<Rightarrow> string \<Rightarrow> json \<Rightarrow> Release \<Rightarrow> Release option" where
  "release_set time_of f v r =
     (if f = ''tag_name'' then map_option (\<lambda>x. r\<lparr>re_Tag := x\<rparr>) (as_string (re_Tag r) v)
      else if f = ''published_at'' then (if v = JNull then Some r else map_option (\<lambda>x. r\<lparr>re_PublishedAt := x\<rparr>) (time_of v))
      else map_option (\<lambda>x. r\<lparr>re_Body := x\<rparr>) (as_string (re_Body r) v))"

definition Latest :: "(json \<Rightarrow> gotime option) \<Rightarrow> transport_fault + api_answer \<Rightarrow> SourceError + Release" where
  "Latest time_of answer =
     (let malformed = Inl \<lparr>se_Kind = ErrorMalformed, se_ResetAt = None\<rparr> in
      case answer of
        Inl f \<Rightarrow> Inl (transportError f)
      | Inr r \<Rightarrow>
          (case aa_body r of
             Inl f \<Rightarrow> Inl (transportError f)
           | Inr body \<Rightarrow>
               (case statusError r of
                  Some e \<Rightarrow> Inl e
                | None \<Rightarrow>
                    if length body > maxAPIResponseBytes then malformed
                    else case unmarshal [''tag_name'', ''published_at'', ''body''] (release_set time_of)
                        \<lparr>re_Tag = [], re_PublishedAt = 0, re_Body = []\<rparr> body of
                      None \<Rightarrow> malformed
                    | Some rel \<Rightarrow> if re_Tag rel = [] then malformed else Inr rel)))"

section \<open>The checker\<close>

definition checkCacheLifetime :: gotime where "checkCacheLifetime = 24 * 3600 * 1000000000"
definition minCheckInterval :: gotime where "minCheckInterval = 120 * 1000000000"
definition maxRateLimitWait :: gotime where "maxRateLimitWait = 3600 * 1000000000"

record LatestRelease =
  lr_Version :: string
  lr_Tag :: string
  lr_PublishedAt :: gotime
  lr_Notes :: "string list"
  lr_More :: nat

record Checker =
  ck_current :: string
  ck_latest :: "LatestRelease option"
  ck_checkedAt :: "gotime option"
  ck_lastErr :: "ErrorKind option"
  ck_lastRequest :: "gotime option"
  ck_blockedUntil :: "gotime option"
  ck_flight :: bool

definition NewChecker :: "string \<Rightarrow> Checker" where
  "NewChecker current = \<lparr>ck_current = current, ck_latest = None, ck_checkedAt = None, ck_lastErr = None, ck_lastRequest = None,
     ck_blockedUntil = None, ck_flight = False\<rparr>"

text \<open>The zero time is before every clock.\<close>

definition mayRequest :: "bool \<Rightarrow> gotime \<Rightarrow> Checker \<Rightarrow> bool" where
  "mayRequest force now c =
     (if (case ck_blockedUntil c of Some b \<Rightarrow> now < b | None \<Rightarrow> False) then False
      else if (case ck_lastRequest c of Some l \<Rightarrow> now - l < minCheckInterval | None \<Rightarrow> False) then False
      else if \<not> force \<and> ck_latest c \<noteq> None \<and> (case ck_checkedAt c of Some t \<Rightarrow> now - t < checkCacheLifetime | None \<Rightarrow> False)
      then False
      else True)"

datatype check_start = Joined | Started | Cached

definition Check_begin :: "bool \<Rightarrow> gotime \<Rightarrow> Checker \<Rightarrow> check_start \<times> Checker" where
  "Check_begin force now c =
     (if ck_flight c then (Joined, c)
      else if \<not> mayRequest force now c then (Cached, c)
      else (Started, c\<lparr>ck_flight := True, ck_lastRequest := Some now\<rparr>))"

text \<open>\<open>accept\<close>: a tag that is not a version is malformed.\<close>

definition accept_release :: "gotime \<Rightarrow> Release \<Rightarrow> Checker \<Rightarrow> SourceError option \<times> Checker" where
  "accept_release now r c =
     (if releaseTag (re_Tag r) = None then (Some \<lparr>se_Kind = ErrorMalformed, se_ResetAt = None\<rparr>, c)
      else case releaseNotes (re_Body r) of (notes, extra) \<Rightarrow>
        (None, c\<lparr>ck_latest := Some \<lparr>lr_Version = tl (re_Tag r), lr_Tag = re_Tag r, lr_PublishedAt = re_PublishedAt r, lr_Notes = notes,
           lr_More = extra\<rparr>, ck_checkedAt := Some now\<rparr>))"

definition block :: "gotime \<Rightarrow> SourceError \<Rightarrow> Checker \<Rightarrow> Checker" where
  "block now e c =
     (if se_Kind e = ErrorRateLimited
      then c\<lparr>ck_blockedUntil := Some (case se_ResetAt e of
        Some r \<Rightarrow> if r < now + maxRateLimitWait then r else now + maxRateLimitWait
      | None \<Rightarrow> now + maxRateLimitWait)\<rparr>
      else c)"

definition request_end :: "gotime \<Rightarrow> SourceError + Release \<Rightarrow> Checker \<Rightarrow> Checker" where
  "request_end now answer c0 =
     (let c = c0\<lparr>ck_flight := False\<rparr> in
      case (case answer of Inl e \<Rightarrow> (Some e, c) | Inr r \<Rightarrow> accept_release now r c) of
        (None, c1) \<Rightarrow> c1\<lparr>ck_lastErr := None\<rparr>
      | (Some e, c1) \<Rightarrow> block now e (c1\<lparr>ck_lastErr := Some (se_Kind e)\<rparr>))"

datatype check_event = CkCheck bool gotime | CkEnd gotime "SourceError + Release"

fun check_step :: "check_event \<Rightarrow> Checker \<Rightarrow> Checker" where
  "check_step (CkCheck force now) c = snd (Check_begin force now c)"
| "check_step (CkEnd now answer) c = (if ck_flight c then request_end now answer c else c)"

text \<open>The times at which requests start.\<close>

fun requests_started :: "check_event list \<Rightarrow> Checker \<Rightarrow> gotime list" where
  "requests_started [] c = []"
| "requests_started (e # es) c =
     (case e of CkCheck force now \<Rightarrow> if fst (Check_begin force now c) = Started then [now] else [] | _ \<Rightarrow> []) @
     requests_started es (check_step e c)"

end
