(* ===== verification/PairLink.thy ===== *)
theory PairLink
  imports FolderLister Pairing NetIP
begin

text \<open>
  internal/protocol/pair.go: the payload of the QR code and its \<open>hermes://pair\<close> link, with the parts of Go's
  \<open>net/url\<close> it uses: \<open>url.Values\<close>, \<open>QueryEscape\<close> and \<open>url.Parse\<close> as far as scheme, host and query. Times are
  nanoseconds; the link carries seconds.
\<close>

section \<open>Query text\<close>

definition upper_hex :: "nat \<Rightarrow> char" where
  "upper_hex n = (if n < 10 then chr (48 + n) else chr (55 + n))"

fun query_escape_char :: "char \<Rightarrow> string" where
  "query_escape_char c =
     (if isUnreserved c then [c] else if c = CHR '' '' then ''+'' else [CHR ''%'', upper_hex (ord c div 16), upper_hex (ord c mod 16)])"

definition QueryEscape :: "string \<Rightarrow> string" where
  "QueryEscape s = concat (map query_escape_char s)"

text \<open>\<open>url.Values\<close> with one value per key; \<open>Encode\<close> writes the keys in order.\<close>

definition Set :: "string \<Rightarrow> string \<Rightarrow> (string, string) gomap \<Rightarrow> (string, string) gomap" where
  "Set k v q = AList.update k v q"

fun settings_text :: "(string \<times> string) list \<Rightarrow> string" where
  "settings_text [] = []"
| "settings_text [(k, v)] = QueryEscape k @ CHR ''='' # QueryEscape v"
| "settings_text ((k, v) # p # ps) = QueryEscape k @ CHR ''='' # QueryEscape v @ CHR ''&'' # settings_text (p # ps)"

definition Encode :: "(string, string) gomap \<Rightarrow> string" where
  "Encode q = settings_text (sort_key (\<lambda>p. map ord (fst p) :: nat list) q)"

text \<open>\<open>URL.Query\<close> leaves malformed settings out.\<close>

definition URL_Query :: "string \<Rightarrow> (string \<times> string) list" where
  "URL_Query raw = List.map_filter query_pair (filter (\<lambda>s. s \<noteq> []) (split_on (CHR ''&'') raw))"

section \<open>URLs\<close>

definition scheme_byte :: "char \<Rightarrow> bool" where
  "scheme_byte c \<longleftrightarrow> (let n = ord c :: nat in 97 \<le> n \<and> n \<le> 122 \<or> 65 \<le> n \<and> n \<le> 90 \<or> 48 \<le> n \<and> n \<le> 57) \<or> List.member ''+-.'' c"

definition lower_ascii :: "char \<Rightarrow> char" where
  "lower_ascii c = (if 65 \<le> (ord c :: nat) \<and> (ord c :: nat) \<le> 90 then chr (ord c + 32) else c)"

definition getScheme :: "string \<Rightarrow> (string \<times> string) option" where
  "getScheme s =
     (let p = takeWhile scheme_byte s; r = dropWhile scheme_byte s in
      if p = [] then (if r \<noteq> [] \<and> hd r = CHR '':'' then None else Some ([], s))
      else if 48 \<le> (ord (hd p) :: nat) \<and> (ord (hd p) :: nat) \<le> 57 \<or> List.member ''+-.'' (hd p) then Some ([], s)
      else if r \<noteq> [] \<and> hd r = CHR '':'' then Some (p, tl r) else Some ([], s))"

fun host_unescape :: "string \<Rightarrow> string option" where
  "host_unescape [] = Some []"
| "host_unescape (c # s) =
     (if c = CHR ''%'' then
        (case s of
           a # b # t \<Rightarrow> if isHex a \<and> isHex b \<and> (8 \<le> unhex a \<or> unescaped a b = CHR ''%'')
             then map_option ((#) (unescaped a b)) (host_unescape t) else None
         | _ \<Rightarrow> None)
      else if (ord c :: nat) < 128 \<and> \<not> isUnreserved c \<and> \<not> List.member ''!$&()*+,;=:[]<>'' c \<and> c \<noteq> CHR 0x27 \<and> c \<noteq> CHR 0x22 then None
      else map_option ((#) c) (host_unescape s))"

definition valid_port :: "string \<Rightarrow> bool" where
  "valid_port p \<longleftrightarrow> p = [] \<or> hd p = CHR '':'' \<and> list_all is_digit (tl p)"

text \<open>\<open>parseHost\<close>: a bracketed IPv6 address with an optional port, or a name with an optional port.\<close>

definition parseHost :: "string \<Rightarrow> string option" where
  "parseHost h =
     (if has_prefix h ''['' then
        (let port = rev (takeWhile (\<lambda>c. c \<noteq> CHR '']'') (rev h)); inner = drop 1 (take (length h - length port - 1) h) in
         if \<not> List.member h (CHR '']'') \<or> \<not> valid_port port then None
         else case host_unescape inner of
           None \<Rightarrow> None
         | Some a \<Rightarrow> (case ParseAddr a of Some (V6 _ _) \<Rightarrow> Some (''['' @ a @ '']'' @ port) | _ \<Rightarrow> None))
      else if \<not> valid_port (dropWhile (\<lambda>c. c \<noteq> CHR '':'') h) then None
      else host_unescape h)"

definition parseAuthority :: "string \<Rightarrow> string option" where
  "parseAuthority a =
     (let host = rev (takeWhile (\<lambda>c. c \<noteq> CHR ''@'') (rev a)); user = take (length a - length host - 1) a in
      if List.member a (CHR ''@'') \<and> \<not> valid_userinfo user then None else parseHost host)"

record parsed_url =
  pu_Scheme :: string
  pu_Host :: string
  pu_RawQuery :: string

text \<open>\<open>url.Parse\<close>, as far as it is read here.\<close>

definition ParseURL :: "string \<Rightarrow> parsed_url option" where
  "ParseURL raw =
     (let (u, frag) = cut (CHR ''#'') raw in
      if PathUnescape frag = None \<or> hasControlByte u then None
      else case getScheme u of
        None \<Rightarrow> None
      | Some (scheme0, r) \<Rightarrow>
          (let scheme = map lower_ascii scheme0; (rest, query) = cut (CHR ''?'') r;
               out = (\<lambda>host. \<lparr>pu_Scheme = scheme, pu_Host = host, pu_RawQuery = query\<rparr>) in
           if \<not> has_prefix rest ''/'' then
             (if scheme = [] \<and> (List.member (takeWhile (\<lambda>c. c \<noteq> CHR ''/'') rest) (CHR '':'') \<or> PathUnescape rest = None) then None
              else Some (out []))
           else if has_prefix rest ''//'' \<and> (scheme \<noteq> [] \<or> \<not> has_prefix rest ''///'') then
             (case parseAuthority (takeWhile (\<lambda>c. c \<noteq> CHR ''/'') (drop 2 rest)) of
                None \<Rightarrow> None
              | Some host \<Rightarrow> if PathUnescape (dropWhile (\<lambda>c. c \<noteq> CHR ''/'') (drop 2 rest)) = None then None else Some (out host))
           else if PathUnescape rest = None then None
           else Some (out [])))"

section \<open>The payload\<close>

definition TransportDirect :: string where "TransportDirect = ''direct''"
definition TransportRelay :: string where "TransportRelay = ''relay''"

record PairPayload =
  pp_Version :: int
  pp_Transport :: string
  pp_URL :: string
  pp_SessionID :: string
  pp_BridgeKey :: bytes
  pp_Code :: bytes
  pp_Expires :: gotime
  pp_Name :: string

definition nanos :: int where "nanos = 1000000000"

definition PairPayload_String :: "PairPayload \<Rightarrow> string" where
  "PairPayload_String p =
     (let q = Set ''e'' (int_lit (pp_Expires p div nanos)) (Set ''c'' (b64_encode (pp_Code p)) (Set ''k'' (b64_encode (pp_BridgeKey p))
        (Set ''s'' (pp_SessionID p) (Set ''u'' (pp_URL p) (Set ''t'' (pp_Transport p) (Set ''v'' (int_lit (pp_Version p)) []))))));
          q' = (if pp_Name p \<noteq> [] then Set ''n'' (pp_Name p) q else q) in
      ''hermes://pair?'' @ Encode q')"

datatype pair_error =
    BadLink | NotPairLink | UnsupportedVersion | UnknownTransport | BadPairURL | BadBridgeKey | SessionMismatch | BadPairCode | BadExpiry

definition ParsePair :: "crypto \<Rightarrow> string \<Rightarrow> pair_error + PairPayload" where
  "ParsePair C s =
     (case ParseURL s of
        None \<Rightarrow> Inl BadLink
      | Some u \<Rightarrow>
          if pu_Scheme u \<noteq> ''hermes'' \<or> pu_Host u \<noteq> ''pair'' then Inl NotPairLink
          else let q = (\<lambda>k. Get (URL_Query (pu_RawQuery u)) k) in
            if parse_int64 (q ''v'') \<noteq> Some Version then Inl UnsupportedVersion
            else if q ''t'' \<noteq> TransportDirect \<and> q ''t'' \<noteq> TransportRelay then Inl UnknownTransport
            else case ParseURL (q ''u'') of
              None \<Rightarrow> Inl BadPairURL
            | Some wu \<Rightarrow>
                if pu_Scheme wu \<noteq> ''wss'' \<and> pu_Scheme wu \<noteq> ''ws'' \<or> pu_Host wu = [] then Inl BadPairURL
                else case b64_decode (q ''k'') of
                  None \<Rightarrow> Inl BadBridgeKey
                | Some pub \<Rightarrow>
                    if length pub \<noteq> PublicKeySize then Inl BadBridgeKey
                    else if q ''s'' \<noteq> SessionIDFor C pub then Inl SessionMismatch
                    else case b64_decode (q ''c'') of
                      None \<Rightarrow> Inl BadPairCode
                    | Some code \<Rightarrow>
                        if length code \<noteq> PairCodeSize then Inl BadPairCode
                        else case parse_int64 (q ''e'') of
                          None \<Rightarrow> Inl BadExpiry
                        | Some e \<Rightarrow> Inr \<lparr>pp_Version = Version, pp_Transport = q ''t'', pp_URL = q ''u'', pp_SessionID = q ''s'',
                            pp_BridgeKey = pub, pp_Code = code, pp_Expires = e * nanos, pp_Name = q ''n''\<rparr>)"

section \<open>The link says what the payload holds\<close>

lemma upper_hex_facts:
  assumes "n < 16"
  shows "isHex (upper_hex n)" "unhex (upper_hex n) = n" "isUnreserved (upper_hex n)"
  using assms by (auto simp: upper_hex_def isHex_def unhex_def isUnreserved_def)

lemma char_halves: "(of_char c :: nat) div 16 < 16" "(of_char c :: nat) mod 16 < 16"
  using nat_of_char_less_256 [of c] by linarith+

lemma escape_char_plain: "c \<in> set (query_escape_char d) \<Longrightarrow> isUnreserved c \<or> c = CHR ''+'' \<or> c = CHR ''%''"
proof -
  have "isUnreserved (upper_hex (of_char d div 16))" "isUnreserved (upper_hex (of_char d mod 16))"
    by (rule upper_hex_facts(3), rule char_halves)+
  then show "c \<in> set (query_escape_char d) \<Longrightarrow> isUnreserved c \<or> c = CHR ''+'' \<or> c = CHR ''%''"
    by (auto split: if_splits)
qed

lemma escaped_plain: "c \<in> set (QueryEscape s) \<Longrightarrow> isUnreserved c \<or> c = CHR ''+'' \<or> c = CHR ''%''"
  using escape_char_plain by (auto simp: QueryEscape_def simp del: query_escape_char.simps)

lemma unescape_escape: "QueryUnescape (QueryEscape s) = Some s"
proof (induction s)
  case (Cons c s)
  consider "isUnreserved c" | "\<not> isUnreserved c" "c = CHR '' ''" | "\<not> isUnreserved c" "c \<noteq> CHR '' ''" by blast
  then show ?case
  proof cases
    case 1
    then have "c \<noteq> CHR ''+''" "c \<noteq> CHR ''%''" by (auto simp: isUnreserved_def)
    with 1 Cons show ?thesis by (simp add: QueryEscape_def)
  next
    case 2
    with Cons show ?thesis by (simp add: QueryEscape_def)
  next
    case 3
    with Cons show ?thesis
      by (simp add: QueryEscape_def upper_hex_facts [OF char_halves(1)] upper_hex_facts [OF char_halves(2)] unescaped_def)
  qed
qed (simp add: QueryEscape_def)

lemma escaped_no:
  "CHR ''&'' \<notin> set (QueryEscape s)" "CHR ''='' \<notin> set (QueryEscape s)" "CHR '';'' \<notin> set (QueryEscape s)"
  using escaped_plain [of _ s] by (fastforce simp: isUnreserved_def)+

lemma query_pair_escaped: "query_pair (QueryEscape k @ CHR ''='' # QueryEscape v) = Some (k, v)"
proof -
  have "cut (CHR ''='') (QueryEscape k @ CHR ''='' # QueryEscape v) = (QueryEscape k, QueryEscape v)"
    using escaped_no(2) [of k] by (simp add: cut_def takeWhile_tail takeWhile_eq_all_conv dropWhile_append)
  then show ?thesis using escaped_no(3) by (simp add: query_pair_def unescape_escape)
qed

lemma split_on_first: "sep \<notin> set s \<Longrightarrow> split_on sep (s @ sep # t) = s # split_on sep t"
  by (induction s) auto

lemma split_on_absent: "sep \<notin> set s \<Longrightarrow> split_on sep s = [s]"
  by (induction s) auto

lemma URL_Query_settings: "URL_Query (settings_text ps) = ps"
proof (induction ps rule: settings_text.induct)
  case 1
  show ?case by (simp add: URL_Query_def List.map_filter_def)
next
  case (2 k v)
  show ?case
    using escaped_no(1) by (simp add: URL_Query_def split_on_absent List.map_filter_def query_pair_escaped)
next
  case (3 k v p ps)
  have "CHR ''&'' \<notin> set (QueryEscape k @ CHR ''='' # QueryEscape v)" using escaped_no(1) by simp
  from split_on_first [OF this, of "settings_text (p # ps)"] 3 show ?case
    by (simp add: URL_Query_def List.map_filter_def query_pair_escaped)
qed

lemma Get_Encode: "wf_map q \<Longrightarrow> Get (URL_Query (Encode q)) k = (case map_of q k of Some v \<Rightarrow> v | None \<Rightarrow> [])"
proof -
  assume q: "wf_map q"
  let ?s = "sort_key (\<lambda>p. map ord (fst p) :: nat list) q"
  have "wf_map ?s" using q by (metis (no_types) distinct_map distinct_sort set_sort)
  then have "map_of ?s k = map_of q k"
    using wf_map_mem [OF q] wf_map_mem [of ?s] by (metis not_Some_eq set_sort)
  then show ?thesis by (simp add: Encode_def URL_Query_settings Get_def)
qed

lemma settings_chars: "c \<in> set (settings_text ps) \<Longrightarrow> isUnreserved c \<or> List.member ''+%=&'' c"
  by (induction ps rule: settings_text.induct) (auto dest: escaped_plain)

lemma ParseURL_pair: "ParseURL (''hermes://pair?'' @ Encode q) = Some \<lparr>pu_Scheme = ''hermes'', pu_Host = ''pair'', pu_RawQuery = Encode q\<rparr>"
proof -
  let ?q = "Encode q"
  have q: "isUnreserved c \<or> List.member ''+%=&'' c" if "c \<in> set ?q" for c
    using that settings_chars by (simp add: Encode_def)
  have "CHR ''#'' \<notin> set ?q" using q [of "CHR ''#''"] by (auto simp: isUnreserved_def)
  then have "takeWhile (\<lambda>x. x \<noteq> CHR ''#'') ?q = ?q" "dropWhile (\<lambda>x. x \<noteq> CHR ''#'') ?q = []"
    by (auto simp: takeWhile_eq_all_conv dropWhile_eq_Nil_conv)
  then have hash: "cut (CHR ''#'') (''hermes://pair?'' @ ?q) = (''hermes://pair?'' @ ?q, [])"
    by (simp add: cut_def del: dropWhile_eq_Nil_conv takeWhile_eq_all_conv)
  have ctl: "\<not> hasControlByte (''hermes://pair?'' @ ?q)"
    using q by (force simp: hasControlByte_def list_ex_iff isUnreserved_def)
  have scheme: "getScheme (''hermes://pair?'' @ ?q) = Some (''hermes'', ''//pair?'' @ ?q)"
    by (simp add: getScheme_def scheme_byte_def Let_def)
  have "parseAuthority ''pair'' = Some ''pair''"
    by (simp add: parseAuthority_def parseHost_def has_prefix_def valid_port_def isUnreserved_def)
  then show ?thesis
    unfolding ParseURL_def hash prod.case scheme
    using ctl scheme by (simp add: lower_ascii_def char_of_eq_iff has_prefix_def cut_def)
qed

text \<open>What the phone requires of a payload.\<close>

definition valid_payload :: "crypto \<Rightarrow> PairPayload \<Rightarrow> bool" where
  "valid_payload C p \<longleftrightarrow> pp_Version p = Version \<and> (pp_Transport p = TransportDirect \<or> pp_Transport p = TransportRelay) \<and>
     (case ParseURL (pp_URL p) of None \<Rightarrow> False | Some u \<Rightarrow> (pu_Scheme u = ''wss'' \<or> pu_Scheme u = ''ws'') \<and> pu_Host u \<noteq> []) \<and>
     length (pp_BridgeKey p) = PublicKeySize \<and> pp_SessionID p = SessionIDFor C (pp_BridgeKey p) \<and>
     length (pp_Code p) = PairCodeSize \<and> - (2 ^ 63) \<le> pp_Expires p div nanos \<and> pp_Expires p div nanos < 2 ^ 63"

definition whole_seconds :: "PairPayload \<Rightarrow> PairPayload" where
  "whole_seconds p = p\<lparr>pp_Expires := pp_Expires p div nanos * nanos\<rparr>"

lemma parse_int64_lit: "- (2 ^ 63) \<le> i \<Longrightarrow> i < 2 ^ 63 \<Longrightarrow> parse_int64 (int_lit i) = Some i"
  by (simp add: parse_int64_def parse_decimal_int_lit)

lemma ParsePair_valid: "valid_payload C p \<Longrightarrow> ParsePair C (PairPayload_String p) = Inr (whole_seconds p)"
proof -
  assume p: "valid_payload C p"
  let ?q = "Set ''e'' (int_lit (pp_Expires p div nanos)) (Set ''c'' (b64_encode (pp_Code p)) (Set ''k'' (b64_encode (pp_BridgeKey p))
        (Set ''s'' (pp_SessionID p) (Set ''u'' (pp_URL p) (Set ''t'' (pp_Transport p) (Set ''v'' (int_lit (pp_Version p)) []))))))"
  let ?r = "if pp_Name p \<noteq> [] then Set ''n'' (pp_Name p) ?q else ?q"
  have wf: "wf_map ?r" by (simp add: Set_def)
  obtain u where u: "ParseURL (pp_URL p) = Some u" "pu_Scheme u = ''wss'' \<or> pu_Scheme u = ''ws''" "pu_Host u \<noteq> []"
    using p by (auto simp: valid_payload_def split: option.splits)
  have get: "Get (URL_Query (Encode ?r)) ''v'' = int_lit Version" "Get (URL_Query (Encode ?r)) ''t'' = pp_Transport p"
    "Get (URL_Query (Encode ?r)) ''u'' = pp_URL p" "Get (URL_Query (Encode ?r)) ''s'' = pp_SessionID p"
    "Get (URL_Query (Encode ?r)) ''k'' = b64_encode (pp_BridgeKey p)" "Get (URL_Query (Encode ?r)) ''c'' = b64_encode (pp_Code p)"
    "Get (URL_Query (Encode ?r)) ''e'' = int_lit (pp_Expires p div nanos)" "Get (URL_Query (Encode ?r)) ''n'' = pp_Name p"
    using p by (simp_all add: Get_Encode [OF wf] Set_def update_conv' valid_payload_def)
  have link: "PairPayload_String p = ''hermes://pair?'' @ Encode ?r" by (simp add: PairPayload_String_def Let_def)
  have version: "parse_int64 (int_lit Version) = Some Version" by (rule parse_int64_lit) (simp_all add: Version_def)
  show ?thesis
    unfolding link ParsePair_def ParseURL_pair option.case parsed_url.simps Let_def get
    using p u version by (auto simp: valid_payload_def b64_decode_encode parse_int64_lit whole_seconds_def)
qed

lemma ParsePair_sound: "ParsePair C s = Inr p \<Longrightarrow> valid_payload C p \<and> whole_seconds p = p"
  by (auto simp: ParsePair_def valid_payload_def whole_seconds_def Let_def nanos_def parse_int64_def split: option.splits if_splits)

text \<open>
  The pairing link and the payload say the same: parsing the link of a payload that the phone would accept gives
  it back with its expiry in whole seconds, and whatever link is accepted, the payload read from it has the bridge's
  key with its own session id, a full code and a WebSocket address, and its link reads back as the same payload.
\<close>

theorem pair_link_round:
  "(valid_payload C p \<longrightarrow> ParsePair C (PairPayload_String p) = Inr (whole_seconds p)) \<and>
   (ParsePair C s = Inr p \<longrightarrow> valid_payload C p \<and> ParsePair C (PairPayload_String p) = Inr p)"
  using ParsePair_valid [of C p] ParsePair_sound [of C s p] by auto

definition demo_payload :: PairPayload where
  "demo_payload = \<lparr>pp_Version = 1, pp_Transport = ''direct'', pp_URL = ''wss://mac.ts.net:8443/v1/bridge'',
     pp_SessionID = SessionIDFor toy_crypto (replicate 32 7), pp_BridgeKey = replicate 32 7, pp_Code = replicate 16 9,
     pp_Expires = 1500000000, pp_Name = ''My Mac & co''\<rparr>"

lemma demo_payload_url: "ParseURL ''wss://mac.ts.net:8443/v1/bridge'' = Some \<lparr>pu_Scheme = ''wss'', pu_Host = ''mac.ts.net:8443'', pu_RawQuery = []\<rparr>"
  by (simp add: ParseURL_def cut_def hasControlByte_def getScheme_def scheme_byte_def lower_ascii_def has_prefix_def parseAuthority_def
      parseHost_def valid_port_def is_digit_def isUnreserved_def Let_def char_of_eq_iff)

theorem pair_link_round_witness:
  "ParsePair toy_crypto (PairPayload_String demo_payload) = Inr (demo_payload\<lparr>pp_Expires := 1000000000\<rparr>)"
proof -
  have v: "valid_payload toy_crypto demo_payload"
    by (simp add: valid_payload_def demo_payload_def demo_payload_url Version_def TransportDirect_def PublicKeySize_def PairCodeSize_def nanos_def)
  have w: "whole_seconds demo_payload = demo_payload\<lparr>pp_Expires := 1000000000\<rparr>"
    by (simp add: whole_seconds_def demo_payload_def nanos_def)
  from pair_link_round [of toy_crypto demo_payload] v w show ?thesis by simp
qed

end
