(* ===== verification/Install.thy ===== *)
theory Install
  imports Update Supervisor PairLink
begin

text \<open>
  internal/update/identity.go and install.go, and the status document of internal/bridge/bridge_routes.go: the
  executable the daemon started from, how it was installed, the command that updates it, and what the phone is told.
\<close>

section \<open>The running executable\<close>

record file_info =
  fi_device :: nat
  fi_inode :: nat
  fi_regular :: bool
  fi_dir :: bool
  fi_symlink :: bool
  fi_uid :: int
  fi_writable_by_others :: bool

record file_system =
  fs_stat :: "string \<Rightarrow> file_info option"
  fs_lstat :: "string \<Rightarrow> file_info option"
  fs_evalSymlinks :: "string \<Rightarrow> string option"
  fs_access :: "string \<Rightarrow> bool"

record ExecIdentity =
  xi_Incarnation :: string
  xi_Path :: string
  xi_Device :: nat
  xi_Inode :: nat
  xi_SHA256 :: string

text \<open>The opened file's information and its bytes; \<open>None\<close> is a failure to open, stat or read it.\<close>

definition captureIdentity :: "crypto \<Rightarrow> rng \<Rightarrow> string \<Rightarrow> (file_info \<times> bytes) option \<Rightarrow> ExecIdentity option" where
  "captureIdentity C r path opened_file =
     (case opened_file of
        None \<Rightarrow> None
      | Some (info, contents) \<Rightarrow>
          (case read_full 16 r of
             None \<Rightarrow> None
           | Some (incarnation, _) \<Rightarrow> Some \<lparr>xi_Incarnation = hex_encode incarnation, xi_Path = path, xi_Device = fi_device info,
               xi_Inode = fi_inode info, xi_SHA256 = hex_encode (sha256 C contents)\<rparr>))"

definition SameFile :: "file_system \<Rightarrow> ExecIdentity \<Rightarrow> string \<Rightarrow> bool" where
  "SameFile F i path \<longleftrightarrow>
     (case fs_stat F path of None \<Rightarrow> False | Some info \<Rightarrow> fi_device info = xi_Device i \<and> fi_inode info = xi_Inode i)"

section \<open>The installation\<close>

datatype Method = MethodManual | MethodHomebrew | MethodDevelopment

datatype Reason = ReasonNotSupported | ReasonHomebrew | ReasonUnsupportedPlatform | ReasonNoService | ReasonServiceMismatch
  | ReasonSymlinked | ReasonUnsafeDirectory | ReasonDevelopmentBuild

record Environment =
  ev_Version :: string
  ev_GOOS :: string
  ev_UID :: int
  ev_Managed :: bool
  ev_ServiceExecutable :: string

record Install =
  in_Method :: Method
  in_Path :: string
  in_Blocker :: "Reason option"
  in_UpdateCommand :: string

definition InstallScriptURL :: string where
  "InstallScriptURL = ''https://raw.githubusercontent.com/ShravanthReddy/Hermote-bridge/main/install.sh''"

definition HomebrewUpdateCommand :: string where
  "HomebrewUpdateCommand = ''brew upgrade hermote-bridge && hermote-bridge restart''"

definition quote_mark :: char where "quote_mark = CHR 0x27"

definition shellQuote :: "string \<Rightarrow> string" where
  "shellQuote v =
     quote_mark # concat (map (\<lambda>c. if c = quote_mark then [quote_mark, CHR 0x5C, quote_mark, quote_mark] else [c]) v) @ [quote_mark]"

definition ManualUpdateCommand :: "string \<Rightarrow> string" where
  "ManualUpdateCommand dir = ''curl -fsSL '' @ InstallScriptURL @ '' | HERMOTE_BRIDGE_INSTALL_DIR='' @ shellQuote dir @ '' bash''"

text \<open>\<open>filepath.Dir\<close> of an absolute path, as those of executables are.\<close>

definition Dir :: "string \<Rightarrow> string" where
  "Dir path = rooted (Clean (rev (dropWhile (\<lambda>c. c \<noteq> CHR ''/'') (rev path))))"

text \<open>\<open>cellarExecutable\<close>: the prefix of a Homebrew keg's binary.\<close>

definition keg_prefix :: "string \<Rightarrow> string option" where
  "keg_prefix resolved =
     (if \<not> has_suffix resolved ''/bin/hermote-bridge'' then None
      else let s = take (length resolved - length ''/bin/hermote-bridge'') resolved;
               v = takeWhile (\<lambda>c. c \<noteq> CHR ''/'') (rev s);
               t = rev (dropWhile (\<lambda>c. c \<noteq> CHR ''/'') (rev s)) in
        if v = [] \<or> \<not> has_suffix t ''/Cellar/hermote-bridge/'' then None
        else let p = take (length t - length ''/Cellar/hermote-bridge/'') t in
          if p = [] \<or> List.member p (CHR 0x0A) then None else Some p)"

definition isHomebrewKeg :: "file_system \<Rightarrow> string \<Rightarrow> bool" where
  "isHomebrewKeg F resolved \<longleftrightarrow>
     (case keg_prefix resolved of
        None \<Rightarrow> False
      | Some p \<Rightarrow> (case fs_stat F (rooted (Clean (p @ ''/bin/brew''))) of None \<Rightarrow> False | Some info \<Rightarrow> fi_regular info))"

definition safeLocation :: "file_system \<Rightarrow> string \<Rightarrow> file_info \<Rightarrow> int \<Rightarrow> bool" where
  "safeLocation F path info uid \<longleftrightarrow> fi_regular info \<and> fi_uid info = uid \<and>
     (case fs_stat F (Dir path) of
        None \<Rightarrow> False
      | Some d \<Rightarrow> fi_dir d \<and> fi_uid d = uid \<and> \<not> fi_writable_by_others d \<and> fs_access F (Dir path))"

definition blocker :: "file_system \<Rightarrow> ExecIdentity \<Rightarrow> Method \<Rightarrow> Environment \<Rightarrow> Reason option" where
  "blocker F i m env =
     (if ev_GOOS env \<noteq> ''darwin'' then Some ReasonUnsupportedPlatform
      else if m = MethodDevelopment then Some ReasonDevelopmentBuild
      else if m = MethodHomebrew then Some ReasonHomebrew
      else if \<not> ev_Managed env \<or> ev_ServiceExecutable env = [] then Some ReasonNoService
      else if \<not> SameFile F i (ev_ServiceExecutable env) then Some ReasonServiceMismatch
      else case fs_lstat F (ev_ServiceExecutable env) of
        None \<Rightarrow> Some ReasonServiceMismatch
      | Some info \<Rightarrow>
          if fi_symlink info then Some ReasonSymlinked
          else if \<not> safeLocation F (ev_ServiceExecutable env) info (ev_UID env) then Some ReasonUnsafeDirectory
          else None)"

definition DetectInstall :: "file_system \<Rightarrow> ExecIdentity \<Rightarrow> Environment \<Rightarrow> Install" where
  "DetectInstall F i env =
     (let resolved = (case fs_evalSymlinks F (xi_Path i) of Some p \<Rightarrow> p | None \<Rightarrow> xi_Path i);
          path = (if ev_ServiceExecutable env \<noteq> [] then ev_ServiceExecutable env else xi_Path i);
          m = (if ev_Version env = ''dev'' then MethodDevelopment else if isHomebrewKeg F resolved then MethodHomebrew else MethodManual) in
      \<lparr>in_Method = m, in_Path = path, in_Blocker = blocker F i m env,
       in_UpdateCommand = (if m = MethodHomebrew then HomebrewUpdateCommand else ManualUpdateCommand (Dir path))\<rparr>)"

definition Availability :: "Install \<Rightarrow> bool \<times> Reason option" where
  "Availability i = (False, Some ReasonNotSupported)"

section \<open>The reply to an update check\<close>

record ReleaseInfo =
  ri_Tag :: string
  ri_URL :: string
  ri_PublishedAt :: gotime
  ri_Notes :: "string list"
  ri_More :: nat

record CheckResponse =
  cr_Current :: string
  cr_Latest :: "string option"
  cr_UpdateAvailable :: "bool option"
  cr_CheckedAt :: "gotime option"
  cr_Verified :: bool
  cr_Release :: "ReleaseInfo option"
  cr_CanApply :: bool
  cr_Unavailable :: "Reason option"
  cr_UpdateCommand :: string
  cr_Error :: "ErrorKind option"

definition truncate_second :: "gotime \<Rightarrow> gotime" where
  "truncate_second t = t - t mod second"

definition Response :: "Checker \<Rightarrow> Install \<Rightarrow> CheckResponse" where
  "Response c i =
     (let base = \<lparr>cr_Current = ck_current c, cr_Latest = None, cr_UpdateAvailable = None, cr_CheckedAt = None, cr_Verified = False,
        cr_Release = None, cr_CanApply = fst (Availability i), cr_Unavailable = snd (Availability i),
        cr_UpdateCommand = in_UpdateCommand i, cr_Error = ck_lastErr c\<rparr> in
      case ck_latest c of
        None \<Rightarrow> base
      | Some l \<Rightarrow> base\<lparr>cr_Latest := Some (lr_Version l), cr_UpdateAvailable := Some (isNewer (lr_Tag l) (CHR ''v'' # ck_current c)),
          cr_CheckedAt := map_option truncate_second (ck_checkedAt c),
          cr_Release := Some \<lparr>ri_Tag = lr_Tag l, ri_URL = ''https://github.com/ShravanthReddy/Hermote-bridge/releases/tag/'' @ lr_Tag l,
            ri_PublishedAt = truncate_second (lr_PublishedAt l), ri_Notes = lr_Notes l, ri_More = lr_More l\<rparr>\<rparr>)"

section \<open>The status document\<close>

record StatusFacts =
  sf_Version :: string
  sf_Incarnation :: string
  sf_StartedAt :: gotime
  sf_GOOS :: string
  sf_GOARCH :: string
  sf_Transport :: string
  sf_RelayURL :: string
  sf_RelayAttached :: bool
  sf_Install :: Install
  sf_ServiceLabel :: string
  sf_Gateway :: Health
  sf_Paired :: int
  sf_Connected :: int

record StatusGateway =
  sg_State :: State
  sg_Since :: "gotime option"
  sg_LastProbeOKAt :: "gotime option"
  sg_Restarts :: nat
  sg_LastRestartReason :: "RestartReason option"

record BridgeStatus =
  bs_API :: int
  bs_Version :: string
  bs_Incarnation :: string
  bs_StartedAt :: gotime
  bs_Platform :: "string \<times> string"
  bs_Transport :: string
  bs_Relay :: "(string \<times> bool) option"
  bs_Install :: "Method \<times> string"
  bs_Service :: "(string \<times> string) option"
  bs_Gateway :: StatusGateway
  bs_Devices :: "int \<times> int"
  bs_Update :: "bool \<times> Reason option \<times> string"

definition NewBridgeStatus :: "StatusFacts \<Rightarrow> BridgeStatus" where
  "NewBridgeStatus f =
     \<lparr>bs_API = 1, bs_Version = sf_Version f, bs_Incarnation = sf_Incarnation f, bs_StartedAt = truncate_second (sf_StartedAt f),
      bs_Platform = (sf_GOOS f, sf_GOARCH f), bs_Transport = sf_Transport f,
      bs_Relay = (if sf_Transport f = TransportRelay then Some (sf_RelayURL f, sf_RelayAttached f) else None),
      bs_Install = (in_Method (sf_Install f), in_Path (sf_Install f)),
      bs_Service = (if sf_ServiceLabel f \<noteq> [] then Some (''launchd'', sf_ServiceLabel f) else None),
      bs_Gateway = \<lparr>sg_State = he_State (sf_Gateway f), sg_Since = Some (truncate_second (he_Since (sf_Gateway f))),
        sg_LastProbeOKAt = map_option truncate_second (he_LastProbeOK (sf_Gateway f)), sg_Restarts = he_Restarts (sf_Gateway f),
        sg_LastRestartReason = he_LastRestartReason (sf_Gateway f)\<rparr>,
      bs_Devices = (sf_Paired f, sf_Connected f),
      bs_Update = (fst (Availability (sf_Install f)), snd (Availability (sf_Install f)), in_UpdateCommand (sf_Install f))\<rparr>"

end
