(* ===== verification/UpdateSafety.thy ===== *)
theory UpdateSafety
  imports Install
begin

text \<open>What the release check and the update command of internal/update guarantee.\<close>

section \<open>The order of versions\<close>

definition tag_version :: "string \<Rightarrow> version option" where
  "tag_version s = map_option (\<lambda>(a, b, c). Version (atoi_clamped a) (atoi_clamped b) (atoi_clamped c)) (releaseTag s)"

fun tag_of :: "version \<Rightarrow> string" where
  "tag_of (Version a b c) = CHR ''v'' # nat_lit a @ ''.'' @ nat_lit b @ ''.'' @ nat_lit c"

fun small :: "version \<Rightarrow> bool" where
  "small (Version a b c) \<longleftrightarrow> a < 2 ^ 63 \<and> b < 2 ^ 63 \<and> c < 2 ^ 63"

lemma numeric_nat_lit: "numeric_group (nat_lit n)"
  using nat_lit_digits [of n] nat_lit_hd [of n] by (cases "n = 0") (auto simp: numeric_group_def nat_lit_0)

lemma split_dots: "CHR ''.'' \<notin> set s \<Longrightarrow> split_on (CHR ''.'') (s @ CHR ''.'' # t) = s # split_on (CHR ''.'') t"
  by (induction s) auto

lemma split_no_dot: "CHR ''.'' \<notin> set s \<Longrightarrow> split_on (CHR ''.'') s = [s]"
  by (induction s) auto

lemma nat_lit_no_dot: "CHR ''.'' \<notin> set (nat_lit n)"
  using nat_lit_digits [of n] by (auto simp: list_all_iff is_digit_def)

lemma atoi_nat_lit: "n < 2 ^ 63 \<Longrightarrow> atoi_clamped (nat_lit n) = n"
  by (simp add: atoi_clamped_def digits_val_nat_lit)

lemma tag_version_tag_of: "small v \<Longrightarrow> tag_version (tag_of v) = Some v"
  by (cases v) (simp add: tag_version_def releaseTag_def split_dots split_no_dot nat_lit_no_dot numeric_nat_lit atoi_nat_lit)

lemma isNewer_tag_version:
  "isNewer s t \<longleftrightarrow> (case (tag_version s, tag_version t) of (Some v, Some w) \<Rightarrow> w < v | _ \<Rightarrow> False)"
  by (auto simp: isNewer_def tag_version_def less_version_def split: option.splits prod.splits)

text \<open>
  An update is offered exactly for a greater version: \<open>isNewer\<close> on tags is the lexicographic order of their
  numbers, numerically and not as text, and false when either is no version; so no two versions are each newer than the
  other, a version is not newer than itself, and any two different versions are ordered.
\<close>

theorem newer_is_order:
  assumes "small v" and "small w"
  shows "(isNewer (tag_of v) (tag_of w) \<longleftrightarrow> w < v) \<and>
    (\<forall>s t. isNewer s t \<longleftrightarrow> (case (tag_version s, tag_version t) of (Some a, Some b) \<Rightarrow> b < a | _ \<Rightarrow> False))"
  using assms isNewer_tag_version tag_version_tag_of by simp

theorem newer_is_order_witness: "isNewer (tag_of (Version 1 10 0)) (tag_of (Version 1 9 9))"
  using conjunct1 [OF newer_is_order [of "Version 1 10 0" "Version 1 9 9"]] by (simp add: less_version_def del: tag_of.simps)

section \<open>Notes\<close>

lemma collect_notes_take:
  "length ns \<le> maxNotes \<Longrightarrow> (k = 0 \<or> length ns = maxNotes) \<Longrightarrow>
   collect_notes ls ns k = (take maxNotes (ns @ List.map_filter note_subject ls),
     k + (length ns + length (List.map_filter note_subject ls) - maxNotes))"
proof (induction ls arbitrary: ns k)
  case (Cons l ls)
  show ?case
  proof (cases "note_subject l")
    case None
    with Cons show ?thesis by (simp add: List.map_filter_simps)
  next
    case (Some s)
    show ?thesis
    proof (cases "length ns = maxNotes")
      case True
      with Cons.IH [of ns "Suc k"] Some show ?thesis by (simp add: List.map_filter_simps)
    next
      case False
      with Cons.prems have "length (ns @ [s]) \<le> maxNotes" "k = 0" by simp_all
      with Cons.IH [of "ns @ [s]" 0] Some False show ?thesis by (simp add: List.map_filter_simps)
    qed
  qed
qed (simp add: List.map_filter_simps)

lemma releaseNotes_exact:
  "releaseNotes body = (let subjects = List.map_filter note_subject (split_on (CHR 0x0A) body) in
     (take maxNotes subjects, length subjects - maxNotes))"
  using collect_notes_take [of "[]" 0] by (simp add: releaseNotes_def Let_def)

section \<open>The spacing of requests\<close>

abbreviation spaced :: "gotime list \<Rightarrow> bool" where
  "spaced \<equiv> sorted_wrt (\<lambda>a b. a + minCheckInterval \<le> b)"

lemma minCheckInterval_pos: "0 < minCheckInterval"
  by (simp add: minCheckInterval_def)

lemma lastRequest_end [simp]: "ck_lastRequest (request_end now answer c) = ck_lastRequest c"
  by (auto simp: request_end_def Let_def accept_release_def block_def split: sum.split option.split prod.split)

lemma begin_started:
  assumes "Check_begin force now c = (Started, c')"
  shows "ck_lastRequest c' = Some now \<and> (\<forall>l. ck_lastRequest c = Some l \<longrightarrow> l + minCheckInterval \<le> now)"
  using assms by (auto simp: Check_begin_def mayRequest_def split: if_splits option.splits)

lemma begin_quiet: "fst (Check_begin force now c) \<noteq> Started \<Longrightarrow> snd (Check_begin force now c) = c"
  by (auto simp: Check_begin_def split: if_splits)

lemma requests_spaced:
  "spaced (requests_started es c) \<and> (\<forall>l. ck_lastRequest c = Some l \<longrightarrow> (\<forall>x \<in> set (requests_started es c). l + minCheckInterval \<le> x))"
proof (induction es arbitrary: c)
  case (Cons e es)
  show ?case
  proof (cases e)
    case (CkCheck force now)
    show ?thesis
    proof (cases "fst (Check_begin force now c) = Started")
      case True
      then obtain c' where b: "Check_begin force now c = (Started, c')" by (metis prod.collapse)
      note s = begin_started [OF b]
      have IH: "spaced (requests_started es c')" "\<forall>x \<in> set (requests_started es c'). now + minCheckInterval \<le> x"
        using Cons.IH [of c'] s by auto
      moreover have "l + minCheckInterval \<le> x" if "ck_lastRequest c = Some l" "x \<in> set (requests_started es c')" for l x
        using IH(2) s that minCheckInterval_pos by fastforce
      ultimately show ?thesis using b s CkCheck by auto
    next
      case False
      with begin_quiet [OF False] Cons.IH [of c] CkCheck show ?thesis by simp
    qed
  next
    case (CkEnd now answer)
    with Cons.IH [of "check_step e c"] show ?thesis by auto
  qed
qed simp

lemma spaced_count:
  assumes "sorted_wrt (\<lambda>a b. a + d \<le> b) xs" "0 < (d :: int)" "\<forall>x \<in> set xs. t \<le> x \<and> x < t + int n * d"
  shows "length xs \<le> n"
  using assms
proof (induction xs arbitrary: t n)
  case (Cons x xs)
  then have "int n * d > 0" by fastforce
  with Cons.prems(2) obtain m where n: "n = Suc m" by (cases n) auto
  have "\<forall>y \<in> set xs. t + d \<le> y \<and> y < (t + d) + int m * d"
    using Cons.prems n by (auto simp: algebra_simps)
  with Cons.IH [of "t + d" m] Cons.prems n show ?case by simp
qed simp

text \<open>
  C38. GitHub is not asked too often: however many phones ask, forced or not, concurrently or not, and whatever GitHub
  answers, two requests of the checker start at least two minutes apart, so at most thirty start within any hour, half of
  what an anonymous client is allowed.
\<close>

theorem requests_bounded:
  "spaced (requests_started es (NewChecker current)) \<and>
   length (filter (\<lambda>x. t \<le> x \<and> x < t + 3600 * second) (requests_started es (NewChecker current))) \<le> 30"
proof
  show s: "spaced (requests_started es (NewChecker current))" using requests_spaced by blast
  have e: "3600 * second = int 30 * minCheckInterval" by (simp add: second_def minCheckInterval_def)
  show "length (filter (\<lambda>x. t \<le> x \<and> x < t + 3600 * second) (requests_started es (NewChecker current))) \<le> 30"
    unfolding e by (rule spaced_count [OF sorted_wrt_filter [OF s] minCheckInterval_pos, of _ t]) simp
qed

section \<open>Redirects of a download\<close>

definition download_ok :: "(nat \<Rightarrow> nat) \<Rightarrow> target \<Rightarrow> bool" where
  "download_ok lower u \<longleftrightarrow> u_scheme u = ''https'' \<and> \<not> u_user u \<and> (u_port u = [] \<or> u_port u = ''443'') \<and>
     (List.member downloadHosts (ToLower lower (u_hostname u)) \<or>
      ToLower lower (u_hostname u) = ''github.com'' \<and> has_prefix (u_path u) releaseDownloadPath)"

lemma follow_download_ok:
  assumes "via \<noteq> []" "length via \<le> Suc maxDownloadRedirects" "\<forall>u \<in> set (tl via). download_ok lower u"
    "has_prefix (u_path (hd via)) ''/repos/'' \<longrightarrow> length via = 1"
  shows "length (follow_download lower via ts) \<le> Suc maxDownloadRedirects \<and>
    (\<forall>u \<in> set (tl (follow_download lower via ts)). download_ok lower u) \<and>
    (has_prefix (u_path (hd via)) ''/repos/'' \<longrightarrow> follow_download lower via ts = via)"
  using assms
proof (induction ts arbitrary: via)
  case (Cons t ts)
  show ?case
  proof (cases "checkRedirect lower t via")
    case None
    from Cons.prems(1) obtain f fs where via: "via = f # fs" by (cases via) auto
    from None have ok: "\<not> has_prefix (u_path f) ''/repos/''" "length via \<le> maxDownloadRedirects" "download_ok lower t"
      by (auto simp: via checkRedirect_def download_ok_def Let_def split: if_splits)
    have "\<forall>u \<in> set (tl (via @ [t])). download_ok lower u" using Cons.prems(3) ok(3) via by simp
    with Cons.IH [of "via @ [t]"] ok(1,2) None show ?thesis by (simp add: via)
  next
    case Some
    with Cons.prems show ?thesis by simp
  qed
qed simp

text \<open>
  C39. A release download stays with GitHub: whatever redirects it is answered with, every further request goes over
  HTTPS on the default port, without user information, to one of GitHub's asset hosts or to this repository's downloads
  on github.com, there are at most three of them, and a request to the API is not redirected at all.
\<close>

theorem download_confined:
  "length (follow_download lower [first] ts) \<le> 4 \<and>
   (\<forall>u \<in> set (tl (follow_download lower [first] ts)). download_ok lower u) \<and>
   (has_prefix (u_path first) ''/repos/'' \<longrightarrow> follow_download lower [first] ts = [first])"
  using follow_download_ok [of "[first]" lower ts] by (simp add: maxDownloadRedirects_def)

definition demo_target :: "string \<Rightarrow> target" where
  "demo_target path = \<lparr>u_scheme = ''https'', u_hostname = ''github.com'', u_port = [], u_path = path, u_rawPath = [], u_rawQuery = [],
     u_user = False\<rparr>"

theorem download_confined_witness:
  "follow_download id [demo_target ''/repos/x''] [demo_target ''/y''] = [demo_target ''/repos/x'']"
  using download_confined [of id "demo_target ''/repos/x''" "[demo_target ''/y'']"]
  by (simp add: demo_target_def has_prefix_def)

section \<open>The update command\<close>

text \<open>How a POSIX shell reads a command line, as far as it needs no expansion: words end at blanks; a quote keeps what is
  up to the next quote; a backslash keeps the next character; a character that the shell would interpret is an error.\<close>

definition sh_literal :: "char \<Rightarrow> bool" where
  "sh_literal c \<longleftrightarrow> is_digit c \<or> 65 \<le> ord c \<and> ord c \<le> 90 \<or> 97 \<le> ord c \<and> ord c \<le> 122 \<or> List.member ''-_./:=|'' c"

function sh_words :: "string \<Rightarrow> string option \<Rightarrow> string list option" where
  "sh_words [] cur = (case cur of None \<Rightarrow> Some [] | Some w \<Rightarrow> Some [w])"
| "sh_words (c # s) cur =
     (let w = (case cur of None \<Rightarrow> [] | Some x \<Rightarrow> x) in
      if c = CHR '' '' then (case cur of None \<Rightarrow> sh_words s None | Some x \<Rightarrow> map_option (Cons x) (sh_words s None))
      else if c = quote_mark
      then (case dropWhile (\<lambda>x. x \<noteq> quote_mark) s of
          [] \<Rightarrow> None
        | _ # t \<Rightarrow> sh_words t (Some (w @ takeWhile (\<lambda>x. x \<noteq> quote_mark) s)))
      else if c = CHR 0x5C then (case s of [] \<Rightarrow> None | x # t \<Rightarrow> sh_words t (Some (w @ [x])))
      else if sh_literal c then sh_words s (Some (w @ [c]))
      else None)"
  by pat_completeness auto
termination
proof (relation "measure (length \<circ> fst)")
  fix s t :: string and x :: char
  assume "dropWhile (\<lambda>x. x \<noteq> quote_mark) s = x # t"
  then have "length t < length (dropWhile (\<lambda>x. x \<noteq> quote_mark) s)" by simp
  also have "\<dots> \<le> length s" by (rule length_dropWhile_le)
  finally show "((t, y), (c # s, z)) \<in> measure (length \<circ> fst)" for y z c by simp
qed simp_all

definition escaped :: "string \<Rightarrow> string" where
  "escaped v = concat (map (\<lambda>c. if c = quote_mark then [quote_mark, CHR 0x5C, quote_mark, quote_mark] else [c]) v)"

lemma escaped_simps:
  "escaped (a @ b) = escaped a @ escaped b"
  "escaped (quote_mark # b) = quote_mark # CHR 0x5C # quote_mark # quote_mark # escaped b"
  by (simp_all add: escaped_def)

lemma sh_literal_facts: "sh_literal c \<Longrightarrow> c \<noteq> CHR '' '' \<and> c \<noteq> quote_mark \<and> c \<noteq> CHR 0x5C"
  by (auto simp: sh_literal_def quote_mark_def is_digit_def)

lemma sh_words_literal:
  "list_all sh_literal a \<Longrightarrow> sh_words (a @ s) (Some w) = sh_words s (Some (w @ a))"
  by (induction a arbitrary: w) (auto dest: sh_literal_facts)

lemma sh_words_start: "list_all sh_literal a \<Longrightarrow> a \<noteq> [] \<Longrightarrow> sh_words (a @ s) None = sh_words s (Some a)"
  by (cases a) (auto simp: sh_words_literal dest: sh_literal_facts)

lemma sh_words_span:
  assumes "quote_mark \<notin> set q"
  shows "sh_words (quote_mark # q @ quote_mark # s) (Some w) = sh_words s (Some (w @ q))"
proof -
  have "dropWhile (\<lambda>x. x \<noteq> quote_mark) (q @ quote_mark # s) = quote_mark # s"
    "takeWhile (\<lambda>x. x \<noteq> quote_mark) (q @ quote_mark # s) = q"
    using assms by (induction q) auto
  then show ?thesis by (simp add: quote_mark_def)
qed

lemma sh_words_backslash: "sh_words (CHR 0x5C # x # s) (Some w) = sh_words s (Some (w @ [x]))"
  by (simp add: quote_mark_def)

lemma sh_words_quoted:
  "sh_words (quote_mark # escaped v @ quote_mark # s) (Some w) = sh_words s (Some (w @ v))"
proof (induction v arbitrary: w rule: measure_induct_rule [of length])
  case (less v)
  let ?q = "takeWhile (\<lambda>c. c \<noteq> quote_mark) v"
  have plainq: "escaped ?q = ?q"
    by (induction v) (auto simp: escaped_def)
  have nq: "quote_mark \<notin> set ?q" by (auto dest: set_takeWhileD)
  have split: "v = ?q @ dropWhile (\<lambda>c. c \<noteq> quote_mark) v" by simp
  show ?case
  proof (cases "dropWhile (\<lambda>c. c \<noteq> quote_mark) v")
    case Nil
    then have v: "v = ?q" using split by (metis append_Nil2)
    with plainq have "escaped v = v" by simp
    moreover have "quote_mark \<notin> set v" using v nq by simp
    ultimately show ?thesis by (simp only: sh_words_span not_False_eq_True)
  next
    case (Cons c u)
    then have c: "c = quote_mark" by (metis (mono_tags, lifting) hd_dropWhile list.distinct(1) list.sel(1))
    with Cons split have v: "v = ?q @ quote_mark # u" by simp
    have e: "escaped v = ?q @ quote_mark # CHR 0x5C # quote_mark # quote_mark # escaped u"
      by (subst v) (simp only: escaped_simps plainq)
    have "length u < length v" by (subst v) simp
    from less.IH [OF this, of "w @ ?q @ [quote_mark]"]
    have "sh_words (quote_mark # escaped u @ quote_mark # s) (Some (w @ ?q @ [quote_mark])) = sh_words s (Some (w @ v))"
      by (subst v) simp
    then show ?thesis unfolding e using nq
      by (simp only: append.assoc append_Cons sh_words_span sh_words_backslash append_Nil not_False_eq_True)
  qed
qed

text \<open>
  A directory's name cannot change the update command: for every name, quotes and line breaks included, a shell
  reads the command the person is shown as exactly these words, the assignment carrying the name unchanged.
\<close>

theorem update_command_quoted:
  "sh_words (ManualUpdateCommand dir) None =
     Some [''curl'', ''-fsSL'', InstallScriptURL, ''|'', ''HERMOTE_BRIDGE_INSTALL_DIR='' @ dir, ''bash'']"
proof -
  have q: "shellQuote dir = quote_mark # escaped dir @ [quote_mark]" by (simp add: shellQuote_def escaped_def)
  have word: "sh_words (a @ CHR '' '' # s) None = map_option (Cons a) (sh_words s None)" if "list_all sh_literal a" "a \<noteq> []" for a s
    using sh_words_start [OF that] by simp
  have l: "list_all sh_literal ''curl''" "list_all sh_literal ''-fsSL''" "list_all sh_literal InstallScriptURL" "list_all sh_literal ''|''"
    "list_all sh_literal ''HERMOTE_BRIDGE_INSTALL_DIR=''" "list_all sh_literal ''bash''"
    by (simp_all add: sh_literal_def is_digit_def InstallScriptURL_def)
  have tail: "sh_words '' bash'' (Some w) = Some [w, ''bash'']" for w
    using sh_words_start [OF l(6), of "[]"] by simp
  have assign: "sh_words (''HERMOTE_BRIDGE_INSTALL_DIR='' @ shellQuote dir @ '' bash'') None =
      Some [''HERMOTE_BRIDGE_INSTALL_DIR='' @ dir, ''bash'']"
    using sh_words_start [OF l(5), of "shellQuote dir @ '' bash''"] sh_words_quoted [of dir "'' bash''"] tail by (simp add: q)
  have "ManualUpdateCommand dir = ''curl'' @ CHR '' '' # ''-fsSL'' @ CHR '' '' # InstallScriptURL @ CHR '' '' # ''|'' @ CHR '' '' #
      ''HERMOTE_BRIDGE_INSTALL_DIR='' @ shellQuote dir @ '' bash''"
    by (simp add: ManualUpdateCommand_def)
  moreover have "InstallScriptURL \<noteq> []" by (simp add: InstallScriptURL_def)
  ultimately show ?thesis using l assign by (simp only: word list.distinct not_False_eq_True option.map)
qed

end
