(* ===== verification/XmlText.thy ===== *)
theory XmlText
  imports JsonText
begin

text \<open>
  What the source uses of Go's \<open>encoding/xml\<close> and \<open>html\<close>: the tokens of a strict \<open>xml.Decoder\<close>, \<open>DecodeElement\<close>
  into a string and \<open>html.EscapeString\<close>. A decoder ends with \<open>io.EOF\<close> or a syntax error; callers treat both as an
  error, so the tokens before that end are all that matters. \<open>wide\<close> says which names with runes past ASCII are names.
\<close>

section \<open>Escaping\<close>

fun escape_char :: "char \<Rightarrow> string" where
  "escape_char c =
     (if c = CHR ''&'' then ''&amp;'' else if c = CHR 0x27 then ''&#39;'' else if c = CHR ''<'' then ''&lt;''
      else if c = CHR ''>'' then ''&gt;'' else if c = CHR 0x22 then ''&#34;'' else [c])"

definition EscapeString :: "string \<Rightarrow> string" where
  "EscapeString s = concat (map escape_char s)"

section \<open>Names and text\<close>

definition name_byte :: "char \<Rightarrow> bool" where
  "name_byte c \<longleftrightarrow> (let n = ord c in 48 \<le> n \<and> n \<le> 58 \<or> 65 \<le> n \<and> n \<le> 90 \<or> 97 \<le> n \<and> n \<le> 122 \<or> n = 95 \<or> n = 46 \<or> n = 45)"

definition name_part :: "char \<Rightarrow> bool" where
  "name_part c \<longleftrightarrow> 128 \<le> (ord c :: nat) \<or> name_byte c"

definition is_name :: "(string \<Rightarrow> bool) \<Rightarrow> string \<Rightarrow> bool" where
  "is_name wide s \<longleftrightarrow>
     (if list_ex (\<lambda>c. 128 \<le> (ord c :: nat)) s then wide s
      else s \<noteq> [] \<and> \<not> (let n = ord (hd s) :: nat in 48 \<le> n \<and> n \<le> 57 \<or> n = 46 \<or> n = 45))"

text \<open>\<open>Decoder.name\<close>: a name and what follows it, which must not be the end of the input.\<close>

definition read_name :: "(string \<Rightarrow> bool) \<Rightarrow> string \<Rightarrow> (string \<times> string) option" where
  "read_name wide s =
     (let n = takeWhile name_part s; r = dropWhile name_part s in
      if n = [] \<or> r = [] \<or> \<not> is_name wide n then None else Some (n, r))"

text \<open>\<open>nsname\<close>; tokens keep the full name, which determines its prefix and its local part.\<close>

definition local_name :: "string \<Rightarrow> string" where
  "local_name n = (case split_on (CHR '':'') n of [a, b] \<Rightarrow> if a = [] \<or> b = [] then n else b | _ \<Rightarrow> n)"

definition read_nsname :: "(string \<Rightarrow> bool) \<Rightarrow> string \<Rightarrow> (string \<times> string) option" where
  "read_nsname wide s =
     (case read_name wide s of
        None \<Rightarrow> None
      | Some (n, r) \<Rightarrow> if length (split_on (CHR '':'') n) \<le> 2 then Some (n, r) else None)"

definition xml_space :: "string \<Rightarrow> string" where
  "xml_space s = dropWhile (\<lambda>c. c = CHR '' '' \<or> c = CHR 0x0D \<or> c = CHR 0x0A \<or> c = CHR 0x09) s"

definition expect :: "char \<Rightarrow> string \<Rightarrow> string option" where
  "expect c s = (if s \<noteq> [] \<and> hd s = c then Some (tl s) else None)"

lemma expect_simps [simp]: "expect c [] = None" "expect c (d # s) = (if d = c then Some s else None)"
  by (simp_all add: expect_def)

definition numeric_entity :: "string \<Rightarrow> (string \<times> string) option" where
  "numeric_entity s =
     (let hex = (s \<noteq> [] \<and> hd s = CHR ''x'');
          t = (if hex then tl s else s);
          ok = (\<lambda>c. case hex_val c of None \<Rightarrow> False | Some v \<Rightarrow> hex \<or> v < 10);
          ds = takeWhile ok t;
          n = foldl (\<lambda>a c. a * (if hex then 16 else 10) + the (hex_val c)) 0 ds in
      case expect (CHR 0x3B) (dropWhile ok t) of
        Some r \<Rightarrow> if ds \<noteq> [] \<and> n \<le> 0x10FFFF then Some (encode_rune n, r) else None
      | None \<Rightarrow> None)"

definition named_entity :: "string \<Rightarrow> (string \<times> string) option" where
  "named_entity s =
     (case (map_of [(''lt'', CHR ''<''), (''gt'', CHR ''>''), (''amp'', CHR ''&''), (''apos'', CHR 0x27), (''quot'', CHR 0x22)]
          (takeWhile name_part s), expect (CHR 0x3B) (dropWhile name_part s)) of
        (Some c, Some r) \<Rightarrow> Some ([c], r)
      | _ \<Rightarrow> None)"

definition entity :: "string \<Rightarrow> (string \<times> string) option" where
  "entity s = (case expect (CHR ''#'') s of Some t \<Rightarrow> numeric_entity t | None \<Rightarrow> named_entity s)"

datatype text_mode = InText | InQuotes char | InCData

text \<open>\<open>Decoder.text\<close>: the text and the rest of the input (past a quote or \<open>]]>\<close>, at a \<open><\<close>).\<close>

function xml_text :: "text_mode \<Rightarrow> string \<Rightarrow> (string \<times> string) option" where
  "xml_text m s =
     (case s of
        [] \<Rightarrow> if m = InCData then None else Some ([], [])
      | c # t \<Rightarrow>
          if m \<noteq> InCData \<and> c = CHR ''<'' then (if m = InText then Some ([], s) else None)
          else if m = InQuotes c then Some ([], t)
          else if m = InCData \<and> has_prefix s '']]>'' then Some ([], drop 3 s)
          else if m = InText \<and> has_prefix s '']]>'' then None
          else if m \<noteq> InCData \<and> c = CHR ''&'' then
            (case entity t of
               None \<Rightarrow> None
             | Some (u, r) \<Rightarrow> if length r < length s then map_option (\<lambda>(v, w). (u @ v, w)) (xml_text m r) else None)
          else if c = CHR 0x0D then
            map_option (\<lambda>(v, w). (CHR 0x0A # v, w)) (xml_text m (if t \<noteq> [] \<and> hd t = CHR 0x0A then tl t else t))
          else map_option (\<lambda>(v, w). (c # v, w)) (xml_text m t))"
  by pat_completeness auto
termination by (relation "measure (length \<circ> snd)") auto

declare xml_text.simps [simp del]

definition xml_rune :: "nat \<times> nat \<Rightarrow> bool" where
  "xml_rune = (\<lambda>(r, w). \<not> (r = rune_error \<and> w = 1) \<and>
     (r = 9 \<or> r = 10 \<or> r = 13 \<or> 0x20 \<le> r \<and> r \<le> 0xD7FF \<or> 0xE000 \<le> r \<and> r \<le> 0xFFFD \<or> 0x10000 \<le> r \<and> r \<le> 0x10FFFF))"

definition read_text :: "text_mode \<Rightarrow> string \<Rightarrow> (string \<times> string) option" where
  "read_text m s =
     (case xml_text m s of
        None \<Rightarrow> None
      | Some (v, r) \<Rightarrow> if list_all xml_rune (runes v) then Some (v, r) else None)"

section \<open>Tokens\<close>

datatype xtoken = StartElement string | EndElement string | CharData string | OtherToken

text \<open>The attributes of an element: whether it closes itself, and the rest.\<close>

function read_attrs :: "(string \<Rightarrow> bool) \<Rightarrow> string \<Rightarrow> (bool \<times> string) option" where
  "read_attrs wide s0 =
     (let s = xml_space s0 in
      case s of
        [] \<Rightarrow> None
      | c # t \<Rightarrow>
          if c = CHR ''/'' then (if t \<noteq> [] \<and> hd t = CHR ''>'' then Some (True, tl t) else None)
          else if c = CHR ''>'' then Some (False, t)
          else case read_nsname wide s of
            None \<Rightarrow> None
          | Some (_, r) \<Rightarrow>
              (case expect (CHR ''='') (xml_space r) of
                 Some r' \<Rightarrow>
                   (case xml_space r' of
                      q # v \<Rightarrow>
                        if q = CHR 0x22 \<or> q = CHR 0x27 then
                          (case read_text (InQuotes q) v of
                             None \<Rightarrow> None
                           | Some (_, w) \<Rightarrow> if length w < length s0 then read_attrs wide w else None)
                        else None
                    | [] \<Rightarrow> None)
               | None \<Rightarrow> None))"
  by pat_completeness auto
termination by (relation "measure (length \<circ> snd)") auto

declare read_attrs.simps [simp del]

function comment_end :: "string \<Rightarrow> string option" where
  "comment_end s =
     (case s of
        [] \<Rightarrow> None
      | c # t \<Rightarrow> if has_prefix s ''--'' then (if has_prefix s ''-->'' then Some (drop 3 s) else None) else comment_end t)"
  by pat_completeness auto
termination by (relation "measure length") auto

declare comment_end.simps [simp del]

text \<open>A comment inside a directive may contain \<open>--\<close>.\<close>

fun skip_until :: "string \<Rightarrow> string \<Rightarrow> string option" where
  "skip_until stop [] = None"
| "skip_until stop (c # s) = (if has_prefix (c # s) stop then Some (drop (length stop) (c # s)) else skip_until stop s)"

lemma skip_until_length: "skip_until stop s = Some r \<Longrightarrow> length r \<le> length s"
  by (induction stop s rule: skip_until.induct) (auto split: if_splits)

function directive_end :: "char option \<Rightarrow> nat \<Rightarrow> string \<Rightarrow> string option" where
  "directive_end q d s =
     (case s of
        [] \<Rightarrow> None
      | c # t \<Rightarrow>
          if q = Some c then directive_end None d t
          else if q \<noteq> None then directive_end q d t
          else if c = CHR 0x22 \<or> c = CHR 0x27 then directive_end (Some c) d t
          else if c = CHR ''>'' then (if d = 0 then Some t else directive_end None (d - 1) t)
          else if c = CHR ''<'' then
            (if has_prefix t ''!--'' then
               (case skip_until ''-->'' (drop 3 t) of
                  None \<Rightarrow> None
                | Some r \<Rightarrow> if length r < length s then directive_end None d r else None)
             else directive_end None (Suc d) t)
          else directive_end None d t)"
  by pat_completeness auto
termination by (relation "measure (\<lambda>(_, _, s). length s)") auto

declare directive_end.simps [simp del]

function proc_inst :: "string \<Rightarrow> string \<Rightarrow> string" where
  "proc_inst p s =
     (case s of
        [] \<Rightarrow> []
      | c # t \<Rightarrow>
          if has_prefix s p then
            (case drop (length p) s of
               [] \<Rightarrow> []
             | q # u \<Rightarrow>
                 if q = CHR 0x22 \<or> q = CHR 0x27 then (if List.member u q then takeWhile (\<lambda>x. x \<noteq> q) u else [])
                 else if length u < length s then proc_inst p u else [])
          else proc_inst p t)"
  by pat_completeness auto
termination by (relation "measure (length \<circ> snd)") auto

declare proc_inst.simps [simp del]

definition xml_declaration_ok :: "string \<Rightarrow> bool" where
  "xml_declaration_ok content =
     (let v = proc_inst ''version='' content; e = proc_inst ''encoding='' content in
      (v = [] \<or> v = ''1.0'') \<and>
      (e = [] \<or> map (\<lambda>c. if 65 \<le> (ord c :: nat) \<and> (ord c :: nat) \<le> 90 then chr (ord c + 32) else c) e = ''utf-8''))"

text \<open>One call of \<open>rawToken\<close>; a self-closing element is a start and an end.\<close>

definition end_tag :: "(string \<Rightarrow> bool) \<Rightarrow> string \<Rightarrow> (xtoken list \<times> string) option" where
  "end_tag wide t =
     (case read_nsname wide t of
        None \<Rightarrow> None
      | Some (n, r) \<Rightarrow> map_option (\<lambda>u. ([EndElement n], u)) (expect (CHR ''>'') (xml_space r)))"

definition instruction :: "(string \<Rightarrow> bool) \<Rightarrow> string \<Rightarrow> (xtoken list \<times> string) option" where
  "instruction wide t =
     (case read_name wide t of
        None \<Rightarrow> None
      | Some (n, r) \<Rightarrow>
          (case skip_until ''?>'' (xml_space r) of
             None \<Rightarrow> None
           | Some u \<Rightarrow>
               if n = ''xml'' \<and> \<not> xml_declaration_ok (take (length (xml_space r) - length u - 2) (xml_space r)) then None
               else Some ([OtherToken], u)))"

definition markup :: "string \<Rightarrow> (xtoken list \<times> string) option" where
  "markup t =
     (if has_prefix t ''--'' then map_option (\<lambda>r. ([OtherToken], r)) (comment_end (drop 2 t))
      else if has_prefix t ''-'' then None
      else if has_prefix t ''[CDATA['' then map_option (\<lambda>(v, r). ([CharData v], r)) (read_text InCData (drop 7 t))
      else if has_prefix t ''['' \<or> t = [] then None
      else map_option (\<lambda>r. ([OtherToken], r)) (directive_end None 0 (tl t)))"

definition start_tag :: "(string \<Rightarrow> bool) \<Rightarrow> string \<Rightarrow> (xtoken list \<times> string) option" where
  "start_tag wide t =
     (case read_nsname wide t of
        None \<Rightarrow> None
      | Some (n, r) \<Rightarrow>
          map_option (\<lambda>(closed, u). (if closed then [StartElement n, EndElement n] else [StartElement n], u)) (read_attrs wide r))"

definition raw_token :: "(string \<Rightarrow> bool) \<Rightarrow> string \<Rightarrow> (xtoken list \<times> string) option" where
  "raw_token wide s =
     (if s = [] then None
      else case expect (CHR ''<'') s of
        None \<Rightarrow> map_option (\<lambda>(v, r). ([CharData v], r)) (read_text InText s)
      | Some t \<Rightarrow>
          if t = [] then None
          else if hd t = CHR ''/'' then end_tag wide (tl t)
          else if hd t = CHR ''?'' then instruction wide (tl t)
          else if hd t = CHR ''!'' then markup (tl t)
          else start_tag wide t)"

fun open_elements :: "string list \<Rightarrow> xtoken list \<Rightarrow> string list option" where
  "open_elements stack [] = Some stack"
| "open_elements stack (StartElement n # ts) = open_elements (n # stack) ts"
| "open_elements stack (EndElement n # ts) = (case stack of m # rest \<Rightarrow> if m = n then open_elements rest ts else None | [] \<Rightarrow> None)"
| "open_elements stack (_ # ts) = open_elements stack ts"

text \<open>The tokens up to the end of the input or the first error.\<close>

function xml_tokens :: "(string \<Rightarrow> bool) \<Rightarrow> string list \<Rightarrow> string \<Rightarrow> xtoken list" where
  "xml_tokens wide stack s =
     (case raw_token wide s of
        None \<Rightarrow> []
      | Some (ts, r) \<Rightarrow>
          (case open_elements stack ts of
             None \<Rightarrow> []
           | Some stack' \<Rightarrow> if length r < length s then ts @ xml_tokens wide stack' r else []))"
  by pat_completeness auto
termination by (relation "measure (\<lambda>(_, _, s). length s)") auto

declare xml_tokens.simps [simp del]

text \<open>\<open>DecodeElement\<close> into a string: the character data directly inside the element, and the tokens past its end.\<close>

fun element_text :: "nat \<Rightarrow> xtoken list \<Rightarrow> (string \<times> xtoken list) option" where
  "element_text d [] = None"
| "element_text d (StartElement _ # ts) = element_text (Suc d) ts"
| "element_text d (EndElement _ # ts) = (if d = 0 then Some ([], ts) else element_text (d - 1) ts)"
| "element_text d (CharData v # ts) = (if d = 0 then map_option (\<lambda>(w, r). (v @ w, r)) (element_text d ts) else element_text d ts)"
| "element_text d (OtherToken # ts) = element_text d ts"

lemma element_text_length: "element_text d ts = Some (v, r) \<Longrightarrow> length r < length ts"
  by (induction d ts arbitrary: v r rule: element_text.induct) (fastforce split: if_splits)+

end
