(* ===== verification/Launchd.thy ===== *)
theory Launchd
  imports XmlText Install "HOL-Library.State_Monad"
begin

unbundle bit_operations_syntax

text \<open>
  internal/launchd/launchd.go: the per-user LaunchAgent. \<open>svc\<close> is the state the manager shares with launchd: the plist
  file and the history of the external calls. What launchd, the process table, the timers and the file system answer is
  given by \<open>serviceManager\<close> as functions of that history, so every behaviour of theirs is one of its values; the state
  monad threads \<open>svc\<close> through the operations as the code runs them. Errors are lists, \<open>errors.Join\<close> is append and
  \<open>nil\<close> is the empty list.
\<close>

definition service_label :: string where "service_label = ''ai.hermes.remote''"

section \<open>The plist\<close>

record Spec =
  sp_Binary :: string
  sp_LaunchID :: string
  sp_HermesHome :: string
  sp_LogDir :: string
  sp_Path :: string

definition log_file :: "Spec \<Rightarrow> string" where
  "log_file s = rooted (Clean (sp_LogDir s @ ''/remote.log''))"

definition nl :: string where "nl = [CHR 0x0A]"
definition dq :: string where "dq = [CHR 0x22]"

definition plist_head :: string where
  "plist_head =
     ''<?xml version='' @ dq @ ''1.0'' @ dq @ '' encoding='' @ dq @ ''UTF-8'' @ dq @ ''?>'' @ nl @
     ''<!DOCTYPE plist PUBLIC '' @ dq @ ''-//Apple//DTD PLIST 1.0//EN'' @ dq @ '' '' @
       dq @ ''http://www.apple.com/DTDs/PropertyList-1.0.dtd'' @ dq @ ''>'' @ nl @
     ''<plist version='' @ dq @ ''1.0'' @ dq @ ''>'' @ nl @
     ''<dict>'' @ nl @
     ''    <key>Label</key><string>'' @ service_label @ ''</string>'' @ nl"

definition plist_comment :: string where
  "plist_comment =
     ''    <!-- Installed by hermote-bridge: the paired, end-to-end-encrypted bridge'' @ nl @
     ''         between Hermote and this Mac'' @ [CHR 0x27] @ ''s Hermes gateway. -->'' @ nl"

definition plist_tail :: "Spec \<Rightarrow> string" where
  "plist_tail s =
     ''        <string>daemon</string>'' @ nl @
     ''        <string>--launch-id</string>'' @ nl @
     ''        <string>'' @ EscapeString (sp_LaunchID s) @ ''</string>'' @ nl @
     ''    </array>'' @ nl @
     ''    <key>WorkingDirectory</key><string>'' @ EscapeString (sp_HermesHome s) @ ''</string>'' @ nl @
     ''    <key>EnvironmentVariables</key>'' @ nl @
     ''    <dict>'' @ nl @
     ''        <key>HERMES_HOME</key><string>'' @ EscapeString (sp_HermesHome s) @ ''</string>'' @ nl @
     ''        <key>PATH</key><string>'' @ EscapeString (sp_Path s) @ ''</string>'' @ nl @
     ''    </dict>'' @ nl @
     ''    <key>LimitLoadToSessionType</key>'' @ nl @
     ''    <array><string>Aqua</string><string>Background</string></array>'' @ nl @
     ''    <key>RunAtLoad</key><true/>'' @ nl @
     ''    <key>KeepAlive</key><true/>'' @ nl @
     ''    <key>ThrottleInterval</key><integer>10</integer>'' @ nl @
     ''    <key>ExitTimeOut</key><integer>20</integer>'' @ nl @
     ''    <key>StandardOutPath</key><string>'' @ EscapeString (log_file s) @ ''</string>'' @ nl @
     ''    <key>StandardErrorPath</key><string>'' @ EscapeString (log_file s) @ ''</string>'' @ nl @
     ''</dict>'' @ nl @ ''</plist>'' @ nl"

definition plist :: "Spec \<Rightarrow> string" where
  "plist s =
     plist_head @ plist_comment @
     ''    <key>ProgramArguments</key>'' @ nl @
     ''    <array>'' @ nl @
     ''        <string>'' @ EscapeString (sp_Binary s) @ ''</string>'' @ nl @ plist_tail s"

text \<open>\<open>ProgramArguments[0]\<close> of a plist: the loops of \<open>programExecutable\<close> over the decoder's tokens. \<open>None\<close> is an error.\<close>

fun first_argument :: "xtoken list \<Rightarrow> string option" where
  "first_argument [] = None"
| "first_argument (StartElement n # ts) =
     (if local_name n \<noteq> ''string'' then first_argument ts
      else case element_text 0 ts of
        None \<Rightarrow> None
      | Some (executable, _) \<Rightarrow> if TrimSpace executable = [] then None else Some executable)"
| "first_argument (EndElement n # ts) = (if local_name n = ''array'' then None else first_argument ts)"
| "first_argument (_ # ts) = first_argument ts"

fun arguments_array :: "xtoken list \<Rightarrow> string option" where
  "arguments_array [] = None"
| "arguments_array (StartElement n # ts) = (if local_name n \<noteq> ''array'' then None else first_argument ts)"
| "arguments_array (_ # ts) = arguments_array ts"

function program_arguments :: "xtoken list \<Rightarrow> string option" where
  "program_arguments ts =
     (case ts of
        [] \<Rightarrow> None
      | StartElement n # us \<Rightarrow>
          if local_name n \<noteq> ''key'' then program_arguments us
          else (case element_text 0 us of
                  None \<Rightarrow> None
                | Some (k, rest) \<Rightarrow> if k = ''ProgramArguments'' then arguments_array rest else program_arguments rest)
      | _ # us \<Rightarrow> program_arguments us)"
  by pat_completeness auto
termination
  by (relation "measure length") (auto dest: element_text_length)

declare program_arguments.simps [simp del]

definition programExecutable :: "(string \<Rightarrow> bool) \<Rightarrow> string \<Rightarrow> string option" where
  "programExecutable wide content = program_arguments (xml_tokens wide [] content)"

section \<open>The service and its manager\<close>

record plist_file =
  pf_content :: string
  pf_mode :: nat

text \<open>The external calls, with what they answered.\<close>

datatype svc_call =
    Launchctl "string list" string bool
  | Alive int bool
  | Slept nat bool
  | MadeDir string bool
  | Wrote bool
  | Removed bool
  | Examined bool

record svc =
  sv_plist :: "plist_file option"
  sv_log :: "svc_call list"

text \<open>The answers: a successful command, a sleep that was not cut short by its context; a failed write leaves some file or
  none; \<open>executable\<close> is the mode and regularity of a file that exists.\<close>

record serviceManager =
  m_home :: "string option"
  m_uid :: nat
  m_umask :: "nat \<Rightarrow> nat"
  m_wide :: "string \<Rightarrow> bool"
  m_run :: "svc_call list \<Rightarrow> string list \<Rightarrow> string \<times> bool"
  m_sleep :: "svc_call list \<Rightarrow> bool"
  m_alive :: "svc_call list \<Rightarrow> int \<Rightarrow> bool"
  m_mkdir :: "svc_call list \<Rightarrow> string \<Rightarrow> bool"
  m_write :: "svc_call list \<Rightarrow> plist_file option option"
  m_remove :: "svc_call list \<Rightarrow> bool"
  m_stat :: "svc_call list \<Rightarrow> bool"
  m_read :: "svc_call list \<Rightarrow> bool"
  m_executable :: "svc_call list \<Rightarrow> string \<Rightarrow> (bool \<times> nat) option"

datatype launch_error =
    NoHome | LaunchIDRequired | LoadedWithoutPlist | StatFailed | ReadFailed | MkdirFailed | WriteFailed | RemoveFailed
  | BootoutFailed string | BootstrapFailed string | KickstartFailed string | DidNotStop | DidNotExit int | ContextDone
  | SavedUnreadable | SavedUnavailable string | SavedNotExecutable string | RestoreFailed

type_synonym 'a op = "(svc, 'a) state"

text \<open>One external call: the answer depends on the history, and the call is recorded.\<close>

definition ask :: "(svc_call list \<Rightarrow> 'a) \<Rightarrow> ('a \<Rightarrow> svc_call) \<Rightarrow> 'a op" where
  "ask f c = state.State (\<lambda>s. (f (sv_log s), s\<lparr>sv_log := sv_log s @ [c (f (sv_log s))]\<rparr>))"

definition run_command :: "serviceManager \<Rightarrow> string list \<Rightarrow> (string \<times> bool) op" where
  "run_command m args = ask (\<lambda>h. m_run m h args) (\<lambda>(out, good). Launchctl args out good)"

definition sleepContext :: "serviceManager \<Rightarrow> nat \<Rightarrow> bool op" where
  "sleepContext m ms = ask (m_sleep m) (Slept ms)"

definition processAlive :: "serviceManager \<Rightarrow> int \<Rightarrow> bool op" where
  "processAlive m proc = ask (\<lambda>h. m_alive m h proc) (Alive proc)"

definition make_dir :: "serviceManager \<Rightarrow> string \<Rightarrow> bool op" where
  "make_dir m d = ask (\<lambda>h. m_mkdir m h d) (MadeDir d)"

text \<open>\<open>os.WriteFile\<close> keeps the mode of a file that exists; \<open>os.Remove\<close>'s \<open>ErrNotExist\<close> is not an error to the callers.\<close>

definition write_plist :: "serviceManager \<Rightarrow> string \<Rightarrow> nat \<Rightarrow> bool op" where
  "write_plist m content mode = state.State (\<lambda>s.
     case m_write m (sv_log s) of
       None \<Rightarrow> (True, s\<lparr>sv_plist := Some \<lparr>pf_content = content,
           pf_mode = (case sv_plist s of Some f \<Rightarrow> pf_mode f | None \<Rightarrow> m_umask m mode)\<rparr>, sv_log := sv_log s @ [Wrote True]\<rparr>)
     | Some left \<Rightarrow> (False, s\<lparr>sv_plist := left, sv_log := sv_log s @ [Wrote False]\<rparr>))"

definition remove_plist :: "serviceManager \<Rightarrow> bool op" where
  "remove_plist m = state.State (\<lambda>s.
     if sv_plist s = None \<or> m_remove m (sv_log s) then (True, s\<lparr>sv_plist := None, sv_log := sv_log s @ [Removed True]\<rparr>)
     else (False, s\<lparr>sv_log := sv_log s @ [Removed False]\<rparr>))"

definition plistPath :: "serviceManager \<Rightarrow> string option" where
  "plistPath m = map_option (\<lambda>h. rooted (Clean (h @ ''/Library/LaunchAgents/'' @ service_label @ ''.plist''))) (m_home m)"

definition domain :: "serviceManager \<Rightarrow> string" where
  "domain m = ''gui/'' @ nat_lit (m_uid m)"

text \<open>\<open>strings.Fields\<close>.\<close>

function Fields :: "string \<Rightarrow> string \<Rightarrow> string list" where
  "Fields cur s =
     (case s of
        [] \<Rightarrow> if cur = [] then [] else [rev cur]
      | c # t \<Rightarrow>
          (case find (has_prefix s) space_encodings of
             Some e \<Rightarrow> (if cur = [] then [] else [rev cur]) @ Fields [] (drop (max 1 (length e)) s)
           | None \<Rightarrow> Fields (c # cur) t))"
  by pat_completeness auto
termination by (relation "measure (length \<circ> snd)") auto

declare Fields.simps [simp del]

definition pid_line :: "string \<Rightarrow> int option" where
  "pid_line l = (case Fields [] l of [a, b, c] \<Rightarrow> if a = ''pid'' \<and> b = ''='' then parse_int64 c else None | _ \<Rightarrow> None)"

definition reported_pid :: "string \<Rightarrow> int" where
  "reported_pid out = (case List.map_filter pid_line (split_on (CHR 0x0A) out) of p # _ \<Rightarrow> p | [] \<Rightarrow> 0)"

definition job :: "serviceManager \<Rightarrow> (bool \<times> int) op" where
  "job m = do {
     (out, good) \<leftarrow> run_command m [''print'', domain m @ ''/'' @ service_label];
     State_Monad.return (if good then (True, reported_pid out) else (False, 0)) }"

definition loaded :: "serviceManager \<Rightarrow> bool op" where
  "loaded m = do { (l, _) \<leftarrow> job m; State_Monad.return l }"

text \<open>\<open>if err := a; err != nil { return err }; b\<close>.\<close>

definition and_then :: "launch_error list op \<Rightarrow> launch_error list op \<Rightarrow> launch_error list op" where
  "and_then a b = do { e \<leftarrow> a; if e \<noteq> [] then State_Monad.return e else b }"

primrec bootstrap_loop :: "serviceManager \<Rightarrow> string \<Rightarrow> nat \<Rightarrow> launch_error list op" where
  "bootstrap_loop m path 0 = State_Monad.return []"
| "bootstrap_loop m path (Suc n) = do {
     (out, good) \<leftarrow> run_command m [''bootstrap'', domain m, path];
     if good then State_Monad.return []
     else if n = 0 then State_Monad.return [BootstrapFailed (TrimSpace out)]
     else do {
       slept \<leftarrow> sleepContext m 1000;
       if slept then bootstrap_loop m path n else State_Monad.return [BootstrapFailed (TrimSpace out), ContextDone] } }"

definition bootstrap :: "serviceManager \<Rightarrow> string \<Rightarrow> launch_error list op" where
  "bootstrap m path = bootstrap_loop m path 5"

primrec wait_unloaded_loop :: "serviceManager \<Rightarrow> nat \<Rightarrow> launch_error list op" where
  "wait_unloaded_loop m 0 = State_Monad.return [DidNotStop]"
| "wait_unloaded_loop m (Suc n) = do {
     l \<leftarrow> loaded m;
     if \<not> l then State_Monad.return []
     else do { slept \<leftarrow> sleepContext m 200; if slept then wait_unloaded_loop m n else State_Monad.return [ContextDone] } }"

definition waitUnloaded :: "serviceManager \<Rightarrow> launch_error list op" where
  "waitUnloaded m = wait_unloaded_loop m 50"

primrec wait_exit_loop :: "serviceManager \<Rightarrow> int \<Rightarrow> nat \<Rightarrow> launch_error list op" where
  "wait_exit_loop m proc 0 = State_Monad.return [DidNotExit proc]"
| "wait_exit_loop m proc (Suc n) = do {
     alive \<leftarrow> processAlive m proc;
     if \<not> alive then State_Monad.return []
     else do { slept \<leftarrow> sleepContext m 200; if slept then wait_exit_loop m proc n else State_Monad.return [ContextDone] } }"

definition waitProcessExit :: "serviceManager \<Rightarrow> int \<Rightarrow> launch_error list op" where
  "waitProcessExit m proc = (if proc \<le> 0 then State_Monad.return [] else wait_exit_loop m proc 150)"

definition stop :: "serviceManager \<Rightarrow> launch_error list op" where
  "stop m = do {
     (out, good) \<leftarrow> run_command m [''bootout'', domain m @ ''/'' @ service_label];
     State_Monad.return (if \<not> good \<and> \<not> sublist ''No such process'' out \<and> \<not> sublist ''not find'' out
       then [BootoutFailed (TrimSpace out)] else []) }"

definition restart :: "serviceManager \<Rightarrow> launch_error list op" where
  "restart m = do {
     (out, good) \<leftarrow> run_command m [''kickstart'', ''-k'', domain m @ ''/'' @ service_label];
     State_Monad.return (if good then [] else [KickstartFailed (TrimSpace out)]) }"

definition Uninstall :: "serviceManager \<Rightarrow> launch_error list op" where
  "Uninstall m = and_then (stop m)
     (if plistPath m = None then State_Monad.return [NoHome]
      else do { good \<leftarrow> remove_plist m; State_Monad.return (if good then [] else [RemoveFailed]) })"

section \<open>Installation and rollback\<close>

record serviceSnapshot =
  sn_path :: string
  sn_content :: string
  sn_mode :: nat
  sn_exists :: bool
  sn_loaded :: bool
  sn_pid :: int

definition snapshot :: "serviceManager \<Rightarrow> (launch_error list + serviceSnapshot) op" where
  "snapshot m =
     (case plistPath m of
        None \<Rightarrow> State_Monad.return (Inl [NoHome])
      | Some path \<Rightarrow> do {
          (l, proc) \<leftarrow> job m;
          s \<leftarrow> State_Monad.get;
          stat_ok \<leftarrow> ask (m_stat m) Examined;
          (case (stat_ok, sv_plist s) of
             (False, _) \<Rightarrow> State_Monad.return (Inl [StatFailed])
           | (True, None) \<Rightarrow> State_Monad.return (if l then Inl [LoadedWithoutPlist]
               else Inr \<lparr>sn_path = path, sn_content = [], sn_mode = 0, sn_exists = False, sn_loaded = l, sn_pid = proc\<rparr>)
           | (True, Some f) \<Rightarrow> do {
               read_ok \<leftarrow> ask (m_read m) Examined;
               State_Monad.return (if read_ok
                 then Inr \<lparr>sn_path = path, sn_content = pf_content f, sn_mode = pf_mode f, sn_exists = True, sn_loaded = l, sn_pid = proc\<rparr>
                 else Inl [ReadFailed]) }) })"

text \<open>Ending the job and then its process: the common part of \<open>install\<close> and \<open>restore\<close>.\<close>

definition retire :: "serviceManager \<Rightarrow> int \<Rightarrow> launch_error list op" where
  "retire m proc = and_then (stop m) (and_then (waitUnloaded m) (waitProcessExit m proc))"

text \<open>The saved definition is loaded again only when its executable can still run.\<close>

definition reload :: "serviceManager \<Rightarrow> serviceSnapshot \<Rightarrow> launch_error list op" where
  "reload m snap =
     (case programExecutable (m_wide m) (sn_content snap) of
        None \<Rightarrow> State_Monad.return [SavedUnreadable]
      | Some executable \<Rightarrow> do {
          info \<leftarrow> ask (\<lambda>h. m_executable m h executable) (\<lambda>a. Examined (a \<noteq> None));
          (case info of
             None \<Rightarrow> State_Monad.return [SavedUnavailable executable]
           | Some (regular, mode) \<Rightarrow>
               if \<not> regular \<or> (of_nat mode :: 9 word) AND 73 = 0 then State_Monad.return [SavedNotExecutable executable]
               else bootstrap m (sn_path snap)) })"

definition restore :: "serviceManager \<Rightarrow> serviceSnapshot \<Rightarrow> launch_error list op" where
  "restore m snap = do {
     (l, proc) \<leftarrow> job m;
     result \<leftarrow> (if l then retire m proc else State_Monad.return []);
     written \<leftarrow> (if sn_exists snap then write_plist m (sn_content snap) (if sn_mode snap = 0 then 420 else sn_mode snap)
       else remove_plist m);
     if \<not> written then State_Monad.return (result @ [if sn_exists snap then WriteFailed else RemoveFailed])
     else if \<not> sn_loaded snap then State_Monad.return result
     else do {
       e \<leftarrow> waitProcessExit m (sn_pid snap);
       if result @ e \<noteq> [] then State_Monad.return (result @ e) else reload m snap } }"

record Installation =
  it_previous :: serviceSnapshot
  it_active :: bool

definition Commit :: "Installation \<Rightarrow> Installation" where
  "Commit i = i\<lparr>it_active := False\<rparr>"

definition Rollback :: "serviceManager \<Rightarrow> Installation \<Rightarrow> (launch_error list \<times> Installation) op" where
  "Rollback m i =
     (if \<not> it_active i then State_Monad.return ([], i)
      else do { e \<leftarrow> restore m (it_previous i); State_Monad.return (e, i\<lparr>it_active := False\<rparr>) })"

definition failAndRestore :: "serviceManager \<Rightarrow> Installation \<Rightarrow> launch_error list \<Rightarrow> (launch_error list + Installation) op" where
  "failAndRestore m i e = do {
     (r, _) \<leftarrow> Rollback m i;
     State_Monad.return (Inl (if r = [] then e else e @ RestoreFailed # r)) }"

definition installed :: "serviceManager \<Rightarrow> Spec \<Rightarrow> serviceSnapshot \<Rightarrow> launch_error list op" where
  "installed m spec previous = do {
     written \<leftarrow> write_plist m (plist spec) 420;
     if \<not> written then State_Monad.return [WriteFailed]
     else and_then (if sn_loaded previous then retire m (sn_pid previous) else State_Monad.return [])
            (bootstrap m (sn_path previous)) }"

definition install_from :: "serviceManager \<Rightarrow> Spec \<Rightarrow> serviceSnapshot \<Rightarrow> (launch_error list + Installation) op" where
  "install_from m spec previous = do {
     agents \<leftarrow> make_dir m (Dir (sn_path previous));
     if \<not> agents then State_Monad.return (Inl [MkdirFailed])
     else do {
       logs \<leftarrow> make_dir m (sp_LogDir spec);
       if \<not> logs then State_Monad.return (Inl [MkdirFailed])
       else do {
         e \<leftarrow> installed m spec previous;
         if e \<noteq> [] then failAndRestore m \<lparr>it_previous = previous, it_active = True\<rparr> e
         else State_Monad.return (Inr \<lparr>it_previous = previous, it_active = True\<rparr>) } } }"

definition install :: "serviceManager \<Rightarrow> Spec \<Rightarrow> (launch_error list + Installation) op" where
  "install m spec =
     (if TrimSpace (sp_LaunchID spec) = [] then State_Monad.return (Inl [LaunchIDRequired])
      else do {
        snap \<leftarrow> snapshot m;
        (case snap of Inl e \<Rightarrow> State_Monad.return (Inl e) | Inr previous \<Rightarrow> install_from m spec previous) })"

end
