(* ===== verification/LaunchdSafety.thy ===== *)
theory LaunchdSafety
  imports Launchd
begin

text \<open>
  The service transitions of \<open>Launchd\<close>. Hoare triples over the state monad carry the proofs: a rule per
  constructor of the monad, one lemma per operation, then the two properties of \<open>install\<close> and \<open>Rollback\<close>: the service is
  never loaded while its former process may live, and a failed transition restores what was there.
\<close>

section \<open>Triples\<close>

definition holds :: "(svc \<Rightarrow> bool) \<Rightarrow> 'a op \<Rightarrow> ('a \<Rightarrow> svc \<Rightarrow> bool) \<Rightarrow> bool" where
  "holds P c Q \<longleftrightarrow> (\<forall>s. P s \<longrightarrow> (case run_state c s of (r, s') \<Rightarrow> Q r s'))"

abbreviation keeps :: "(svc \<Rightarrow> bool) \<Rightarrow> 'a op \<Rightarrow> bool" where
  "keeps I c \<equiv> holds I c (\<lambda>_. I)"

lemma keeps_run: "holds P c Q \<Longrightarrow> P s \<Longrightarrow> run_state c s = (r, s') \<Longrightarrow> Q r s'"
  by (auto simp: holds_def)

lemma holds_bind: "holds P c R \<Longrightarrow> (\<And>r. holds (R r) (f r) Q) \<Longrightarrow> holds P (State_Monad.bind c f) Q"
  by (fastforce simp: holds_def split: prod.splits)

lemma holds_return: "(\<And>s. P s \<Longrightarrow> Q r s) \<Longrightarrow> holds P (State_Monad.return r) Q"
  by (simp add: holds_def)

lemma holds_pure: "(F \<Longrightarrow> holds P c Q) \<Longrightarrow> holds (\<lambda>s. F \<and> P s) c Q"
  by (simp add: holds_def)

lemma holds_false: "(\<And>s. \<not> P s) \<Longrightarrow> holds P c Q"
  by (simp add: holds_def)

lemma holds_if: "(b \<Longrightarrow> holds P c Q) \<Longrightarrow> (\<not> b \<Longrightarrow> holds P d Q) \<Longrightarrow> holds P (if b then c else d) Q"
  by simp

lemma holds_weaken: "holds P c Q \<Longrightarrow> (\<And>s. P' s \<Longrightarrow> P s) \<Longrightarrow> (\<And>r s. Q r s \<Longrightarrow> Q' r s) \<Longrightarrow> holds P' c Q'"
  by (fastforce simp: holds_def split: prod.splits)

lemma holds_get: "holds P State_Monad.get (\<lambda>r s. r = s \<and> P s)"
  by (simp add: holds_def)

lemma holds_ask: "(\<And>s h a. P s \<Longrightarrow> h = sv_log s \<Longrightarrow> a = f h \<Longrightarrow> Q a (s\<lparr>sv_log := h @ [c a]\<rparr>)) \<Longrightarrow> holds P (ask f c) Q"
  by (simp add: holds_def ask_def)

lemma holds_and_then:
  "holds P a (\<lambda>e. if e = [] then R else Q e) \<Longrightarrow> holds R b Q \<Longrightarrow> holds P (and_then a b) Q"
  unfolding and_then_def
  by (rule holds_bind, assumption, rule holds_if, rule holds_return) (auto elim: holds_weaken)

lemma holds_run_command:
  "(\<And>s out good. P s \<Longrightarrow> Q (out, good) (s\<lparr>sv_log := sv_log s @ [Launchctl args out good]\<rparr>)) \<Longrightarrow> holds P (run_command m args) Q"
  unfolding run_command_def by (rule holds_ask) (auto split: prod.splits)

lemma keeps_and_then: "keeps I a \<Longrightarrow> holds I b Q \<Longrightarrow> (\<And>e s. e \<noteq> [] \<Longrightarrow> I s \<Longrightarrow> Q e s) \<Longrightarrow> holds I (and_then a b) Q"
  by (auto simp: and_then_def intro!: holds_bind [of _ _ "\<lambda>_. I"] holds_return)

section \<open>The history\<close>

fun is_bootstrap :: "svc_call \<Rightarrow> bool" where
  "is_bootstrap (Launchctl (c # _) _ _) \<longleftrightarrow> c = ''bootstrap''"
| "is_bootstrap _ \<longleftrightarrow> False"

fun is_bootout :: "svc_call \<Rightarrow> bool" where
  "is_bootout (Launchctl (c # _) _ _) \<longleftrightarrow> c = ''bootout''"
| "is_bootout _ \<longleftrightarrow> False"

text \<open>The service is loaded only after process \<open>p\<close> was seen to have exited.\<close>

fun exited_first :: "int \<Rightarrow> svc_call list \<Rightarrow> bool" where
  "exited_first p [] \<longleftrightarrow> True"
| "exited_first p (c # cs) \<longleftrightarrow> c = Alive p False \<or> \<not> is_bootstrap c \<and> exited_first p cs"

lemma exited_first_snoc:
  "exited_first p (cs @ [c]) \<longleftrightarrow> exited_first p cs \<and> (is_bootstrap c \<longrightarrow> Alive p False \<in> set cs)"
  by (induction cs) auto

text \<open>The calls since the history had length \<open>n\<close>.\<close>

definition since :: "nat \<Rightarrow> svc \<Rightarrow> svc_call list" where
  "since n s = drop n (sv_log s)"

definition orderly :: "nat \<Rightarrow> int \<Rightarrow> svc \<Rightarrow> bool" where
  "orderly n p s \<longleftrightarrow> n \<le> length (sv_log s) \<and> exited_first p (since n s)"

definition seen_dead :: "nat \<Rightarrow> int \<Rightarrow> svc \<Rightarrow> bool" where
  "seen_dead n p s \<longleftrightarrow> orderly n p s \<and> Alive p False \<in> set (since n s)"

definition unstopped :: "nat \<Rightarrow> svc \<Rightarrow> bool" where
  "unstopped n s \<longleftrightarrow> n \<le> length (sv_log s) \<and> list_all (\<lambda>c. \<not> is_bootout c) (since n s)"

lemma since_snoc: "n \<le> length h \<Longrightarrow> sv_log s = h \<Longrightarrow> since n (s\<lparr>sv_log := h @ [c]\<rparr>) = since n s @ [c]"
  by (simp add: since_def)

text \<open>Invariants that survive a call, whatever the plist becomes: \<open>calm\<close> when it neither loads nor unloads the service,
  \<open>steady\<close> when it does not load it.\<close>

definition survives :: "(svc_call \<Rightarrow> bool) \<Rightarrow> (svc \<Rightarrow> bool) \<Rightarrow> bool" where
  "survives B I \<longleftrightarrow> (\<forall>s c f. I s \<longrightarrow> B c \<longrightarrow> I (s\<lparr>sv_plist := f, sv_log := sv_log s @ [c]\<rparr>))"

definition calm :: "(svc \<Rightarrow> bool) \<Rightarrow> bool" where
  "calm I \<longleftrightarrow> survives (\<lambda>c. \<not> is_bootstrap c \<and> \<not> is_bootout c) I"

definition steady :: "(svc \<Rightarrow> bool) \<Rightarrow> bool" where
  "steady I \<longleftrightarrow> survives (\<lambda>c. \<not> is_bootstrap c) I"

lemma steady_calm: "steady I \<Longrightarrow> calm I"
  by (auto simp: steady_def calm_def survives_def)

lemma steady_orderly [simp, intro]: "steady (orderly n p)" "steady (seen_dead n p)"
  by (auto simp: steady_def survives_def orderly_def seen_dead_def since_def exited_first_snoc)

lemma calm_orderly [simp, intro]: "calm (orderly n p)" "calm (seen_dead n p)"
  by (simp_all add: steady_calm)

lemma calm_unstopped [simp, intro]: "calm (unstopped n)"
  by (auto simp: calm_def survives_def unstopped_def since_def)

lemma calm_conj: "calm I \<Longrightarrow> calm J \<Longrightarrow> calm (\<lambda>s. I s \<and> J s)"
  by (simp add: calm_def survives_def)

lemma survives_log: "survives B I \<Longrightarrow> I s \<Longrightarrow> B c \<Longrightarrow> I (s\<lparr>sv_log := sv_log s @ [c]\<rparr>)"
proof -
  assume "survives B I" "I s" "B c"
  then have "I (s\<lparr>sv_plist := sv_plist s, sv_log := sv_log s @ [c]\<rparr>)" unfolding survives_def by blast
  moreover have "s\<lparr>sv_plist := sv_plist s, sv_log := sv_log s @ [c]\<rparr> = s\<lparr>sv_log := sv_log s @ [c]\<rparr>" by simp
  ultimately show ?thesis by simp
qed

section \<open>What the operations keep\<close>

lemma keeps_intros:
  "keeps I c \<Longrightarrow> (\<And>r. keeps I (f r)) \<Longrightarrow> keeps I (State_Monad.bind c f)"
  "keeps I (State_Monad.return r)"
  "keeps I a \<Longrightarrow> keeps I b \<Longrightarrow> keeps I (and_then a b)"
  by (auto simp: and_then_def intro!: holds_bind [of _ _ "\<lambda>_. I"] holds_return)

lemma ask_kept: "survives B I \<Longrightarrow> (\<And>a. B (c a)) \<Longrightarrow> keeps I (ask f c)"
  by (rule holds_ask) (simp add: survives_log)

lemma kept_run: "calm I \<Longrightarrow> v \<noteq> ''bootstrap'' \<Longrightarrow> v \<noteq> ''bootout'' \<Longrightarrow> keeps I (run_command m (v # args))"
  unfolding run_command_def calm_def by (erule ask_kept) auto

lemma kept_sleep: "calm I \<Longrightarrow> keeps I (sleepContext m ms)"
  unfolding sleepContext_def calm_def by (erule ask_kept) auto

lemma kept_alive: "calm I \<Longrightarrow> keeps I (processAlive m q)"
  unfolding processAlive_def calm_def by (erule ask_kept) auto

lemma kept_mkdir: "calm I \<Longrightarrow> keeps I (make_dir m d)"
  unfolding make_dir_def calm_def by (erule ask_kept) auto

lemma kept_examine: "calm I \<Longrightarrow> keeps I (ask f (\<lambda>a. Examined (g a)))"
  unfolding calm_def by (erule ask_kept) auto

lemma kept_write: "calm I \<Longrightarrow> keeps I (write_plist m content mode)"
  by (simp add: holds_def write_plist_def calm_def survives_def split: option.splits)

lemma kept_remove: "calm I \<Longrightarrow> keeps I (remove_plist m)"
proof -
  assume calm: "calm I"
  have "I (s\<lparr>sv_plist := f, sv_log := sv_log s @ [Removed b]\<rparr>)" "I (s\<lparr>sv_log := sv_log s @ [Removed b]\<rparr>)" if "I s" for s f b
    using calm that survives_log [OF calm [unfolded calm_def], of s "Removed b"] by (simp_all add: calm_def survives_def)
  then show ?thesis by (simp add: holds_def remove_plist_def)
qed

lemma kept_job: "calm I \<Longrightarrow> keeps I (job m)"
  unfolding job_def by (rule holds_bind, erule kept_run) (auto intro!: holds_return)

lemma kept_loaded: "calm I \<Longrightarrow> keeps I (loaded m)"
  unfolding loaded_def by (rule holds_bind, erule kept_job) (auto intro!: holds_return)

lemma kept_stop: "steady I \<Longrightarrow> keeps I (stop m)"
  unfolding stop_def run_command_def steady_def
  by (rule holds_bind, erule ask_kept) (auto intro!: holds_return)

lemma kept_unloaded: "calm I \<Longrightarrow> keeps I (wait_unloaded_loop m k)"
  by (induction k) (auto intro!: keeps_intros intro: kept_loaded kept_sleep)

lemma kept_exit: "calm I \<Longrightarrow> keeps I (wait_exit_loop m q k)"
  by (induction k) (auto intro!: keeps_intros intro: kept_alive kept_sleep)

lemma kept_waitProcessExit: "calm I \<Longrightarrow> keeps I (waitProcessExit m q)"
  by (auto simp: waitProcessExit_def intro: holds_return kept_exit)

lemma kept_retire: "steady I \<Longrightarrow> keeps I (retire m q)"
  unfolding retire_def waitUnloaded_def
  by (auto intro!: keeps_intros intro: kept_stop kept_unloaded kept_waitProcessExit steady_calm)

text \<open>Waiting for a process that succeeds has seen it dead.\<close>

lemma seen_dead_exit:
  "0 < p \<Longrightarrow> holds (orderly n p) (waitProcessExit m p) (\<lambda>e s. orderly n p s \<and> (e = [] \<longrightarrow> seen_dead n p s))"
proof -
  have "holds (orderly n p) (wait_exit_loop m p k) (\<lambda>e s. orderly n p s \<and> (e = [] \<longrightarrow> seen_dead n p s))" for k
  proof (induction k)
    case (Suc k)
    have "holds (orderly n p) (processAlive m p) (\<lambda>a s. orderly n p s \<and> (\<not> a \<longrightarrow> seen_dead n p s))"
      unfolding processAlive_def
      by (rule holds_ask) (auto simp: orderly_def seen_dead_def since_def exited_first_snoc)
    moreover have "holds (\<lambda>s. orderly n p s \<and> (\<not> a \<longrightarrow> seen_dead n p s))
      (if \<not> a then State_Monad.return [] else sleepContext m 200 \<bind>
         (\<lambda>slept. if slept then wait_exit_loop m p k else State_Monad.return [ContextDone]))
      (\<lambda>e s. orderly n p s \<and> (e = [] \<longrightarrow> seen_dead n p s))" for a
    proof (cases a)
      case True
      have "holds (orderly n p) (sleepContext m 200 \<bind>
         (\<lambda>slept. if slept then wait_exit_loop m p k else State_Monad.return [ContextDone]))
        (\<lambda>e s. orderly n p s \<and> (e = [] \<longrightarrow> seen_dead n p s))"
        by (rule holds_bind, rule kept_sleep) (auto intro!: holds_return Suc.IH)
      with True show ?thesis by simp
    qed (simp add: holds_return)
    ultimately show ?case unfolding wait_exit_loop.simps by (rule holds_bind)
  qed (simp add: holds_return)
  moreover assume "0 < p"
  ultimately show ?thesis by (simp add: waitProcessExit_def)
qed


section \<open>Loading\<close>

lemma bootstrap_kept:
  assumes "\<And>s out good. I s \<Longrightarrow> I (s\<lparr>sv_log := sv_log s @ [Launchctl [''bootstrap'', domain m, path] out good]\<rparr>)" "calm I"
  shows "keeps I (bootstrap m path)"
proof -
  have "keeps I (run_command m [''bootstrap'', domain m, path])"
    by (rule holds_run_command) (simp add: assms(1))
  then have "keeps I (bootstrap_loop m path k)" for k
    by (induction k) (auto intro!: keeps_intros split: prod.splits intro: kept_sleep [OF assms(2)])
  then show ?thesis by (simp add: bootstrap_def)
qed

text \<open>The plist is not touched, and success means that launchd accepted it last.\<close>

definition accepted :: "serviceManager \<Rightarrow> string \<Rightarrow> svc \<Rightarrow> bool" where
  "accepted m path s \<longleftrightarrow> (case rev (sv_log s) of
     Launchctl args _ good # _ \<Rightarrow> good \<and> args = [''bootstrap'', domain m, path] | _ \<Rightarrow> False)"

lemma bootstrap_accepted: "holds P (bootstrap m path) (\<lambda>e s. e = [] \<longrightarrow> accepted m path s)"
proof -
  let ?Q = "\<lambda>e s. e = [] \<longrightarrow> accepted m path s" and ?R = "\<lambda>(out, good) s. good \<longrightarrow> accepted m path s"
  have once: "holds (\<lambda>_. True) (run_command m [''bootstrap'', domain m, path]) ?R"
    by (rule holds_run_command) (simp add: accepted_def)
  have "holds (\<lambda>_. True) (bootstrap_loop m path (Suc k)) ?Q" for k
  proof (induction k)
    case 0
    show ?case unfolding bootstrap_loop.simps by (rule holds_bind, rule once) (auto intro!: holds_return)
  next
    case (Suc k)
    have "holds (\<lambda>_. True) (sleepContext m 1000 \<bind> (\<lambda>slept. if slept then bootstrap_loop m path (Suc k)
        else State_Monad.return [BootstrapFailed (TrimSpace out), ContextDone])) ?Q" for out
      by (rule holds_bind [where R = "\<lambda>_ _. True"]) (simp add: holds_def, rule holds_if, rule Suc.IH, rule holds_return, simp)
    then have "holds (?R r) (case r of (out, good) \<Rightarrow> if good then State_Monad.return [] else if Suc k = 0
        then State_Monad.return [BootstrapFailed (TrimSpace out)] else sleepContext m 1000 \<bind> (\<lambda>slept.
        if slept then bootstrap_loop m path (Suc k) else State_Monad.return [BootstrapFailed (TrimSpace out), ContextDone])) ?Q" for r
      by (cases r) (auto intro!: holds_return simp del: bootstrap_loop.simps)
    then show ?case unfolding bootstrap_loop.simps(2) [of m path "Suc k"] by (rule holds_bind [OF once])
  qed
  from this [of 4] have "holds (\<lambda>_. True) (bootstrap m path) ?Q" by (simp add: bootstrap_def numeral_eq_Suc)
  then show ?thesis by (rule holds_weaken) simp_all
qed


section \<open>One process at a time\<close>

lemma orderly_bootstrap: "keeps (seen_dead n p) (bootstrap m path)"
  by (rule bootstrap_kept) (auto simp: seen_dead_def orderly_def since_def exited_first_snoc)

lemma seen_dead_orderly: "seen_dead n p s \<Longrightarrow> orderly n p s"
  by (simp add: seen_dead_def)

text \<open>A job that ran process \<open>p\<close> has ended with it when it was retired.\<close>

lemma retire_dead: "0 < p \<Longrightarrow> holds (orderly n p) (retire m p) (\<lambda>e s. orderly n p s \<and> (e = [] \<longrightarrow> seen_dead n p s))"
  unfolding retire_def waitUnloaded_def
  by (intro keeps_and_then kept_stop kept_unloaded seen_dead_exit) simp_all

lemma kept_waitProcessExit_dead: "keeps (seen_dead n p) (waitProcessExit m q)"
  by (simp add: kept_waitProcessExit)

lemma reload_kept: "keeps (seen_dead n p) (reload m snap)"
  unfolding reload_def
  by (auto split: option.split intro!: keeps_intros orderly_bootstrap kept_examine)

lemma calm_dead_if [simp]: "calm (\<lambda>s. orderly n p s \<and> (F \<longrightarrow> seen_dead n p s))"
  by (cases F) (simp_all add: calm_conj)

lemma write_or_remove_kept: "calm I \<Longrightarrow> keeps I (if b then write_plist m c md else remove_plist m)"
  by (simp add: kept_write kept_remove)

text \<open>The saved process: loading waits for it. The current one: loading needs it retired.\<close>

lemma restore_orderly_saved:
  assumes "0 < sn_pid snap"
  shows "keeps (orderly n (sn_pid snap)) (restore m snap)"
proof -
  let ?p = "sn_pid snap"
  have "holds (\<lambda>s. orderly n ?p s \<and> (e = [] \<longrightarrow> seen_dead n ?p s))
      (if result @ e \<noteq> [] then State_Monad.return (result @ e) else reload m snap) (\<lambda>_. orderly n ?p)" for e result
    using reload_kept [of n ?p m snap]
    by (cases "result @ e = []") (auto simp: seen_dead_orderly intro!: holds_return elim!: holds_weaken)
  from holds_bind [OF seen_dead_exit [OF assms] this] show ?thesis unfolding restore_def
    by (auto intro!: keeps_intros kept_job kept_retire kept_write kept_remove split: prod.split)
qed

lemma restore_orderly_current:
  assumes "0 < p" and job: "fst (run_state (job m) s0) = (True, p)"
  shows "holds (\<lambda>s. s = s0) (restore m snap) (\<lambda>_. orderly (length (sv_log s0)) p)"
proof -
  let ?n = "length (sv_log s0)"
  have started: "holds (\<lambda>s. s = s0) (job m) (\<lambda>r s. r = (True, p) \<and> orderly ?n p s)"
    using job keeps_run [OF kept_job [OF calm_orderly(1)], of ?n p s0]
    by (auto simp: holds_def orderly_def since_def split: prod.splits)
  let ?D = "\<lambda>e s. orderly ?n p s \<and> (e = [] \<longrightarrow> seen_dead ?n p s)"
  have last_step: "holds (?D result) (if result @ e \<noteq> [] then State_Monad.return (result @ e) else reload m snap) (\<lambda>_. orderly ?n p)" for e result
    using reload_kept [of ?n p m snap]
    by (cases "result @ e = []") (auto simp: seen_dead_orderly intro!: holds_return elim!: holds_weaken)
  have waited: "holds (?D result) (waitProcessExit m (sn_pid snap) \<bind> (\<lambda>e.
      if result @ e \<noteq> [] then State_Monad.return (result @ e) else reload m snap)) (\<lambda>_. orderly ?n p)" for result
    by (rule holds_bind [OF kept_waitProcessExit [OF calm_dead_if] last_step])
  have settled: "holds (?D result) ((if sn_exists snap then write_plist m c md else remove_plist m) \<bind> (\<lambda>written.
      if \<not> written then State_Monad.return (result @ errs) else if \<not> sn_loaded snap then State_Monad.return result
      else waitProcessExit m (sn_pid snap) \<bind> (\<lambda>e. if result @ e \<noteq> [] then State_Monad.return (result @ e) else reload m snap)))
      (\<lambda>_. orderly ?n p)" for result c md errs
    by (rule holds_bind [OF write_or_remove_kept [OF calm_dead_if]]) (auto intro!: holds_return waited simp del: append_is_Nil_conv)
  show ?thesis unfolding restore_def
  proof (rule holds_bind [OF started])
    fix r :: "bool \<times> int"
    show "holds (\<lambda>s. r = (True, p) \<and> orderly ?n p s) (case r of (l, proc) \<Rightarrow>
        (if l then retire m proc else State_Monad.return []) \<bind> (\<lambda>result.
         (if sn_exists snap then write_plist m (sn_content snap) (if sn_mode snap = 0 then 420 else sn_mode snap) else remove_plist m) \<bind>
         (\<lambda>written. if \<not> written then State_Monad.return (result @ [if sn_exists snap then WriteFailed else RemoveFailed])
           else if \<not> sn_loaded snap then State_Monad.return result
           else waitProcessExit m (sn_pid snap) \<bind> (\<lambda>e. if result @ e \<noteq> [] then State_Monad.return (result @ e) else reload m snap))))
      (\<lambda>_. orderly ?n p)"
      using holds_bind [OF retire_dead [OF assms(1), of ?n m] settled]
      by (cases "r = (True, p)") (auto simp: holds_def)
  qed
qed

text \<open>The snapshot records what the job reported, and the service as it was.\<close>

definition taken :: "svc \<Rightarrow> bool \<times> int \<Rightarrow> serviceSnapshot \<Rightarrow> bool" where
  "taken s0 j snap \<longleftrightarrow> sn_loaded snap = fst j \<and> sn_pid snap = snd j \<and> sn_exists snap = (sv_plist s0 \<noteq> None) \<and>
     (\<forall>f. sv_plist s0 = Some f \<longrightarrow> sn_content snap = pf_content f)"

lemma snapshot_taken:
  assumes "calm I" "I s0"
  shows "holds (\<lambda>s. s = s0) (snapshot m) (\<lambda>r s. I s \<and> sv_plist s = sv_plist s0 \<and>
    (case r of Inl e \<Rightarrow> e \<noteq> [] | Inr snap \<Rightarrow> taken s0 (fst (run_state (job m) s0)) snap \<and> plistPath m = Some (sn_path snap)))"
proof -
  obtain l q s1 where job: "run_state (job m) s0 = ((l, q), s1)" by (metis prod.exhaust)
  have s1: "I s1" using keeps_run [OF kept_job [OF assms(1)] assms(2) job] .
  have same: "sv_plist s1 = sv_plist s0"
    using job by (auto simp: job_def run_command_def ask_def split: prod.splits)
  have I: "I (s1\<lparr>sv_log := sv_log s1 @ [Examined b]\<rparr>)" "I (s1\<lparr>sv_log := sv_log s1 @ [Examined b, Examined c]\<rparr>)" for b c
    using s1 survives_log [OF assms(1) [unfolded calm_def], of _ "Examined _"]
      survives_log [OF assms(1) [unfolded calm_def], of "s1\<lparr>sv_log := sv_log s1 @ [Examined b]\<rparr>" "Examined c"] by simp_all
  show ?thesis
    using I assms(2)
    by (cases "m_stat m (sv_log s1)") (auto simp: holds_def snapshot_def ask_def job same taken_def split: option.splits)
qed

section \<open>Installing\<close>

lemma installed_orderly:
  assumes "sn_loaded previous" "0 < sn_pid previous"
  shows "keeps (orderly n (sn_pid previous)) (installed m spec previous)"
proof -
  let ?p = "sn_pid previous"
  have "holds (\<lambda>s. orderly n ?p s \<and> (e = [] \<longrightarrow> seen_dead n ?p s))
      (if e \<noteq> [] then State_Monad.return e else bootstrap m (sn_path previous)) (\<lambda>_. orderly n ?p)" for e
    using orderly_bootstrap [of n ?p m "sn_path previous"]
    by (cases "e = []") (auto simp: seen_dead_orderly intro!: holds_return elim!: holds_weaken)
  from holds_bind [OF retire_dead [OF assms(2)] this]
  have "keeps (orderly n ?p) (and_then (retire m ?p) (bootstrap m (sn_path previous)))" by (simp add: and_then_def)
  then show ?thesis unfolding installed_def using assms(1) by (auto intro!: keeps_intros kept_write)
qed

lemma failAndRestore_orderly:
  assumes "0 < sn_pid previous"
  shows "keeps (orderly n (sn_pid previous)) (failAndRestore m \<lparr>it_previous = previous, it_active = True\<rparr> e)"
  unfolding failAndRestore_def Rollback_def
  by (auto intro!: keeps_intros restore_orderly_saved assms split: prod.split)

lemma install_orderly:
  assumes "0 < p" and job: "fst (run_state (job m) s0) = (True, p)"
  shows "holds (\<lambda>s. s = s0) (install m spec) (\<lambda>_. orderly (length (sv_log s0)) p)"
proof -
  let ?n = "length (sv_log s0)"
  have here: "orderly ?n p s0" by (simp add: orderly_def since_def)
  have snap: "holds (\<lambda>s. s = s0) (snapshot m) (\<lambda>r s. orderly ?n p s \<and>
      (case r of Inl e \<Rightarrow> True | Inr snap \<Rightarrow> sn_loaded snap \<and> sn_pid snap = p))"
    using snapshot_taken [OF calm_orderly(1) here, of m]
    by (rule holds_weaken) (auto simp: taken_def job split: sum.splits)
  have "holds (\<lambda>s. orderly ?n p s \<and> (case r of Inl e \<Rightarrow> True | Inr snap \<Rightarrow> sn_loaded snap \<and> sn_pid snap = p))
      (case r of Inl e \<Rightarrow> State_Monad.return (Inl e) | Inr previous \<Rightarrow> install_from m spec previous) (\<lambda>_. orderly ?n p)" for r
  proof (cases "\<exists>previous. r = Inr previous \<and> sn_loaded previous \<and> sn_pid previous = p")
    case True
    then obtain previous where r: "r = Inr previous" "sn_loaded previous" "sn_pid previous = p" by blast
    then have "keeps (orderly ?n p) (installed m spec previous)"
      "keeps (orderly ?n p) (failAndRestore m \<lparr>it_previous = previous, it_active = True\<rparr> e)" for e
      using installed_orderly [of previous ?n m spec] failAndRestore_orderly [of previous ?n m] assms(1) by auto
    with r show ?thesis by (auto simp: install_from_def intro!: keeps_intros kept_mkdir)
  next
    case False
    then show ?thesis by (cases r) (auto intro: holds_return holds_false)
  qed
  from holds_bind [OF snap this] here show ?thesis
    unfolding install_def by (auto intro: holds_return)
qed

section \<open>Restoring\<close>

text \<open>Predicates of the file alone, and of the file and the history.\<close>

definition of_file :: "(svc \<Rightarrow> bool) \<Rightarrow> bool" where
  "of_file I \<longleftrightarrow> (\<forall>s h. I s \<longrightarrow> I (s\<lparr>sv_log := h\<rparr>))"

lemma of_file_eq [simp]: "of_file (\<lambda>s. F (sv_plist s))"
  by (simp add: of_file_def)

lemma file_ask: "of_file I \<Longrightarrow> keeps I (ask f c)"
  by (rule holds_ask) (simp add: of_file_def)

lemma file_bootstrap: "of_file I \<Longrightarrow> keeps I (bootstrap m path)"
proof -
  assume "of_file I"
  then have "keeps I (bootstrap_loop m path k)" for k
    by (induction k) (auto intro!: keeps_intros file_ask simp: run_command_def sleepContext_def split: prod.splits)
  then show ?thesis by (simp add: bootstrap_def)
qed

lemma file_waitProcessExit: "of_file I \<Longrightarrow> keeps I (waitProcessExit m q)"
proof -
  assume "of_file I"
  then have "keeps I (wait_exit_loop m q k)" for k
    by (induction k) (auto intro!: keeps_intros file_ask simp: processAlive_def sleepContext_def)
  then show ?thesis by (auto simp: waitProcessExit_def intro: keeps_intros)
qed

lemma file_reload: "of_file I \<Longrightarrow> keeps I (reload m snap)"
  unfolding reload_def by (auto split: option.split intro!: keeps_intros file_ask file_bootstrap)

lemma reload_accepted: "holds P (reload m snap) (\<lambda>e s. e = [] \<longrightarrow> accepted m (sn_path snap) s)"
  unfolding reload_def
  by (auto split: option.split intro!: holds_return holds_bind [where R = "\<lambda>_ _. True"] bootstrap_accepted simp: holds_def [of _ "ask _ _"])

definition holds_saved :: "serviceSnapshot \<Rightarrow> svc \<Rightarrow> bool" where
  "holds_saved snap s \<longleftrightarrow> map_option pf_content (sv_plist s) = (if sn_exists snap then Some (sn_content snap) else None)"

lemma of_file_saved [simp]: "of_file (holds_saved snap)"
  by (simp add: of_file_def holds_saved_def)

lemma holds_conj: "holds P c Q \<Longrightarrow> holds P c R \<Longrightarrow> holds P c (\<lambda>r s. Q r s \<and> R r s)"
  by (simp add: holds_def split: prod.splits)

lemma restore_restores:
  "holds P (restore m snap) (\<lambda>e s. e = [] \<longrightarrow> holds_saved snap s \<and> (sn_loaded snap \<longrightarrow> accepted m (sn_path snap) s))"
proof -
  let ?Q = "\<lambda>e s. e = [] \<longrightarrow> holds_saved snap s \<and> (sn_loaded snap \<longrightarrow> accepted m (sn_path snap) s)"
  have last_step: "holds (holds_saved snap) (if result @ e \<noteq> [] then State_Monad.return (result @ e) else reload m snap) ?Q" for result e
  proof (cases "result @ e = []")
    case True
    have "holds (holds_saved snap) (reload m snap) ?Q"
      by (rule holds_weaken [OF holds_conj [OF file_reload [OF of_file_saved] reload_accepted]]) auto
    with True show ?thesis by simp
  qed (auto intro!: holds_return)
  have waited: "holds (holds_saved snap) (waitProcessExit m (sn_pid snap) \<bind> (\<lambda>e.
      if result @ e \<noteq> [] then State_Monad.return (result @ e) else reload m snap)) ?Q" for result
    by (rule holds_bind [OF file_waitProcessExit [OF of_file_saved] last_step])
  have put: "holds P' (if sn_exists snap then write_plist m (sn_content snap) md else remove_plist m)
      (\<lambda>written s. written \<longrightarrow> holds_saved snap s)" for P' md
    by (simp add: holds_def write_plist_def remove_plist_def holds_saved_def split: option.splits)
  have settled: "holds P' ((if sn_exists snap then write_plist m (sn_content snap) md else remove_plist m) \<bind> (\<lambda>written.
      if \<not> written then State_Monad.return (result @ [err]) else if \<not> sn_loaded snap then State_Monad.return result
      else waitProcessExit m (sn_pid snap) \<bind> (\<lambda>e. if result @ e \<noteq> [] then State_Monad.return (result @ e) else reload m snap))) ?Q"
    for P' md result err
    by (rule holds_bind [OF put]) (auto intro!: holds_return holds_weaken [OF waited] simp del: append_is_Nil_conv)
  show ?thesis unfolding restore_def
    by (rule holds_bind [where R = "\<lambda>_ _. True"], simp add: holds_def, simp only: split: prod.split,
        intro allI impI, rule holds_bind [where R = "\<lambda>_ _. True"], simp add: holds_def, rule settled)
qed

lemma saved_taken: "taken s0 j snap \<Longrightarrow> holds_saved snap s \<Longrightarrow> map_option pf_content (sv_plist s) = map_option pf_content (sv_plist s0)"
  by (cases "sv_plist s0") (auto simp: taken_def holds_saved_def)

text \<open>What an installation that ends at \<open>s\<close> with answer \<open>r\<close> says of the service at \<open>s0\<close>.\<close>

definition transition_ok :: "serviceManager \<Rightarrow> svc \<Rightarrow> launch_error list + Installation \<Rightarrow> svc \<Rightarrow> bool" where
  "transition_ok m s0 r s \<longleftrightarrow>
     (case r of
        Inl errs \<Rightarrow> RestoreFailed \<notin> set errs \<longrightarrow>
          map_option pf_content (sv_plist s) = map_option pf_content (sv_plist s0) \<and>
          (fst (fst (run_state (job m) s0)) \<longrightarrow>
             unstopped (length (sv_log s0)) s \<or> (\<exists>path. plistPath m = Some path \<and> accepted m path s))
      | Inr i \<Rightarrow> it_active i \<and> taken s0 (fst (run_state (job m) s0)) (it_previous i) \<and> plistPath m = Some (sn_path (it_previous i)))"

lemma failAndRestore_ok:
  assumes "taken s0 (fst (run_state (job m) s0)) previous" "plistPath m = Some (sn_path previous)"
  shows "holds P (failAndRestore m \<lparr>it_previous = previous, it_active = True\<rparr> e) (transition_ok m s0)"
proof -
  have "holds (\<lambda>s. r = [] \<longrightarrow> holds_saved previous s \<and> (sn_loaded previous \<longrightarrow> accepted m (sn_path previous) s))
      (State_Monad.return (Inl (if r = [] then e else e @ RestoreFailed # r))) (transition_ok m s0)" for r
    using assms by (auto intro!: holds_return simp: transition_ok_def taken_def saved_taken [OF assms(1)])
  from holds_bind [OF restore_restores this] show ?thesis
    by (simp add: failAndRestore_def Rollback_def holds_def split: prod.splits)
qed

lemma install_ok: "holds (\<lambda>s. s = s0) (install m spec) (transition_ok m s0)"
proof -
  let ?n = "length (sv_log s0)" and ?j = "fst (run_state (job m) s0)"
  let ?I = "\<lambda>s. unstopped ?n s \<and> sv_plist s = sv_plist s0"
  have here: "unstopped ?n s0" by (simp add: unstopped_def since_def)
  have untouched: "transition_ok m s0 (Inl e) s" if "?I s" for e s
    using that by (simp add: transition_ok_def)
  have mkdir: "keeps ?I (make_dir m d)" for d
    using kept_mkdir [OF calm_unstopped, of ?n m d] by (auto simp: make_dir_def holds_def ask_def)
  have "holds (\<lambda>s. ?I s \<and> (case r of Inl e \<Rightarrow> e \<noteq> [] | Inr snap \<Rightarrow> taken s0 ?j snap \<and> plistPath m = Some (sn_path snap)))
      (case r of Inl e \<Rightarrow> State_Monad.return (Inl e) | Inr previous \<Rightarrow> install_from m spec previous) (transition_ok m s0)" for r
  proof (cases "\<exists>previous. r = Inr previous \<and> taken s0 ?j previous \<and> plistPath m = Some (sn_path previous)")
    case True
    then obtain previous where r: "r = Inr previous" "taken s0 ?j previous" "plistPath m = Some (sn_path previous)" by blast
    have settled: "holds (\<lambda>_. True) (if e \<noteq> [] then failAndRestore m \<lparr>it_previous = previous, it_active = True\<rparr> e
          else State_Monad.return (Inr \<lparr>it_previous = previous, it_active = True\<rparr>)) (transition_ok m s0)" for e
      using r by (intro holds_if failAndRestore_ok holds_return) (auto simp: transition_ok_def)
    have "holds ?I (installed m spec previous \<bind> (\<lambda>e.
          if e \<noteq> [] then failAndRestore m \<lparr>it_previous = previous, it_active = True\<rparr> e
          else State_Monad.return (Inr \<lparr>it_previous = previous, it_active = True\<rparr>))) (transition_ok m s0)"
      by (rule holds_bind [OF _ settled]) (simp add: holds_def)
    then have "holds ?I (install_from m spec previous) (transition_ok m s0)"
      unfolding install_from_def by (intro holds_bind [OF mkdir] holds_if holds_return untouched)
    with r show ?thesis by (simp add: holds_def)
  next
    case False
    show ?thesis
    proof (cases r)
      case (Inl e)
      then show ?thesis by (auto intro!: holds_return untouched)
    next
      case (Inr previous)
      with False show ?thesis by (intro holds_false) auto
    qed
  qed
  from holds_bind [OF snapshot_taken [OF calm_unstopped here, of m, simplified conj_assoc [symmetric]] this] here
  show ?thesis unfolding install_def by (auto intro!: holds_return untouched)
qed

section \<open>The properties\<close>

text \<open>
  C15. One daemon at a time: when the job is loaded with process \<open>p\<close>, neither installing a service nor rolling an
  installation back asks launchd to load a definition before \<open>p\<close> was seen to have exited, whatever launchd, the
  process table, the file system and the timers answer; and a rollback also waits for the process that the
  installation had found.
\<close>

theorem one_daemon:
  assumes "0 < p" "fst (run_state (job m) s) = (True, p)"
  shows "exited_first p (drop (length (sv_log s)) (sv_log (snd (run_state (install m spec) s)))) \<and>
    exited_first p (drop (length (sv_log s)) (sv_log (snd (run_state (Rollback m i) s)))) \<and>
    (0 < sn_pid (it_previous i) \<longrightarrow>
       exited_first (sn_pid (it_previous i)) (drop (length (sv_log s)) (sv_log (snd (run_state (Rollback m i) s)))))"
proof -
  have start: "orderly (length (sv_log s)) q s" for q by (simp add: orderly_def since_def)
  have roll: "keeps I (Rollback m i)" if "keeps I (restore m (it_previous i))" for I
    using that unfolding Rollback_def by (auto intro!: keeps_intros)
  have "orderly (length (sv_log s)) p (snd (run_state (install m spec) s))"
    using keeps_run [OF install_orderly [OF assms] refl] by (metis prod.collapse)
  moreover have "orderly (length (sv_log s)) p (snd (run_state (Rollback m i) s))"
    using restore_orderly_current [OF assms, of "it_previous i"] start [of p]
    by (auto simp: Rollback_def holds_def split: prod.splits)
  moreover have "orderly (length (sv_log s)) (sn_pid (it_previous i)) (snd (run_state (Rollback m i) s))"
    if "0 < sn_pid (it_previous i)"
    using keeps_run [OF roll [OF restore_orderly_saved [OF that]] start] by (metis prod.collapse)
  ultimately show ?thesis by (auto simp: orderly_def since_def)
qed

text \<open>A manager whose launchd runs process 7 until it is told to unload it, and whose first write fails half-way.\<close>

definition demo_manager :: serviceManager where
  "demo_manager = \<lparr>m_home = Some ''/h'', m_uid = 501, m_umask = (\<lambda>mode. mode), m_wide = (\<lambda>_. False),
     m_run = (\<lambda>h args. if hd args = ''print'' then (if list_ex is_bootout h then ([], False) else (''pid = 7'', True)) else ([], True)),
     m_sleep = (\<lambda>_. True), m_alive = (\<lambda>_ _. False), m_mkdir = (\<lambda>_ _. True),
     m_write = (\<lambda>h. if list_all (\<lambda>c. c \<noteq> Wrote False) h then Some (Some \<lparr>pf_content = ''half'', pf_mode = 420\<rparr>) else None),
     m_remove = (\<lambda>_. True), m_stat = (\<lambda>_. True), m_read = (\<lambda>_. True), m_executable = (\<lambda>_ _. Some (True, 493))\<rparr>"

definition demo_spec :: Spec where
  "demo_spec = \<lparr>sp_Binary = ''/b/hermote-bridge'', sp_LaunchID = ''1-2'', sp_HermesHome = ''/h/.hermes'', sp_LogDir = ''/h/.hermes/logs'',
     sp_Path = ''/usr/bin''\<rparr>"

definition demo_installation :: Installation where
  "demo_installation = \<lparr>it_previous = \<lparr>sn_path = ''/h/p'', sn_content = [], sn_mode = 420, sn_exists = True, sn_loaded = True, sn_pid = 3\<rparr>,
     it_active = True\<rparr>"

lemma space_heads: "list_all (\<lambda>e. e \<noteq> [] \<and> (List.member [9, 10, 11, 12, 13, 32] (of_char (hd e) :: nat) \<or> 128 \<le> (of_char (hd e) :: nat))) space_encodings"
  by code_simp

lemma Fields_word: "128 > (of_char c :: nat) \<Longrightarrow> \<not> List.member [9, 10, 11, 12, 13, 32] (of_char c :: nat) \<Longrightarrow> Fields cur (c # s) = Fields (c # cur) s"
proof -
  assume c: "128 > (of_char c :: nat)" "\<not> List.member [9, 10, 11, 12, 13, 32] (of_char c :: nat)"
  have "\<not> has_prefix (c # s) e" if "e \<in> set space_encodings" for e
    using space_heads that c by (cases e) (force simp: list_all_iff has_prefix_def)+
  then have "find (has_prefix (c # s)) space_encodings = None" by (simp add: find_None_iff)
  then show ?thesis unfolding Fields.simps [of cur "c # s"] by simp
qed

lemma Fields_space: "Fields cur (CHR '' '' # s) = (if cur = [] then [] else [rev cur]) @ Fields [] s"
proof -
  obtain rest where e: "space_encodings = [[CHR 0x09], [CHR 0x0A], [CHR 0x0B], [CHR 0x0C], [CHR 0x0D], '' ''] @ rest"
    by (simp add: space_encodings_def char_of_eq_iff)
  have "find (has_prefix (CHR '' '' # s)) space_encodings = Some '' ''" unfolding e by (simp add: has_prefix_def)
  then show ?thesis unfolding Fields.simps [of cur "CHR '' '' # s"] by simp
qed

lemma demo_pid: "reported_pid ''pid = 7'' = 7"
  by (simp add: reported_pid_def List.map_filter_def pid_line_def Fields_word Fields_space Fields.simps [of _ "[]"]
      parse_int64_def parse_decimal_def digits_val_def is_digit_def)

lemma demo_job: "fst (run_state (job demo_manager) \<lparr>sv_plist = p, sv_log = []\<rparr>) = (True, 7)"
  by (simp add: job_def run_command_def ask_def demo_manager_def demo_pid)

theorem one_daemon_witness:
  "exited_first 7 (sv_log (snd (run_state (install demo_manager demo_spec) \<lparr>sv_plist = None, sv_log = []\<rparr>))) \<and>
   exited_first 3 (sv_log (snd (run_state (Rollback demo_manager demo_installation) \<lparr>sv_plist = None, sv_log = []\<rparr>)))"
  using one_daemon [of 7 demo_manager "\<lparr>sv_plist = None, sv_log = []\<rparr>" demo_spec demo_installation] demo_job
  by (simp add: demo_installation_def)

text \<open>Installing and rolling back is a reversible change of the plist.\<close>

locale reversible =
  fixes change :: "'s \<Rightarrow> ('e + 't) \<times> 's" and undo :: "'t \<Rightarrow> 's \<Rightarrow> 'e \<times> 's" and view :: "'s \<Rightarrow> 'v"
    and broken :: "'e \<Rightarrow> bool" and failed :: "'e \<Rightarrow> bool"
  assumes refused: "change s = (Inl e, s') \<Longrightarrow> \<not> broken e \<Longrightarrow> view s' = view s"
    and undone: "change s = (Inr t, s1) \<Longrightarrow> undo t s2 = (e, s3) \<Longrightarrow> \<not> failed e \<Longrightarrow> view s3 = view s"
begin

text \<open>A change followed by a check that undoes it when it fails.\<close>

definition attempt :: "('s \<Rightarrow> 'c option \<times> 's) \<Rightarrow> 's \<Rightarrow> ('e + ('c \<times> 'e) + 't) \<times> 's" where
  "attempt check s =
     (case change s of
        (Inl e, s') \<Rightarrow> (Inl e, s')
      | (Inr t, s1) \<Rightarrow>
          (case check s1 of
             (None, s2) \<Rightarrow> (Inr (Inr t), s2)
           | (Some c, s2) \<Rightarrow> (case undo t s2 of (e, s3) \<Rightarrow> (Inr (Inl (c, e)), s3))))"

lemma attempt_restores:
  assumes "attempt check s = (r, s')" "case r of Inl e \<Rightarrow> \<not> broken e | Inr (Inl (c, e)) \<Rightarrow> \<not> failed e | Inr (Inr t) \<Rightarrow> False"
  shows "view s' = view s"
proof (cases "change s")
  case (Pair a s1)
  show ?thesis
  proof (cases a)
    case (Inl e)
    with assms Pair refused show ?thesis by (auto simp: attempt_def)
  next
    case (Inr t)
    obtain k s2 where check: "check s1 = (k, s2)" by (metis prod.exhaust)
    obtain e s3 where undo: "undo t s2 = (e, s3)" by (metis prod.exhaust)
    from assms Pair Inr check undo show ?thesis
      using undone [OF Pair [unfolded Inr] undo] by (cases k) (auto simp: attempt_def)
  qed
qed

end

definition roll :: "serviceManager \<Rightarrow> Installation \<Rightarrow> svc \<Rightarrow> launch_error list \<times> svc" where
  "roll m i s = (case run_state (Rollback m i) s of ((e, _), s') \<Rightarrow> (e, s'))"

definition saved_text :: "svc \<Rightarrow> string option" where
  "saved_text s = map_option pf_content (sv_plist s)"

interpretation service: reversible "\<lambda>s. run_state (install m spec) s" "roll m" saved_text
    "\<lambda>e. RestoreFailed \<in> set e" "\<lambda>e. e \<noteq> []" for m spec
proof unfold_locales
  fix s e s'
  assume "run_state (install m spec) s = (Inl e, s')" "RestoreFailed \<notin> set e"
  then show "saved_text s' = saved_text s"
    using keeps_run [OF install_ok [of s m spec] refl] by (auto simp: transition_ok_def saved_text_def)
next
  fix s t s1 s2 e s3
  assume a: "run_state (install m spec) s = (Inr t, s1)" "roll m t s2 = (e, s3)" "\<not> e \<noteq> []"
  have t: "it_active t" "taken s (fst (run_state (job m) s)) (it_previous t)"
    using keeps_run [OF install_ok [of s m spec] refl a(1)] by (simp_all add: transition_ok_def)
  have "run_state (restore m (it_previous t)) s2 = ([], s3)"
    using a(2,3) t(1) by (auto simp: roll_def Rollback_def split: prod.splits)
  from keeps_run [OF restore_restores [of "\<lambda>_. True"] TrueI this] t(2) show "saved_text s3 = saved_text s"
    by (simp add: saved_text_def saved_taken)
qed

text \<open>
  A failed installation leaves the service as it found it: when \<open>install\<close> returns an error and the restoration did
  not fail, the plist has its former contents, and if the job was loaded either nothing unloaded it or launchd's last
  answer accepted that plist again.
\<close>

theorem failed_install_restores:
  assumes "run_state (install m spec) s = (Inl errs, s')" "RestoreFailed \<notin> set errs"
  shows "saved_text s' = saved_text s \<and>
    (fst (fst (run_state (job m) s)) \<longrightarrow>
       list_all (\<lambda>c. \<not> is_bootout c) (drop (length (sv_log s)) (sv_log s')) \<or>
       (\<exists>path. plistPath m = Some path \<and> accepted m path s'))"
  using keeps_run [OF install_ok [of s m spec] refl assms(1)] assms(2)
  by (auto simp: transition_ok_def saved_text_def unstopped_def since_def)

text \<open>The demonstration with a job that is not loaded: the half-written file is gone again.\<close>

definition idle_manager :: serviceManager where
  "idle_manager = demo_manager\<lparr>m_run := (\<lambda>_ _. ([], False))\<rparr>"

lemma demo_launch_id: "TrimSpace ''1-2'' = ''1-2''"
  by code_simp

lemma idle_install:
  "TrimSpace (sp_LaunchID spec) \<noteq> [] \<Longrightarrow> fst (run_state (install idle_manager spec) \<lparr>sv_plist = None, sv_log = []\<rparr>) = Inl [WriteFailed]"
  by (simp add: install_def install_from_def installed_def failAndRestore_def Rollback_def restore_def snapshot_def job_def run_command_def ask_def
      make_dir_def write_plist_def remove_plist_def idle_manager_def demo_manager_def plistPath_def)

theorem failed_install_restores_witness:
  "saved_text (snd (run_state (install idle_manager demo_spec) \<lparr>sv_plist = None, sv_log = []\<rparr>)) = None"
proof -
  let ?s = "\<lparr>sv_plist = None, sv_log = []\<rparr> :: svc"
  have "run_state (install idle_manager demo_spec) ?s = (Inl [WriteFailed], snd (run_state (install idle_manager demo_spec) ?s))"
    using idle_install [of demo_spec] demo_launch_id by (simp add: demo_spec_def prod_eq_iff)
  from failed_install_restores [OF this] show ?thesis by (simp add: saved_text_def)
qed

end
