(* ===== verification/PlistSafety.thy ===== *)
theory PlistSafety
  imports Launchd
begin

text \<open>
  What the plist says is what \<open>programExecutable\<close> reads: the decoder's tokens of the text that \<open>plist\<close> writes, up to the
  first program argument. One lemma per kind of token; the text after the argument does not matter.
\<close>

section \<open>One token at a time\<close>

lemma tokens_step:
  "raw_token wide s = Some (ts, r) \<Longrightarrow> open_elements stack ts = Some stack' \<Longrightarrow> length r < length s \<Longrightarrow>
   xml_tokens wide stack s = ts @ xml_tokens wide stack' r"
  by (subst xml_tokens.simps) simp

definition letter :: "char \<Rightarrow> bool" where
  "letter c \<longleftrightarrow> (let n = of_char c :: nat in 65 \<le> n \<and> n \<le> 90 \<or> 97 \<le> n \<and> n \<le> 122)"

abbreviation letters :: "string \<Rightarrow> bool" where
  "letters n \<equiv> n \<noteq> [] \<and> list_all letter n"

lemma letter_facts:
  assumes "letter c"
  shows "name_part c" "\<not> 128 \<le> (of_char c :: nat)" "c \<noteq> CHR '':''" "c \<noteq> CHR ''/''" "c \<noteq> CHR ''!''" "c \<noteq> CHR ''?''"
    "\<not> (48 \<le> (of_char c :: nat) \<and> of_char c \<le> (57 :: nat) \<or> of_char c = (46 :: nat) \<or> of_char c = (45 :: nat))"
  using assms by (auto simp: letter_def Let_def name_part_def name_byte_def)

lemma split_letters: "letters n \<Longrightarrow> split_on (CHR '':'') n = [n]"
proof -
  have "split_on (CHR '':'') n = [n]" if "list_all letter n"
    using that letter_facts(3) by (induction n) auto
  then show "letters n \<Longrightarrow> split_on (CHR '':'') n = [n]" by simp
qed

lemma letters_name: "letters n \<Longrightarrow> c \<in> {CHR ''>'', CHR '' ''} \<Longrightarrow> read_name wide (n @ c # t) = Some (n, c # t)"
proof -
  assume n: "letters n" and c: "c \<in> {CHR ''>'', CHR '' ''}"
  have "takeWhile name_part (n @ c # t) = n" "dropWhile name_part (n @ c # t) = c # t"
    using n c letter_facts(1) by (auto simp: list_all_iff takeWhile_append dropWhile_append name_part_def name_byte_def)
  moreover have "is_name wide n"
    using n letter_facts(2,7) by (cases n) (auto simp: is_name_def list_all_iff list_ex_iff Let_def)
  ultimately show ?thesis using n by (simp add: read_name_def)
qed

lemma letters_nsname: "letters n \<Longrightarrow> c \<in> {CHR ''>'', CHR '' ''} \<Longrightarrow> read_nsname wide (n @ c # t) = Some (n, c # t)"
proof -
  assume n: "letters n" "c \<in> {CHR ''>'', CHR '' ''}"
  have "split_on (CHR '':'') n = [n]"
    by (rule split_letters [OF n(1)])
  then show ?thesis by (simp add: read_nsname_def letters_name [OF n])
qed

lemma letters_local: "letters n \<Longrightarrow> local_name n = n"
proof -
  assume n: "letters n"
  have "split_on (CHR '':'') n = [n]"
    by (rule split_letters [OF n])
  then show ?thesis by (simp add: local_name_def)
qed

lemma start_token: "letters n \<Longrightarrow> raw_token wide (CHR ''<'' # n @ CHR ''>'' # t) = Some ([StartElement n], t)"
proof -
  assume n: "letters n"
  then obtain c u where cu: "n = c # u" "letter c" by (cases n) auto
  have "read_attrs wide (CHR ''>'' # t) = Some (False, t)" by (subst read_attrs.simps) (simp add: xml_space_def)
  with letters_nsname [OF n, of "CHR ''>''" wide t] letter_facts [OF cu(2)] show ?thesis
    unfolding cu(1) by (simp add: raw_token_def start_tag_def)
qed

lemma end_token: "letters n \<Longrightarrow> raw_token wide (CHR ''<'' # CHR ''/'' # n @ CHR ''>'' # t) = Some ([EndElement n], t)"
  using letters_nsname [of n "CHR ''>''" wide t] by (simp add: raw_token_def end_tag_def xml_space_def)

definition text_char :: "char \<Rightarrow> bool" where
  "text_char c \<longleftrightarrow> (let n = of_char c :: nat in (n = 10 \<or> 32 \<le> n) \<and> n < 128) \<and> c \<noteq> CHR ''<'' \<and> c \<noteq> CHR ''&'' \<and> c \<noteq> CHR '']''"

lemma text_char_rune: "text_char c \<Longrightarrow> xml_rune (of_char c, 1)"
proof -
  assume c: "text_char c"
  define n :: nat where "n = of_char c"
  from c have "n = 10 \<or> 32 \<le> n" "n < 128" by (simp_all add: text_char_def n_def Let_def)
  then have "xml_rune (n, 1)" by (elim disjE) (simp_all add: xml_rune_def rune_error_def)
  then show ?thesis by (simp add: n_def)
qed

lemma text_token: "u \<noteq> [] \<Longrightarrow> list_all text_char u \<Longrightarrow> raw_token wide (u @ CHR ''<'' # t) = Some ([CharData u], CHR ''<'' # t)"
proof -
  assume u: "u \<noteq> []" "list_all text_char u"
  have "xml_text InText (u @ CHR ''<'' # t) = Some (u, CHR ''<'' # t)" using u(2)
  proof (induction u)
    case (Cons c u)
    then have "c \<noteq> CHR ''<''" "c \<noteq> CHR ''&''" "c \<noteq> CHR '']''" "c \<noteq> CHR 0x0D" by (auto simp: text_char_def)
    with Cons show ?case by (subst xml_text.simps) (simp add: has_prefix_def)
  qed (subst xml_text.simps, simp)
  moreover have "list_all xml_rune (runes u)"
  proof -
    have "\<forall>c\<in>set u. (of_char c :: nat) < 128" using u(2) by (auto simp: list_all_iff text_char_def Let_def)
    then have "runes u = map (\<lambda>c. (of_char c, 1)) u" by (rule runes_ascii)
    then show ?thesis using u(2) text_char_rune by (auto simp: list_all_iff)
  qed
  moreover obtain c v where "u = c # v" "c \<noteq> CHR ''<''" using u by (cases u) (auto simp: text_char_def)
  ultimately show ?thesis by (auto simp: raw_token_def read_text_def)
qed

section \<open>Declarations and comments\<close>

lemma skip_until_here: "e \<noteq> [] \<Longrightarrow> skip_until e (e @ t) = Some t"
  by (cases e) (simp_all add: has_prefix_def)

lemma directive_plain:
  "list_all (\<lambda>c. c \<noteq> CHR 0x22 \<and> c \<noteq> CHR 0x27 \<and> c \<noteq> CHR ''<'' \<and> c \<noteq> CHR ''>'') u \<Longrightarrow> directive_end None d (u @ t) = directive_end None d t"
  by (induction u) (simp_all add: directive_end.simps [of None d "_ # _"])

lemma directive_quoted: "q \<notin> set u \<Longrightarrow> directive_end (Some q) d (u @ q # t) = directive_end None d t"
  by (induction u) (auto simp: directive_end.simps [of "Some q" d "_ # _"])

lemma directive_open: "q = CHR 0x22 \<or> q = CHR 0x27 \<Longrightarrow> directive_end None d (q # t) = directive_end (Some q) d t"
  by (subst directive_end.simps) auto

lemma directive_close: "directive_end None 0 (CHR ''>'' # t) = Some t"
  by (subst directive_end.simps) simp

lemma comment_char: "c \<noteq> CHR ''-'' \<Longrightarrow> comment_end (c # t) = comment_end t"
  by (subst comment_end.simps) (simp add: has_prefix_def)

lemma comment_dash: "c \<noteq> CHR ''-'' \<Longrightarrow> comment_end (CHR ''-'' # c # t) = comment_end (c # t)"
  by (subst comment_end.simps) (simp add: has_prefix_def)

lemma comment_close: "comment_end (''-->'' @ t) = Some t"
  by (subst comment_end.simps) (simp add: has_prefix_def)

section \<open>Escaped text\<close>

lemma EscapeString_Cons: "EscapeString (c # s) = escape_char c @ EscapeString s"
  by (simp add: EscapeString_def)

lemma escaped_chars: "c \<in> set (EscapeString s) \<Longrightarrow> c \<noteq> CHR ''>'' \<and> c \<noteq> CHR ''<''"
  by (induction s) (auto simp: EscapeString_def split: if_splits)

lemma no_bracket_end:
  assumes "CHR ''>'' \<notin> set x"
  shows "\<not> has_prefix (x @ CHR ''<'' # r) '']]>''"
proof
  assume "has_prefix (x @ CHR ''<'' # r) '']]>''"
  then obtain t where "x @ CHR ''<'' # r = '']]>'' @ t" by (auto simp: has_prefix_append)
  with assms show False
    by (cases x; cases "tl x"; cases "tl (tl x)") auto
qed

lemma entities:
  "entity (''amp;'' @ r) = Some (''&'', r)" "entity (''lt;'' @ r) = Some (''<'', r)" "entity (''gt;'' @ r) = Some (''>'', r)"
  "entity (''#39;'' @ r) = Some ([CHR 0x27], r)" "entity (''#34;'' @ r) = Some ([CHR 0x22], r)"
  by (simp_all add: entity_def named_entity_def numeric_entity_def name_part_def name_byte_def hex_val_def encode_rune_def Let_def char_of_eq_iff)

lemma escaped_text:
  assumes "CHR 0x0D \<notin> set b"
  shows "xml_text InText (EscapeString b @ CHR ''<'' # r) = Some (b, CHR ''<'' # r)"
  using assms
proof (induction b)
  case Nil
  show ?case by (subst xml_text.simps) (simp add: EscapeString_def)
next
  case (Cons c b)
  then have IH: "xml_text InText (EscapeString b @ CHR ''<'' # r) = Some (b, CHR ''<'' # r)" by simp
  have amp: "xml_text InText (CHR ''&'' # e @ EscapeString b @ CHR ''<'' # r) = Some (c # b, CHR ''<'' # r)"
    if "entity (e @ EscapeString b @ CHR ''<'' # r) = Some ([c], EscapeString b @ CHR ''<'' # r)" for e
    using that by (subst xml_text.simps) (simp add: IH has_prefix_def)
  show ?case
  proof (cases "escape_char c = [c]")
    case True
    then have c: "c \<noteq> CHR ''<''" "c \<noteq> CHR ''&''" "c \<noteq> CHR ''>''" "c \<noteq> CHR 0x0D" using Cons.prems by auto
    have "CHR ''>'' \<notin> set (c # EscapeString b)" using c(3) escaped_chars by auto
    from no_bracket_end [OF this, of r] c Cons.prems IH show ?thesis
      unfolding EscapeString_Cons True by (subst xml_text.simps) simp
  next
    case False
    then consider "c = CHR ''&''" | "c = CHR 0x27" | "c = CHR ''<''" | "c = CHR ''>''" | "c = CHR 0x22" by (auto split: if_splits)
    then show ?thesis
      by cases (use amp [of "''amp;''"] amp [of "''#39;''"] amp [of "''lt;''"] amp [of "''gt;''"] amp [of "''#34;''"] entities in
        \<open>simp_all add: EscapeString_Cons\<close>)
  qed
qed

section \<open>The beginning of the plist\<close>

datatype piece = Text string | Start string | Finish string | Raw string "xtoken list"

fun flat :: "piece \<Rightarrow> string" where
  "flat (Text u) = u"
| "flat (Start n) = CHR ''<'' # n @ ''>''"
| "flat (Finish n) = CHR ''<'' # CHR ''/'' # n @ ''>''"
| "flat (Raw s ts) = s"

fun token_of :: "piece \<Rightarrow> xtoken list" where
  "token_of (Text u) = [CharData u]"
| "token_of (Start n) = [StartElement n]"
| "token_of (Finish n) = [EndElement n]"
| "token_of (Raw s ts) = ts"

definition raw_piece :: "(string \<Rightarrow> bool) \<Rightarrow> string \<Rightarrow> xtoken list \<Rightarrow> bool" where
  "raw_piece wide s ts \<longleftrightarrow> s \<noteq> [] \<and> hd s = CHR ''<'' \<and> (\<forall>t. raw_token wide (s @ t) = Some (ts, t))"

fun good_pieces :: "(string \<Rightarrow> bool) \<Rightarrow> piece list \<Rightarrow> bool" where
  "good_pieces wide [] \<longleftrightarrow> True"
| "good_pieces wide (Text u # ps) \<longleftrightarrow> u \<noteq> [] \<and> list_all text_char u \<and> (case ps of Text _ # _ \<Rightarrow> False | _ \<Rightarrow> True) \<and> good_pieces wide ps"
| "good_pieces wide (Start n # ps) \<longleftrightarrow> letters n \<and> good_pieces wide ps"
| "good_pieces wide (Finish n # ps) \<longleftrightarrow> letters n \<and> good_pieces wide ps"
| "good_pieces wide (Raw s ts # ps) \<longleftrightarrow> raw_piece wide s ts \<and> good_pieces wide ps"

abbreviation pieces_text :: "piece list \<Rightarrow> string" where
  "pieces_text ps \<equiv> concat (map flat ps)"

lemma open_elements_append:
  "open_elements stack (a @ b) = (case open_elements stack a of None \<Rightarrow> None | Some st \<Rightarrow> open_elements st b)"
  by (induction stack a rule: open_elements.induct) (auto split: list.splits)

lemma pieces_open:
  "good_pieces wide ps \<Longrightarrow> (case ps of Text _ # _ \<Rightarrow> False | _ \<Rightarrow> True) \<Longrightarrow> x \<noteq> [] \<Longrightarrow> hd x = CHR ''<'' \<Longrightarrow>
   \<exists>t. pieces_text ps @ x = CHR ''<'' # t"
  by (cases ps rule: list.exhaust; cases "hd ps") (auto simp: raw_piece_def neq_Nil_conv)

lemma pieces_tokens:
  assumes "good_pieces wide ps" "open_elements stack (concat (map token_of ps)) = Some stack'" "x \<noteq> []" "hd x = CHR ''<''"
  shows "xml_tokens wide stack (pieces_text ps @ x) = concat (map token_of ps) @ xml_tokens wide stack' x"
  using assms(1,2)
proof (induction ps arbitrary: stack)
  case (Cons p ps)
  obtain st where st: "open_elements stack (token_of p) = Some st" "open_elements st (concat (map token_of ps)) = Some stack'"
    using Cons.prems(2) by (auto simp: open_elements_append split: option.splits)
  have good: "good_pieces wide ps" using Cons.prems(1) by (cases p) auto
  have "raw_token wide (flat p @ pieces_text ps @ x) = Some (token_of p, pieces_text ps @ x)"
  proof (cases p)
    case (Text u)
    then obtain t where "pieces_text ps @ x = CHR ''<'' # t"
      using pieces_open [OF good _ assms(3,4)] Cons.prems(1) by auto
    with text_token [of u wide t] Text Cons.prems(1) show ?thesis by simp
  next
    case (Start n)
    with start_token [of n wide "pieces_text ps @ x"] Cons.prems(1) show ?thesis by simp
  next
    case (Finish n)
    with end_token [of n wide "pieces_text ps @ x"] Cons.prems(1) show ?thesis by simp
  next
    case (Raw s ts)
    with Cons.prems(1) show ?thesis by (simp add: raw_piece_def)
  qed
  moreover have "flat p \<noteq> []" using Cons.prems(1) by (cases p) (auto simp: raw_piece_def)
  ultimately have "xml_tokens wide stack (flat p @ pieces_text ps @ x) = token_of p @ xml_tokens wide st (pieces_text ps @ x)"
    using st(1) by (intro tokens_step) auto
  with Cons.IH [OF good st(2)] show ?case by simp
qed simp

definition xml_line :: string where
  "xml_line = ''<?xml version='' @ dq @ ''1.0'' @ dq @ '' encoding='' @ dq @ ''UTF-8'' @ dq @ ''?>''"

definition doctype_line :: string where
  "doctype_line = ''<!DOCTYPE plist PUBLIC '' @ dq @ ''-//Apple//DTD PLIST 1.0//EN'' @ dq @ '' '' @
     dq @ ''http://www.apple.com/DTDs/PropertyList-1.0.dtd'' @ dq @ ''>''"

definition plist_tag :: string where
  "plist_tag = ''<plist version='' @ dq @ ''1.0'' @ dq @ ''>''"

definition comment_line :: string where
  "comment_line = ''<!-- Installed by hermote-bridge: the paired, end-to-end-encrypted bridge'' @ nl @
     ''         between Hermote and this Mac'' @ [CHR 0x27] @ ''s Hermes gateway. -->''"

lemma xml_line_raw: "raw_piece wide xml_line [OtherToken]"
proof -
  have "raw_token wide (xml_line @ t) = Some ([OtherToken], t)" for t
  proof -
    let ?rest = "''version='' @ dq @ ''1.0'' @ dq @ '' encoding='' @ dq @ ''UTF-8'' @ dq"
    have name: "read_name wide (''xml '' @ ?rest @ ''?>'' @ t) = Some (''xml'', '' '' @ ?rest @ ''?>'' @ t)"
      using letters_name [of "''xml''" "CHR '' ''" wide "?rest @ ''?>'' @ t"] by (simp add: letter_def)
    have skip: "skip_until ''?>'' (?rest @ ''?>'' @ t) = Some t" by (simp add: dq_def has_prefix_def)
    have "xml_declaration_ok ?rest" by (simp add: xml_declaration_ok_def proc_inst.simps has_prefix_def dq_def char_of_eq_iff)
    then show ?thesis using name skip
      by (simp add: raw_token_def instruction_def xml_line_def xml_space_def dq_def)
  qed
  then show ?thesis by (simp add: raw_piece_def xml_line_def)
qed

lemma doctype_raw: "raw_piece wide doctype_line [OtherToken]"
proof -
  have "directive_end None 0 (''OCTYPE plist PUBLIC '' @ dq @ ''-//Apple//DTD PLIST 1.0//EN'' @ dq @ '' '' @
     dq @ ''http://www.apple.com/DTDs/PropertyList-1.0.dtd'' @ dq @ ''>'' @ t) = Some t" for t
    by (simp add: dq_def directive_plain [of "''OCTYPE plist PUBLIC ''", simplified] directive_open directive_close
      directive_plain [of "'' ''", simplified] directive_quoted [of "CHR 0x22" "''-//Apple//DTD PLIST 1.0//EN''", simplified]
      directive_quoted [of "CHR 0x22" "''http://www.apple.com/DTDs/PropertyList-1.0.dtd''", simplified])
  then show ?thesis by (simp add: raw_piece_def raw_token_def markup_def doctype_line_def has_prefix_def)
qed

lemma plist_tag_raw: "raw_piece wide plist_tag [StartElement ''plist'']"
proof -
  have "raw_token wide (plist_tag @ t) = Some ([StartElement ''plist''], t)" for t
  proof -
    have "read_nsname wide (''plist '' @ u) = Some (''plist'', '' '' @ u)" for u
      using letters_nsname [of "''plist''" "CHR '' ''" wide u] by (simp add: letter_def)
    moreover have "read_attrs wide ('' version='' @ dq @ ''1.0'' @ dq @ ''>'' @ t) = Some (False, t)"
      by (simp add: read_attrs.simps xml_space_def read_nsname_def read_name_def name_part_def name_byte_def is_name_def dq_def
          read_text_def xml_text.simps has_prefix_def xml_rune_def rune_error_def)
    ultimately show ?thesis by (simp add: raw_token_def start_tag_def plist_tag_def)
  qed
  then show ?thesis by (simp add: raw_piece_def plist_tag_def)
qed

lemma comment_raw: "raw_piece wide comment_line [OtherToken]"
  by (simp add: raw_piece_def raw_token_def markup_def comment_line_def has_prefix_def nl_def comment_char comment_dash comment_close [simplified])

definition head_pieces :: "piece list" where
  "head_pieces =
     [Raw xml_line [OtherToken], Text nl, Raw doctype_line [OtherToken], Text nl, Raw plist_tag [StartElement ''plist''], Text nl,
      Start ''dict'', Text (nl @ ''    ''), Start ''key'', Text ''Label'', Finish ''key'', Start ''string'', Text service_label,
      Finish ''string'', Text (nl @ ''    ''), Raw comment_line [OtherToken], Text (nl @ ''    ''),
      Start ''key'', Text ''ProgramArguments'', Finish ''key'', Text (nl @ ''    ''), Start ''array'', Text (nl @ ''        '')]"

lemma plist_head_pieces:
  "plist s = pieces_text head_pieces @ ''<string>'' @ EscapeString (sp_Binary s) @ ''</string>'' @ nl @ plist_tail s"
  by (simp add: plist_def plist_head_def plist_comment_def head_pieces_def xml_line_def doctype_line_def plist_tag_def comment_line_def nl_def)

lemma head_good: "good_pieces wide head_pieces"
  by (simp add: head_pieces_def xml_line_raw doctype_raw plist_tag_raw comment_raw nl_def text_char_def letter_def service_label_def)

lemma EscapeString_nonempty: "EscapeString b = [] \<longleftrightarrow> b = []"
  by (cases b) (simp_all add: EscapeString_Cons EscapeString_def)

lemma argument_token:
  assumes "b \<noteq> []" "list_all xml_rune (runes b)" "CHR 0x0D \<notin> set b"
  shows "raw_token wide (EscapeString b @ CHR ''<'' # t) = Some ([CharData b], CHR ''<'' # t)"
proof -
  have "EscapeString b \<noteq> []" "hd (EscapeString b) \<noteq> CHR ''<''"
    using assms(1) by (cases b; simp add: EscapeString_Cons)+
  then obtain c u where cu: "EscapeString b = c # u" "c \<noteq> CHR ''<''" by (cases "EscapeString b") auto
  have "raw_token wide (c # u @ CHR ''<'' # t) = map_option (\<lambda>(v, r). ([CharData v], r)) (read_text InText (c # u @ CHR ''<'' # t))"
    using cu(2) by (simp add: raw_token_def)
  then show ?thesis using escaped_text [OF assms(3), of t] cu(1) assms(2) by (simp add: read_text_def)
qed

text \<open>
  The service file names the program it was written for: \<open>programExecutable\<close> of the plist returns exactly the
  binary of the spec, whatever characters HTML escaping has to protect in its path.
\<close>

theorem plist_round:
  assumes "TrimSpace (sp_Binary s) \<noteq> []" "list_all xml_rune (runes (sp_Binary s))" "CHR 0x0D \<notin> set (sp_Binary s)"
  shows "programExecutable wide (plist s) = Some (sp_Binary s)"
proof -
  let ?b = "sp_Binary s" and ?st = "[''string'', ''array'', ''dict'', ''plist'']"
  let ?tail = "nl @ plist_tail s"
  have b: "?b \<noteq> []" using assms(1) by (auto simp: TrimSpace_def)
  have opened: "open_elements [] (concat (map token_of head_pieces)) = Some (tl ?st)"
    by (simp add: head_pieces_def)
  have "xml_tokens wide (tl ?st) (''<string>'' @ EscapeString ?b @ ''</string>'' @ ?tail) =
      [StartElement ''string''] @ xml_tokens wide ?st (EscapeString ?b @ ''</string>'' @ ?tail)"
    using start_token [of "''string''" wide "EscapeString ?b @ ''</string>'' @ ?tail"]
    by (intro tokens_step) (simp_all add: letter_def)
  moreover have "xml_tokens wide ?st (EscapeString ?b @ ''</string>'' @ ?tail) = [CharData ?b] @ xml_tokens wide ?st (''</string>'' @ ?tail)"
    using argument_token [OF b assms(2,3), of wide "''/string>'' @ ?tail"] b
    by (intro tokens_step) (simp_all add: EscapeString_nonempty)
  moreover have "xml_tokens wide ?st (''</string>'' @ ?tail) = [EndElement ''string''] @ xml_tokens wide (tl ?st) ?tail"
    using end_token [of "''string''" wide ?tail] by (intro tokens_step) (simp_all add: letter_def)
  ultimately have "xml_tokens wide [] (plist s) = concat (map token_of head_pieces) @
      [StartElement ''string'', CharData ?b, EndElement ''string''] @ xml_tokens wide (tl ?st) ?tail"
    unfolding plist_head_pieces by (subst pieces_tokens [OF head_good opened]) simp_all
  then show ?thesis using assms(1)
    by (simp add: programExecutable_def head_pieces_def program_arguments.simps letters_local letter_def)
qed

theorem plist_round_witness: "programExecutable (\<lambda>_. False) (plist \<lparr>sp_Binary = ''/a&b/<c>'', sp_LaunchID = ''1'', sp_HermesHome = ''/h'',
    sp_LogDir = ''/l'', sp_Path = ''/p''\<rparr>) = Some ''/a&b/<c>''"
proof -
  have "TrimSpace ''/a&b/<c>'' \<noteq> []" by code_simp
  then show ?thesis by (subst plist_round) (simp_all add: xml_rune_def rune_error_def)
qed

end
