(* ===== verification/Tailscale.thy ===== *)
theory Tailscale
  imports FolderLister
begin

text \<open>
  internal/tailscale/tailscale.go: the Tailscale command line. What a command answers is given; \<open>WaitRunning\<close> is the
  loop over the answers of its successive polls.
\<close>

definition appCLI :: string where "appCLI = ''/Applications/Tailscale.app/Contents/MacOS/Tailscale''"
definition DownloadURL :: string where "DownloadURL = ''https://tailscale.com/download/mac''"

text \<open>\<open>exec.LookPath\<close> and \<open>os.Stat\<close> (a file that is not a directory) are arguments; \<open>None\<close> is \<open>ErrNotInstalled\<close>.\<close>

definition Find_cli :: "(string \<Rightarrow> string option) \<Rightarrow> (string \<Rightarrow> bool) \<Rightarrow> string option" where
  "Find_cli lookPath is_file =
     (case lookPath ''tailscale'' of
        Some p \<Rightarrow> Some p
      | None \<Rightarrow> if is_file appCLI then Some appCLI else None)"

record TailStatus =
  ts_BackendState :: string
  ts_DNSName :: string
  ts_TailnetName :: string

text \<open>The members of \<open>tailscale status --json\<close>; inner objects are filled in place.\<close>

definition self_set :: "string \<Rightarrow> json \<Rightarrow> string \<Rightarrow> string option" where
  "self_set f v old = as_string old v"

definition tailnet_set :: "string \<Rightarrow> json \<Rightarrow> string \<times> string \<Rightarrow> (string \<times> string) option" where
  "tailnet_set f v old =
     (if f = ''Name'' then map_option (\<lambda>x. (x, snd old)) (as_string (fst old) v)
      else map_option (\<lambda>x. (fst old, x)) (as_string (snd old) v))"

definition status_set :: "string \<Rightarrow> json \<Rightarrow> string \<times> string \<times> string \<times> string \<Rightarrow> (string \<times> string \<times> string \<times> string) option" where
  "status_set f v = (\<lambda>(state, dns, net).
     if f = ''BackendState'' then map_option (\<lambda>x. (x, dns, net)) (as_string state v)
     else if f = ''Self'' then map_option (\<lambda>x. (state, x, net)) (fill_struct [''DNSName''] self_set v dns)
     else map_option (\<lambda>x. (state, dns, x)) (fill_struct [''Name'', ''MagicDNSSuffix''] tailnet_set v net))"

datatype tail_error = StatusFailed | StatusUnreadable | NotInTime | TailContext | ServeNeedsHTTPS string | ServeFailed string | ServeOffFailed string

text \<open>\<open>None\<close> is a command that failed; an error comes with the zero status.\<close>

definition CLI_Status :: "string option \<Rightarrow> tail_error option \<times> TailStatus" where
  "CLI_Status out =
     (let zero = \<lparr>ts_BackendState = [], ts_DNSName = [], ts_TailnetName = []\<rparr> in
      case out of
        None \<Rightarrow> (Some StatusFailed, zero)
      | Some raw \<Rightarrow>
          (case unmarshal [''BackendState'', ''Self'', ''CurrentTailnet''] status_set ([], [], [], []) raw of
             None \<Rightarrow> (Some StatusUnreadable, zero)
           | Some (state, dns, net, _) \<Rightarrow>
               (None, \<lparr>ts_BackendState = state, ts_DNSName = trim_suffix dns ''.'', ts_TailnetName = net\<rparr>)))"

definition tail_running :: "tail_error option \<times> TailStatus \<Rightarrow> bool" where
  "tail_running = (\<lambda>(e, st). e = None \<and> ts_BackendState st = ''Running'' \<and> ts_DNSName st \<noteq> [])"

text \<open>One poll: the status, whether the deadline has passed after it, and whether the context ended in the pause.\<close>

record tail_poll =
  tp_out :: "string option"
  tp_late :: bool
  tp_cancelled :: bool

text \<open>The result and the states \<open>onWait\<close> was called with; \<open>None\<close> when the polls run out before the loop ends.\<close>

fun wait_running :: "bool \<Rightarrow> tail_poll list \<Rightarrow> ((tail_error option \<times> TailStatus) \<times> (tail_error + string) list) option" where
  "wait_running warned [] = None"
| "wait_running warned (p # ps) =
     (let (e, st) = CLI_Status (tp_out p);
          warnings = (if warned then [] else [case e of Some x \<Rightarrow> Inl x | None \<Rightarrow> Inr (ts_BackendState st)]) in
      if tail_running (e, st) then Some ((None, st), [])
      else if tp_late p then Some ((Some NotInTime, st), warnings)
      else if tp_cancelled p then Some ((Some TailContext, st), warnings)
      else map_option (\<lambda>(r, ws). (r, warnings @ ws)) (wait_running True ps))"

definition ServeMapped :: "string \<times> bool \<Rightarrow> string \<Rightarrow> bool" where
  "ServeMapped = (\<lambda>(out, good) publicURL. good \<and> sublist publicURL out)"

definition serve_on_args :: "int \<Rightarrow> string \<Rightarrow> string list" where
  "serve_on_args port target = [''serve'', ''--bg'', ''--https='' @ int_lit port, target]"

definition ServeOn :: "(nat \<Rightarrow> nat) \<Rightarrow> string \<times> bool \<Rightarrow> tail_error option" where
  "ServeOn lower = (\<lambda>(out, good).
     if good then None
     else let msg = TrimSpace out in
       if sublist ''https'' (ToLower lower msg) \<or> sublist ''cert'' (ToLower lower msg) \<or> sublist ''MagicDNS'' msg
       then Some (ServeNeedsHTTPS msg) else Some (ServeFailed msg))"

definition serve_off_args :: "int \<Rightarrow> string list" where
  "serve_off_args port = [''serve'', ''--https='' @ int_lit port, ''off'']"

definition ServeOff :: "string \<times> bool \<Rightarrow> tail_error option" where
  "ServeOff = (\<lambda>(out, good). if good then None else Some (ServeOffFailed (TrimSpace out)))"

text \<open>The loop says \<open>running\<close> only when a poll did, and warns at most once.\<close>

lemma wait_running_sound:
  "wait_running warned ps = Some ((e, st), ws) \<Longrightarrow>
   length ws \<le> (if warned then 0 else 1) \<and> (e = None \<longrightarrow> (\<exists>p \<in> set ps. CLI_Status (tp_out p) = (None, st) \<and> tail_running (None, st)))"
proof (induction warned ps arbitrary: e st ws rule: wait_running.induct)
  case (2 warned p ps)
  obtain pe pst where p: "CLI_Status (tp_out p) = (pe, pst)" by (metis prod.exhaust)
  show ?case
  proof (cases "tail_running (pe, pst)")
    case True
    moreover from True have "pe = None" by (simp add: tail_running_def)
    ultimately show ?thesis using "2.prems" p by auto
  next
    case nr: False
    show ?thesis
    proof (cases "tp_late p \<or> tp_cancelled p")
      case True
      then show ?thesis using "2.prems" p nr by (auto simp: Let_def split: if_splits)
    next
      case False
      then obtain w r where r: "wait_running True ps = Some ((e, st), r)" "ws = w @ r" "length w = (if warned then 0 else 1)"
        using "2.prems" p nr by (auto simp: Let_def split: if_splits)
      with "2.IH" [OF refl p [symmetric] refl nr] False show ?thesis by auto
    qed
  qed
qed simp

end
