(* ===== verification/Control.thy ===== *)
theory Control
  imports Tailscale StateStore
begin

text \<open>
  internal/control/control.go: the admin API over the control socket. The first part is the socket's path, which
  successive daemons create and remove: a path holds at most one socket, named here by the file's identity. The second
  is the requests and answers; \<open>time.Time\<close> values are left in their JSON form.
\<close>

section \<open>The socket file\<close>

text \<open>Which file the path holds, the daemons serving on their own sockets, and how many sockets were made.\<close>

record sockets =
  so_path :: "nat option"
  so_serving :: "nat list"
  so_made :: nat

text \<open>What can fail when a daemon starts to serve: listening, and the mode of the new socket.\<close>

datatype serve_fault = NoFault | ListenFails | LstatFails | ChmodFails

text \<open>\<open>removeOwnedSocket\<close>.\<close>

definition remove_owned :: "nat \<Rightarrow> sockets \<Rightarrow> sockets" where
  "remove_owned i s = (if so_path s = Some i then s\<lparr>so_path := None\<rparr> else s)"

text \<open>\<open>Serve\<close> up to its loop: the new socket, or \<open>None\<close> for an error. The \<open>Lstat\<close> of the path that was just bound fails when
  something else has removed it meanwhile.\<close>

definition Serve_start :: "serve_fault \<Rightarrow> sockets \<Rightarrow> nat option \<times> sockets" where
  "Serve_start f s =
     (let s0 = s\<lparr>so_path := None\<rparr> in
      if f = ListenFails then (None, s0)
      else let i = so_made s0; s1 = s0\<lparr>so_path := Some i, so_made := Suc i\<rparr> in
        if f = LstatFails then (None, s1\<lparr>so_path := None\<rparr>)
        else if f = ChmodFails then (None, remove_owned i s1)
        else (Some i, s1\<lparr>so_serving := i # so_serving s1\<rparr>))"

definition Serve_end :: "nat \<Rightarrow> sockets \<Rightarrow> sockets" where
  "Serve_end i s = (if List.member (so_serving s) i then remove_owned i (s\<lparr>so_serving := removeAll i (so_serving s)\<rparr>) else s)"

datatype socket_event = SStart serve_fault | SEnd nat

fun socket_step :: "socket_event \<Rightarrow> sockets \<Rightarrow> sockets" where
  "socket_step (SStart f) s = snd (Serve_start f s)"
| "socket_step (SEnd i) s = Serve_end i s"

section \<open>Requests\<close>

datatype 'a reply = Answered int 'a | Refused int string

text \<open>The handlers: \<open>GET /status\<close> always answers, \<open>POST /pair\<close> and \<open>DELETE /devices/{id}\<close> answer their error text.\<close>

definition handle_pair :: "string + 'a \<Rightarrow> 'a reply" where
  "handle_pair r = (case r of Inl e \<Rightarrow> Refused 500 e | Inr a \<Rightarrow> Answered 200 a)"

definition handle_revoke :: "string + 'a \<Rightarrow> 'a reply" where
  "handle_revoke r = (case r of Inl e \<Rightarrow> Refused 404 e | Inr a \<Rightarrow> Answered 200 a)"

datatype control_request = ReqStatus | ReqPair | ReqRevoke string

definition route_request :: "string \<Rightarrow> string \<Rightarrow> control_request option" where
  "route_request mth path =
     (if mth = ''GET'' \<and> path = ''/status'' then Some ReqStatus
      else if mth = ''POST'' \<and> path = ''/pair'' then Some ReqPair
      else if mth = ''DELETE'' \<and> has_prefix path ''/devices/'' \<and> drop 9 path \<noteq> [] \<and> \<not> List.member (drop 9 path) (CHR ''/'')
        then Some (ReqRevoke (drop 9 path))
      else None)"

definition error_body :: "string \<Rightarrow> string" where
  "error_body e = render (JObj [(''error'', JStr e)]) @ [CHR 0x0A]"

datatype client_error = ErrNotRunning | ServerSaid string | BadReply

text \<open>\<open>Client.do\<close>: \<open>None\<close> is a socket that does not answer; \<open>decode\<close> reads the body of a success.\<close>

definition do_request :: "(string \<Rightarrow> 'a option) \<Rightarrow> (int \<times> string) option \<Rightarrow> client_error + 'a" where
  "do_request decode resp =
     (case resp of
        None \<Rightarrow> Inl ErrNotRunning
      | Some (status, body) \<Rightarrow>
          if 400 \<le> status then
            (let e = (case unmarshal [''error''] (\<lambda>_ v old. as_string old v) [] body of Some t \<Rightarrow> t | None \<Rightarrow> []) in
             Inl (ServerSaid (if e = [] then TrimSpace body else e)))
          else case decode body of None \<Rightarrow> Inl BadReply | Some a \<Rightarrow> Inr a)"

section \<open>The path is the latest daemon's\<close>

definition sockets_ok :: "sockets \<Rightarrow> bool" where
  "sockets_ok s \<longleftrightarrow> (\<forall>i. List.member (so_serving s) i \<longrightarrow> i < so_made s) \<and>
     (\<forall>i. so_path s = Some i \<longrightarrow> Suc i = so_made s \<and> List.member (so_serving s) i)"

lemma sockets_ok_step: "sockets_ok s \<Longrightarrow> sockets_ok (socket_step e s)"
  by (cases e) (auto simp: sockets_ok_def Serve_start_def Serve_end_def remove_owned_def Let_def less_Suc_eq)

lemma error_text_read: "plain e \<Longrightarrow> e \<noteq> [] \<Longrightarrow> 400 \<le> status \<Longrightarrow> do_request d (Some (status, error_body e)) = Inl (ServerSaid e)"
proof -
  assume e: "plain e" "e \<noteq> []" "400 \<le> status"
  let ?j = "JObj [(''error'', JStr e)]"
  have "parse_value (2 * length (error_body e) + 2) 10000 (error_body e) = Some (?j, [CHR 0x0A])"
    unfolding error_body_def using e(1) json_fuel_bound(1) [of ?j]
    by (intro parse_render(1)) (auto simp: num_end_def is_digit_def plain_char_def)
  then have "parse_json (error_body e) = Some ?j" by (simp add: parse_json_def skip_ws_def is_ws_def)
  then have "unmarshal [''error''] (\<lambda>_ v old. as_string old v) [] (error_body e) = Some e"
    by (simp add: unmarshal_def fill_struct_def field_of_def as_string_def)
  with e show ?thesis by (simp add: do_request_def)
qed

interpretation control_sockets: machine socket_step sockets_ok
  by unfold_locales (rule sockets_ok_step)

definition no_sockets :: sockets where "no_sockets = \<lparr>so_path = None, so_serving = [], so_made = 0\<rparr>"

lemma others_end:
  "so_path s = Some i \<Longrightarrow> list_all (\<lambda>e. \<exists>j. e = SEnd j \<and> j \<noteq> i) es \<Longrightarrow> so_path (fold socket_step es s) = Some i"
  by (induction es arbitrary: s) (auto simp: Serve_end_def remove_owned_def)

text \<open>
  The control socket belongs to the latest daemon: whatever daemons start and end before, in any order and with
  failing starts, the path never holds the socket of a daemon that has ended; and once a daemon serves, the path
  stays its socket however many of its predecessors end after it.
\<close>

theorem socket_of_latest:
  fixes es
  defines "s \<equiv> fold socket_step es no_sockets"
  shows "(\<forall>i. so_path s = Some i \<longrightarrow> List.member (so_serving s) i) \<and>
    (\<forall>i es'. fst (Serve_start NoFault s) = Some i \<longrightarrow> list_all (\<lambda>e. \<exists>j. e = SEnd j \<and> j \<noteq> i) es' \<longrightarrow>
       so_path (fold socket_step es' (snd (Serve_start NoFault s))) = Some i)"
proof -
  have "sockets_ok s" unfolding s_def
    by (rule control_sockets.run_inv) (simp add: no_sockets_def sockets_ok_def)
  moreover have "so_path (snd (Serve_start NoFault s)) = Some i" if "fst (Serve_start NoFault s) = Some i" for i
    using that by (simp add: Serve_start_def Let_def)
  ultimately show ?thesis using others_end by (auto simp: sockets_ok_def)
qed

theorem socket_of_latest_witness:
  "so_path (fold socket_step [SStart NoFault, SStart NoFault, SEnd 0] no_sockets) = Some 1 \<and>
   so_path (fold socket_step [SStart NoFault, SEnd 0] no_sockets) = None"
proof -
  have "fst (Serve_start NoFault (fold socket_step [SStart NoFault] no_sockets)) = Some 1"
    by (simp add: Serve_start_def no_sockets_def)
  with conjunct2 [OF socket_of_latest [of "[SStart NoFault]"], rule_format, of 1 "[SEnd 0]"]
  show ?thesis by (simp add: Serve_start_def Serve_end_def remove_owned_def no_sockets_def)
qed

end
