(* ===== verification/PushGateway.thy ===== *)
theory PushGateway
  imports PairLink JsonRaw
begin

text \<open>
  internal/push/gateway.go: the watcher's JSON-RPC calls over one WebSocket to the gateway, dialled when needed and
  dropped after any failure. A connection is a number; what dialling, writing and reading do is given per call. The
  parameters of a request are given as JSON text that \<open>json.Marshal\<close> accepted.
\<close>

record WSGateway =
  wg_conn :: "nat option"
  wg_next :: int

record call_env =
  ce_base :: string
  ce_ready :: bool
  ce_token :: string
  ce_dial :: "nat option"
  ce_write_ok :: bool
  ce_frames :: "string list"

datatype call_error = GatewayNotReady | DialFailed | ParamsUnmarshalable | WriteBroken | ReadBroken | RPCError int string

definition gateway_url :: "string \<Rightarrow> string \<Rightarrow> string" where
  "gateway_url base token = ''ws'' @ trim_prefix base ''http'' @ ''/api/ws?token='' @ QueryEscape token"

definition connection :: "call_env \<Rightarrow> WSGateway \<Rightarrow> (call_error + nat) \<times> WSGateway" where
  "connection e g =
     (case wg_conn g of
        Some c \<Rightarrow> (Inr c, g)
      | None \<Rightarrow>
          if \<not> ce_ready e then (Inl GatewayNotReady, g)
          else case ce_dial e of
            None \<Rightarrow> (Inl DialFailed, g)
          | Some c \<Rightarrow> (Inr c, g\<lparr>wg_conn := Some c\<rparr>))"

definition reset_gateway :: "WSGateway \<Rightarrow> WSGateway" where
  "reset_gateway g = g\<lparr>wg_conn := None\<rparr>"

text \<open>The reply: its id is a \<open>json.Number\<close> (a number, or a string that is one), its result stays text.\<close>

record rpc_reply =
  rp_id :: string
  rp_result :: string
  rp_error :: "(int \<times> string) option"

definition number_text :: "string \<Rightarrow> bool" where
  "number_text s \<longleftrightarrow> (case parse_number s of Some (n, r) \<Rightarrow> n \<noteq> [] \<and> r = [] | None \<Rightarrow> False)"

definition as_number :: "string \<Rightarrow> json \<Rightarrow> string option" where
  "as_number old v = (case v of JNull \<Rightarrow> Some old | JNum l \<Rightarrow> Some l | JStr s \<Rightarrow> if number_text s then Some s else None | _ \<Rightarrow> None)"

definition rpc_error_set :: "string \<Rightarrow> json \<Rightarrow> int \<times> string \<Rightarrow> (int \<times> string) option" where
  "rpc_error_set f v e =
     (if f = ''code'' then map_option (\<lambda>x. (x, snd e)) (as_int64 (fst e) v)
      else map_option (\<lambda>x. (fst e, x)) (as_string (snd e) v))"

definition reply_set :: "string \<Rightarrow> string \<Rightarrow> rpc_reply \<Rightarrow> rpc_reply option" where
  "reply_set f raw r =
     (case parse_json raw of
        None \<Rightarrow> None
      | Some v \<Rightarrow>
          if f = ''id'' then map_option (\<lambda>x. r\<lparr>rp_id := x\<rparr>) (as_number (rp_id r) v)
          else if f = ''result'' then Some (r\<lparr>rp_result := raw\<rparr>)
          else if v = JNull then Some (r\<lparr>rp_error := None\<rparr>)
          else map_option (\<lambda>x. r\<lparr>rp_error := Some x\<rparr>)
            (fill_struct [''code'', ''message''] rpc_error_set v (case rp_error r of Some e \<Rightarrow> e | None \<Rightarrow> (0, []))))"

definition decode_reply :: "string \<Rightarrow> rpc_reply option" where
  "decode_reply raw = unmarshal_raw [''id'', ''result'', ''error''] reply_set \<lparr>rp_id = [], rp_result = [], rp_error = None\<rparr> raw"

text \<open>The reading loop; running out of frames is the read error that ends it.\<close>

fun await_reply :: "int \<Rightarrow> string list \<Rightarrow> call_error + string" where
  "await_reply i [] = Inl ReadBroken"
| "await_reply i (raw # rest) =
     (case decode_reply raw of
        None \<Rightarrow> await_reply i rest
      | Some r \<Rightarrow>
          if rp_id r \<noteq> int_lit i then await_reply i rest
          else case rp_error r of
            Some (c, m) \<Rightarrow> Inl (RPCError c m)
          | None \<Rightarrow> Inr (rp_result r))"

definition request_frame :: "int \<Rightarrow> string \<Rightarrow> string \<Rightarrow> string" where
  "request_frame i mth params = ''{'' @ json_string ''id'' @ '':'' @ int_lit i @ '','' @ json_string ''jsonrpc'' @ '':'' @ json_string ''2.0'' @ '','' @
     json_string ''method'' @ '':'' @ json_string mth @ '','' @ json_string ''params'' @ '':'' @ params @ ''}''"

text \<open>\<open>Call\<close>: the result, the frame it wrote and the connection it wrote it on.\<close>

definition Call :: "call_env \<Rightarrow> string \<Rightarrow> string option \<Rightarrow> WSGateway \<Rightarrow> ((call_error + string) \<times> (nat \<times> string) option) \<times> WSGateway" where
  "Call e mth params g =
     (case connection e g of
        (Inl x, g1) \<Rightarrow> ((Inl x, None), g1)
      | (Inr c, g1) \<Rightarrow>
          let i = wg_next g1 + 1; g2 = g1\<lparr>wg_next := i\<rparr> in
          (case params of
             None \<Rightarrow> ((Inl ParamsUnmarshalable, None), g2)
           | Some p \<Rightarrow>
               if \<not> ce_write_ok e then ((Inl WriteBroken, None), reset_gateway g2)
               else let r = await_reply i (ce_frames e) in
                 ((r, Some (c, request_frame i mth p)), if r = Inl ReadBroken then reset_gateway g2 else g2)))"

definition Close_gateway :: "WSGateway \<Rightarrow> WSGateway" where
  "Close_gateway g = reset_gateway g"

section \<open>A call gets its own answer\<close>

definition answers :: "int \<Rightarrow> string \<Rightarrow> bool" where
  "answers i raw \<longleftrightarrow> (case decode_reply raw of None \<Rightarrow> False | Some r \<Rightarrow> rp_id r = int_lit i)"

lemma await_reply_first:
  "await_reply i frames = (case find (answers i) frames of
     None \<Rightarrow> Inl ReadBroken
   | Some raw \<Rightarrow> (case rp_error (the (decode_reply raw)) of Some (c, m) \<Rightarrow> Inl (RPCError c m) | None \<Rightarrow> Inr (rp_result (the (decode_reply raw)))))"
  by (induction frames) (auto simp: answers_def split: option.splits)

fun run_calls :: "(call_env \<times> string \<times> string option) list \<Rightarrow> WSGateway \<Rightarrow> WSGateway" where
  "run_calls [] g = g"
| "run_calls ((e, m, p) # cs) g = run_calls cs (snd (Call e m p g))"

lemma Call_next: "wg_next g \<le> wg_next (snd (Call e m p g))"
  by (auto simp: Call_def connection_def reset_gateway_def Let_def split: option.splits)

lemma run_calls_next: "wg_next g \<le> wg_next (run_calls cs g)"
  by (induction cs g rule: run_calls.induct) (auto intro: order_trans [OF Call_next])

lemma int_lit_inject: "int_lit i = int_lit j \<longleftrightarrow> i = j"
  by (metis parse_decimal_int_lit option.inject)

text \<open>A frame that answers one call answers no later one, so a late reply is skipped.\<close>

lemma answers_one: "answers i raw \<Longrightarrow> answers j raw \<Longrightarrow> i = j"
  by (auto simp: answers_def int_lit_inject split: option.splits)

text \<open>
  A gateway call takes its own answer only: a call that returns a result returns the one of the first frame
  bearing its number, the number it sent is larger than that of every call before it, and so no frame that answered an
  earlier call, nor an event or a reply that comes late, is taken for it.
\<close>

theorem call_own_answer:
  assumes "Call e m p (run_calls cs g) = ((Inr result, sent), g')"
  shows "\<exists>raw. find (answers (wg_next g')) (ce_frames e) = Some raw \<and> rp_result (the (decode_reply raw)) = result \<and>
    wg_next (run_calls cs g) < wg_next g' \<and> wg_next g < wg_next g' \<and>
    (\<forall>j. j \<le> wg_next (run_calls cs g) \<longrightarrow> \<not> answers j raw)"
proof -
  let ?g = "run_calls cs g"
  have i: "wg_next g' = wg_next ?g + 1" "await_reply (wg_next g') (ce_frames e) = Inr result"
    using assms by (auto simp: Call_def connection_def reset_gateway_def Let_def split: option.splits if_splits)
  then obtain raw where raw: "find (answers (wg_next g')) (ce_frames e) = Some raw" "rp_result (the (decode_reply raw)) = result"
    by (auto simp: await_reply_first split: option.splits)
  have "answers (wg_next g') raw" using raw(1) by (auto simp: find_Some_iff)
  then have "\<not> answers j raw" if "j \<le> wg_next ?g" for j using answers_one [of _ raw j] i(1) that by fastforce
  then show ?thesis using raw i(1) run_calls_next [of g cs] by auto
qed

end
