(* ===== verification/Setup.thy ===== *)
theory Setup
  imports Install Tailscale StateStoreSafety
begin

unbundle bit_operations_syntax

text \<open>
  cmd/hermote-bridge/main.go, what \<open>up\<close> decides before it touches the service: the transport, the configuration with
  its sticky defaults, the executable that launchd is given; and the replacement of the old command name afterwards.
  The file system and the terminal are parameters.
\<close>

section \<open>The transport\<close>

definition hostedRelayURL :: string where "hostedRelayURL = ''wss://relay.hermote.app''"

definition parseTransportChoice :: "(nat \<Rightarrow> nat) \<Rightarrow> string \<Rightarrow> string option" where
  "parseTransportChoice lower answer =
     (let a = ToLower lower (TrimSpace answer) in
      if List.member [[], ''1'', ''direct'', ''tailscale'', ''t''] a then Some TransportDirect
      else if List.member [''2'', ''relay'', ''r''] a then Some TransportRelay
      else None)"

text \<open>\<open>ReadString\<close> up to a newline: the line, whether the input ended in it, and the rest.\<close>

definition read_line :: "string \<Rightarrow> string \<times> bool \<times> string" where
  "read_line s =
     (case dropWhile (\<lambda>c. c \<noteq> CHR 0x0A) s of
        [] \<Rightarrow> (s, True, [])
      | n # t \<Rightarrow> (takeWhile (\<lambda>c. c \<noteq> CHR 0x0A) s @ [n], False, t))"

primrec choose_loop :: "(nat \<Rightarrow> nat) \<Rightarrow> nat \<Rightarrow> string \<Rightarrow> string" where
  "choose_loop lower 0 s = TransportDirect"
| "choose_loop lower (Suc n) s =
     (let (line, eof, rest) = read_line s in
      case parseTransportChoice lower line of
        Some t \<Rightarrow> t
      | None \<Rightarrow> if eof then TransportDirect else choose_loop lower n rest)"

definition chooseTransport :: "(nat \<Rightarrow> nat) \<Rightarrow> bool \<Rightarrow> string \<Rightarrow> string" where
  "chooseTransport lower interactive s = (if \<not> interactive then TransportDirect else choose_loop lower 3 s)"

section \<open>The configuration\<close>

text \<open>The flags of \<open>up\<close> as parsed; empty and zero are their defaults.\<close>

record up_flags =
  uf_transport :: string
  uf_relay :: string
  uf_name :: string
  uf_httpsPort :: int
  uf_bridgePort :: int

definition no_flags :: up_flags where
  "no_flags = \<lparr>uf_transport = [], uf_relay = [], uf_name = [], uf_httpsPort = 0, uf_bridgePort = 0\<rparr>"

definition trim_slashes :: "string \<Rightarrow> string" where
  "trim_slashes s = rev (dropWhile (\<lambda>c. c = CHR ''/'') (rev s))"

text \<open>A setting: the flag, else what is stored, else the default.\<close>

definition sticky :: "'a \<Rightarrow> 'a \<Rightarrow> 'a \<Rightarrow> 'a \<Rightarrow> 'a" where
  "sticky unset flg stored dflt = (if flg \<noteq> unset then flg else if stored \<noteq> unset then stored else dflt)"

text \<open>\<open>None\<close> is an unknown transport; \<open>answer\<close> is what \<open>chooseTransport\<close> would return, \<open>host\<close> the host name. The relay
  address loses its final slashes before it is stored, and only the relay transport has a default for it.\<close>

definition up_config :: "up_flags \<Rightarrow> string \<Rightarrow> string \<Rightarrow> string \<Rightarrow> Config \<Rightarrow> Config option" where
  "up_config fl python answer host cfg0 =
     (let t = sticky [] (uf_transport fl) (cfTransport cfg0) answer;
          r = (if uf_relay fl \<noteq> [] then trim_slashes (uf_relay fl) else cfRelayURL cfg0) in
      if t \<noteq> TransportDirect \<and> t \<noteq> TransportRelay then None
      else Some \<lparr>cfTransport = t, cfRelayURL = (if t = TransportRelay \<and> r = [] then hostedRelayURL else r),
          cfHTTPSPort = sticky 0 (uf_httpsPort fl) (cfHTTPSPort cfg0) 8443,
          cfBridgePort = sticky 0 (uf_bridgePort fl) (cfBridgePort cfg0) 9120,
          cfName = sticky [] (uf_name fl) (cfName cfg0) (trim_suffix host ''.local''), cfPython = python\<rparr>)"

section \<open>The executable of the service\<close>

text \<open>\<open>filepath.path_base\<close> of a rooted path as \<open>filepath.Abs\<close> returns it.\<close>

definition path_base :: "string \<Rightarrow> string" where
  "path_base path = (case Clean path of [] \<Rightarrow> ''/'' | s # ss \<Rightarrow> last (s # ss))"

definition sibling :: "string \<Rightarrow> string \<Rightarrow> string" where
  "sibling path name = rooted (Clean (Dir path @ ''/'' @ name))"

definition with_canonical :: "string \<Rightarrow> string list" where
  "with_canonical path = (if path_base path = ''hermes-remote'' then [sibling path ''hermote-bridge'', path] else [path])"

definition same_file :: "file_system \<Rightarrow> string \<Rightarrow> string \<Rightarrow> bool" where
  "same_file F a b =
     (case (fs_stat F a, fs_stat F b) of
        (Some x, Some y) \<Rightarrow> fi_device x = fi_device y \<and> fi_inode x = fi_inode y | _ \<Rightarrow> False)"

text \<open>\<open>lookPath\<close> answers with rooted paths, as \<open>exec.LookPath\<close> does without an error for a name without slashes.\<close>

definition service_candidates :: "string option \<Rightarrow> string \<Rightarrow> string \<Rightarrow> (string \<Rightarrow> string option) \<Rightarrow> string list" where
  "service_candidates cwd executable invoked lookPath =
     (case lookPath ''hermote-bridge'' of Some p \<Rightarrow> [p] | None \<Rightarrow> []) @
     (if List.member invoked (CHR ''/'')
      then (case Abs cwd invoked of Some p \<Rightarrow> with_canonical (rooted p) | None \<Rightarrow> [])
      else (case lookPath invoked of Some p \<Rightarrow> with_canonical p | None \<Rightarrow> [])) @
     [executable]"

definition stableServiceExecutableAt ::
  "file_system \<Rightarrow> string option \<Rightarrow> string \<Rightarrow> string \<Rightarrow> (string \<Rightarrow> string option) \<Rightarrow> string option" where
  "stableServiceExecutableAt F cwd executable0 invoked lookPath =
     (case Abs cwd executable0 of
        None \<Rightarrow> None
      | Some e \<Rightarrow>
          map_option (\<lambda>p. rooted (Clean p))
            (find (\<lambda>p. same_file F p (rooted e))
              (List.map_filter (\<lambda>c. map_option rooted (Abs cwd c)) (service_candidates cwd (rooted e) invoked lookPath))))"

section \<open>The old command name\<close>

definition three_numbers :: "string \<Rightarrow> bool" where
  "three_numbers s \<longleftrightarrow> length (split_on (CHR ''.'') s) = 3 \<and> list_all (\<lambda>g. g \<noteq> [] \<and> list_all is_digit g) (split_on (CHR ''.'') s)"

definition legacyVersionOutput :: "string \<Rightarrow> bool" where
  "legacyVersionOutput s \<longleftrightarrow> has_prefix s ''hermes-remote '' \<and>
     (let v = drop (length ''hermes-remote '') s in v = ''dev'' \<or> three_numbers v \<or> v \<noteq> [] \<and> hd v = CHR ''v'' \<and> three_numbers (tl v))"

text \<open>A directory entry; for a link, also what \<open>os.Stat\<close> says of its target.\<close>

datatype entry = SymLink string "(bool \<times> nat) option" | OtherEntry bool nat

datatype migrate_error = NoWorkDir | LstatFailed | ReadlinkFailed | FollowFailed | SymlinkFailed | RenameFailed

record migrate_env =
  me_cwd :: "string option"
  me_lstat_ok :: bool
  me_readlink_ok :: bool
  me_follow_ok :: bool
  me_version :: "string \<times> bool"
  me_staged_name :: string
  me_symlink_ok :: bool
  me_rename_ok :: bool
  me_remove_ok :: bool

text \<open>The new link, whose target is the canonical command.\<close>

definition alias_link :: "(string, entry) gomap \<Rightarrow> entry" where
  "alias_link dir = SymLink ''hermote-bridge''
     (case map_of dir ''hermote-bridge'' of Some (OtherEntry reg md) \<Rightarrow> Some (reg, md) | Some (SymLink _ t) \<Rightarrow> t | None \<Rightarrow> None)"

text \<open>What stands in the way of replacing the entry: an error, or nothing to do; \<open>None\<close> is a recognized old bridge.\<close>

definition not_legacy :: "migrate_env \<Rightarrow> entry \<Rightarrow> (migrate_error + bool) option" where
  "not_legacy E x =
     (let info = (case x of
            OtherEntry reg md \<Rightarrow> Inr (reg, md)
          | SymLink target followed \<Rightarrow>
              if \<not> me_readlink_ok E then Inl (Inl ReadlinkFailed)
              else if target = ''hermote-bridge'' then Inl (Inr False)
              else if \<not> me_follow_ok E then Inl (Inl FollowFailed)
              else (case followed of None \<Rightarrow> Inl (Inr False) | Some i \<Rightarrow> Inr i)) in
      case info of
        Inl r \<Rightarrow> Some r
      | Inr (regular, mode) \<Rightarrow>
          if \<not> regular \<or> (of_nat mode :: 9 word) AND 73 = 0 then Some (Inr False)
          else if \<not> snd (me_version E) \<or> \<not> legacyVersionOutput (TrimSpace (fst (me_version E))) then Some (Inr False)
          else None)"

definition migrateLegacyCommand :: "migrate_env \<Rightarrow> string \<Rightarrow> (string, entry) gomap \<Rightarrow> (migrate_error + bool) \<times> (string, entry) gomap" where
  "migrateLegacyCommand E canonical dir =
     (case Abs (me_cwd E) canonical of
        None \<Rightarrow> (Inl NoWorkDir, dir)
      | Some path \<Rightarrow>
          if path_base (rooted path) \<noteq> ''hermote-bridge'' then (Inr False, dir)
          else if \<not> me_lstat_ok E then (Inl LstatFailed, dir)
          else (case map_of dir ''hermes-remote'' of
              None \<Rightarrow> (Inr False, dir)
            | Some x \<Rightarrow>
                (case not_legacy E x of
                   Some r \<Rightarrow> (r, dir)
                 | None \<Rightarrow>
                     let staged = ''hermes-remote.alias.'' @ me_staged_name E in
                     if \<not> me_symlink_ok E \<or> map_of dir staged \<noteq> None then (Inl SymlinkFailed, dir)
                     else let dir1 = AList.update staged (alias_link dir) dir in
                       if me_rename_ok E then (Inr True, AList.update ''hermes-remote'' (alias_link dir) (AList.delete staged dir1))
                       else (Inl RenameFailed, if me_remove_ok E then AList.delete staged dir1 else dir1))))"

section \<open>Properties\<close>

lemma choose_valid: "chooseTransport lower b s \<in> {TransportDirect, TransportRelay}"
proof -
  have "choose_loop lower n s \<in> {TransportDirect, TransportRelay}" for n
    by (induction n arbitrary: s) (auto simp: parseTransportChoice_def Let_def split: prod.splits option.splits if_splits)
  then show ?thesis by (simp add: chooseTransport_def)
qed

definition usable_config :: "Config \<Rightarrow> bool" where
  "usable_config c \<longleftrightarrow> cfTransport c \<in> {TransportDirect, TransportRelay} \<and> (cfTransport c = TransportRelay \<longrightarrow> cfRelayURL c \<noteq> []) \<and>
     cfHTTPSPort c \<noteq> 0 \<and> cfBridgePort c \<noteq> 0"

lemma transports_differ [simp]: "TransportDirect \<noteq> TransportRelay" "TransportRelay \<noteq> TransportDirect" "TransportDirect \<noteq> []" "TransportRelay \<noteq> []"
  by (simp_all add: TransportDirect_def TransportRelay_def)

lemma hosted_relay [simp]: "hostedRelayURL \<noteq> []"
  by (simp add: hostedRelayURL_def)

lemma sticky_set [simp]: "d \<noteq> u \<Longrightarrow> sticky u a b d \<noteq> u" "b \<noteq> u \<Longrightarrow> sticky u u b d = b" "sticky u u u d = d" "a \<noteq> u \<Longrightarrow> sticky u a b d = a"
  by (simp_all add: sticky_def)

lemma up_config_Some:
  assumes "up_config fl python answer host c0 = Some c"
  shows "usable_config c" "cfPython c = python" "cfTransport c = sticky [] (uf_transport fl) (cfTransport c0) answer"
  using assms by (auto simp: up_config_def usable_config_def Let_def split: if_split_asm)

lemma up_config_again:
  assumes "usable_config c" "cfName c \<noteq> []"
  shows "up_config no_flags python answer host c = Some (c\<lparr>cfPython := python\<rparr>)"
proof -
  have "cfTransport c \<noteq> []" using assms(1) by (auto simp: usable_config_def)
  with assms show ?thesis by (cases c) (auto simp: up_config_def usable_config_def no_flags_def Let_def)
qed

lemma save_then_load:
  assumes "\<not> st_closed st"
  shows "SaveConfig no_faults c st = ([], st\<lparr>st_disk := (st_disk st)\<lparr>dk_config := Data c\<rparr>\<rparr>)"
    "fst (Load_Config no_faults (st\<lparr>st_disk := (st_disk st)\<lparr>dk_config := Data c\<rparr>\<rparr>)) = ([], c)"
  using assms by (simp_all add: SaveConfig_def Load_Config_def locked_def writeFile_outcome no_faults_def)

text \<open>
  The choices of \<open>up\<close> stick: a configuration it accepts has a known transport, a relay address when it needs one and
  both ports, so the daemon can start from it; saved without a fault it is what the next run loads, and a later run
  without flags, whatever the person would answer and whatever the host is called by then, changes nothing in it but
  the interpreter; without an interpreter-independent choice on disk the answer decides, and it is always a known one.
\<close>

theorem setup_sticks:
  assumes "up_config fl python answer host c0 = Some c" "cfName c \<noteq> []"
    and "\<not> st_closed st" "SaveConfig no_faults c st = ([], st')"
  shows "usable_config c \<and> fst (Load_Config no_faults st') = ([], c) \<and>
    up_config no_flags python' answer' host' (snd (fst (Load_Config no_faults st'))) = Some (c\<lparr>cfPython := python'\<rparr>) \<and>
    (cfTransport c0 = [] \<and> uf_transport fl = [] \<longrightarrow> cfTransport c = answer) \<and>
    (uf_transport fl \<noteq> [] \<longrightarrow> cfTransport c = uf_transport fl) \<and>
    (uf_transport fl = [] \<and> cfTransport c0 \<noteq> [] \<longrightarrow> cfTransport c = cfTransport c0)"
proof -
  have load: "fst (Load_Config no_faults st') = ([], c)"
    using save_then_load [OF assms(3), of c] assms(4) by simp
  have "cfTransport c = answer" if "cfTransport c0 = []" "uf_transport fl = []"
    using up_config_Some(3) [OF assms(1)] that by simp
  with load up_config_Some [OF assms(1)] up_config_again [OF up_config_Some(1) [OF assms(1)] assms(2), of python' answer' host']
  show ?thesis by simp
qed

definition relay_flags :: up_flags where
  "relay_flags = no_flags\<lparr>uf_transport := ''relay''\<rparr>"

theorem setup_sticks_witness:
  "\<exists>c st'. up_config relay_flags ''/p'' ''direct'' ''mac.local'' zero_config = Some c \<and> SaveConfig no_faults c empty_store = ([], st') \<and>
     up_config no_flags ''/q'' ''direct'' ''other'' (snd (fst (Load_Config no_faults st'))) = Some (c\<lparr>cfPython := ''/q''\<rparr>) \<and>
     cfTransport c = TransportRelay"
proof -
  obtain c where c: "up_config relay_flags ''/p'' ''direct'' ''mac.local'' zero_config = Some c" "cfName c = ''mac''" "cfTransport c = TransportRelay"
    by (simp add: up_config_def relay_flags_def no_flags_def zero_config_def TransportDirect_def TransportRelay_def trim_suffix_def
        has_suffix_def Let_def)
  have open_store: "\<not> st_closed empty_store" by (simp add: empty_store_def)
  from setup_sticks [OF c(1) _ open_store save_then_load(1) [OF open_store], of "''/q''" "''direct''" "''other''"] c
    save_then_load(1) [OF open_store, of c] show ?thesis by auto
qed

section \<open>The executable is this process\<close>

lemma Abs_clean: "Abs cwd p = Some q \<Longrightarrow> clean_path q"
  by (auto simp: Abs_def clean_Clean split: if_splits)

lemma Abs_rooted: "clean_path q \<Longrightarrow> Abs cwd (rooted q) = Some q"
  by (cases q) (simp_all add: Abs_def Clean_rooted has_prefix_def, simp_all add: rooted_def)

text \<open>
  The path given to launchd is this very program: when \<open>up\<close> finds a path, it is a cleaned absolute path whose file is
  the running executable's, whatever else is found on the search path or was typed; it finds one whenever the
  running executable can still be examined, and it takes the canonical command of the search path when that is the
  same file.
\<close>

theorem service_executable:
  assumes "Abs cwd executable = Some e"
  shows "(\<forall>p. stableServiceExecutableAt F cwd executable invoked look = Some p \<longrightarrow>
      same_file F p (rooted e) \<and> (\<exists>q. clean_path q \<and> p = rooted q)) \<and>
    (fs_stat F (rooted e) \<noteq> None \<longrightarrow> stableServiceExecutableAt F cwd executable invoked look \<noteq> None) \<and>
    (\<forall>c q. look ''hermote-bridge'' = Some c \<longrightarrow> Abs cwd c = Some q \<longrightarrow> same_file F (rooted q) (rooted e) \<longrightarrow>
       stableServiceExecutableAt F cwd executable invoked look = Some (rooted q))"
proof -
  let ?cs = "List.map_filter (\<lambda>c. map_option rooted (Abs cwd c)) (service_candidates cwd (rooted e) invoked look)"
  let ?same = "\<lambda>p. same_file F p (rooted e)"
  have def: "stableServiceExecutableAt F cwd executable invoked look = map_option (\<lambda>p. rooted (Clean p)) (find ?same ?cs)"
    by (simp add: stableServiceExecutableAt_def assms)
  have cand: "\<exists>q. clean_path q \<and> c = rooted q" if "c \<in> set ?cs" for c
    using that by (auto simp: map_filter_def dest: Abs_clean)
  have found: "same_file F p (rooted e) \<and> (\<exists>q. clean_path q \<and> p = rooted q)"
    if r: "stableServiceExecutableAt F cwd executable invoked look = Some p" for p
  proof -
    obtain c where c: "find ?same ?cs = Some c" "p = rooted (Clean c)" using r unfolding def by blast
    then have "c \<in> set ?cs" "?same c" by (auto simp: find_Some_iff)
    with cand [of c] c(2) show ?thesis by (auto simp: Clean_rooted)
  qed
  have last_cand: "rooted e \<in> set ?cs"
    using Abs_rooted [OF Abs_clean [OF assms], of cwd] by (auto simp: map_filter_def service_candidates_def image_iff)
  have "find ?same ?cs \<noteq> None" if "fs_stat F (rooted e) \<noteq> None"
    using last_cand that by (auto simp: find_None_iff same_file_def)
  then have total: "stableServiceExecutableAt F cwd executable invoked look \<noteq> None" if "fs_stat F (rooted e) \<noteq> None"
    using that unfolding def by blast
  have first: "stableServiceExecutableAt F cwd executable invoked look = Some (rooted q)"
    if "look ''hermote-bridge'' = Some c" "Abs cwd c = Some q" "?same (rooted q)" for c q
  proof -
    have "\<exists>cs. ?cs = rooted q # cs" using that(1,2) by (auto simp: service_candidates_def map_filter_def)
    then have "find ?same ?cs = Some (rooted q)" using that(3) by auto
    then show ?thesis unfolding def by (simp add: Clean_rooted [OF Abs_clean [OF that(2)]])
  qed
  show ?thesis using found total first by blast
qed

definition demo_file :: file_info where
  "demo_file = \<lparr>fi_device = 1, fi_inode = 2, fi_regular = True, fi_dir = False, fi_symlink = False, fi_uid = 501, fi_writable_by_others = False\<rparr>"

definition demo_files :: file_system where
  "demo_files = \<lparr>fs_stat = (\<lambda>p. if p = ''/x'' then Some demo_file else None), fs_lstat = (\<lambda>_. None), fs_evalSymlinks = (\<lambda>_. None),
     fs_access = (\<lambda>_. True)\<rparr>"

theorem service_executable_witness:
  "stableServiceExecutableAt demo_files None ''/x'' ''x'' (\<lambda>_. None) \<noteq> None"
  using service_executable [of None "''/x''" "[''x'']" demo_files "''x''" "\<lambda>_. None"]
  by (simp add: Abs_def has_prefix_def Clean_def clean_push_def rooted_def demo_files_def)

section \<open>The old command is replaced only when it is one\<close>

lemma not_legacy_Some: "not_legacy E x = Some r \<Longrightarrow> r \<noteq> Inr True"
  by (cases x) (auto simp: not_legacy_def Let_def split: if_splits option.splits)

lemma not_legacy_None: "not_legacy E x = None \<Longrightarrow> snd (me_version E) \<and> legacyVersionOutput (TrimSpace (fst (me_version E)))"
  by (cases x) (auto simp: not_legacy_def Let_def split: if_splits option.splits)

lemma migrate_cases:
  assumes "migrateLegacyCommand E canonical dir = (r, dir')"
  obtains (same) "dir' = dir" "r \<noteq> Inr True"
    | (staged) x staged where "staged = ''hermes-remote.alias.'' @ me_staged_name E" "map_of dir ''hermes-remote'' = Some x"
        "not_legacy E x = None" "map_of dir staged = None"
        "me_rename_ok E \<and> r = Inr True \<and>
           dir' = AList.update ''hermes-remote'' (alias_link dir) (AList.delete staged (AList.update staged (alias_link dir) dir)) \<or>
         \<not> me_rename_ok E \<and> r = Inl RenameFailed \<and> dir' = (if me_remove_ok E then AList.delete staged (AList.update staged (alias_link dir) dir)
           else AList.update staged (alias_link dir) dir)"
proof (cases "dir' = dir \<and> r \<noteq> Inr True")
  case False
  then obtain x where x: "map_of dir ''hermes-remote'' = Some x" "not_legacy E x = None"
    using assms not_legacy_Some by (fastforce simp: migrateLegacyCommand_def split: option.splits if_splits)
  show thesis
    using assms False x by (intro staged [OF refl x]) (auto simp: migrateLegacyCommand_def Let_def split: option.splits if_splits)
qed (use same in blast)

text \<open>
  \<open>up\<close> replaces a file called hermes-remote only by the link to the canonical command, and only when it reports so;
  it never does unless the program with that name is an executable file that printed the version line of an old
  bridge. Every other outcome, errors included, leaves the entry as it was; no other entry of the directory ever
  changes, and the staged link is gone unless its removal failed.
\<close>

theorem legacy_replaced_safely:
  assumes "migrateLegacyCommand E canonical dir = (r, dir')"
  shows "(r = Inr True \<longrightarrow> map_of dir' ''hermes-remote'' = Some (alias_link dir) \<and> snd (me_version E) \<and>
       legacyVersionOutput (TrimSpace (fst (me_version E)))) \<and>
     (r \<noteq> Inr True \<longrightarrow> map_of dir' ''hermes-remote'' = map_of dir ''hermes-remote'') \<and>
     (\<forall>n. n \<noteq> ''hermes-remote'' \<longrightarrow> map_of dir' n = map_of dir n \<or>
        r = Inl RenameFailed \<and> \<not> me_remove_ok E \<and> n = ''hermes-remote.alias.'' @ me_staged_name E)"
  using assms
proof (cases rule: migrate_cases)
  case same
  then show ?thesis by simp
next
  case (staged x staged)
  have "staged \<noteq> ''hermes-remote''" using staged(1) by simp
  then have "map_of dir' ''hermes-remote'' = (if r = Inr True then Some (alias_link dir) else map_of dir ''hermes-remote'')"
    using staged(5) by (auto simp: update_conv' delete_conv')
  moreover have "map_of dir' n = map_of dir n \<or> r = Inl RenameFailed \<and> \<not> me_remove_ok E \<and> n = staged" if "n \<noteq> ''hermes-remote''" for n
    using staged(4,5) that by (cases "n = staged") (auto simp: update_conv' delete_conv')
  ultimately show ?thesis using not_legacy_None [OF staged(3)] unfolding staged(1) by auto
qed

definition demo_migration :: migrate_env where
  "demo_migration = \<lparr>me_cwd = None, me_lstat_ok = True, me_readlink_ok = True, me_follow_ok = True,
     me_version = (''hermes-remote v1.2.3'', True), me_staged_name = ''7'', me_symlink_ok = True, me_rename_ok = True, me_remove_ok = True\<rparr>"

theorem legacy_replaced_safely_witness:
  "migrateLegacyCommand demo_migration ''/hermote-bridge'' [(''hermes-remote'', OtherEntry True 493)] =
     (Inr True, [(''hermes-remote'', SymLink ''hermote-bridge'' None)]) \<and>
   legacyVersionOutput (TrimSpace (fst (me_version demo_migration)))"
proof -
  have t: "TrimSpace ''hermes-remote v1.2.3'' = ''hermes-remote v1.2.3''"
    using TrimSpace_graphic [of "CHR ''h''" "CHR ''3''" "''ermes-remote v1.2.''"] by simp
  have v: "legacyVersionOutput ''hermes-remote v1.2.3''" by code_simp
  have path: "Abs None ''/hermote-bridge'' = Some [''hermote-bridge'']" by code_simp
  have name: "path_base (rooted [''hermote-bridge'']) = ''hermote-bridge''" by code_simp
  have "not_legacy demo_migration (OtherEntry True 493) = None"
    unfolding not_legacy_def demo_migration_def by (simp add: t v)
  then have r: "migrateLegacyCommand demo_migration ''/hermote-bridge'' [(''hermes-remote'', OtherEntry True 493)] =
     (Inr True, [(''hermes-remote'', SymLink ''hermote-bridge'' None)])"
    unfolding migrateLegacyCommand_def by (simp add: path name demo_migration_def alias_link_def Let_def)
  with legacy_replaced_safely [OF r] show ?thesis by simp
qed

end
