(* ===== verification/Daemon.thy ===== *)
theory Daemon
  imports Admission PushWatcher PairLink Control Launchd RelayMux PushAlerts
begin

text \<open>
  cmd/hermote-bridge/daemon.go: the long-running process. Its state is the bridge server, the configuration, the push
  registry and the cached public URL; the operations are those of the control socket and of the bridge's own routes,
  composed of the components' operations. What Tailscale, the clock, the disk and the LaunchAgent file answer is given.
\<close>

record daemon =
  dm_identity :: Identity
  dm_cfg :: Config
  dm_bridge :: bridge
  dm_supervisor :: Supervisor
  dm_relay :: "RelayDialer option"
  dm_pushes :: "Registry option"
  dm_watching :: bool
  dm_startedAt :: gotime
  dm_launchID :: string
  dm_exec :: ExecIdentity
  dm_checker :: Checker
  dm_publicURL :: string
  dm_publicAt :: gotime

datatype daemon_error =
    NotConfigured | NoExecutable | StoreError "state_error list" | NoIdentity | NoSupervisor
  | TailscaleMissing | TailscaleBroken tail_error | TailscaleIs string | NoPairCode

section \<open>Starting\<close>

definition configured :: "Config \<Rightarrow> bool" where
  "configured cfg \<longleftrightarrow> cfPython cfg \<noteq> [] \<and> cfBridgePort cfg \<noteq> 0"

text \<open>\<open>runDaemon\<close> up to its goroutines; the executable's identity is captured before anything else. \<open>opts\<close> are the
  supervisor's options with the configured interpreter.\<close>

definition runDaemon ::
  "ExecIdentity option \<Rightarrow> faults \<Rightarrow> faults \<Rightarrow> rng \<Rightarrow> rng \<Rightarrow> Options \<Rightarrow> gotime \<Rightarrow> string \<Rightarrow> string \<Rightarrow> Store \<Rightarrow> daemon_error + daemon" where
  "runDaemon exec f g r1 r2 opts now version launchID st =
     (case exec of
        None \<Rightarrow> Inl NoExecutable
      | Some x \<Rightarrow>
          (case Load_Config f st of
             ((e, cfg), st1) \<Rightarrow>
               if e \<noteq> [] then Inl (StoreError e)
               else if \<not> configured cfg then Inl NotConfigured
               else case Store_Identity g r1 st1 of
                 ((e, i), st2) \<Rightarrow>
                   if e \<noteq> [] then Inl (StoreError e)
                   else case i of
                     None \<Rightarrow> Inl NoIdentity
                   | Some idn \<Rightarrow>
                       (case New_supervisor (opts\<lparr>op_Python := cfPython cfg\<rparr>) r2 now of
                          None \<Rightarrow> Inl NoSupervisor
                        | Some (_, gw) \<Rightarrow>
                            Inr \<lparr>dm_identity = idn, dm_cfg = cfg,
                              dm_bridge = as_bridge (new_bridge st2), dm_supervisor = gw,
                              dm_relay = (if cfTransport cfg = TransportRelay then Some \<lparr>rd_attached = False, rd_lastErr = []\<rparr> else None),
                              dm_pushes = None, dm_watching = False, dm_startedAt = now, dm_launchID = launchID, dm_exec = x,
                              dm_checker = NewChecker version, dm_publicURL = [], dm_publicAt = 0\<rparr>)))"

text \<open>\<open>startPush\<close>: registrations are recorded whenever the registry opens, the watcher runs only with a usable key.\<close>

definition startPush :: "Registry option \<Rightarrow> bool \<Rightarrow> bool \<Rightarrow> daemon \<Rightarrow> bool \<times> daemon" where
  "startPush registry config_ok client_ok d =
     (case registry of
        None \<Rightarrow> (False, d)
      | Some r \<Rightarrow>
          let d1 = d\<lparr>dm_pushes := Some r\<rparr> in
          if config_ok \<and> client_ok then (True, d1\<lparr>dm_watching := True\<rparr>) else (False, d1))"

text \<open>The \<open>OnPush\<close> hook.\<close>

definition on_push :: "os_write \<Rightarrow> string \<Rightarrow> PushRegistration \<Rightarrow> gotime \<Rightarrow> daemon \<Rightarrow> daemon" where
  "on_push w i reg now d =
     (case dm_pushes d of
        None \<Rightarrow> d
      | Some r \<Rightarrow> d\<lparr>dm_pushes := Some (snd (Set_registration w i reg now r))\<rparr>)"

definition pairedDeviceIDs :: "faults \<Rightarrow> daemon \<Rightarrow> (state_error list + string list) \<times> daemon" where
  "pairedDeviceIDs f d =
     (case Devices f (br_store (dm_bridge d)) of
        ((e, ds), st) \<Rightarrow> (if e \<noteq> [] then Inl e else Inr (map dID ds), d\<lparr>dm_bridge := (dm_bridge d)\<lparr>br_store := st\<rparr>\<rparr>))"

definition debug_logging :: "string \<Rightarrow> string \<Rightarrow> bool" where
  "debug_logging hermote hermes \<longleftrightarrow> hermote \<noteq> [] \<or> hermes \<noteq> []"

section \<open>The address of phones\<close>

text \<open>What Tailscale answers: not found, or the output of its status command.\<close>

datatype tail_answer = TailMissing | TailOutput "string option"

definition public_url :: "string \<Rightarrow> int \<Rightarrow> string" where
  "public_url host port = ''wss://'' @ host @ '':'' @ int_lit port @ ''/v1/bridge''"

definition PublicURL :: "tail_answer \<Rightarrow> gotime \<Rightarrow> daemon \<Rightarrow> (daemon_error + string) \<times> daemon" where
  "PublicURL ta now d =
     (if cfTransport (dm_cfg d) = TransportRelay then (Inr (cfRelayURL (dm_cfg d) @ ''/v1/phone''), d)
      else if dm_publicURL d \<noteq> [] \<and> now - dm_publicAt d < 60 * nanos then (Inr (dm_publicURL d), d)
      else case ta of
        TailMissing \<Rightarrow> (Inl TailscaleMissing, d)
      | TailOutput out \<Rightarrow>
          (case CLI_Status out of
             (Some e, _) \<Rightarrow> (Inl (TailscaleBroken e), d)
           | (None, st) \<Rightarrow>
               if ts_BackendState st \<noteq> ''Running'' \<or> ts_DNSName st = [] then (Inl (TailscaleIs (ts_BackendState st)), d)
               else let u = public_url (ts_DNSName st) (cfHTTPSPort (dm_cfg d)) in
                 (Inr u, d\<lparr>dm_publicURL := u, dm_publicAt := now\<rparr>)))"

section \<open>The control backend\<close>

definition daemon_Pair :: "crypto \<Rightarrow> rng \<Rightarrow> tail_answer \<Rightarrow> gotime \<Rightarrow> daemon \<Rightarrow> (daemon_error + string \<times> gotime) \<times> daemon" where
  "daemon_Pair C r ta now d =
     (case PublicURL ta now d of
        (Inl e, d1) \<Rightarrow> (Inl e, d1)
      | (Inr u, d1) \<Rightarrow>
          (case Issue r PairTTL now (br_pairings (dm_bridge d1)) of
             (None, _) \<Rightarrow> (Inl NoPairCode, d1)
           | (Some (code, expires), p) \<Rightarrow>
               (Inr (PairPayload_String \<lparr>pp_Version = Identity.Version, pp_Transport = cfTransport (dm_cfg d1), pp_URL = u,
                       pp_SessionID = SessionID C (dm_identity d1), pp_BridgeKey = Public C (dm_identity d1), pp_Code = code,
                       pp_Expires = expires, pp_Name = cfName (dm_cfg d1)\<rparr>, expires),
                d1\<lparr>dm_bridge := (dm_bridge d1)\<lparr>br_pairings := p\<rparr>\<rparr>)))"

text \<open>\<open>Revoke\<close>: the server's revocation, then the push registration; a failure to save the registry is only logged. An
  error that the server returns after the removal took effect ends it before the registration.\<close>

definition daemon_Revoke :: "faults \<Rightarrow> os_write \<Rightarrow> string \<Rightarrow> daemon \<Rightarrow> (state_error list + string) \<times> daemon" where
  "daemon_Revoke f w idOrPrefix d =
     (case Revoke_remove f idOrPrefix (dm_bridge d) of
        ((e, None), b) \<Rightarrow> (Inl e, d\<lparr>dm_bridge := b\<rparr>)
      | ((e, Some i), b) \<Rightarrow>
          let d1 = d\<lparr>dm_bridge := Revoke_advance i b\<rparr> in
          if e \<noteq> [] then (Inl e, d1)
          else (Inr i, d1\<lparr>dm_pushes := (case dm_pushes d1 of None \<Rightarrow> None | Some r \<Rightarrow> Some (snd (Remove w i r)))\<rparr>))"

record control_status =
  st_LaunchID :: string
  st_SessionID :: string
  st_Transport :: string
  st_Name :: string
  st_Gateway :: State
  st_GatewayPort :: int
  st_BridgeAddr :: string
  st_PublicURL :: "string option"
  st_Connections :: nat
  st_Pending :: nat
  st_Devices :: "Device list"
  st_StartedAt :: gotime
  st_Version :: string
  st_Incarnation :: string
  st_ExecutableSHA256 :: string
  st_Warnings :: "(daemon_error + string) list"
  st_Relay :: "(string \<times> bool) option"

definition daemon_Status :: "crypto \<Rightarrow> faults \<Rightarrow> tail_answer \<Rightarrow> gotime \<Rightarrow> string \<Rightarrow> daemon \<Rightarrow> control_status \<times> daemon" where
  "daemon_Status C f ta now version d =
     (let ((_, devices), st) = Devices f (br_store (dm_bridge d));
          b = (dm_bridge d)\<lparr>br_store := st, br_pairings := snd (Outstanding now (br_pairings (dm_bridge d)))\<rparr>;
          (u, d1) = PublicURL ta now (d\<lparr>dm_bridge := b\<rparr>);
          unattached = (case dm_relay d of
             Some rd \<Rightarrow> if fst (Attached rd) then []
               else [Inr (''not attached to the relay'' @ (if snd (Attached rd) \<noteq> [] then '': '' @ snd (Attached rd) else []))]
           | None \<Rightarrow> []) in
      (\<lparr>st_LaunchID = dm_launchID d, st_SessionID = SessionID C (dm_identity d), st_Transport = cfTransport (dm_cfg d),
        st_Name = cfName (dm_cfg d), st_Gateway = su_state (dm_supervisor d), st_GatewayPort = fst (Port (dm_supervisor d)),
        st_BridgeAddr = ''127.0.0.1:'' @ int_lit (cfBridgePort (dm_cfg d)),
        st_PublicURL = (case u of Inr x \<Rightarrow> Some x | Inl _ \<Rightarrow> None), st_Connections = ConnectionCount (dm_bridge d),
        st_Pending = Pending_codes now (br_pairings (dm_bridge d)), st_Devices = devices, st_StartedAt = dm_startedAt d,
        st_Version = version, st_Incarnation = xi_Incarnation (dm_exec d), st_ExecutableSHA256 = xi_SHA256 (dm_exec d),
        st_Warnings = (case u of Inl e \<Rightarrow> [Inl e] | Inr _ \<Rightarrow> []) @ unattached,
        st_Relay = map_option (\<lambda>rd. (cfRelayURL (dm_cfg d), fst (Attached rd))) (dm_relay d)\<rparr>, d1))"

section \<open>The bridge's own routes\<close>

text \<open>\<open>install\<close>: on macOS the LaunchAgent's executable, when the plist can be read.\<close>

definition daemon_install :: "file_system \<Rightarrow> (string \<Rightarrow> bool) \<Rightarrow> string \<Rightarrow> string \<Rightarrow> int \<Rightarrow> string option \<Rightarrow> daemon \<Rightarrow> Install" where
  "daemon_install F wide version goos uid plist_text d =
     (let exe = (if goos = ''darwin'' then (case plist_text of
              None \<Rightarrow> []
            | Some t \<Rightarrow> (case programExecutable wide t of Some x \<Rightarrow> x | None \<Rightarrow> [])) else []) in
      DetectInstall F (dm_exec d) \<lparr>ev_Version = version, ev_GOOS = goos, ev_UID = uid, ev_Managed = dm_launchID d \<noteq> [],
        ev_ServiceExecutable = exe\<rparr>)"

definition daemon_BridgeStatus :: "faults \<Rightarrow> string \<Rightarrow> string \<Rightarrow> string \<Rightarrow> Install \<Rightarrow> daemon \<Rightarrow> BridgeStatus \<times> daemon" where
  "daemon_BridgeStatus f version goos goarch inst d =
     (let ((_, devices), st) = Devices f (br_store (dm_bridge d)) in
      (NewBridgeStatus \<lparr>sf_Version = version, sf_Incarnation = xi_Incarnation (dm_exec d), sf_StartedAt = dm_startedAt d,
         sf_GOOS = goos, sf_GOARCH = goarch, sf_Transport = cfTransport (dm_cfg d),
         sf_RelayURL = (if dm_relay d = None then [] else cfRelayURL (dm_cfg d)),
         sf_RelayAttached = (case dm_relay d of None \<Rightarrow> False | Some rd \<Rightarrow> fst (Attached rd)),
         sf_Install = inst, sf_ServiceLabel = (if dm_launchID d \<noteq> [] then service_label else []),
         sf_Gateway = get_Health (dm_supervisor d), sf_Paired = int (length devices),
         sf_Connected = int (ConnectionCount (dm_bridge d))\<rparr>,
       d\<lparr>dm_bridge := (dm_bridge d)\<lparr>br_store := st\<rparr>\<rparr>))"

text \<open>\<open>CheckForUpdate\<close>: the check, which the answer of the source ends when it asked, and the reply for this install.\<close>

definition CheckForUpdate :: "bool \<Rightarrow> gotime \<Rightarrow> gotime \<Rightarrow> SourceError + Release \<Rightarrow> Install \<Rightarrow> daemon \<Rightarrow> CheckResponse \<times> daemon" where
  "CheckForUpdate force now later answer inst d =
     (let (start, c) = Check_begin force now (dm_checker d);
          c' = (if start = Cached then c else request_end later answer c) in
      (Response c' inst, d\<lparr>dm_checker := c'\<rparr>))"

end
