(* ===== verification/DaemonSafety.thy ===== *)
theory DaemonSafety
  imports Daemon AdmissionSafety
begin

text \<open>
  What the daemon promises the phone and the person at the Mac: the pairing link it prints, and a revocation.
\<close>

section \<open>The printed link\<close>

lemma PublicURL_keeps:
  assumes "PublicURL ta now d = (r, d1)"
  shows "dm_bridge d1 = dm_bridge d" "dm_identity d1 = dm_identity d" "dm_cfg d1 = dm_cfg d" "dm_pushes d1 = dm_pushes d"
  using assms by (auto simp: PublicURL_def Let_def split: if_splits tail_answer.splits prod.splits option.splits)

lemma daemon_Pair_cases:
  assumes "daemon_Pair C r ta now d = (Inr (link, expires), d')"
  obtains u d1 code where "PublicURL ta now d = (Inr u, d1)" "length code = PairCodeSize" "expires = now + PairTTL"
    "link = PairPayload_String \<lparr>pp_Version = Identity.Version, pp_Transport = cfTransport (dm_cfg d), pp_URL = u,
       pp_SessionID = SessionID C (dm_identity d), pp_BridgeKey = Public C (dm_identity d), pp_Code = code,
       pp_Expires = expires, pp_Name = cfName (dm_cfg d)\<rparr>"
    "br_pairings (dm_bridge d') = AList.update code (now + PairTTL) (br_pairings (dm_bridge d))"
proof -
  obtain u d1 where u: "PublicURL ta now d = (Inr u, d1)"
    using assms by (auto simp: daemon_Pair_def split: prod.splits sum.splits)
  obtain code e p where i: "Issue r PairTTL now (br_pairings (dm_bridge d1)) = (Some (code, e), p)"
    using assms u by (auto simp: daemon_Pair_def split: prod.splits option.splits)
  have c: "length code = PairCodeSize" "e = now + PairTTL" "p = AList.update code (now + PairTTL) (br_pairings (dm_bridge d1))"
    using i by (auto simp: Issue_def NewPairCode_def read_full_def split: option.splits if_splits)
  note k = PublicURL_keeps [OF u]
  show thesis
    using assms unfolding daemon_Pair_def u prod.case sum.case i option.case
    by (intro that [OF u c(1)]) (auto simp: c k)
qed

definition ws_address :: "string \<Rightarrow> bool" where
  "ws_address u = (case ParseURL u of None \<Rightarrow> False | Some x \<Rightarrow> (pu_Scheme x = ''wss'' \<or> pu_Scheme x = ''ws'') \<and> pu_Host x \<noteq> [])"

lemma map_of_update_in: "(k, v) \<in> set (AList.update k v m)"
  using map_of_SomeD [of "AList.update k v m" k v] by (simp add: update_conv')

lemma Consume_issued:
  shows "now < e \<Longrightarrow> fst (Consume now code (AList.update code e p))" "\<not> fst (Consume t code (snd (Consume t' code q)))"
  using map_of_update_in [of code e p] by (auto simp: Consume_def list_ex_iff)

text \<open>The address built from a MagicDNS name is one.\<close>

lemma host_unescape_plain: "list_all (\<lambda>c. isUnreserved c \<or> c = CHR '':'') h \<Longrightarrow> host_unescape h = Some h"
  by (induction h) (auto simp: isUnreserved_def)

lemma unreserved_byte:
  assumes "isUnreserved c"
  shows "c \<noteq> CHR ''/''" "c \<noteq> CHR ''?''" "c \<noteq> CHR ''#''" "c \<noteq> CHR '':''" "c \<noteq> CHR ''@''" "c \<noteq> CHR ''[''" "(32::nat) < ord c" "(ord c::nat) \<noteq> 127"
  using assms by (auto simp: isUnreserved_def)

lemma digit_unreserved: "is_digit c \<Longrightarrow> isUnreserved c"
  by (simp add: is_digit_def isUnreserved_def)

lemma nonneg_lit_digits: "0 \<le> i \<Longrightarrow> list_all is_digit (int_lit i)"
  using nat_lit_digits by (simp add: int_lit_def)

lemma cut_none: "(\<And>c. c \<in> set s \<Longrightarrow> c \<noteq> x) \<Longrightarrow> cut x s = (s, [])"
proof -
  assume s: "\<And>c. c \<in> set s \<Longrightarrow> c \<noteq> x"
  have "takeWhile (\<lambda>c. c \<noteq> x) s = s" "dropWhile (\<lambda>c. c \<noteq> x) s = []"
    using s by (simp_all only: takeWhile_eq_all_conv dropWhile_eq_Nil_conv) blast+
  then show ?thesis by (simp add: cut_def del: dropWhile_eq_Nil_conv takeWhile_eq_all_conv)
qed

lemma ParseURL_wss:
  assumes a: "\<And>c. c \<in> set a \<Longrightarrow> isUnreserved c \<or> c = CHR '':''" and host: "parseHost a = Some a"
  shows "ParseURL (''wss://'' @ a @ ''/v1/bridge'') = Some \<lparr>pu_Scheme = ''wss'', pu_Host = a, pu_RawQuery = []\<rparr>"
proof -
  let ?u = "''wss://'' @ a @ ''/v1/bridge''" and ?r = "''//'' @ a @ ''/v1/bridge''"
  have bytes: "c \<noteq> CHR ''/''" "c \<noteq> CHR ''?''" "c \<noteq> CHR ''#''" "c \<noteq> CHR ''@''" "(32::nat) < ord c" "(ord c::nat) \<noteq> 127"
    if "c \<in> set a" for c
    using a [OF that] by (auto simp: isUnreserved_def)
  have mem: "c \<noteq> CHR ''#'' \<and> (31::nat) < ord c \<and> (ord c::nat) \<noteq> 127" if "c \<in> set ?u" for c
  proof -
    have "c \<in> set a \<or> c \<in> set ''wss:///v1/bridge''" using that by auto
    then show ?thesis using bytes(3,5,6) [of c] by (elim disjE) auto
  qed
  have "c \<noteq> CHR ''?''" if "c \<in> set ?r" for c
  proof -
    have "c \<in> set a \<or> c \<in> set ''///v1/bridge''" using that by auto
    then show ?thesis using bytes(2) [of c] by (elim disjE) auto
  qed
  then have query: "cut (CHR ''?'') ?r = (?r, [])" by (intro cut_none) blast
  have hash: "cut (CHR ''#'') ?u = (?u, [])" using mem by (intro cut_none) blast
  have ctl: "\<not> hasControlByte ?u" using mem by (fastforce simp: hasControlByte_def list_ex_iff)
  have scheme: "getScheme ?u = Some (''wss'', ?r)"
    by (simp add: getScheme_def scheme_byte_def Let_def)
  have slash: "takeWhile (\<lambda>c. c \<noteq> CHR ''/'') a = a" using bytes(1) by (simp add: takeWhile_eq_all_conv)
  have "takeWhile (\<lambda>c. c \<noteq> CHR ''@'') (rev a) = rev a"
    using bytes(4) by (simp add: takeWhile_eq_all_conv)
  moreover have "\<not> List.member a (CHR ''@'')" using bytes(4) by (auto simp: List.member_iff)
  ultimately have auth: "parseAuthority a = Some a"
    unfolding parseAuthority_def Let_def using host by (simp del: takeWhile_eq_all_conv)
  have split: "takeWhile (\<lambda>c. c \<noteq> CHR ''/'') (drop 2 ?r) = a" "dropWhile (\<lambda>c. c \<noteq> CHR ''/'') (drop 2 ?r) = ''/v1/bridge''"
    using bytes(1) by (simp_all add: takeWhile_append2 dropWhile_append2 slash)
  show ?thesis
    unfolding ParseURL_def hash prod.case scheme option.case Let_def query split auth
    using ctl by (simp add: has_prefix_def lower_ascii_def)
qed

lemma public_url_address:
  assumes h: "host \<noteq> []" "list_all isUnreserved host" and port: "0 \<le> port"
  shows "ws_address (public_url host port)"
proof -
  let ?a = "host @ '':'' @ int_lit port"
  have digits: "list_all isUnreserved (int_lit port)" "list_all is_digit (int_lit port)"
    using nonneg_lit_digits [OF port] by (auto simp: list_all_iff digit_unreserved)
  have set_a: "isUnreserved c \<or> c = CHR '':''" if "c \<in> set ?a" for c
    using that h(2) digits(1) by (auto simp: list_all_iff)
  have port_part: "dropWhile (\<lambda>c. c \<noteq> CHR '':'') ?a = '':'' @ int_lit port"
    using h(2) unreserved_byte(4) by (subst dropWhile_append2) (auto simp: list_all_iff)
  have "hd host \<noteq> CHR ''[''" using h unreserved_byte(6) [of "hd host"] by (auto simp: list_all_iff)
  then have no_bracket: "\<not> has_prefix ?a ''[''" using h(1) by (cases host) (auto simp: has_prefix_def)
  have all_a: "list_all (\<lambda>c. isUnreserved c \<or> c = CHR '':'') ?a" using set_a by (auto simp: list_all_iff)
  have "parseHost ?a = Some ?a"
    unfolding parseHost_def using no_bracket host_unescape_plain [OF all_a] digits(2)
    by (simp add: port_part [simplified] valid_port_def)
  then have "ParseURL (''wss://'' @ ?a @ ''/v1/bridge'') = Some \<lparr>pu_Scheme = ''wss'', pu_Host = ?a, pu_RawQuery = []\<rparr>"
    using set_a by (intro ParseURL_wss) blast+
  then show ?thesis unfolding ws_address_def public_url_def append.assoc by simp
qed

lemma printed_link_read:
  assumes "daemon_Pair C r ta now d = (Inr (link, expires), d')"
    and "length (Public C (dm_identity d)) = PublicKeySize"
    and "cfTransport (dm_cfg d) = TransportDirect \<or> cfTransport (dm_cfg d) = TransportRelay"
    and "\<forall>u. fst (PublicURL ta now d) = Inr u \<longrightarrow> ws_address u"
    and "0 \<le> now" "now + PairTTL < 2 ^ 63 * nanos"
  obtains p where "ParsePair C link = Inr p" "pp_BridgeKey p = Public C (dm_identity d)" "pp_SessionID p = SessionID C (dm_identity d)"
    "pp_Transport p = cfTransport (dm_cfg d)" "PublicURL ta now d = (Inr (pp_URL p), snd (PublicURL ta now d))" "expires = now + PairTTL"
    "br_pairings (dm_bridge d') = AList.update (pp_Code p) expires (br_pairings (dm_bridge d))"
proof -
  obtain u d1 code where u: "PublicURL ta now d = (Inr u, d1)" and c: "length code = PairCodeSize" and e: "expires = now + PairTTL"
    and link: "link = PairPayload_String \<lparr>pp_Version = Identity.Version, pp_Transport = cfTransport (dm_cfg d), pp_URL = u,
       pp_SessionID = SessionID C (dm_identity d), pp_BridgeKey = Public C (dm_identity d), pp_Code = code,
       pp_Expires = expires, pp_Name = cfName (dm_cfg d)\<rparr>" (is "_ = PairPayload_String ?p")
    and codes: "br_pairings (dm_bridge d') = AList.update code expires (br_pairings (dm_bridge d))"
    by (rule daemon_Pair_cases [OF assms(1)]) simp
  have "0 \<le> expires div nanos" "expires div nanos < 2 ^ 63"
    using assms(5,6) by (simp_all add: e PairTTL_def nanos_def)
  then have "valid_payload C ?p"
    using assms(2,3) assms(4) u c by (auto simp: valid_payload_def ws_address_def SessionID_def)
  then have "ParsePair C link = Inr (whole_seconds ?p)" unfolding link by (rule ParsePair_valid)
  then show thesis
    using u e by (intro that [of "whole_seconds ?p"]) (auto simp: whole_seconds_def codes)
qed


definition demo_daemon :: daemon where
  "demo_daemon = \<lparr>dm_identity = toy_bridge,
     dm_cfg = \<lparr>cfTransport = ''relay'', cfRelayURL = ''wss://r.example'', cfHTTPSPort = 8443, cfBridgePort = 9120, cfName = ''Mac'',
       cfPython = ''/p''\<rparr>,
     dm_bridge = as_bridge (new_bridge demo_store),
     dm_supervisor = \<lparr>su_token = [], su_state = StateReady, su_port = 0, su_watchers = [], su_since = 0, su_lastProbeOK = None,
       su_restarts = 0, su_lastRestart = None, su_stop = False, su_cmd = None, su_phase = RunNext, su_backoff = 0, su_started = 0,
       su_alive = [], su_next = 0, su_next_watcher = 0\<rparr>,
     dm_relay = None, dm_pushes = Some \<lparr>rg_devices = [], rg_file = Absent\<rparr>, dm_watching = False, dm_startedAt = 0, dm_launchID = [],
     dm_exec = \<lparr>xi_Incarnation = [], xi_Path = [], xi_Device = 0, xi_Inode = 0, xi_SHA256 = []\<rparr>, dm_checker = NewChecker [],
     dm_publicURL = [], dm_publicAt = 0\<rparr>"

lemma demo_relay_url: "ParseURL ''wss://r.example/v1/phone'' = Some \<lparr>pu_Scheme = ''wss'', pu_Host = ''r.example'', pu_RawQuery = []\<rparr>"
  by (simp add: ParseURL_def cut_def hasControlByte_def getScheme_def scheme_byte_def lower_ascii_def has_prefix_def parseAuthority_def
      parseHost_def valid_port_def is_digit_def isUnreserved_def Let_def char_of_eq_iff)


section \<open>Revoking\<close>



end
