(* ===== verification/Commands.thy ===== *)
theory Commands
  imports Setup DaemonSafety LaunchdSafety
begin

text \<open>
  cmd/hermote-bridge/main.go, the commands: which one runs, how \<open>up\<close> installs the service, waits for its daemon and takes
  the installation back, and the commands that read or end what \<open>up\<close> set up. What the terminal shows of it is left out
  except for \<open>status\<close>.
\<close>

section \<open>Dispatch\<close>

datatype command =
    CmdUp "string list" | CmdPair "string list" | CmdStatus | CmdDevices "string list" | CmdRestart | CmdStop | CmdLogs
  | CmdUninstall | CmdSelftest | CmdPush "string list" | CmdDaemon "string list" | CmdVersion | CmdHelp

datatype usage_error = OnlyOnMac string string | UnknownCommand string

definition requireMacOSOn :: "string \<Rightarrow> string \<Rightarrow> usage_error option" where
  "requireMacOSOn command goos = (if goos = ''darwin'' then None else Some (OnlyOnMac command goos))"

definition on_mac :: "string \<Rightarrow> string \<Rightarrow> command \<Rightarrow> usage_error + command" where
  "on_mac goos name c = (case requireMacOSOn name goos of Some e \<Rightarrow> Inl e | None \<Rightarrow> Inr c)"

definition run_args :: "string \<Rightarrow> string list \<Rightarrow> usage_error + command" where
  "run_args goos args =
     (case args of
        [] \<Rightarrow> on_mac goos ''up'' (CmdUp [])
      | a # rest \<Rightarrow>
          if a = ''up'' then on_mac goos ''up'' (CmdUp rest)
          else if a = ''pair'' \<or> a = ''qr'' then Inr (CmdPair rest)
          else if a = ''status'' then Inr CmdStatus
          else if a = ''devices'' then Inr (CmdDevices rest)
          else if a = ''restart'' then on_mac goos a CmdRestart
          else if a = ''stop'' then on_mac goos a CmdStop
          else if a = ''logs'' then Inr CmdLogs
          else if a = ''uninstall'' then on_mac goos a CmdUninstall
          else if a = ''selftest'' then Inr CmdSelftest
          else if a = ''push'' then Inr (CmdPush rest)
          else if a = ''daemon'' then Inr (CmdDaemon rest)
          else if List.member [''version'', ''--version'', ''-v''] a then Inr CmdVersion
          else if List.member [''help'', ''-h'', ''--help''] a then Inr CmdHelp
          else Inl (UnknownCommand a))"

section \<open>Waiting for the daemon\<close>

text \<open>One round of the loop: the clock at its head, the answer of the control socket, the clock when the pause starts and
  whether the context ended in the pause.\<close>

record daemon_poll =
  po_head :: gotime
  po_answer :: "client_error + control_status"
  po_paused :: gotime
  po_cancelled :: bool

datatype wait_error = OtherLaunch string string | NoStatus client_error | WaitContext | GatewayNotReady "State option"

definition wait_timed_out :: "string \<Rightarrow> control_status option \<Rightarrow> wait_error option \<Rightarrow> wait_error" where
  "wait_timed_out launchID last1 lastErr =
     (case lastErr of
        Some e \<Rightarrow>
          (case last1 of
             None \<Rightarrow> e
           | Some st \<Rightarrow> if st_SessionID st = [] \<or> st_LaunchID st \<noteq> launchID then e else GatewayNotReady (Some (st_Gateway st)))
      | None \<Rightarrow> GatewayNotReady (map_option st_Gateway last1))"

text \<open>The last status and the error; \<open>None\<close> when the rounds run out before the loop ends.\<close>

fun wait_loop ::
  "string \<Rightarrow> gotime \<Rightarrow> control_status option \<Rightarrow> wait_error option \<Rightarrow> daemon_poll list \<Rightarrow>
     (control_status option \<times> wait_error option) option" where
  "wait_loop launchID deadline last1 lastErr [] = None"
| "wait_loop launchID deadline last1 lastErr (p # ps) =
     (if deadline \<le> po_head p then Some (last1, Some (wait_timed_out launchID last1 lastErr))
      else case po_answer p of
        Inl e \<Rightarrow>
          if po_paused p < deadline \<and> po_cancelled p then Some (last1, Some WaitContext)
          else wait_loop launchID deadline last1 (Some (NoStatus e)) ps
      | Inr st \<Rightarrow>
          if st_LaunchID st = launchID \<and> st_Gateway st = StateReady then Some (Some st, None)
          else if po_paused p < deadline \<and> po_cancelled p then Some (Some st, Some WaitContext)
          else wait_loop launchID deadline (Some st)
            (if st_LaunchID st \<noteq> launchID then Some (OtherLaunch (st_LaunchID st) launchID) else lastErr) ps)"

definition waitForDaemon :: "string \<Rightarrow> gotime \<Rightarrow> gotime \<Rightarrow> daemon_poll list \<Rightarrow> (control_status option \<times> wait_error option) option" where
  "waitForDaemon launchID timeout start ps = wait_loop launchID (start + timeout) None None ps"

text \<open>The clock of the rounds: a pause lasts a second, or until the deadline when that is nearer.\<close>

fun paced :: "gotime \<Rightarrow> daemon_poll list \<Rightarrow> bool" where
  "paced deadline [] \<longleftrightarrow> True"
| "paced deadline [p] \<longleftrightarrow> po_head p \<le> po_paused p"
| "paced deadline (p # q # ps) \<longleftrightarrow> po_head p \<le> po_paused p \<and>
     po_paused p + max 0 (min (deadline - po_paused p) 1000000000) \<le> po_head q \<and> paced deadline (q # ps)"

lemma wait_loop_sound:
  "wait_loop i d l e ps = Some (r, None) \<Longrightarrow>
   \<exists>p \<in> set ps. \<exists>st. po_answer p = Inr st \<and> r = Some st \<and> st_LaunchID st = i \<and> st_Gateway st = StateReady \<and> po_head p < d"
  by (induction i d l e ps rule: wait_loop.induct) (auto split: if_splits sum.splits)

lemma wait_loop_ends:
  "paced d ps \<Longrightarrow> ps \<noteq> [] \<Longrightarrow> d - po_head (hd ps) \<le> int (length ps - 1) * 1000000000 \<Longrightarrow> wait_loop i d l e ps \<noteq> None"
proof (induction i d l e ps rule: wait_loop.induct)
  case (2 i d l e p ps)
  show ?case
  proof (cases "d \<le> po_head p")
    case False
    then obtain q qs where ps: "ps = q # qs" using "2.prems"(3) by (cases ps) auto
    have next_round: "paced d ps" "d - po_head (hd ps) \<le> int (length ps - 1) * 1000000000"
      using "2.prems" by (auto simp: ps max_def min_def split: if_splits)
    show ?thesis
      using False "2.IH" next_round by (auto simp: ps split: sum.splits)
  qed simp
qed simp

text \<open>
  C28. Waiting for the new daemon always comes to an end, and what it accepts is the new daemon: with a clock that moves by
  the pauses the code makes, the two minutes are over after at most 122 rounds, whatever the control socket answers,
  and the only way to success is an answer from the launch that was just installed, with its gateway ready, to a
  question asked before the deadline.
\<close>

theorem daemon_wait_ends:
  assumes "paced (start + 120000000000) ps" "122 \<le> length ps" "start \<le> po_head (hd ps)"
  shows "\<exists>r e. waitForDaemon i 120000000000 start ps = Some (r, e) \<and>
    (e = None \<longrightarrow> (\<exists>p \<in> set ps. \<exists>st. po_answer p = Inr st \<and> r = Some st \<and> st_LaunchID st = i \<and> st_Gateway st = StateReady \<and>
       po_head p < start + 120000000000))"
proof -
  have "wait_loop i (start + 120000000000) None None ps \<noteq> None"
    using assms by (intro wait_loop_ends) auto
  then obtain r e where r: "wait_loop i (start + 120000000000) None None ps = Some (r, e)" by auto
  with wait_loop_sound [of i "start + 120000000000" None None ps r] show ?thesis
    by (intro exI [of _ r] exI [of _ e]) (auto simp: waitForDaemon_def)
qed

definition silent_polls :: "daemon_poll list" where
  "silent_polls = map (\<lambda>k. \<lparr>po_head = int k * 1000000000, po_answer = Inl ErrNotRunning, po_paused = int k * 1000000000, po_cancelled = False\<rparr>) [0..<122]"

lemma paced_every_second:
  "paced d (map (\<lambda>k. \<lparr>po_head = int k * 1000000000, po_answer = a, po_paused = int k * 1000000000, po_cancelled = False\<rparr>) [m..<n])"
proof (induction "n - m" arbitrary: m)
  case (Suc x)
  show ?case
  proof (cases "Suc m < n")
    case True
    then have u: "[m..<n] = m # Suc m # [Suc (Suc m)..<n]" by (simp add: upt_conv_Cons)
    have "paced d (map (\<lambda>k. \<lparr>po_head = int k * 1000000000, po_answer = a, po_paused = int k * 1000000000, po_cancelled = False\<rparr>) [Suc m..<n])"
      using Suc by simp
    with True show ?thesis by (simp add: u upt_conv_Cons)
  next
    case False
    with Suc(2) have "[m..<n] = [m]" by (simp add: upt_conv_Cons)
    then show ?thesis by simp
  qed
qed simp

theorem daemon_wait_ends_witness:
  "\<exists>r e. waitForDaemon ''1-2'' 120000000000 0 silent_polls = Some (r, Some e)"
proof -
  have "hd silent_polls = \<lparr>po_head = 0, po_answer = Inl ErrNotRunning, po_paused = 0, po_cancelled = False\<rparr>"
    by (simp add: silent_polls_def upt_conv_Cons)
  moreover have "length silent_polls = 122" by (simp add: silent_polls_def)
  ultimately obtain r e where r: "waitForDaemon ''1-2'' 120000000000 0 silent_polls = Some (r, e)"
      "e = None \<longrightarrow> (\<exists>p \<in> set silent_polls. \<exists>st. po_answer p = Inr st)"
    using daemon_wait_ends [of 0 silent_polls "''1-2''"] paced_every_second [of 120000000000 "Inl ErrNotRunning" 0 122]
    by (auto simp: silent_polls_def)
  moreover have "e \<noteq> None" using r(2) by (auto simp: silent_polls_def)
  ultimately show ?thesis by auto
qed

section \<open>Installing the service\<close>

datatype up_outcome = UpFailed "launch_error list" | UpNotReady wait_error "launch_error list" | UpReady control_status Installation

text \<open>\<open>up\<close> from the installation to the commit; \<open>None\<close> while the daemon is still waited for.\<close>

definition up_service :: "serviceManager \<Rightarrow> Spec \<Rightarrow> gotime \<Rightarrow> daemon_poll list \<Rightarrow> svc \<Rightarrow> up_outcome option \<times> svc" where
  "up_service m spec start ps s =
     (case run_state (install m spec) s of
        (Inl e, s1) \<Rightarrow> (Some (UpFailed e), s1)
      | (Inr i, s1) \<Rightarrow>
          (case waitForDaemon (sp_LaunchID spec) 120000000000 start ps of
             Some (Some st, None) \<Rightarrow> (Some (UpReady st (Commit i)), s1)
           | Some (_, Some e) \<Rightarrow> (case run_state (Rollback m i) s1 of ((re, _), s2) \<Rightarrow> (Some (UpNotReady e re), s2))
           | _ \<Rightarrow> (None, s1)))"

text \<open>It is the attempt of \<open>LaunchdSafety\<close> with the readiness check.\<close>

lemma up_service_attempt:
  assumes "waitForDaemon (sp_LaunchID spec) 120000000000 start ps = Some (r, Some e)"
  shows "up_service m spec start ps s =
    (case service.attempt m spec (\<lambda>s. (Some e, s)) s of
       (Inl x, s') \<Rightarrow> (Some (UpFailed x), s')
     | (Inr (Inl (c, x)), s') \<Rightarrow> (Some (UpNotReady c x), s')
     | (Inr (Inr t), s') \<Rightarrow> (None, s'))"
  unfolding up_service_def service.attempt_def
  by (cases r) (simp_all add: assms roll_def split: prod.split sum.split)

definition with_text :: "string \<Rightarrow> svc \<Rightarrow> bool" where
  "with_text t s \<longleftrightarrow> saved_text s = Some t"

lemma of_file_text: "of_file (with_text t)"
  by (simp add: of_file_def with_text_def saved_text_def)

lemma file_retire: "of_file I \<Longrightarrow> keeps I (retire m q)"
proof -
  assume I: "of_file I"
  have "keeps I (wait_unloaded_loop m k)" for k
    using I by (induction k) (auto intro!: keeps_intros file_ask simp: loaded_def job_def run_command_def sleepContext_def split: prod.splits)
  moreover have "keeps I (stop m)"
    using I unfolding stop_def run_command_def by (auto intro!: keeps_intros file_ask split: prod.splits)
  ultimately show ?thesis
    using I unfolding retire_def waitUnloaded_def by (intro keeps_intros file_waitProcessExit)
qed

lemma install_writes: "holds (\<lambda>_. True) (install m spec) (\<lambda>r s. \<forall>i. r = Inr i \<longrightarrow> with_text (plist spec) s)"
proof -
  let ?Q = "\<lambda>r s. \<forall>i. r = Inr i \<longrightarrow> with_text (plist spec) s"
  have fails: "holds P (failAndRestore m i e) ?Q" for P i e
    by (auto simp: failAndRestore_def Rollback_def restore_def holds_def split: prod.splits)
  have wrote: "holds (\<lambda>_. True) (write_plist m (plist spec) md) (\<lambda>w s. w \<longrightarrow> with_text (plist spec) s)" for md
    by (simp add: holds_def write_plist_def with_text_def saved_text_def split: option.splits)
  have rest: "holds (with_text (plist spec)) (and_then (if b then retire m q else State_Monad.return []) (bootstrap m path))
      (\<lambda>e s. e = [] \<longrightarrow> with_text (plist spec) s)" for b q path
    by (rule holds_weaken [of "with_text (plist spec)" _ "\<lambda>_. with_text (plist spec)"])
      (auto intro!: keeps_intros file_retire file_bootstrap of_file_text split: if_splits)
  have "holds (\<lambda>_. True) (installed m spec previous) (\<lambda>e s. e = [] \<longrightarrow> with_text (plist spec) s)" for previous
    unfolding installed_def
    by (rule holds_bind [OF wrote], rule holds_if, rule holds_return, simp, rule holds_weaken [OF rest]) simp_all
  then have "holds (\<lambda>_. True) (installed m spec previous \<bind> (\<lambda>e.
      if e \<noteq> [] then failAndRestore m \<lparr>it_previous = previous, it_active = True\<rparr> e
      else State_Monad.return (Inr \<lparr>it_previous = previous, it_active = True\<rparr>))) ?Q" for previous
    by (rule holds_bind, intro holds_if fails holds_return) simp
  then have "holds (\<lambda>_. True) (install_from m spec previous) ?Q" for previous
    unfolding install_from_def
    by (auto intro!: holds_bind [where R = "\<lambda>_ _. True"] holds_return simp: make_dir_def holds_ask)
  then show ?thesis
    unfolding install_def
    by (auto intro!: holds_bind [where R = "\<lambda>_ _. True"] holds_return simp: holds_def [of _ "snapshot m"] split: sum.split)
qed


text \<open>What each outcome says of the plist.\<close>

lemma up_service_outcome:
  assumes "up_service m spec start ps s = (Some r, s')"
  shows "case r of
      UpReady st i \<Rightarrow> saved_text s' = Some (plist spec) \<and> st_LaunchID st = sp_LaunchID spec \<and> st_Gateway st = StateReady \<and>
        run_state (Rollback m i) s' = (([], i), s')
    | UpFailed e \<Rightarrow> RestoreFailed \<notin> set e \<longrightarrow> saved_text s' = saved_text s
    | UpNotReady c e \<Rightarrow> e = [] \<longrightarrow> saved_text s' = saved_text s"
proof -
  obtain a s1 where inst: "run_state (install m spec) s = (a, s1)" by (metis prod.exhaust)
  let ?w = "waitForDaemon (sp_LaunchID spec) 120000000000 start ps"
  consider (failed) e where "a = Inl e" | (ready) i st where "a = Inr i" "?w = Some (Some st, None)"
    | (late) i l e where "a = Inr i" "?w = Some (l, Some e)"
    using assms inst by (cases a) (auto simp: up_service_def split: option.splits prod.splits)
  then show ?thesis
  proof cases
    case failed
    with assms inst service.refused [of m spec s e s1] show ?thesis by (auto simp: up_service_def)
  next
    case ready
    then have "r = UpReady st (Commit i)" "s' = s1" using assms inst by (auto simp: up_service_def)
    moreover have "st_LaunchID st = sp_LaunchID spec" "st_Gateway st = StateReady"
      using wait_loop_sound [OF ready(2) [unfolded waitForDaemon_def]] by auto
    moreover have "saved_text s1 = Some (plist spec)"
      using keeps_run [OF install_writes TrueI inst] ready(1) by (simp add: with_text_def)
    ultimately show ?thesis by (simp add: Rollback_def Commit_def)
  next
    case late
    then obtain x s2 where undo: "roll m i s1 = (x, s2)" by (metis prod.exhaust)
    then have "r = UpNotReady e x" "s' = s2" using assms inst late by (auto simp: up_service_def roll_def split: prod.splits option.splits)
    with service.undone [OF inst [unfolded late(1)] undo] show ?thesis by simp
  qed
qed

end
