(* ===== verification/AdminCommands.thy ===== *)
theory AdminCommands
  imports Commands
begin

text \<open>
  The commands of cmd/hermote-bridge/main.go and push.go over the operations of the components: \<open>up\<close> as a whole,
  \<open>devices\<close>, \<open>status\<close>, \<open>uninstall\<close> and \<open>push\<close>, and the QR code of internal/qr. What they print is modelled where it
  says something of the state; the encoding of a text as QR modules is a parameter.
\<close>

section \<open>The whole of \<open>up\<close>\<close>

datatype up_error =
    UpUsage usage_error | UpStore "state_error list" | UpNoHermes | UpUnknownTransport | UpNoTailscale | UpTailscale tail_error
  | UpNoExecutable | UpInstall "launch_error list" | UpWait wait_error "launch_error list" | UpServe tail_error

record up_env =
  ue_goos :: string
  ue_flags :: up_flags
  ue_python :: "string option"
  ue_answer :: string
  ue_host :: string
  ue_tailscale :: bool
  ue_tail_polls :: "tail_poll list"
  ue_load :: faults
  ue_save :: faults
  ue_executable :: "string option"
  ue_hermesHome :: string
  ue_home :: string
  ue_pid :: nat
  ue_now :: int
  ue_start :: gotime
  ue_polls :: "daemon_poll list"
  ue_mapped :: "string \<times> bool"
  ue_serve :: "string \<times> bool"
  ue_lower :: "nat \<Rightarrow> nat"
  ue_migrate :: migrate_env

definition launch_id :: "nat \<Rightarrow> int \<Rightarrow> string" where
  "launch_id process now = nat_lit process @ ''-'' @ int_lit now"

fun join_colon :: "string list \<Rightarrow> string" where
  "join_colon [] = []"
| "join_colon [d] = d"
| "join_colon (d # e # ds) = d @ '':'' @ join_colon (e # ds)"

definition service_path :: "string \<Rightarrow> string \<Rightarrow> string" where
  "service_path python home = join_colon
     [Dir python, ''/usr/local/bin'', ''/opt/homebrew/bin'', rooted (Clean (home @ ''/homebrew/bin'')), ''/usr/bin'', ''/bin'', ''/usr/sbin'', ''/sbin'']"

definition up_spec :: "up_env \<Rightarrow> string \<Rightarrow> string \<Rightarrow> Spec" where
  "up_spec U python bin = \<lparr>sp_Binary = bin, sp_LaunchID = launch_id (ue_pid U) (ue_now U), sp_HermesHome = ue_hermesHome U,
     sp_LogDir = rooted (Clean (ue_hermesHome U @ ''/logs'')), sp_Path = service_path python (ue_home U)\<rparr>"

lemma up_spec_LaunchID [simp]: "sp_LaunchID (up_spec U python bin) = launch_id (ue_pid U) (ue_now U)"
  by (simp add: up_spec_def)

text \<open>\<open>strings.Replace\<close> with a count of one.\<close>

fun replace_once :: "string \<Rightarrow> string \<Rightarrow> string \<Rightarrow> string" where
  "replace_once old new [] = (if old = [] then new else [])"
| "replace_once old new (c # s) =
     (if has_prefix (c # s) old then new @ drop (length old) (c # s) else c # replace_once old new s)"

definition serve_url :: "string \<Rightarrow> string" where
  "serve_url publicURL = trim_suffix (replace_once ''wss://'' ''https://'' publicURL) ''/v1/bridge''"

text \<open>The last step of the direct transport: the mapping is made unless it is already there.\<close>

definition up_serve :: "up_env \<Rightarrow> Config \<Rightarrow> control_status \<Rightarrow> tail_error option" where
  "up_serve U cfg st =
     (if cfTransport cfg \<noteq> TransportDirect then None
      else if ServeMapped (ue_mapped U) (serve_url (case st_PublicURL st of Some u \<Rightarrow> u | None \<Rightarrow> [])) then None
      else ServeOn (ue_lower U) (ue_serve U))"

text \<open>Everything before the installation: the new configuration, saved, or an error; \<open>None\<close> while Tailscale is waited for.\<close>

definition up_prepare :: "up_env \<Rightarrow> Store \<Rightarrow> (up_error + Config \<times> string) option \<times> Store" where
  "up_prepare U st0 =
     (case requireMacOSOn ''up'' (ue_goos U) of
        Some e \<Rightarrow> (Some (Inl (UpUsage e)), st0)
      | None \<Rightarrow>
          (case Load_Config (ue_load U) st0 of
             ((e, cfg0), st1) \<Rightarrow>
               if e \<noteq> [] then (Some (Inl (UpStore e)), st1)
               else case ue_python U of
                 None \<Rightarrow> (Some (Inl UpNoHermes), st1)
               | Some python \<Rightarrow>
                   (case up_config (ue_flags U) python (ue_answer U) (ue_host U) cfg0 of
                      None \<Rightarrow> (Some (Inl UpUnknownTransport), st1)
                    | Some cfg \<Rightarrow>
                        (let save = (case SaveConfig (ue_save U) cfg st1 of
                               (e, st2) \<Rightarrow> (Some (if e \<noteq> [] then Inl (UpStore e) else Inr (cfg, python)), st2)) in
                         if cfTransport cfg \<noteq> TransportDirect then save
                         else if \<not> ue_tailscale U then (Some (Inl UpNoTailscale), st1)
                         else case wait_running False (ue_tail_polls U) of
                           None \<Rightarrow> (None, st1)
                         | Some ((Some e, _), _) \<Rightarrow> (Some (Inl (UpTailscale e)), st1)
                         | Some ((None, _), _) \<Rightarrow> save))))"

type_synonym command_dir = "(string, entry) gomap"

definition cmd_up ::
  "serviceManager \<Rightarrow> up_env \<Rightarrow> Store \<Rightarrow> svc \<Rightarrow> command_dir \<Rightarrow> (up_error + control_status) option \<times> Store \<times> svc \<times> command_dir" where
  "cmd_up m U st0 s dir =
     (case up_prepare U st0 of
        (None, st1) \<Rightarrow> (None, st1, s, dir)
      | (Some (Inl e), st1) \<Rightarrow> (Some (Inl e), st1, s, dir)
      | (Some (Inr (cfg, python)), st1) \<Rightarrow>
          (case ue_executable U of
             None \<Rightarrow> (Some (Inl UpNoExecutable), st1, s, dir)
           | Some bin \<Rightarrow>
               (case up_service m (up_spec U python bin) (ue_start U) (ue_polls U) s of
                  (None, s1) \<Rightarrow> (None, st1, s1, dir)
                | (Some (UpFailed e), s1) \<Rightarrow> (Some (Inl (UpInstall e)), st1, s1, dir)
                | (Some (UpNotReady c e), s1) \<Rightarrow> (Some (Inl (UpWait c e)), st1, s1, dir)
                | (Some (UpReady st i), s1) \<Rightarrow>
                    (Some (case up_serve U cfg st of Some e \<Rightarrow> Inl (UpServe e) | None \<Rightarrow> Inr st), st1, s1,
                     snd (migrateLegacyCommand (ue_migrate U) bin dir)))))"

lemma up_prepare_cases:
  assumes "up_prepare U st0 = (Some (Inr (cfg, python)), st1)"
  shows "usable_config cfg" "cfPython cfg = python" "dk_config (st_disk st1) = Data cfg"
proof -
  obtain c0 st2 where load: "Load_Config (ue_load U) st0 = (([], c0), st2)"
    and cfg: "up_config (ue_flags U) python (ue_answer U) (ue_host U) c0 = Some cfg" and saved: "SaveConfig (ue_save U) cfg st2 = ([], st1)"
    using assms by (auto simp: up_prepare_def Let_def split: option.splits prod.splits if_splits)
  show "usable_config cfg" "cfPython cfg = python" using up_config_Some [OF cfg] by simp_all
  show "dk_config (st_disk st1) = Data cfg"
    using saved by (auto simp: SaveConfig_def locked_def writeFile_outcome Let_def split: if_splits prod.splits option.splits)
qed

lemma up_prepare_error:
  "up_prepare U st0 = (Some (Inl e), st1) \<Longrightarrow> (case e of UpServe _ \<Rightarrow> False | UpInstall _ \<Rightarrow> False | UpWait _ _ \<Rightarrow> False | _ \<Rightarrow> True)"
  by (auto simp: up_prepare_def Let_def split: option.splits prod.splits if_splits)



definition relay_up :: up_env where
  "relay_up = \<lparr>ue_goos = ''darwin'', ue_flags = relay_flags, ue_python = Some ''/p'', ue_answer = ''direct'', ue_host = ''mac'',
     ue_tailscale = False, ue_tail_polls = [], ue_load = no_faults, ue_save = no_faults, ue_executable = Some ''/b'',
     ue_hermesHome = ''/h'', ue_home = ''/u'', ue_pid = 7, ue_now = 9, ue_start = 0, ue_polls = silent_polls,
     ue_mapped = ([], False), ue_serve = ([], False), ue_lower = id, ue_migrate = demo_migration\<rparr>"

lemma relay_launch_id: "TrimSpace (sp_LaunchID (up_spec relay_up ''/p'' ''/b'')) \<noteq> []"
proof -
  have "launch_id 7 9 = ''7-9''" by code_simp
  then show ?thesis using TrimSpace_graphic [of "CHR ''7''" "CHR ''9''" "''-''"] by (simp add: relay_up_def)
qed


section \<open>Devices, status and uninstalling\<close>

text \<open>\<open>devices revoke\<close>: what the daemon's socket answered, or the file when nothing does.\<close>

definition cmd_revoke :: "faults \<Rightarrow> string \<Rightarrow> client_error + string \<Rightarrow> Store \<Rightarrow> ((client_error + state_error list) + string) \<times> Store" where
  "cmd_revoke f p answer st =
     (case answer of
        Inr i \<Rightarrow> (Inr i, st)
      | Inl e \<Rightarrow>
          if e \<noteq> ErrNotRunning then (Inl (Inl e), st)
          else (case Revoke_store f p st of
              ((e, removed), st') \<Rightarrow>
                (if e \<noteq> [] then Inl (Inr e) else Inr (case removed of Some d \<Rightarrow> dID d | None \<Rightarrow> []), st')))"

lemma revoke_offline:
  assumes "cmd_revoke f p (Inl ErrNotRunning) st = (Inr i, st')" "distinct_ids st"
  shows "has_prefix i p \<and> i \<in> ids st \<and> ids st' = ids st - {i}"
proof -
  obtain e r st1 where R: "Revoke_store f p st = ((e, r), st1)" by (metis prod.exhaust_sel)
  have "e = []" "st' = st1" "i = (case r of Some d \<Rightarrow> dID d | None \<Rightarrow> [])"
    using assms(1) R by (auto simp: cmd_revoke_def split: if_splits)
  with Revoke_effect(1) [OF R assms(2)] show ?thesis by (cases r) (auto simp: effective_def)
qed

definition ellipsis :: string where "ellipsis = [CHR 0xE2, CHR 0x80, CHR 0xA6]"
definition em_dash :: string where "em_dash = [CHR 0xE2, CHR 0x80, CHR 0x94]"
definition arrow :: string where "arrow = [CHR 0xE2, CHR 0x86, CHR 0x92]"

definition pad :: "nat \<Rightarrow> string \<Rightarrow> string" where
  "pad n s = s @ replicate (n - length (runes s)) (CHR '' '')"

text \<open>A line of \<open>printDevices\<close>; \<open>None\<close> is the panic of the slice when an id has less than eight bytes.\<close>

definition device_line :: "(gotime \<Rightarrow> string) \<Rightarrow> (gotime \<Rightarrow> string) \<Rightarrow> Device \<Rightarrow> string option" where
  "device_line day minute d =
     (if length (dID d) < 8 then None
      else Some (''    '' @ pad 10 (take 8 (dID d) @ ellipsis) @ '' '' @ pad 24 (if dName d = [] then ''(unnamed)'' else dName d) @
        '' paired '' @ day (dFirstSeen d) @ '', last seen '' @ minute (dLastSeen d)))"

definition printDevices :: "(gotime \<Rightarrow> string) \<Rightarrow> (gotime \<Rightarrow> string) \<Rightarrow> Device list \<Rightarrow> string option list" where
  "printDevices day minute ds =
     (if ds = [] then [Some (''  No paired phones yet '' @ em_dash @ '' run `hermote-bridge pair`.'')]
      else Some ''  Paired phones:'' # map (device_line day minute) ds)"

fun state_text :: "State \<Rightarrow> string" where
  "state_text StateStarting = ''starting''"
| "state_text StateReady = ''ready''"
| "state_text StateDown = ''down''"

datatype status_line = LineOk string | LineWarn string

text \<open>\<open>status\<close> after the daemon answered; \<open>mapped\<close> is what \<open>serve status\<close> printed when the CLI was found.\<close>

definition status_lines :: "(gotime \<Rightarrow> string) \<Rightarrow> Config \<Rightarrow> (string \<times> bool) option \<Rightarrow> (daemon_error \<Rightarrow> string) \<Rightarrow> control_status \<Rightarrow> status_line list" where
  "status_lines stamp cfg mapped err st =
     [LineOk (''Bridge '' @ st_Version st @ '', transport '' @ st_Transport st @ '', session '' @ st_SessionID st @ '', up since '' @ stamp (st_StartedAt st)),
      if st_Gateway st = StateReady then LineOk (''Hermes gateway ready on 127.0.0.1:'' @ int_lit (st_GatewayPort st))
      else LineWarn (''Hermes gateway '' @ state_text (st_Gateway st))] @
     (case (mapped, st_PublicURL st) of
        (Some a, Some u) \<Rightarrow>
          if cfTransport cfg \<noteq> TransportDirect \<or> u = [] then []
          else if ServeMapped a (serve_url u) then [LineOk (''Tailscale Serve: '' @ serve_url u @ '' '' @ arrow @ '' http://'' @ st_BridgeAddr st)]
          else [LineWarn (''Tailscale Serve is not mapping '' @ serve_url u @ '' (run `hermote-bridge up`)'')]
      | _ \<Rightarrow> []) @
     (case st_Relay st of Some (u, True) \<Rightarrow> if u \<noteq> [] then [LineOk (''Attached to relay '' @ u)] else [] | _ \<Rightarrow> []) @
     map (\<lambda>w. LineWarn (case w of Inl e \<Rightarrow> err e | Inr t \<Rightarrow> t)) (st_Warnings st) @
     [LineOk (nat_lit (st_Connections st) @ '' phone(s) connected, '' @ nat_lit (st_Pending st) @ '' pairing code(s) outstanding'')]"

text \<open>\<open>uninstall\<close>: the service, then the mapping of the direct transport, whose failure is ignored: the arguments given to
  the Tailscale CLI.\<close>

definition cmd_uninstall :: "serviceManager \<Rightarrow> Config \<Rightarrow> bool \<Rightarrow> svc \<Rightarrow> (launch_error list + string list option) \<times> svc" where
  "cmd_uninstall m cfg found s =
     (case run_state (Uninstall m) s of
        (e, s') \<Rightarrow>
          (if e \<noteq> [] then Inl e
           else Inr (if cfTransport cfg = TransportDirect \<and> cfHTTPSPort cfg \<noteq> 0 \<and> found then Some (serve_off_args (cfHTTPSPort cfg)) else None), s'))"

section \<open>Push commands\<close>

datatype push_command = PushUsage | PushSetup "string list" | PushStatus | PushTest | PushUnknown string

definition cmdPush :: "string list \<Rightarrow> push_command" where
  "cmdPush args =
     (case args of
        [] \<Rightarrow> PushUsage
      | a # rest \<Rightarrow>
          if a = ''setup'' then PushSetup rest else if a = ''status'' then PushStatus else if a = ''test'' then PushTest else PushUnknown a)"

definition defaultBundleID :: string where "defaultBundleID = ''com.shravanthreddy.hermes''"

definition short8 :: "string \<Rightarrow> string" where "short8 i = (if length i > 8 then take 8 i else i)"

text \<open>\<open>NewClient\<close>: the configuration is checked, then the key file it names is read and parsed.\<close>

datatype client_failure = ClientConfig string | KeyUnreadable | KeyMalformed

definition NewClient :: "(string \<Rightarrow> bool) \<Rightarrow> string option \<Rightarrow> PushConfig \<Rightarrow> client_failure + Client" where
  "NewClient parseKey keyfile cfg =
     (case Validate cfg of
        Some e \<Rightarrow> Inl (ClientConfig e)
      | None \<Rightarrow>
          (case keyfile of
             None \<Rightarrow> Inl KeyUnreadable
           | Some raw \<Rightarrow> if parseKey raw then Inr \<lparr>ac_cfg = cfg, ac_host = [], ac_bearer = [], ac_bearerAt = 0\<rparr> else Inl KeyMalformed))"

text \<open>The two files in the state directory, and the answers of the file system: a failed write leaves what it left.\<close>

record push_files =
  pf_key :: "string option"
  pf_config :: "string option"

record setup_env =
  se_source :: "string option"
  se_key_write :: "string option option"
  se_remove :: bool
  se_config_write :: "string option option"

datatype setup_error = MissingFlags | SourceUnreadable | KeyNotWritten | BadClient client_failure | ConfigNotSaved

definition write_file :: "string \<Rightarrow> string option option \<Rightarrow> bool \<times> string option" where
  "write_file t left = (case left of None \<Rightarrow> (True, Some t) | Some rest \<Rightarrow> (False, rest))"

definition cmdPushSetup :: "(string \<Rightarrow> bool) \<Rightarrow> setup_env \<Rightarrow> string \<Rightarrow> string \<Rightarrow> string \<Rightarrow> string \<Rightarrow> string \<Rightarrow> push_files \<Rightarrow>
    setup_error option \<times> push_files" where
  "cmdPushSetup parseKey S dest team keyid p8 bundle files =
     (if team = [] \<or> keyid = [] \<or> p8 = [] then (Some MissingFlags, files)
      else case se_source S of
        None \<Rightarrow> (Some SourceUnreadable, files)
      | Some raw \<Rightarrow>
          (case write_file raw (se_key_write S) of
             (False, k) \<Rightarrow> (Some KeyNotWritten, files\<lparr>pf_key := k\<rparr>)
           | (True, k) \<Rightarrow>
               (let cfg = \<lparr>pc_TeamID = team, pc_KeyID = keyid, pc_KeyPath = dest, pc_BundleID = bundle\<rparr>; files1 = files\<lparr>pf_key := k\<rparr> in
                case NewClient parseKey k cfg of
                  Inl e \<Rightarrow> (Some (BadClient e), if se_remove S then files1\<lparr>pf_key := None\<rparr> else files1)
                | Inr _ \<Rightarrow>
                    (case Save cfg of
                       Inl _ \<Rightarrow> (Some ConfigNotSaved, files1)
                     | Inr t \<Rightarrow>
                         (case write_file t (se_config_write S) of
                            (good, c) \<Rightarrow> (if good then None else Some ConfigNotSaved, files1\<lparr>pf_config := c\<rparr>))))))"

text \<open>Afterwards the LaunchAgent is restarted if its plist exists; a failure is only a warning.\<close>

definition setup_restarts :: "serviceManager \<Rightarrow> svc \<Rightarrow> (launch_error list \<times> svc) option" where
  "setup_restarts m s = (if plistPath m = None \<or> sv_plist s = None then None else Some (run_state (restart m) s))"

definition push_status_line :: "(gotime \<Rightarrow> string) \<Rightarrow> Entry \<Rightarrow> string" where
  "push_status_line stamp e =
     ''    '' @ short8 (en_DeviceID e) @ ''  '' @ pr_Environment (rg_push (en_Registration e)) @ ''  '' @ stamp (rg_UpdatedAt (en_Registration e)) @
       ''  kinds: '' @ concat (case pr_Kinds (rg_push (en_Registration e)) of [] \<Rightarrow> [] | k # ks \<Rightarrow> k # map (\<lambda>x. CHR '','' # x) ks)"

definition test_alert :: Alert where
  "test_alert = \<lparr>al_Kind = KindTurnDone, al_Title = ''Hermes'', al_Body = ''Test notification from your Mac.'', al_Category = ''TURN'',
     al_SessionID = [], al_RequestID = [], al_Sound = [], al_CollapseID = []\<rparr>"

text \<open>One send per registered phone, whatever became of the ones before it.\<close>

fun push_test ::
  "(string \<Rightarrow> bytes option) \<Rightarrow> (Entry \<times> gotime \<times> (apns_request \<Rightarrow> (int \<times> string) option)) list \<Rightarrow> Client \<Rightarrow> (string \<times> send_result) list" where
  "push_test sign_es [] c = []"
| "push_test sign_es ((e, now, post) # es) c =
     (let (r, c') = Send sign_es now post (pr_Token (rg_push (en_Registration e))) (pr_Environment (rg_push (en_Registration e))) test_alert c in
      (short8 (en_DeviceID e), r) # push_test sign_es es c')"

lemma push_test_all: "map fst (push_test sign_es es c) = map (\<lambda>(e, _). short8 (en_DeviceID e)) es"
  by (induction es arbitrary: c) (auto split: prod.split)

text \<open>
  What a setup leaves behind: after success the key file holds the given key, which parses, and the saved
  configuration names it; a setup that fails before it writes anything changes nothing; but one that fails on its key
  or on its ids has already replaced the key of a working configuration and deletes it, while that configuration stays.
\<close>

theorem push_setup_outcome:
  assumes "cmdPushSetup parseKey S dest team keyid p8 bundle files = (r, files')" "se_key_write S = None" "se_config_write S = None"
  shows "case r of
      None \<Rightarrow> pf_key files' = se_source S \<and> (\<exists>raw. se_source S = Some raw \<and> parseKey raw) \<and>
        pf_config files' = Some (config_text \<lparr>pc_TeamID = team, pc_KeyID = keyid, pc_KeyPath = dest, pc_BundleID = bundle\<rparr>) \<and>
        length team = 10 \<and> length keyid = 10
    | Some (BadClient e) \<Rightarrow> pf_config files' = pf_config files \<and> (se_remove S \<longrightarrow> pf_key files' = None) \<and>
        (\<not> se_remove S \<longrightarrow> pf_key files' = se_source S)
    | Some _ \<Rightarrow> files' = files"
  using assms
  by (auto simp: cmdPushSetup_def NewClient_def write_file_def Save_def Validate_def Let_def split: option.splits if_splits)

theorem push_setup_outcome_witness:
  "\<exists>files'. cmdPushSetup (\<lambda>_. True) \<lparr>se_source = Some ''new'', se_key_write = None, se_remove = True, se_config_write = None\<rparr> ''/k'' ''short'' ''0123456789''
     ''/f'' defaultBundleID \<lparr>pf_key = Some ''old'', pf_config = Some ''c''\<rparr> =
       (Some (BadClient (ClientConfig ''team id must be 10 characters'')), files') \<and> pf_key files' = None \<and> pf_config files' = Some ''c''"
proof -
  obtain files' where r: "cmdPushSetup (\<lambda>_. True) \<lparr>se_source = Some ''new'', se_key_write = None, se_remove = True, se_config_write = None\<rparr> ''/k''
      ''short'' ''0123456789'' ''/f'' defaultBundleID \<lparr>pf_key = Some ''old'', pf_config = Some ''c''\<rparr> =
       (Some (BadClient (ClientConfig ''team id must be 10 characters'')), files')"
    by (simp add: cmdPushSetup_def NewClient_def write_file_def Validate_def Let_def)
  from push_setup_outcome [OF r] r show ?thesis by simp
qed

end
