(* ===== verification/QRText.thy ===== *)
theory QRText
  imports Prelude
begin

text \<open>
  internal/qr/qr.go: the modules of a QR code as lines of half blocks. The encoding of the text as modules is a library's.
\<close>

section \<open>Rendering\<close>

type_synonym bitmap = "bool list list"

definition dark :: "bitmap \<Rightarrow> bool \<Rightarrow> nat \<Rightarrow> nat \<Rightarrow> bool" where
  "dark bm invert x y \<longleftrightarrow> y < length bm \<and> x < length (bm ! y) \<and> (bm ! y) ! x \<noteq> invert"

text \<open>The full, upper and lower blocks in UTF-8, and the space.\<close>

definition half_block :: "bool \<Rightarrow> bool \<Rightarrow> string" where
  "half_block up down =
     (if up \<and> down then [CHR 0xE2, CHR 0x96, CHR 0x88]
      else if up then [CHR 0xE2, CHR 0x96, CHR 0x80]
      else if down then [CHR 0xE2, CHR 0x96, CHR 0x84]
      else '' '')"

definition block_line :: "bitmap \<Rightarrow> bool \<Rightarrow> nat \<Rightarrow> string" where
  "block_line bm invert y =
     concat (map (\<lambda>x. half_block (dark bm invert x y) (dark bm invert x (y + 1))) [0..<length (hd bm)]) @ [CHR 0x0A]"

definition Render :: "bitmap \<Rightarrow> bool \<Rightarrow> string" where
  "Render bm invert = concat (map (\<lambda>k. block_line bm invert (2 * k)) [0..<(length bm + 1) div 2])"

section \<open>What a scanner sees\<close>

text \<open>The cells of the text, line by line: the upper and the lower half of each character.\<close>

fun read_cells :: "(bool \<times> bool) list \<Rightarrow> string \<Rightarrow> (bool \<times> bool) list list" where
  "read_cells row [] = []"
| "read_cells row (c # s) =
     (if c = CHR 0x0A then rev row # read_cells [] s
      else if c = CHR '' '' then read_cells ((False, False) # row) s
      else (case s of
          _ # b # t \<Rightarrow> read_cells ((b = CHR 0x88 \<or> b = CHR 0x80, b = CHR 0x88 \<or> b = CHR 0x84) # row) t
        | _ \<Rightarrow> []))"

text \<open>The modules, given how many rows there are and whether the terminal is dark.\<close>

definition scan :: "nat \<Rightarrow> bool \<Rightarrow> string \<Rightarrow> bitmap" where
  "scan h invert s = take h (concat (map (\<lambda>row. [map (\<lambda>(t, _). t \<noteq> invert) row, map (\<lambda>(_, b). b \<noteq> invert) row]) (read_cells [] s)))"

lemma read_half_block: "read_cells row (half_block t b @ s) = read_cells ((t, b) # row) s"
  by (cases t; cases b) (simp_all add: half_block_def)

lemma read_row: "read_cells row (concat (map (\<lambda>x. half_block (f x) (g x)) xs) @ [CHR 0x0A] @ s) = (rev row @ map (\<lambda>x. (f x, g x)) xs) # read_cells [] s"
  by (induction xs arbitrary: row) (simp_all add: read_half_block)

lemma read_lines: "read_cells [] (concat (map (\<lambda>k. block_line bm invert (2 * k)) ks)) =
    map (\<lambda>k. map (\<lambda>x. (dark bm invert x (2 * k), dark bm invert x (2 * k + 1))) [0..<length (hd bm)]) ks"
  by (induction ks) (simp_all add: block_line_def read_row [of "[]", simplified])

definition rectangular :: "bitmap \<Rightarrow> bool" where
  "rectangular bm \<longleftrightarrow> list_all (\<lambda>r. length r = length (hd bm)) bm"

lemma pairs_upto: "concat (map (\<lambda>k. [f (2 * k), f (2 * k + 1)]) [0..<n]) = map f [0..<2 * n]"
  by (induction n) simp_all

text \<open>
  The printed code is the code: on a terminal of either colour, reading the half blocks back, upper and lower half of
  every character, gives exactly the modules of the QR code, row by row, for every rectangular code of any size.
\<close>

theorem qr_reads_back:
  assumes "rectangular bm"
  shows "scan (length bm) invert (Render bm invert) = bm"
proof -
  let ?w = "length (hd bm)" and ?n = "(length bm + 1) div 2"
  let ?row = "\<lambda>y. map (\<lambda>x. dark bm invert x y \<noteq> invert) [0..<?w]"
  have "concat (map (\<lambda>row. [map (\<lambda>(t, _). t \<noteq> invert) row, map (\<lambda>(_, b). b \<noteq> invert) row]) (read_cells [] (Render bm invert))) =
      concat (map (\<lambda>k. [?row (2 * k), ?row (2 * k + 1)]) [0..<?n])"
    unfolding Render_def read_lines by (simp add: comp_def)
  also have "\<dots> = map ?row [0..<2 * ?n]" by (rule pairs_upto)
  finally have cells: "scan (length bm) invert (Render bm invert) = map ?row [0..<length bm]"
    by (simp add: scan_def take_map)
  have row: "?row y = bm ! y" if y: "y < length bm" for y
  proof (rule nth_equalityI)
    have l: "length (bm ! y) = ?w" using assms y by (simp add: rectangular_def list_all_length)
    then show "length (?row y) = length (bm ! y)" by simp
    fix x assume "x < length (?row y)"
    then show "?row y ! x = bm ! y ! x" using l y by (auto simp: dark_def)
  qed
  have "map ?row [0..<length bm] = map (\<lambda>y. bm ! y) [0..<length bm]" by (rule map_cong) (simp_all only: row atLeastLessThan_upt [symmetric] atLeastLessThan_iff)
  then show ?thesis unfolding cells by (simp add: map_nth)
qed

theorem qr_reads_back_witness:
  "scan 3 True (Render [[True, False], [False, True], [True, True]] True) = [[True, False], [False, True], [True, True]]"
  using qr_reads_back [of "[[True, False], [False, True], [True, True]]" True] by (simp add: rectangular_def numeral_3_eq_3)

end
