(* ===== verification/EndToEnd.thy ===== *)
theory EndToEnd
  imports DaemonSafety
begin

text \<open>
  From the printed code to a paired phone: the daemon's link, the phone's half of the handshake as
  cmd/hermote-bridge/selftest.go runs it, and the bridge's admission steps, composed.
\<close>

section \<open>The phone's half\<close>

datatype scan_error = BadLink pair_error | BadHandshake handshake_error

text \<open>The self-test up to its Hello: the link is read, and the Hello is for the session it names.\<close>

definition selftest_hello :: "crypto \<Rightarrow> Identity \<Rightarrow> string \<Rightarrow> rng \<Rightarrow> scan_error + PairPayload \<times> Hello \<times> PhoneState" where
  "selftest_hello C phone link r =
     (case ParsePair C link of
        Inl e \<Rightarrow> Inl (BadLink e)
      | Inr p \<Rightarrow>
          (case PhoneHello C phone (pp_SessionID p) r of
             Inl e \<Rightarrow> Inl (BadHandshake e)
           | Inr (h, ps) \<Rightarrow> Inr (p, h, ps)))"

text \<open>Its Confirm: against the key and with the code of the link.\<close>

definition selftest_confirm :: "crypto \<Rightarrow> PairPayload \<Rightarrow> PhoneState \<Rightarrow> Accept \<Rightarrow> scan_error + bytes \<times> Suite" where
  "selftest_confirm C p ps a =
     (case PhoneFinish C ps a (pp_BridgeKey p) (Some (pp_Code p)) of Inl e \<Rightarrow> Inl (BadHandshake e) | Inr r \<Rightarrow> Inr r)"

section \<open>The bridge's steps\<close>

primrec hs_run :: "crypto \<Rightarrow> Identity \<Rightarrow> nat \<Rightarrow> hs_input list \<Rightarrow> bridge \<Rightarrow> bridge" where
  "hs_run C b c [] s = s"
| "hs_run C b c (i # is) s = hs_run C b c is (case map_of (br_conns s) c of None \<Rightarrow> s | Some k \<Rightarrow> hs_step C b c k i s)"

lemma hs_run_machine: "as_bridge (fold (adm_step C b) (map (AHandshake c) is) a) = hs_run C b c is (as_bridge a)"
  by (induction "is" arbitrary: a) (auto split: option.split)

lemma to_stage_fields [simp]:
  "br_store (to_stage c k st s) = br_store s" "br_pairings (to_stage c k st s) = br_pairings s"
  "revocationGeneration (to_stage c k st s) = revocationGeneration s"
  "map_of (br_conns (to_stage c k st s)) c = Some (k\<lparr>cn_stage := st\<rparr>)"
  by (simp_all add: to_stage_def set_conn_def revocationGeneration_def update_conv')

lemma generation_fields [simp]:
  "revocationGeneration (s\<lparr>br_store := st\<rparr>) = revocationGeneration s" "revocationGeneration (s\<lparr>br_pairings := p\<rparr>) = revocationGeneration s"
  by (simp_all add: revocationGeneration_def)

text \<open>A store that works: open, with a readable list of devices.\<close>

definition usable_store :: "Store \<Rightarrow> bool" where
  "usable_store st \<longleftrightarrow> \<not> st_closed st \<and> dk_devices (st_disk st) \<noteq> Corrupt"

lemma update_first_None: "i \<notin> dID ` set ds \<Longrightarrow> update_first i g ds = None"
  by (induction ds) auto

lemma unknown_not_trusted:
  assumes "DeviceID k \<notin> ids st" shows "IsTrusted no_faults now k st = (False, st)"
  using assms
  by (cases "dk_devices (st_disk st)")
    (auto simp: IsTrusted_def locked_def devicesUnlocked_def no_faults_def ids_def update_first_None)

lemma add_works:
  assumes "usable_store st"
  obtains st' where "AddTrusted no_faults now k [] st = ([], st')" "DeviceID k \<in> ids st'"
proof -
  obtain e st' where a: "AddTrusted no_faults now k [] st = (e, st')" by (metis prod.exhaust)
  have "e = []"
    using assms a by (auto simp: AddTrusted_def locked_def devicesUnlocked_def writeDevices_def writeFile_outcome no_faults_def usable_store_def
        put_devices_def split: contents.splits option.splits)
  moreover have "DeviceID k \<in> ids st'" using AddTrusted_effect(1) [OF a] \<open>e = []\<close> by (simp add: effective_def)
  ultimately show thesis using a that by blast
qed

text \<open>What the handshake of connection \<open>c\<close> reads and writes of the bridge.\<close>

definition view :: "nat \<Rightarrow> bridge \<Rightarrow> conn option \<times> Store \<times> pairings \<times> 64 word" where
  "view c s = (map_of (br_conns s) c, br_store s, br_pairings s, revocationGeneration s)"

lemma view_to_stage: "view c (to_stage c k st s) = (Some (k\<lparr>cn_stage := st\<rparr>), br_store s, br_pairings s, revocationGeneration s)"
  by (simp add: view_def)

lemma run_step:
  assumes "view c s = (Some k, st, p, g)"
  shows "view c (hs_run C b c (i # is) s) = view c (hs_run C b c is (hs_step C b c k i s))"
  using assms by (simp add: view_def)

lemma step_hello:
  assumes "view c s = (Some k, st, p, g)" "cn_stage k = Greeting" "read_hello C b True raw r = x"
  shows "view c (hs_step C b c k (HHello True raw r) s) = (Some (k\<lparr>cn_stage := x\<rparr>), st, p, g)"
  using assms by (simp add: view_to_stage) (simp add: view_def)

lemma step_confirm:
  assumes "view c s = (Some k, st, p, g)" "cn_stage k = Accepted pd"
  shows "view c (hs_step C b c k (HConfirm True f) s) = (Some (k\<lparr>cn_stage := Captured pd f g\<rparr>), st, p, g)"
  using assms by (simp add: view_to_stage) (simp add: view_def)

lemma step_offered:
  assumes "view c s = (Some k, st, p, g)" "cn_stage k = Captured pd f g'"
  shows "view c (hs_step C b c k (HCodes t) s) =
    (Some (k\<lparr>cn_stage := Offered pd f g' (map fst (unexpired t p))\<rparr>), st, unexpired t p, g)"
  using assms by (simp add: view_to_stage Outstanding_def) (simp add: view_def)

lemma step_finish:
  assumes "view c s = (Some k, st, p, g)" "cn_stage k = Offered pd f g' codes"
    "DeviceID (hPhoneID (pdHello pd)) \<notin> ids st" "finish_stage C False pd f g' codes = x"
  shows "view c (hs_step C b c k (HFinish no_faults t) s) = (Some (k\<lparr>cn_stage := x\<rparr>), st, p, g)"
proof -
  have "br_store s = st" using assms(1) by (simp add: view_def)
  then show ?thesis
    using assms by (simp add: view_to_stage unknown_not_trusted) (simp add: view_def)
qed

lemma step_consume:
  assumes "view c s = (Some k, st, p, g)" "cn_stage k = Paired sb pid' g' code" "Consume t code p = (True, p')"
  shows "view c (hs_step C b c k (HConsume t) s) = (Some (k\<lparr>cn_stage := Consumed sb pid' g'\<rparr>), st, p', g)"
proof -
  have "br_pairings s = p" using assms(1) by (simp add: view_def)
  then show ?thesis using assms by (simp add: view_to_stage) (simp add: view_def)
qed

lemma step_record:
  assumes "view c s = (Some k, st, p, g)" "cn_stage k = Consumed sb pid' g'" "AddTrusted f t pid' [] st = ([], st')"
  shows "view c (hs_step C b c k (HRecord f t) s) = (Some (k\<lparr>cn_stage := Publishing sb pid' g' 0\<rparr>), st', p, g)"
proof -
  have "br_store s = st" using assms(1) by (simp add: view_def)
  then show ?thesis using assms by (simp add: view_to_stage) (simp add: view_def)
qed

lemma step_publish:
  assumes "view c s = (Some k, st, p, g)" "cn_stage k = Publishing sb pid' g n"
  shows "view c (hs_step C b c k HPublish s) = (Some (k\<lparr>cn_stage := Published sb, cn_deviceID := DeviceID pid'\<rparr>), st, p, g)"
  using assms by (simp add: publishAdmission_def view_def set_conn_def update_conv' revocationGeneration_def)

text \<open>The bridge's side of one pairing, given what the two ends exchanged.\<close>

lemma pairing_run:
  assumes start: "view c s = (Some k, st, p, g)" "cn_stage k = Greeting"
    and hello: "Hello_UnmarshalJSON raw = Some h" "BridgeAccept C b h rb = Inr (a, pd)" "pdHello pd = h"
    and finish: "PendingFinish C pd f (Some (\<lambda>_. False)) (map fst (unexpired t p)) = (Inr (sb, Some code), pd')"
    and code: "code \<in> set (map fst (unexpired t p))"
    and unknown: "DeviceID (hPhoneID h) \<notin> ids st" and usable: "usable_store st"
  obtains st' where "view c (hs_run C b c [HHello True raw rb, HConfirm True f, HCodes t, HFinish no_faults t, HConsume t,
      HRecord no_faults t, HPublish] s) =
      (Some (k\<lparr>cn_stage := Published sb, cn_deviceID := DeviceID (hPhoneID h)\<rparr>), st', snd (Consume t code (unexpired t p)), g)"
    "DeviceID (hPhoneID h) \<in> ids st'"
proof -
  obtain st' where add: "AddTrusted no_faults t (hPhoneID h) [] st = ([], st')" "DeviceID (hPhoneID h) \<in> ids st'"
    using add_works [OF usable] by blast
  have read: "read_hello C b True raw rb = Accepted pd" using hello(1,2) by (simp add: read_hello_def)
  have fin: "finish_stage C False pd f g (map fst (unexpired t p)) = Paired sb (hPhoneID h) g code"
    using finish hello(3) by (simp add: finish_stage_def)
  have "fst (Consume t code (unexpired t p))"
    using code by (force simp: Consume_def list_ex_iff unexpired_def)
  then have cons: "Consume t code (unexpired t p) = (True, snd (Consume t code (unexpired t p)))"
    by (simp add: prod_eq_iff)
  let ?codes = "map fst (unexpired t p)" and ?left = "snd (Consume t code (unexpired t p))"
  define s1 where "s1 = hs_step C b c k (HHello True raw rb) s"
  have v1: "view c s1 = (Some (k\<lparr>cn_stage := Accepted pd\<rparr>), st, p, g)"
    unfolding s1_def by (rule step_hello [OF start read])
  define s2 where "s2 = hs_step C b c (k\<lparr>cn_stage := Accepted pd\<rparr>) (HConfirm True f) s1"
  have v2: "view c s2 = (Some (k\<lparr>cn_stage := Captured pd f g\<rparr>), st, p, g)"
    unfolding s2_def using step_confirm [OF v1, where pd = pd] by (simp del: hs_step.simps)
  define s3 where "s3 = hs_step C b c (k\<lparr>cn_stage := Captured pd f g\<rparr>) (HCodes t) s2"
  have v3: "view c s3 = (Some (k\<lparr>cn_stage := Offered pd f g ?codes\<rparr>), st, unexpired t p, g)"
    unfolding s3_def using step_offered [OF v2, where pd = pd and f = f and g' = g] by (simp del: hs_step.simps)
  define s4 where "s4 = hs_step C b c (k\<lparr>cn_stage := Offered pd f g ?codes\<rparr>) (HFinish no_faults t) s3"
  have v4: "view c s4 = (Some (k\<lparr>cn_stage := Paired sb (hPhoneID h) g code\<rparr>), st, unexpired t p, g)"
    unfolding s4_def using step_finish [OF v3, where pd = pd and f = f and g' = g and codes = ?codes, OF _ _ fin] by (simp add: hello(3) unknown del: hs_step.simps)
  define s5 where "s5 = hs_step C b c (k\<lparr>cn_stage := Paired sb (hPhoneID h) g code\<rparr>) (HConsume t) s4"
  have v5: "view c s5 = (Some (k\<lparr>cn_stage := Consumed sb (hPhoneID h) g\<rparr>), st, ?left, g)"
    unfolding s5_def using step_consume [OF v4, where sb = sb and pid' = "hPhoneID h" and g' = g and code = code, OF _ cons] by (simp del: hs_step.simps)
  define s6 where "s6 = hs_step C b c (k\<lparr>cn_stage := Consumed sb (hPhoneID h) g\<rparr>) (HRecord no_faults t) s5"
  have v6: "view c s6 = (Some (k\<lparr>cn_stage := Publishing sb (hPhoneID h) g 0\<rparr>), st', ?left, g)"
    unfolding s6_def using step_record [OF v5, where sb = sb and pid' = "hPhoneID h" and g' = g, OF _ add(1)] by (simp del: hs_step.simps)
  define s7 where "s7 = hs_step C b c (k\<lparr>cn_stage := Publishing sb (hPhoneID h) g 0\<rparr>) (HPublish) s6"
  have v7: "view c s7 = (Some (k\<lparr>cn_stage := Published sb, cn_deviceID := DeviceID (hPhoneID h)\<rparr>), st', ?left, g)"
    unfolding s7_def using step_publish [OF v6, where sb = sb and pid' = "hPhoneID h" and n = 0] by (simp del: hs_step.simps)
  have "view c (hs_run C b c [HHello True raw rb, HConfirm True f, HCodes t, HFinish no_faults t, HConsume t, HRecord no_faults t, HPublish] s) = view c s7"
    by (simp only: run_step [OF start(1)] run_step [OF v1] run_step [OF v2] run_step [OF v3] run_step [OF v4] run_step [OF v5]
        run_step [OF v6] flip: s1_def s2_def s3_def s4_def s5_def s6_def s7_def) simp
  then show thesis using add(2) v7 that by simp
qed

section \<open>Scan and pair\<close>

lemma session_plain: "plain (SessionID C i)"
  using plain_b64 by (auto simp: SessionID_def SessionIDFor_def list_all_iff dest: in_set_takeD)

lemma phone_hello_round:
  assumes "PhoneHello C i (SessionID C b) r = Inr (h, ps)"
  shows "Hello_UnmarshalJSON (MarshalHello h) = Some h" "hPhoneID h = Public C i"
proof -
  have h: "hVersion h = Identity.Version" "hSessionID h = SessionID C b" "hPhoneID h = Public C i"
    "hAdmissionTimestamp h = None" "hAdmissionSignature h = None" "hAdmissionCodeProof h = None"
    using assms by (auto simp: PhoneHello_def Let_def split: option.splits)
  then show "Hello_UnmarshalJSON (MarshalHello h) = Some h" "hPhoneID h = Public C i"
    by (auto intro!: Hello_round simp: session_plain Identity.Version_def)
qed

lemma issued_outstanding: "t < e \<Longrightarrow> code \<in> set (map fst (unexpired t (AList.update code e p)))"
  using map_of_update_in [of code e p] by (force simp: unexpired_def)

text \<open>
  C17. Scanning the printed code pairs the phone. The daemon prints a link; a new phone reads it and sends its Hello for
  the session in it; the bridge answers; the phone checks the answer against the key in the link and confirms with the
  code in it. If that happens before the link expires, on an open connection and with a store that can be written, then
  no step fails: the connection is published for the phone's own device id with suites that match the phone's, the
  device is trusted, and one of the outstanding codes is spent.
\<close>

theorem scan_and_pair:
  assumes laws: "aead_correct C" "sig_correct C" "dh_agrees C" "hash_sizes C"
    and keys: "length (priv (dm_identity d)) = SeedSize" "length (priv phone) = SeedSize" "64 \<le> length rp" "64 \<le> length rb"
    and link: "daemon_Pair C r ta now d = (Inr (link, expires), d')"
      "cfTransport (dm_cfg d) = TransportDirect \<or> cfTransport (dm_cfg d) = TransportRelay"
      "fst (PublicURL ta now d) = Inr u" "ws_address u" "0 \<le> now" "now + PairTTL < 2 ^ 63 * nanos"
    and conn: "as_bridge a = dm_bridge d'" "map_of (br_conns (dm_bridge d')) c = Some k" "cn_stage k = Greeting" "\<not> cn_closed k"
    and fresh: "DeviceID (Public C phone) \<notin> ids (br_store (dm_bridge d'))" "usable_store (br_store (dm_bridge d'))" "t < expires"
  shows "\<exists>p h ps ac pd f sp sb code k'.
    selftest_hello C phone link rp = Inr (p, h, ps) \<and> BridgeAccept C (dm_identity d) h rb = Inr (ac, pd) \<and>
    selftest_confirm C p ps ac = Inr (f, sp) \<and> synced sp sb \<and> synced sb sp \<and>
    (let s = as_bridge (fold (adm_step C (dm_identity d)) (map (AHandshake c)
         [HHello True (MarshalHello h) rb, HConfirm True f, HCodes t, HFinish no_faults t, HConsume t, HRecord no_faults t, HPublish]) a) in
     map_of (br_conns s) c = Some k' \<and> cn_stage k' = Published sb \<and> cn_deviceID k' = DeviceID (Public C phone) \<and> \<not> cn_closed k' \<and>
     cn_deviceID k' \<in> ids (br_store s) \<and> fst (Consume t code (br_pairings (dm_bridge d'))) \<and> \<not> fst (Consume t code (br_pairings s)))"
proof -
  let ?b = "dm_identity d" and ?p0 = "br_pairings (dm_bridge d')" and ?st = "br_store (dm_bridge d')"
  let ?codes = "map fst (unexpired t ?p0)"
  have "length (Public C ?b) = PublicKeySize"
    using laws(2) keys(1) by (auto simp: sig_correct_def Public_def SeedSize_def PublicKeySize_def)
  moreover have "\<forall>u. fst (PublicURL ta now d) = Inr u \<longrightarrow> ws_address u" using link(3,4) by simp
  ultimately obtain p where
    p: "ParsePair C link = Inr p" "pp_BridgeKey p = Public C ?b" "pp_SessionID p = SessionID C ?b"
      "?p0 = AList.update (pp_Code p) expires (br_pairings (dm_bridge d))"
    using printed_link_read [OF link(1) _ link(2) _ link(5,6)] by blast
  have offered: "pp_Code p \<in> set ?codes" unfolding p(4) using fresh(3) by (rule issued_outstanding)
  obtain h ps ac pd f sp sb used pd' where r: "PhoneHello C phone (SessionID C ?b) rp = Inr (h, ps)"
    "BridgeAccept C ?b h rb = Inr (ac, pd)" "PhoneFinish C ps ac (Public C ?b) (Some (pp_Code p)) = Inr (f, sp)"
    "PendingFinish C pd f (Some (\<lambda>_. False)) ?codes = (Inr (sb, used), pd')" "synced sp sb" "synced sb sp"
    "used \<noteq> None" "set_option used \<subseteq> set ?codes"
    using honest_handshake [OF laws keys, of "Some (\<lambda>_. False)" ?codes "Some (pp_Code p)"] offered
    by (auto simp: is_trusted_def)
  obtain code where code: "used = Some code" "code \<in> set ?codes" using r(7,8) by auto
  note h = phone_hello_round [OF r(1)]
  have v: "view c (dm_bridge d') = (Some k, ?st, ?p0, revocationGeneration (dm_bridge d'))" by (simp add: view_def conn)
  have unknown: "DeviceID (hPhoneID h) \<notin> ids ?st" using fresh(1) h(2) by simp
  let ?is = "[HHello True (MarshalHello h) rb, HConfirm True f, HCodes t, HFinish no_faults t, HConsume t, HRecord no_faults t, HPublish]"
  obtain st' where run: "view c (hs_run C ?b c ?is (dm_bridge d')) =
      (Some (k\<lparr>cn_stage := Published sb, cn_deviceID := DeviceID (hPhoneID h)\<rparr>), st', snd (Consume t code (unexpired t ?p0)),
       revocationGeneration (dm_bridge d'))" "DeviceID (hPhoneID h) \<in> ids st'"
    using pairing_run [OF v conn(3) h(1) r(2) BridgeAccept_fields(6) [OF r(2)] r(4) [unfolded code(1)] code(2) unknown fresh(2)]
    by blast
  define s where "s = hs_run C ?b c ?is (dm_bridge d')"
  let ?k' = "k\<lparr>cn_stage := Published sb, cn_deviceID := DeviceID (Public C phone)\<rparr>"
  have s: "map_of (br_conns s) c = Some ?k'" "cn_deviceID ?k' \<in> ids (br_store s)" "\<not> fst (Consume t code (br_pairings s))"
    using run Consume_issued(2) unfolding view_def s_def [symmetric] h(2) by auto
  have machine: "as_bridge (fold (adm_step C ?b) (map (AHandshake c) ?is) a) = s"
    by (simp only: hs_run_machine conn(1) s_def)
  have spent: "fst (Consume t code ?p0)" using code(2) by (force simp: Consume_def unexpired_def list_ex_iff)
  have "selftest_hello C phone link rp = Inr (p, h, ps)" "selftest_confirm C p ps ac = Inr (f, sp)"
    using p(1-3) r(1,3) by (simp_all add: selftest_hello_def selftest_confirm_def)
  moreover have "cn_stage ?k' = Published sb" "cn_deviceID ?k' = DeviceID (Public C phone)" "\<not> cn_closed ?k'" using conn(4) by simp_all
  ultimately show ?thesis unfolding Let_def using machine s r(2,5,6) spent by blast
qed

text \<open>A Mac whose store knows one phone, and a second phone that has just connected.\<close>

definition open_daemon :: daemon where
  "open_daemon = demo_daemon\<lparr>dm_bridge := track 0 True (as_bridge (new_bridge demo_store))\<rparr>"

definition second_phone :: Identity where "second_phone = \<lparr>priv = replicate 32 8\<rparr>"

lemma open_daemon_link:
  obtains link d' where "daemon_Pair toy_crypto (replicate 16 9) TailMissing 0 open_daemon = (Inr (link, PairTTL), d')"
    "dm_bridge d' = (dm_bridge open_daemon)\<lparr>br_pairings := [(replicate 16 9, PairTTL)]\<rparr>"
    "fst (PublicURL TailMissing 0 open_daemon) = Inr ''wss://r.example/v1/phone''"
proof -
  have u: "PublicURL TailMissing 0 open_daemon = (Inr ''wss://r.example/v1/phone'', open_daemon)"
    by (simp add: PublicURL_def open_daemon_def demo_daemon_def TransportRelay_def)
  have i: "Issue (replicate 16 9) PairTTL 0 (br_pairings (dm_bridge open_daemon)) = (Some (replicate 16 9, PairTTL), [(replicate 16 9, PairTTL)])"
    by (simp add: open_daemon_def track_def new_bridge_def newPairings_def Issue_def NewPairCode_def read_full_def PairCodeSize_def)
  obtain link where "daemon_Pair toy_crypto (replicate 16 9) TailMissing 0 open_daemon = (Inr (link, PairTTL),
      open_daemon\<lparr>dm_bridge := (dm_bridge open_daemon)\<lparr>br_pairings := [(replicate 16 9, PairTTL)]\<rparr>\<rparr>)"
    by (simp add: daemon_Pair_def u i)
  then show thesis by (rule that) (simp_all add: u)
qed

lemma second_phone_unknown:
  "DeviceID (Public toy_crypto second_phone) \<notin> ids demo_store" "usable_store demo_store"
proof -
  have "fst (AddTrusted no_faults 1 (Public toy_crypto toy_phone) [] empty_store) = []"
    by (simp add: AddTrusted_def locked_def devicesUnlocked_def writeDevices_def writeFile_outcome empty_store_def no_faults_def)
  then have "AddTrusted no_faults 1 (Public toy_crypto toy_phone) [] empty_store = ([], demo_store)"
    by (simp add: demo_store_def prod_eq_iff)
  from AddTrusted_effect(1) [OF this] have "ids demo_store = {DeviceID (Public toy_crypto toy_phone)}"
    by (simp add: effective_def ids_def empty_store_def)
  moreover have "Public toy_crypto second_phone \<noteq> Public toy_crypto toy_phone"
    by (simp add: Public_def toy_crypto_def second_phone_def toy_phone_def)
  then have "DeviceID (Public toy_crypto second_phone) \<noteq> DeviceID (Public toy_crypto toy_phone)"
    by (metis DecodeDeviceID_DeviceID option.inject)
  ultimately show "DeviceID (Public toy_crypto second_phone) \<notin> ids demo_store" by simp
  show "usable_store demo_store"
    by (simp add: usable_store_def demo_store_def AddTrusted_def locked_def devicesUnlocked_def writeDevices_def
        writeFile_outcome empty_store_def no_faults_def put_devices_def)
qed

lemma scan_and_pair_witness:
  "\<exists>link d' p h ps ac f sp k'. daemon_Pair toy_crypto (replicate 16 9) TailMissing 0 open_daemon = (Inr (link, PairTTL), d') \<and>
    selftest_hello toy_crypto second_phone link (replicate 64 1) = Inr (p, h, ps) \<and>
    selftest_confirm toy_crypto p ps ac = Inr (f, sp) \<and>
    (let s = as_bridge (fold (adm_step toy_crypto (dm_identity open_daemon)) (map (AHandshake 0)
      [HHello True (MarshalHello h) (replicate 64 2), HConfirm True f, HCodes 7, HFinish no_faults 7, HConsume 7,
       HRecord no_faults 7, HPublish]) ((new_bridge demo_store)\<lparr>as_bridge := dm_bridge d'\<rparr>)) in
    map_of (br_conns s) 0 = Some k' \<and> cn_deviceID k' = DeviceID (Public toy_crypto second_phone) \<and> cn_deviceID k' \<in> ids (br_store s))"
proof -
  obtain link d' where l: "daemon_Pair toy_crypto (replicate 16 9) TailMissing 0 open_daemon = (Inr (link, PairTTL), d')"
    "dm_bridge d' = (dm_bridge open_daemon)\<lparr>br_pairings := [(replicate 16 9, PairTTL)]\<rparr>"
    "fst (PublicURL TailMissing 0 open_daemon) = Inr ''wss://r.example/v1/phone''"
    by (rule open_daemon_link)
  have keys: "length (priv (dm_identity open_daemon)) = SeedSize" "length (priv second_phone) = SeedSize"
    "64 \<le> length (replicate 64 (1::8 word))" "64 \<le> length (replicate 64 (2::8 word))"
    by (simp_all add: open_daemon_def demo_daemon_def toy_bridge_def second_phone_def SeedSize_def)
  have transport: "cfTransport (dm_cfg open_daemon) = TransportDirect \<or> cfTransport (dm_cfg open_daemon) = TransportRelay"
    by (simp add: open_daemon_def demo_daemon_def TransportRelay_def)
  have url: "ws_address ''wss://r.example/v1/phone''" by (simp add: ws_address_def demo_relay_url)
  have times: "(0::int) \<le> 0" "(0::int) + PairTTL < 2 ^ 63 * PairLink.nanos" "(7::int) < PairTTL"
    by (simp_all add: PairTTL_def PairLink.nanos_def)
  have conn: "as_bridge ((new_bridge demo_store)\<lparr>as_bridge := dm_bridge d'\<rparr>) = dm_bridge d'"
    "map_of (br_conns (dm_bridge d')) 0 = Some newConnection" "cn_stage newConnection = Greeting" "\<not> cn_closed newConnection"
    by (simp_all add: l(2) open_daemon_def track_def new_bridge_def newConnection_def)
  have store: "br_store (dm_bridge d') = demo_store" by (simp add: l(2) open_daemon_def track_def new_bridge_def)
  have fresh: "DeviceID (Public toy_crypto second_phone) \<notin> ids (br_store (dm_bridge d'))" "usable_store (br_store (dm_bridge d'))"
    unfolding store by (rule second_phone_unknown)+
  note r = scan_and_pair [OF toy_crypto_laws(1,3,4,5) keys l(1) transport l(3) url times(1,2) conn fresh times(3)]
  then show ?thesis
    unfolding Let_def by (elim exE conjE) (intro exI conjI, rule l(1), assumption+)
qed

end
