(* ===== verification/Serving.thy ===== *)
theory Serving
  imports Tunnel BlobUploads AdmissionSafety FolderLister
begin

text \<open>
  internal/bridge/server.go and limits.go: how the server is put together from its parts, its health answer, and one
  connection from the moment it is tracked to the moment it is forgotten.
\<close>

section \<open>The parts of the server\<close>

record bridgeDependencies =
  dp_httpPerConnection :: int
  dp_httpProcessWide :: int
  dp_fsPerConnection :: int
  dp_fsProcessWide :: int
  dp_httpAdmissionWait :: gotime
  dp_closeWriteTimeout :: gotime
  dp_fsListTimeout :: gotime
  dp_fsWarningAfter :: gotime
  dp_fsStaleAfter :: gotime
  dp_blobSpoolRoot :: string
  dp_blobMaxFileBytes :: int
  dp_blobReservedBytes :: int
  dp_blobChunkBytes :: int
  dp_blobProcessWide :: int
  dp_blobIdleTimeout :: gotime
  dp_blobCommitTimeout :: gotime

definition defaults :: bridgeDependencies where
  "defaults = \<lparr>dp_httpPerConnection = 8, dp_httpProcessWide = 32, dp_fsPerConnection = 2, dp_fsProcessWide = 8,
     dp_httpAdmissionWait = 2 * second, dp_closeWriteTimeout = 2 * second, dp_fsListTimeout = 10 * second,
     dp_fsWarningAfter = 120 * second, dp_fsStaleAfter = 0, dp_blobSpoolRoot = [],
     dp_blobMaxFileBytes = 256 * 2 ^ 20, dp_blobReservedBytes = 512 * 2 ^ 20, dp_blobChunkBytes = 512 * 2 ^ 10,
     dp_blobProcessWide = 2, dp_blobIdleTimeout = 120 * second, dp_blobCommitTimeout = 120 * second\<rparr>"

definition productionBridgeDependencies :: bridgeDependencies where
  "productionBridgeDependencies = defaults\<lparr>dp_fsStaleAfter := 6 * dp_fsListTimeout defaults\<rparr>"

record server =
  sv_deps :: bridgeDependencies
  sv_admission :: adm_state
  sv_httpSlots :: workPool
  sv_fsSlots :: workPool
  sv_spool :: string
  sv_blobs :: blobManager

text \<open>\<open>newServer\<close>: \<open>None\<close> is the panic of a pool that cannot hold anything. The spool lies in the state directory unless the
  dependencies name a place; \<open>prepare\<close> says what preparing it gave and how many clean-ups failed.\<close>

definition newServer :: "bridgeDependencies \<Rightarrow> Store \<Rightarrow> (string \<Rightarrow> string) option \<Rightarrow> (string \<Rightarrow> bool \<times> nat) \<Rightarrow> server option" where
  "newServer deps st pathOf prepare =
     (case (newWorkPool (dp_httpProcessWide deps), newWorkPool (dp_fsProcessWide deps)) of
        (Some h, Some f) \<Rightarrow>
          (let spool = (if dp_blobSpoolRoot deps = [] then (case pathOf of Some path \<Rightarrow> path ''attachment-blob-spool-v1'' | None \<Rightarrow> [])
                        else dp_blobSpoolRoot deps) in
           Some \<lparr>sv_deps = deps, sv_admission = new_bridge st, sv_httpSlots = h, sv_fsSlots = f, sv_spool = spool,
             sv_blobs = newBlobManager spool (dp_blobReservedBytes deps) (dp_blobProcessWide deps)
               (fst (prepare spool)) (snd (prepare spool))\<rparr>)
      | _ \<Rightarrow> None)"

text \<open>The resources of one connection.\<close>

definition connection_pools :: "bridgeDependencies \<Rightarrow> (workPool \<times> workPool) option" where
  "connection_pools deps =
     (case (newWorkPool (dp_httpPerConnection deps), newWorkPool (dp_fsPerConnection deps)) of
        (Some h, Some f) \<Rightarrow> Some (h, f) | _ \<Rightarrow> None)"

definition ConnectionCount :: "adm_state \<Rightarrow> nat" where
  "ConnectionCount a = length (br_conns (as_bridge a))"

text \<open>The body of \<open>/healthz\<close>; Go writes the keys of a map in order.\<close>

definition healthz :: "State \<Rightarrow> string \<Rightarrow> adm_state \<Rightarrow> string" where
  "healthz st session a = render (JObj [(''connections'', JNum (int_lit (int (ConnectionCount a)))),
     (''gateway'', JStr (state_name st)), (''ok'', JBool (st = StateReady)), (''session'', JStr session)]) @ [CHR 0x0A]"

section \<open>One connection\<close>

datatype close_code = StatusPolicyViolation | StatusNormalClosure

text \<open>\<open>conn.close\<close> acts once.\<close>

definition conn_close :: "close_code \<Rightarrow> string \<Rightarrow> (close_code \<times> string) option \<Rightarrow> (close_code \<times> string) option" where
  "conn_close code reason prev = (case prev of None \<Rightarrow> Some (code, reason) | Some x \<Rightarrow> Some x)"

text \<open>What admission announces.\<close>

definition announcement :: "server \<Rightarrow> BridgeCapability option \<Rightarrow> CtlMessage" where
  "announcement srv status =
     accepted_message (available (sv_blobs srv)) (dp_blobMaxFileBytes (sv_deps srv)) (dp_blobChunkBytes (sv_deps srv)) status"

text \<open>\<open>run\<close> after the handshake ended in \<open>st\<close>: the frames that it writes, and how it closes the link. \<open>ok\<close> says which writes of
  the announcement succeed, \<open>frames\<close> what the tunnel writes with the suite it is handed, \<open>closing\<close> a close by someone else.\<close>

definition conn_run :: "crypto \<Rightarrow> stage \<Rightarrow> CtlMessage \<Rightarrow> (nat \<Rightarrow> bool) \<Rightarrow> (Suite \<Rightarrow> bytes list) \<Rightarrow> (close_code \<times> string) option \<Rightarrow>
    bytes list \<times> (close_code \<times> string) option" where
  "conn_run C st m ok frames closing =
     (case st of
        Published suite \<Rightarrow>
          (case send C ok (MarshalCtl m) suite of
             ((Some e, fs), _) \<Rightarrow> (fs, closing)
           | ((None, fs), s) \<Rightarrow> (fs @ frames s, conn_close StatusNormalClosure [] closing))
      | _ \<Rightarrow> ([], conn_close StatusPolicyViolation ''handshake failed'' closing))"

text \<open>\<open>serveLink\<close>: the connection is tracked; the admission machine makes the steps of its handshake among those of everyone
  else; the connection runs in the stage it reached, while the machine goes on; and it is forgotten.\<close>

definition serveLink :: "crypto \<Rightarrow> Identity \<Rightarrow> (nat \<Rightarrow> adm_event list) \<Rightarrow> (nat \<Rightarrow> adm_event list) \<Rightarrow> CtlMessage \<Rightarrow> (nat \<Rightarrow> bool) \<Rightarrow>
    (Suite \<Rightarrow> bytes list) \<Rightarrow> (close_code \<times> string) option \<Rightarrow> adm_state \<Rightarrow> (bytes list \<times> (close_code \<times> string) option) \<times> adm_state" where
  "serveLink C b handshaking tunnelling m ok frames closing a =
     (let c = as_fresh a;
          a1 = fold (adm_step C b) (handshaking c) (adm_step C b AOpen a);
          st = (case map_of (br_conns (as_bridge a1)) c of Some k \<Rightarrow> cn_stage k | None \<Rightarrow> Rejected ReadError);
          a2 = fold (adm_step C b) (tunnelling c) a1 in
      (conn_run C st m ok frames closing, adm_step C b (ALeave c) a2))"

section \<open>Facts\<close>

lemma production_pools:
  "newWorkPool (dp_httpProcessWide productionBridgeDependencies) = Some \<lparr>wp_cap = 32, wp_used = 0\<rparr>"
  "newWorkPool (dp_fsProcessWide productionBridgeDependencies) = Some \<lparr>wp_cap = 8, wp_used = 0\<rparr>"
  "connection_pools productionBridgeDependencies = Some (\<lparr>wp_cap = 8, wp_used = 0\<rparr>, \<lparr>wp_cap = 2, wp_used = 0\<rparr>)"
  by (simp_all add: productionBridgeDependencies_def defaults_def newWorkPool_def connection_pools_def)

text \<open>The production limits fit together: one phone cannot take every slot of the process, one file fits the quota, and a chunk,
  in base64, fits a message.\<close>

lemma production_limits:
  defines "d \<equiv> productionBridgeDependencies"
  shows "dp_httpPerConnection d < dp_httpProcessWide d" "dp_fsPerConnection d < dp_fsProcessWide d"
    "dp_blobMaxFileBytes d \<le> dp_blobReservedBytes d" "4 * (dp_blobChunkBytes d + 2) div 3 < int MaxPlaintext"
    "dp_blobProcessWide d * dp_blobMaxFileBytes d \<le> dp_blobReservedBytes d" "dp_fsListTimeout d < dp_fsStaleAfter d"
  by (simp_all add: d_def productionBridgeDependencies_def defaults_def MaxPlaintext_def second_def)

lemma newServer_production:
  obtains srv where "newServer productionBridgeDependencies st pathOf prepare = Some srv"
    "sv_deps srv = productionBridgeDependencies" "sv_admission srv = new_bridge st"
    "available (sv_blobs srv) \<longleftrightarrow> sv_spool srv \<noteq> [] \<and> fst (prepare (sv_spool srv))"
  by (simp add: newServer_def production_pools available_def newBlobManager_def Let_def)

lemma serveLink_forgets: "map_of (br_conns (as_bridge (snd (serveLink C b hs tn m ok frames cl a)))) (as_fresh a) = None"
  by (simp add: serveLink_def Let_def track_def delete_conv')

section \<open>What the phone hears first\<close>

definition plain_capability :: "BridgeCapability \<Rightarrow> bool" where
  "plain_capability b \<longleftrightarrow> plain (bc_Version b) \<and> plain (bc_Incarnation b) \<and> - (2 ^ 63) \<le> bc_API b \<and> bc_API b < 2 ^ 63"

lemma int64_lit: "- (2 ^ 63) \<le> i \<Longrightarrow> i < 2 ^ 63 \<Longrightarrow> as_int64 old (JNum (int_lit i)) = Some i"
  by (simp add: as_int_int_lit)

lemmas int64_read = int64_lit [simplified]

lemma caps_round:
  fixes up :: bool
  assumes "- (2 ^ 63) \<le> mx" "mx < 2 ^ 63" "- (2 ^ 63) \<le> ck" "ck < 2 ^ 63" "\<forall>b \<in> set_option status. plain_capability b"
  defines "c \<equiv> \<lparr>ca_AttachmentBlob = (if up then Some \<lparr>ab_Version = 1, ab_MaxFileBytes = mx, ab_ChunkBytes = ck\<rparr> else None),
      ca_Bridge = status\<rparr>"
  shows "fill_struct [''attachment_blob'', ''bridge''] caps_set (caps_json c) \<lparr>ca_AttachmentBlob = None, ca_Bridge = None\<rparr> = Some c"
    "plain_json (caps_json c)" "json_depth (caps_json c) \<le> 9999"
proof -
  note one = int64_read [of 1, simplified]
  show "fill_struct [''attachment_blob'', ''bridge''] caps_set (caps_json c) \<lparr>ca_AttachmentBlob = None, ca_Bridge = None\<rparr> = Some c"
    using assms(1-5)
    by (auto simp: c_def caps_json_def caps_set_def fill_struct_def fill_pointer_def blob_cap_set_def bridge_cap_set_def features_set_def
        field_of_def as_string_def as_bool_def int64_read one plain_capability_def split: option.split)
  show "plain_json (caps_json c)" "json_depth (caps_json c) \<le> 9999"
    using assms(5) by (auto simp: c_def caps_json_def plain_capability_def plain_char_def split: option.split)
qed

lemma announcement_round:
  fixes up :: bool
  assumes "- (2 ^ 63) \<le> mx" "mx < 2 ^ 63" "- (2 ^ 63) \<le> ck" "ck < 2 ^ 63" "\<forall>b \<in> set_option status. plain_capability b"
  defines "m \<equiv> accepted_message up mx ck status"
  shows "UnmarshalCtl (MarshalCtl m) = Some m" "PeekChannel (MarshalCtl m) = Inr ChCtl"
proof -
  note c = caps_round [OF assms(1-5), of up]
  have "parse_json (render (ctl_json m)) = Some (ctl_json m)"
    using c(2,3) by (intro parse_json_render) (auto simp: m_def accepted_message_def ctl_json_def ctl_def Let_def channel_names plain_char_def)
  then show "UnmarshalCtl (MarshalCtl m) = Some m" "PeekChannel (MarshalCtl m) = Inr ChCtl"
    using c(1) by (auto simp: UnmarshalCtl_def MarshalCtl_def PeekChannel_def unmarshal_def ctl_json_def m_def accepted_message_def ctl_def
        Let_def fill_struct_def field_of_def ctl_set_def as_string_def fill_pointer_def caps_json_def known_channels_def channel_names
        simp del: render.simps)
qed


definition demo_capability :: BridgeCapability where
  "demo_capability = \<lparr>bc_API = 1, bc_Version = ''1.2.0'', bc_Incarnation = ''i'', bc_Status = True, bc_Update = False\<rparr>"

lemma demo_announcement_fits:
  assumes "newServer productionBridgeDependencies demo_store (Some (\<lambda>f. ''/s/'' @ f)) (\<lambda>_. (True, 0)) = Some srv"
  shows "fits (PhoneCtl (announcement srv (Some demo_capability)))"
proof -
  have "announcement srv (Some demo_capability) = accepted_message True 268435456 524288 (Some demo_capability)"
    using assms by (auto simp: newServer_def production_pools Let_def announcement_def available_def newBlobManager_def
        productionBridgeDependencies_def defaults_def newWorkPool_def)
  moreover have "length (MarshalCtl (accepted_message True 268435456 524288 (Some demo_capability))) \<le> 1000"
    by (simp add: MarshalCtl_def ctl_json_def accepted_message_def ctl_def caps_json_def demo_capability_def json_string_def quote_body_plain
        plain_char_def channel_names int_lit_def nat_lit.simps)
  ultimately show ?thesis by (simp add: fits_def MaxPlaintext_def)
qed


end
