(* ===== verification/StateLock.thy ===== *)
theory StateLock
  imports StateStore Paths
begin

text \<open>
  internal/state: where the state lives, how a \<open>Store\<close> is opened (state.go), and the two locks that \<open>locked\<close> takes
  (state.go and flock_unix.go): the gate of the \<open>Store\<close> and the advisory lock on the file that every \<open>Store\<close> of the
  directory shares, in this process or another. The other theories take an operation as one step; here are the steps
  of the locks inside it, for any number of stores and goroutines.
\<close>

section \<open>Where the state lives\<close>

text \<open>\<open>filepath.Clean\<close>, \<open>Join\<close> and \<open>Dir\<close> as functions of text.\<close>

definition rel_push :: "string \<Rightarrow> string list \<Rightarrow> string list" where
  "rel_push seg acc =
     (if seg = [] \<or> seg = ''.'' then acc
      else if seg = ''..'' then (if acc = [] \<or> last acc = ''..'' then acc @ [seg] else butlast acc)
      else acc @ [seg])"

definition filepath_Clean :: "string \<Rightarrow> string" where
  "filepath_Clean p = (if has_prefix p ''/'' then rooted (Clean p) else join_path (fold rel_push (split_on (CHR ''/'') p) []))"

definition filepath_Join :: "string \<Rightarrow> string \<Rightarrow> string" where
  "filepath_Join a b = (if a = [] then (if b = [] then [] else filepath_Clean b) else filepath_Clean (a @ ''/'' @ b))"

definition filepath_Dir :: "string \<Rightarrow> string" where
  "filepath_Dir p = filepath_Clean (rev (dropWhile (\<lambda>c. c \<noteq> CHR ''/'') (rev p)))"

definition state_Dir :: "string \<Rightarrow> string option \<Rightarrow> string option" where
  "state_Dir hermesHome userHome =
     (if hermesHome \<noteq> [] then Some (filepath_Join hermesHome ''remote'')
      else map_option (\<lambda>h. filepath_Join (filepath_Join h ''.hermes'') ''remote'') userHome)"

definition HermesHome :: "string \<Rightarrow> string option \<Rightarrow> string option" where
  "HermesHome hermesHome userHome = map_option filepath_Dir (state_Dir hermesHome userHome)"

section \<open>Opening\<close>

definition defaultLockTimeout :: gotime where "defaultLockTimeout = 5 * 1000000000"

record store_handle =
  sh_dir :: string
  sh_lockTimeout :: gotime

datatype open_error = MkdirFailed | OpenFailed_lock | ChmodFailed_lock

text \<open>\<open>openAt\<close>, with the file descriptors that the process holds on the lock file.\<close>

definition openAt :: "string \<Rightarrow> gotime \<Rightarrow> bool \<Rightarrow> bool \<Rightarrow> bool \<Rightarrow> nat \<Rightarrow> (open_error + store_handle) \<times> nat" where
  "openAt dir lockTimeout mkdir_ok open_ok chmod_ok fds =
     (if \<not> mkdir_ok then (Inl MkdirFailed, fds)
      else if \<not> open_ok then (Inl OpenFailed_lock, fds)
      else if \<not> chmod_ok then (Inl ChmodFailed_lock, Suc fds - 1)
      else (Inr \<lparr>sh_dir = dir, sh_lockTimeout = (if lockTimeout \<le> 0 then defaultLockTimeout else lockTimeout)\<rparr>, Suc fds))"

definition Store_Path :: "store_handle \<Rightarrow> string \<Rightarrow> string" where
  "Store_Path s name = filepath_Join (sh_dir s) name"

text \<open>\<open>syncDirectory\<close>: a file system that cannot sync a directory is no error.\<close>

datatype sync_answer = Synced | SyncUnsupported | SyncFailed

definition syncDirectory :: "bool \<Rightarrow> sync_answer \<Rightarrow> bool" where
  "syncDirectory open_ok a \<longleftrightarrow> open_ok \<and> a \<noteq> SyncFailed"

section \<open>The two locks\<close>

text \<open>\<open>acquireGate\<close>: what the first look sees, the time left, and what ends the wait. A gate that opens as the timer fires is
  still taken.\<close>

datatype gate_wait = GateOpens | TimerFires bool

definition acquireGate :: "bool \<Rightarrow> gotime \<Rightarrow> gate_wait \<Rightarrow> bool" where
  "acquireGate free remaining w \<longleftrightarrow> free \<or> (0 < remaining \<and> (case w of GateOpens \<Rightarrow> True | TimerFires opened \<Rightarrow> opened))"

text \<open>\<open>acquireFileLock\<close> over the attempts: what \<open>flock\<close> answers and the time after it. \<open>None\<close>: the list ends while it waits.\<close>

datatype flock_answer = Locked | WouldBlock | FlockError

fun acquireFileLock :: "gotime \<Rightarrow> (flock_answer \<times> gotime) list \<Rightarrow> (state_error option \<times> gotime list) option" where
  "acquireFileLock deadline [] = None"
| "acquireFileLock deadline ((a, now) # rest) =
     (case a of
        Locked \<Rightarrow> Some (None, [])
      | FlockError \<Rightarrow> Some (Some LockFailed, [])
      | WouldBlock \<Rightarrow>
          (if deadline - now \<le> 0 then Some (Some ErrLockTimeout, [])
           else map_option (\<lambda>(r, ws). (r, min (deadline - now) 10000000 # ws)) (acquireFileLock deadline rest)))"

text \<open>A goroutine inside \<open>locked\<close>.\<close>

datatype phase = AtGate gotime | AtFile gotime | InBody | Finished "state_error list"

record caller =
  cl_store :: nat
  cl_phase :: phase

text \<open>The locks: who holds the gate of each store, which stores are closed, and which store's descriptor holds the file.\<close>

record lock_state =
  lk_gate :: "nat \<Rightarrow> nat option"
  lk_closed :: "nat list"
  lk_file :: "nat option"
  lk_callers :: "(nat, caller) gomap"

datatype lock_event =
    LkCall nat nat gotime
  | LkGate nat gotime
  | LkFile nat gotime bool
  | LkLeave nat bool bool "state_error list"
  | LkClose nat

definition goto :: "nat \<Rightarrow> caller \<Rightarrow> phase \<Rightarrow> lock_state \<Rightarrow> lock_state" where
  "goto g k p s = s\<lparr>lk_callers := AList.update g (k\<lparr>cl_phase := p\<rparr>) (lk_callers s)\<rparr>"

definition leave_gate :: "nat \<Rightarrow> lock_state \<Rightarrow> lock_state" where
  "leave_gate i s = s\<lparr>lk_gate := (lk_gate s)(i := None)\<rparr>"

text \<open>\<open>broken\<close> is an error of \<open>flock\<close> other than that the lock is taken. The attempt of \<open>flock\<close>: it is refused while another descriptor holds the file.\<close>

definition flock_busy :: "nat \<Rightarrow> lock_state \<Rightarrow> bool" where
  "flock_busy i s \<longleftrightarrow> (case lk_file s of None \<Rightarrow> False | Some j \<Rightarrow> j \<noteq> i)"

fun lock_step :: "lock_event \<Rightarrow> lock_state \<Rightarrow> lock_state" where
  "lock_step (LkCall g i deadline) s =
     (case map_of (lk_callers s) g of
        Some _ \<Rightarrow> s
      | None \<Rightarrow> s\<lparr>lk_callers := AList.update g \<lparr>cl_store = i, cl_phase = AtGate deadline\<rparr> (lk_callers s)\<rparr>)"
| "lock_step (LkGate g now) s =
     (case map_of (lk_callers s) g of
        None \<Rightarrow> s
      | Some k \<Rightarrow>
          (case cl_phase k of
             AtGate deadline \<Rightarrow>
               (if lk_gate s (cl_store k) \<noteq> None
                then (if deadline \<le> now then goto g k (Finished [ErrLockTimeout]) s else s)
                else if List.member (lk_closed s) (cl_store k) then goto g k (Finished [ErrClosed]) s
                else goto g k (AtFile deadline) (s\<lparr>lk_gate := (lk_gate s)(cl_store k := Some g)\<rparr>))
           | _ \<Rightarrow> s))"
| "lock_step (LkFile g now broken) s =
     (case map_of (lk_callers s) g of
        None \<Rightarrow> s
      | Some k \<Rightarrow>
          (case cl_phase k of
             AtFile deadline \<Rightarrow>
               (if broken then goto g k (Finished [LockFailed]) (leave_gate (cl_store k) s)
                else if flock_busy (cl_store k) s
                then (if deadline \<le> now then goto g k (Finished [ErrLockTimeout]) (leave_gate (cl_store k) s) else s)
                else goto g k InBody (s\<lparr>lk_file := Some (cl_store k)\<rparr>))
           | _ \<Rightarrow> s))"
| "lock_step (LkLeave g committed unlocked err) s =
     (case map_of (lk_callers s) g of
        None \<Rightarrow> s
      | Some k \<Rightarrow>
          (case cl_phase k of
             InBody \<Rightarrow>
               (let combined = err @ (if unlocked then [] else [UnlockFailed]) in
                goto g k (Finished (if committed \<and> combined \<noteq> [] then [ErrMutationCommitted combined] else combined))
                  (leave_gate (cl_store k) (if unlocked then s\<lparr>lk_file := None\<rparr> else s)))
           | _ \<Rightarrow> s))"
| "lock_step (LkClose i) s =
     (if lk_gate s i \<noteq> None then s
      else s\<lparr>lk_closed := i # lk_closed s, lk_file := (if lk_file s = Some i then None else lk_file s)\<rparr>)"

section \<open>One transaction at a time\<close>

text \<open>A goroutine that has the gate of store \<open>i\<close>, and one that runs a transaction of it.\<close>

definition phase_at :: "lock_state \<Rightarrow> nat \<Rightarrow> nat \<Rightarrow> (phase \<Rightarrow> bool) \<Rightarrow> bool" where
  "phase_at s g i P \<longleftrightarrow> (case map_of (lk_callers s) g of None \<Rightarrow> False | Some k \<Rightarrow> cl_store k = i \<and> P (cl_phase k))"

fun past_gate :: "phase \<Rightarrow> bool" where
  "past_gate (AtFile _) = True"
| "past_gate InBody = True"
| "past_gate _ = False"

definition has_gate :: "lock_state \<Rightarrow> nat \<Rightarrow> nat \<Rightarrow> bool" where
  "has_gate s g i \<longleftrightarrow> phase_at s g i past_gate"

definition in_body :: "lock_state \<Rightarrow> nat \<Rightarrow> nat \<Rightarrow> bool" where
  "in_body s g i \<longleftrightarrow> phase_at s g i (\<lambda>p. p = InBody)"

definition lock_inv :: "lock_state \<Rightarrow> bool" where
  "lock_inv s \<longleftrightarrow> (\<forall>i g. lk_gate s i = Some g \<longleftrightarrow> has_gate s g i) \<and> (\<forall>i g. in_body s g i \<longrightarrow> lk_file s = Some i) \<and>
     (\<forall>i \<in> set (lk_closed s). lk_gate s i = None \<and> lk_file s \<noteq> Some i)"

lemma lock_invD:
  assumes "lock_inv s"
  shows "lk_gate s i = Some g \<longleftrightarrow> has_gate s g i" "in_body s g i \<Longrightarrow> lk_file s = Some i"
    "i \<in> set (lk_closed s) \<Longrightarrow> lk_gate s i = None" "i \<in> set (lk_closed s) \<Longrightarrow> lk_file s \<noteq> Some i"
  using assms by (auto simp add: lock_inv_def)

lemma in_body_gate: "in_body s g i \<Longrightarrow> has_gate s g i"
  by (auto simp: in_body_def has_gate_def phase_at_def split: option.splits)

lemma phase_goto: "phase_at (goto g k p s) g' i P = (if g' = g then cl_store k = i \<and> P p else phase_at s g' i P)"
  by (simp add: phase_at_def goto_def update_conv')

lemma goto_fields [simp]:
  "lk_gate (goto g k p s) = lk_gate s" "lk_file (goto g k p s) = lk_file s" "lk_closed (goto g k p s) = lk_closed s"
  by (simp_all add: goto_def)

lemma phase_fields [simp]:
  "phase_at (s\<lparr>lk_gate := x\<rparr>) g i P = phase_at s g i P" "phase_at (s\<lparr>lk_file := f\<rparr>) g i P = phase_at s g i P"
  "phase_at (leave_gate j s) g i P = phase_at s g i P"
  by (simp_all add: phase_at_def leave_gate_def)

lemma phase_of: "map_of (lk_callers s) g = Some k \<Longrightarrow> phase_at s g i P \<longleftrightarrow> cl_store k = i \<and> P (cl_phase k)"
  by (simp add: phase_at_def)

text \<open>The phases change along the arrows of \<open>locked\<close>.\<close>

lemma inv_finish_waiting:
  assumes "lock_inv s" "map_of (lk_callers s) g = Some k" "cl_phase k = AtGate d"
  shows "lock_inv (goto g k (Finished e) s)"
  using assms phase_of [OF assms(2)] by (auto simp: lock_inv_def has_gate_def in_body_def phase_goto)

lemma inv_enter_gate:
  assumes "lock_inv s" "map_of (lk_callers s) g = Some k" "cl_phase k = AtGate d" "lk_gate s (cl_store k) = None"
    "cl_store k \<notin> set (lk_closed s)"
  shows "lock_inv (goto g k (AtFile d) (s\<lparr>lk_gate := (lk_gate s)(cl_store k := Some g)\<rparr>))"
proof -
  have "\<not> has_gate s h (cl_store k)" for h using lock_invD(1) [OF assms(1), of "cl_store k" h] assms(4) by simp
  then show ?thesis
    using assms phase_of [OF assms(2)] by (auto simp: lock_inv_def has_gate_def in_body_def phase_goto)
qed

lemma inv_enter_file:
  assumes "lock_inv s" "map_of (lk_callers s) g = Some k" "cl_phase k = AtFile d" "\<not> flock_busy (cl_store k) s"
  shows "lock_inv (goto g k InBody (s\<lparr>lk_file := Some (cl_store k)\<rparr>))"
proof -
  have "lk_gate s (cl_store k) = Some g"
    using assms(1-3) phase_of [OF assms(2)] by (auto simp: lock_inv_def has_gate_def)
  then have "cl_store k \<notin> set (lk_closed s)" using lock_invD(3) [OF assms(1), of "cl_store k"] by auto
  moreover have "i = cl_store k" if "in_body s h i" for h i
    using assms(1,4) that by (auto simp: lock_inv_def flock_busy_def)
  ultimately show ?thesis
    using assms phase_of [OF assms(2)] by (auto simp: lock_inv_def has_gate_def in_body_def phase_goto)
qed

lemma inv_leave:
  assumes "lock_inv s" "map_of (lk_callers s) g = Some k" "past_gate (cl_phase k)"
    and f: "f = lk_file s \<or> (f = None \<and> cl_phase k = InBody)"
  shows "lock_inv (goto g k (Finished e) (leave_gate (cl_store k) (s\<lparr>lk_file := f\<rparr>)))"
proof -
  have gate: "lk_gate s (cl_store k) = Some g"
    using assms(1-3) phase_of [OF assms(2)] by (auto simp: lock_inv_def has_gate_def)
  have only: "h = g" if "has_gate s h (cl_store k)" for h using lock_invD(1) [OF assms(1), of "cl_store k" h] that gate by simp
  have body: "lk_file s = Some i" if "in_body s h i" for h i using assms(1) that by (rule lock_invD(2))
  have one: "i = cl_store k" if b: "in_body s h i" and c: "cl_phase k = InBody" for h i
  proof -
    have "in_body s g (cl_store k)" using c phase_of [OF assms(2)] by (simp add: in_body_def)
    then show ?thesis using body [of g "cl_store k"] body [OF b] by simp
  qed
  have others: "f = Some i" if "in_body s h i" "h \<noteq> g" for h i
    using f body [OF that(1)] one [OF that(1)] only [of h] in_body_gate [OF that(1)] that(2) by auto
  have own: "i = cl_store k" if "has_gate s g i" for i
    using that phase_of [OF assms(2)] by (simp add: has_gate_def)
  define t where "t = goto g k (Finished e) (leave_gate (cl_store k) (s\<lparr>lk_file := f\<rparr>))"
  have t_simps: "has_gate t h i \<longleftrightarrow> h \<noteq> g \<and> has_gate s h i" "in_body t h i \<longleftrightarrow> h \<noteq> g \<and> in_body s h i"
    "lk_gate t = (lk_gate s)(cl_store k := None)" "lk_file t = f" "lk_closed t = lk_closed s" for h i
    by (auto simp: has_gate_def in_body_def phase_goto leave_gate_def t_def)
  have "lk_gate t i = Some h \<longleftrightarrow> has_gate t h i" for h i
  proof (cases "i = cl_store k")
    case True
    then show ?thesis using only [of h] by (auto simp add: t_simps)
  next
    case False
    then have "\<not> has_gate s g i" using own [of i] by blast
    then show ?thesis using False lock_invD(1) [OF assms(1), of i h] by (cases "h = g") (simp_all add: t_simps)
  qed
  moreover have "lk_file t = Some i" if "in_body t h i" for h i
    using that others [of h i] by (auto simp: t_simps)
  moreover have "lk_gate t i = None \<and> lk_file t \<noteq> Some i" if "i \<in> set (lk_closed t)" for i
    using lock_invD(3,4) [OF assms(1), of i] that f by (elim disjE) (simp_all add: t_simps)
  ultimately show ?thesis unfolding lock_inv_def t_def [symmetric] by blast
qed

lemma phase_put: "phase_at (s\<lparr>lk_callers := AList.update g k (lk_callers s)\<rparr>) h i P = (if h = g then cl_store k = i \<and> P (cl_phase k) else phase_at s h i P)"
  by (simp add: phase_at_def update_conv')

lemma inv_call:
  assumes "lock_inv s" "map_of (lk_callers s) g = None"
  shows "lock_inv (s\<lparr>lk_callers := AList.update g \<lparr>cl_store = i, cl_phase = AtGate d\<rparr> (lk_callers s)\<rparr>)"
proof -
  have "\<not> phase_at s g j P" for j P using assms(2) by (simp add: phase_at_def)
  then show ?thesis using assms(1) by (auto simp: lock_inv_def has_gate_def in_body_def phase_put)
qed

lemma inv_close:
  assumes "lock_inv s" "lk_gate s i = None"
  shows "lock_inv (s\<lparr>lk_closed := i # lk_closed s, lk_file := (if lk_file s = Some i then None else lk_file s)\<rparr>)"
proof -
  have "\<not> in_body s g i" for g using assms in_body_gate lock_invD(1) [OF assms(1), of i g] by auto
  then show ?thesis
    using assms by (auto simp: lock_inv_def has_gate_def in_body_def phase_at_def)
qed

lemma lock_step_inv: "lock_inv s \<Longrightarrow> lock_inv (lock_step e s)"
proof (induction e s rule: lock_step.induct)
  case (4 g committed unlocked err s)
  then show ?case
    using inv_leave [of s g _ "if unlocked then None else lk_file s"]
    by (cases unlocked) (auto simp: Let_def split: option.split phase.split)
next
  case (3 g now broken s)
  then show ?case
    using inv_leave [of s g _ "lk_file s"] by (auto simp: inv_enter_file split: option.split phase.split)
qed (auto simp: inv_call inv_close inv_finish_waiting inv_enter_gate List.member_iff split: option.split phase.split)

interpretation locks: machine lock_step lock_inv
  by unfold_locales (rule lock_step_inv)

definition no_locks :: lock_state where
  "no_locks = \<lparr>lk_gate = (\<lambda>_. None), lk_closed = [], lk_file = None, lk_callers = []\<rparr>"

lemma no_locks_inv: "lock_inv no_locks"
  by (simp add: lock_inv_def no_locks_def has_gate_def in_body_def phase_at_def)

text \<open>
  C26. Transactions on the state exclude each other. In every interleaving of calls, waits, timeouts, failing locks,
  unlocks and closes, over any number of stores of the directory, in one process or several: at most one goroutine runs
  a transaction; its store holds the file and it holds the gate of its store; a gate is held by one goroutine that is
  past it and by nobody else, so that no error path keeps one; and a closed store runs nothing.
\<close>

theorem transactions_exclusive:
  assumes "s = fold lock_step es no_locks"
  shows "(\<forall>g h i j. in_body s g i \<and> in_body s h j \<longrightarrow> g = h \<and> i = j) \<and>
    (\<forall>g i. in_body s g i \<longrightarrow> lk_file s = Some i \<and> lk_gate s i = Some g \<and> i \<notin> set (lk_closed s)) \<and>
    (\<forall>g i. lk_gate s i = Some g \<longleftrightarrow> has_gate s g i)"
proof -
  have inv: "lock_inv s" unfolding assms by (rule locks.run_inv [OF no_locks_inv])
  have body: "lk_file s = Some i" "lk_gate s i = Some g" "i \<notin> set (lk_closed s)" if "in_body s g i" for g i
  proof -
    show "lk_file s = Some i" using inv that by (rule lock_invD(2))
    show "lk_gate s i = Some g" using lock_invD(1) [OF inv] in_body_gate [OF that] by blast
    then show "i \<notin> set (lk_closed s)" using lock_invD(3) [OF inv, of i] by auto
  qed
  have "g = h \<and> i = j" if "in_body s g i" "in_body s h j" for g h i j
    using body(1) [OF that(1)] body(1) [OF that(2)] body(2) [OF that(1)] body(2) [OF that(2)] by simp
  with body lock_invD(1) [OF inv] show ?thesis by blast
qed

text \<open>Two stores: the second waits for the file while the first runs, and runs when the first has left.\<close>

lemma transactions_exclusive_witness:
  "let es = [LkCall 0 7 50, LkCall 1 8 50, LkGate 0 1, LkGate 1 1, LkFile 0 2 False, LkFile 1 2 False];
       s = fold lock_step es no_locks;
       s' = fold lock_step (es @ [LkLeave 0 True True [], LkFile 1 12 False]) no_locks in
   in_body s 0 7 \<and> \<not> in_body s 1 8 \<and> lk_file s = Some 7 \<and> lk_gate s 8 = Some 1 \<and> in_body s' 1 8 \<and> lk_file s' = Some 8"
proof -
  let ?es = "[LkCall 0 7 50, LkCall 1 8 50, LkGate 0 1, LkGate 1 1, LkFile 0 2 False, LkFile 1 2 False]"
  let ?s = "fold lock_step ?es no_locks" and ?s' = "fold lock_step (?es @ [LkLeave 0 True True [], LkFile 1 12 False]) no_locks"
  have s: "in_body ?s 0 7" "in_body ?s' 1 8" "has_gate ?s 1 8"
    by (simp_all add: no_locks_def goto_def flock_busy_def leave_gate_def in_body_def has_gate_def phase_at_def Let_def)
  note x = transactions_exclusive [OF refl, of ?es] and x' = transactions_exclusive [OF refl, of "?es @ [LkLeave 0 True True [], LkFile 1 12 False]"]
  have "lk_file ?s = Some 7" "lk_gate ?s 8 = Some 1" using x s(1,3) by blast+
  moreover have "\<not> in_body ?s 1 8" using x s(1) by (metis zero_neq_one)
  moreover have "lk_file ?s' = Some 8" using x' s(2) by blast
  ultimately show ?thesis using s unfolding Let_def by blast
qed

text \<open>The wait for the file ends: it needs no attempt after the first that sees the deadline, takes a free lock at the first
  attempt however late it is, and sleeps at most ten milliseconds at a time.\<close>

lemma acquireFileLock_ends:
  assumes "(a, now) \<in> set as" "deadline \<le> now" shows "acquireFileLock deadline as \<noteq> None"
  using assms by (induction as) (auto split: flock_answer.split)

lemma acquireFileLock_late: "acquireFileLock deadline ((Locked, now) # rest) = Some (None, [])"
  by simp

lemma acquireFileLock_naps:
  "acquireFileLock deadline as = Some (r, ws) \<Longrightarrow> w \<in> set ws \<Longrightarrow> 0 < w \<and> w \<le> 10000000"
  by (induction as arbitrary: r ws) (auto split: flock_answer.splits if_splits)

text \<open>A step of the machine answers what \<open>locked\<close> answers in one step.\<close>

lemma lock_errors:
  "\<not> f_gate f \<Longrightarrow> fst (fst (locked f d fn s)) = [ErrLockTimeout]"
  "f_gate f \<Longrightarrow> st_closed s \<Longrightarrow> fst (fst (locked f d fn s)) = [ErrClosed]"
  "f_gate f \<Longrightarrow> \<not> st_closed s \<Longrightarrow> \<not> f_lock f \<Longrightarrow> fst (fst (locked f d fn s)) = [LockFailed]"
  by (simp_all add: locked_def)

text \<open>No path of opening and closing keeps a descriptor.\<close>

lemma openAt_descriptors: "snd (openAt dir t a b c fds) = (case fst (openAt dir t a b c fds) of Inl _ \<Rightarrow> fds | Inr _ \<Rightarrow> Suc fds)"
  by (simp add: openAt_def)

lemma openAt_timeout: "fst (openAt dir t a b c fds) = Inr h \<Longrightarrow> 0 < sh_lockTimeout h"
  by (auto simp: openAt_def defaultLockTimeout_def split: if_splits)

section \<open>The home of the state\<close>

lemma dropWhile_slash: "CHR ''/'' \<notin> set t \<Longrightarrow> filepath_Dir (d @ ''/'' @ t) = filepath_Clean (d @ ''/'')"
proof -
  assume "CHR ''/'' \<notin> set t"
  then have "dropWhile (\<lambda>c. c \<noteq> CHR ''/'') (rev t @ ''/'' @ rev d) = ''/'' @ rev d"
    by (subst dropWhile_append2) auto
  then show ?thesis by (simp add: filepath_Dir_def)
qed

text \<open>Whatever \<open>HERMES_HOME\<close> is, when it is rooted, the Hermes home is that directory and the state lies in \<open>remote\<close> below it.\<close>

lemma HermesHome_rooted:
  assumes "has_prefix h ''/''"
  shows "state_Dir h u = Some (rooted (Clean h @ [''remote'']))" "HermesHome h u = Some (filepath_Clean h)"
proof -
  have r: "has_prefix (h @ t) ''/''" for t using assms by (cases h) (auto simp: has_prefix_def)
  have "Clean (h @ ''/remote'') = Clean h @ [''remote'']"
    using split_on_snoc [of "CHR ''/''" h "''remote''"] by (simp add: Clean_def clean_push_def)
  then have j: "filepath_Join h ''remote'' = rooted (Clean h @ [''remote''])"
    using assms r by (auto simp: filepath_Join_def filepath_Clean_def has_prefix_def)
  then show d: "state_Dir h u = Some (rooted (Clean h @ [''remote'']))" using assms by (auto simp: state_Dir_def has_prefix_def)
  have "rooted (Clean h @ [''remote'']) = concat (map (\<lambda>s. CHR ''/'' # s) (Clean h)) @ ''/'' @ ''remote''" by (simp add: rooted_def)
  then have "filepath_Dir (rooted (Clean h @ [''remote''])) = filepath_Clean (concat (map (\<lambda>s. CHR ''/'' # s) (Clean h)) @ ''/'')"
    using dropWhile_slash [of "''remote''" "concat (map (\<lambda>s. CHR ''/'' # s) (Clean h))"] by simp
  moreover have "Clean (concat (map (\<lambda>s. CHR ''/'' # s) (Clean h)) @ ''/'') = Clean h"
  proof (cases "Clean h = []")
    case True
    then show ?thesis by (simp add: Clean_def clean_push_def)
  next
    case False
    then show ?thesis using Clean_rooted [OF clean_Clean, of h] unfolding Clean_slash rooted_def by simp
  qed
  moreover have "has_prefix (concat (map (\<lambda>s. CHR ''/'' # s) (Clean h)) @ ''/'') ''/''" by (cases "Clean h") (auto simp: has_prefix_def)
  ultimately show "HermesHome h u = Some (filepath_Clean h)" using assms by (simp add: HermesHome_def d filepath_Clean_def)
qed

end
