(* ===== verification/RelayCommand.thy ===== *)
theory RelayCommand
  imports RelayServer
begin

text \<open>
  cmd/hermes-relay/main.go: from the flags and the environment to the limits of the relay's server.
\<close>

section \<open>Flags\<close>

record relay_flags =
  fl_listen :: "string option"
  fl_maxPhones :: int
  fl_perIP :: int
  fl_trustedProxies :: "string option"
  fl_version :: bool

datatype relay_start = PrintVersion | InvalidProxies | Starts string ServerLimits

definition envOr :: "string option \<Rightarrow> string \<Rightarrow> string" where
  "envOr v d = (case v of Some s \<Rightarrow> if s \<noteq> [] then s else d | None \<Rightarrow> d)"

text \<open>A flag that is given wins over the environment, also when it is empty.\<close>

definition relay_main :: "(string \<Rightarrow> string option) \<Rightarrow> relay_flags \<Rightarrow> relay_start" where
  "relay_main env f =
     (let addr = (case fl_listen f of Some a \<Rightarrow> a | None \<Rightarrow> envOr (env ''RELAY_LISTEN'') '':8080'');
          proxies = (case fl_trustedProxies f of Some p \<Rightarrow> p | None \<Rightarrow> envOr (env ''RELAY_TRUSTED_PROXIES'') ''127.0.0.0/8,::1/128'') in
      if fl_version f then PrintVersion
      else case ParseTrustedProxies proxies of
          None \<Rightarrow> InvalidProxies
        | Some ps \<Rightarrow> Starts addr (New \<lparr>MaxPhonesPerSession = nat (fl_maxPhones f), MaxPendingPerSession = 0, MaxPendingPerIP = 0,
            AdmissionTimeout = 0, IdleTimeout = 0, BytesPerSecond = 0, Burst = 0, ConnectionsPerIPPerMinute = fl_perIP f,
            MaxFrame = 0, TrustedProxies = ps\<rparr>))"

definition no_flags :: relay_flags where
  "no_flags = \<lparr>fl_listen = None, fl_maxPhones = 0, fl_perIP = 0, fl_trustedProxies = None, fl_version = False\<rparr>"

section \<open>Facts\<close>

text \<open>Whatever the flags, a relay that starts admits somebody, limits everybody, and trusts some proxy.\<close>

lemma relay_limits:
  assumes "relay_main env f = Starts a l"
  shows "0 < MaxPhonesPerSession l" "0 < ConnectionsPerIPPerMinute l" "TrustedProxies l \<noteq> []"
    "MaxPendingPerSession l = 8" "MaxPendingPerIP l = 4" "MaxFrame l = int MaxPlaintext + 1024"
proof -
  obtain ps where l: "l = New \<lparr>MaxPhonesPerSession = nat (fl_maxPhones f), MaxPendingPerSession = 0, MaxPendingPerIP = 0,
      AdmissionTimeout = 0, IdleTimeout = 0, BytesPerSecond = 0, Burst = 0, ConnectionsPerIPPerMinute = fl_perIP f,
      MaxFrame = 0, TrustedProxies = ps\<rparr>"
    using assms by (auto simp: relay_main_def Let_def split: option.splits if_splits)
  show "0 < MaxPhonesPerSession l" "0 < ConnectionsPerIPPerMinute l" "TrustedProxies l \<noteq> []"
    "MaxPendingPerSession l = 8" "MaxPendingPerIP l = 4" "MaxFrame l = int MaxPlaintext + 1024"
    by (simp_all add: l New_def positive_or_def DefaultLimits_def DefaultTrustedProxies_def RelayMaxPhones_def Let_def)
qed

text \<open>A list with one bad entry does not start the relay, and an empty one means the default, not nobody.\<close>

lemma relay_proxies:
  "ParseTrustedProxies p = None \<Longrightarrow> \<not> fl_version f \<Longrightarrow> relay_main env (f\<lparr>fl_trustedProxies := Some p\<rparr>) = InvalidProxies"
  "\<not> fl_version f \<Longrightarrow> \<exists>a l. relay_main env (f\<lparr>fl_trustedProxies := Some []\<rparr>) = Starts a l \<and> TrustedProxies l = DefaultTrustedProxies"
  by (simp_all add: relay_main_def Let_def ParseTrustedProxies_def New_def TrimSpace_def)

lemma default_proxies: "ParseTrustedProxies ''127.0.0.0/8,::1/128'' = Some DefaultTrustedProxies"
proof -
  have trim: "TrimSpace ''127.0.0.0/8,::1/128'' = ''127.0.0.0/8,::1/128''" "TrimSpace ''127.0.0.0/8'' = ''127.0.0.0/8''"
    "TrimSpace ''::1/128'' = ''::1/128''"
    using TrimSpace_graphic [of "CHR ''1''" "CHR ''8''" "''27.0.0.0/8,::1/12''"] TrimSpace_graphic [of "CHR ''1''" "CHR ''8''" "''27.0.0.0/''"]
      TrimSpace_graphic [of "CHR '':''" "CHR ''8''" "'':1/12''"] by simp_all
  have "ParsePrefix ''127.0.0.0/8'' = Some (Prefix (V4 [127, 0, 0, 0]) 8)" by code_simp
  moreover have "ParsePrefix ''::1/128'' = Some (Prefix (V6 [0, 0, 0, 0, 0, 0, 0, 1] []) 128)" by code_simp
  ultimately show ?thesis by (simp add: ParseTrustedProxies_def trim DefaultTrustedProxies_def)
qed

lemma default_relay: "relay_main (\<lambda>_. None) no_flags = Starts '':8080'' (DefaultLimits\<lparr>TrustedProxies := DefaultTrustedProxies\<rparr>)"
  by (simp add: relay_main_def no_flags_def envOr_def default_proxies New_def positive_or_def DefaultLimits_def DefaultTrustedProxies_def
      RelayMaxPhones_def Second_def MaxPlaintext_def Let_def)

end
