(* ===== verification/Spec2Isabelle.thy ===== *)
theory Spec2Isabelle
  imports RelayServerSafety Pairing Chunks StateStoreSafety WorkPools AdmissionSafety BlobSafety BlobSpool FolderSafety RelayMux
    SupervisorSafety PushSafety Tunnel UpdateSafety LaunchdSafety PlistSafety Control PushGateway AdminCommands QRText EndToEnd Serving StateLock
    RelayCommand
begin

text \<open>
  Hermote-bridge makes the Hermes agent of a Mac reachable from a phone. This library models its Go code as HOL
  functions and proves what the code promises to the phone, to the person at the Mac and to the operator of a relay.

  \<^bold>\<open>The program.\<close> The daemon (cmd/hermote-bridge/daemon.go) supervises one gateway child on a loopback port
  (internal/gateway), serves phones over WebSockets (internal/bridge) and the command line over a Unix socket
  (internal/control). A phone reaches the bridge directly over Tailscale or through a relay (internal/relay), which
  forwards sealed frames it cannot read and to which the bridge keeps one multiplexed connection
  (internal/bridge/relay_client.go). A connection starts with the handshake of internal/protocol: Hello, Accept,
  Confirm, ephemeral keys, signatures over the transcript, and either a trusted key or a proof of a pairing code. After
  it, every message travels in an envelope with a counter; large messages are chunked. The messages carry gateway
  sockets, REST requests, attachments and terminals; a work pool bounds each kind. Trusted phones, the identity and the
  configuration are files (internal/state). A watcher pushes what phones miss (internal/push). The command line
  (cmd/hermote-bridge/main.go) installs the daemon as a LaunchAgent (internal/launchd) and prints pairing codes
  (internal/qr); internal/update says whether a newer release exists.

  \<^bold>\<open>How code becomes definitions.\<close> A struct is a record with the fields in the order of the source, an enumeration a
  datatype, a \<open>uint64\<close> counter a \<open>64 word\<close>, a byte string a list of 8-bit words, a Go string the list of its bytes, a map
  an association list (\<open>gomap\<close>) whose keys are distinct. An operation that holds a lock is one function on the state;
  where locks are released in between, each critical section is a step, so that every interleaving is a sequence of
  steps (\<open>adm_step\<close>, \<open>server_step\<close>, \<open>session_step\<close>, \<open>pool_step\<close>, \<open>mux_step\<close>, \<open>lister_step\<close>, \<open>sup_step\<close>, \<open>tunnel_step\<close>, \<open>lock_step\<close>,
  \<open>pty_step\<close>, \<open>blob_step_rel\<close>). A pointer that the code compares is a number used once (connections, phones, sessions,
  terminals, children). An error is a value: \<open>Inl\<close>, \<open>None\<close> or a list that is empty for nil. What the world answers
  (clock, randomness, disk, sockets, child processes, launchctl, the Tailscale CLI, GitHub, APNs) is an argument; a
  goroutine that waits is a list of what it sees. Cryptography is the record \<open>crypto\<close> of the primitives of Go's standard
  library, and a theorem names the documented behaviour it needs (\<open>sig_correct\<close>, \<open>aead_correct\<close>, \<open>hash_sizes\<close>, ...);
  \<open>toy_crypto\<close> shows that these can hold together. Functions of the standard library that the results depend on
  (base64, JSON, UTF-8, trimming, addresses, paths, URLs, XML, query encoding) are definitions.

  \<^bold>\<open>The theories.\<close>
  \<^item> Base: \<open>Prelude\<close> (bytes, maps, lists), \<open>Interfaces\<close> (the locales), \<open>Crypto\<close>, \<open>Encoding\<close>, \<open>GoText\<close>, \<open>JsonText\<close>,
    \<open>JsonQuote\<close>, \<open>JsonRaw\<close>, \<open>NetIP\<close>, \<open>Paths\<close>, \<open>XmlText\<close>: the standard library, with round trips and termination.
  \<^item> internal/protocol: \<open>Envelope\<close> (envelope.go), \<open>Chunks\<close> (messages.go), \<open>Identity\<close> (identity.go, b64.go, the attach
    proof), \<open>Handshake\<close> and \<open>HandshakeSafety\<close> (handshake.go), \<open>RelayFrames\<close> (relay.go), \<open>PairLink\<close> (pair.go).
  \<^item> internal/relay: \<open>RelaySession\<close>, \<open>RelaySafety\<close> (one session and its limits), \<open>RelayServer\<close>, \<open>RelayServerSafety\<close>
    (addresses, rates, attach, forwarding), \<open>RelayCommand\<close> (cmd/hermes-relay: flags into limits).
  \<^item> internal/state: \<open>StateStore\<close>, \<open>StateStoreSafety\<close>, \<open>StateLock\<close> (state.go, flock_unix.go).
  \<^item> internal/bridge: \<open>Pairing\<close> (pairing.go, vouching), \<open>Admission\<close>, \<open>AdmissionSafety\<close>,
    \<open>Serving\<close> (server.go), \<open>Channel\<close>
    (\<open>conn.send\<close>, \<open>conn.recv\<close>), \<open>WorkPools\<close> (limits.go), \<open>Routes\<close>, \<open>HTTPProxy\<close>, \<open>FolderLister\<close>, \<open>FolderSafety\<close> (fs.go,
    fs_listing.go), \<open>BlobValidation\<close>, \<open>BlobUploads\<close>, \<open>BlobGateway\<close>, \<open>BlobSpool\<close>, \<open>BlobSafety\<close> (blob*.go), \<open>Terminals\<close>
    (pty.go), \<open>Tunnel\<close> (tunnel.go), \<open>RelayMux\<close> (relay_client.go).
  \<^item> internal/gateway: \<open>Supervisor\<close>, \<open>SupervisorSafety\<close>. internal/push: \<open>PushAlerts\<close>, \<open>PushWatcher\<close>, \<open>PushGateway\<close>,
    \<open>PushSafety\<close>. internal/update and the status document: \<open>Update\<close>, \<open>Install\<close>, \<open>UpdateSafety\<close>. internal/tailscale:
    \<open>Tailscale\<close>. internal/control: \<open>Control\<close>. internal/qr: \<open>QRText\<close>.
  \<^item> internal/launchd: \<open>Launchd\<close> (the plist and the service manager over a state monad), \<open>LaunchdSafety\<close> (triples,
    \<open>one_daemon\<close>, \<open>failed_install_restores\<close>), \<open>PlistSafety\<close>.
  \<^item> cmd/hermote-bridge: \<open>Daemon\<close>, \<open>DaemonSafety\<close>, \<open>Setup\<close>, \<open>Commands\<close>, \<open>AdminCommands\<close>, \<open>EndToEnd\<close>
    (the pairing half of selftest.go against the daemon and its admission).

  \<^bold>\<open>Interfaces.\<close> \<open>codec\<close> and \<open>strict_codec\<close>: what encoders and decoders promise (base64, hex, JSON, Confirm, relay
  frames). \<open>machine\<close>: a step function with an invariant, whose \<open>run_inv\<close> carries every invariant over runs.
  \<open>slot_pool\<close>: a counted resource. \<open>trust_registry\<close>: what admission needs of the store. \<open>incarnation_table\<close>: channel
  numbers that are reused. \<open>registration_store\<close>: the push registry as a map. \<open>reversible\<close>: a change with an undo, which
  installing and rolling back a service is, and which \<open>up\<close> uses. Each is interpreted on the model's own definitions.

  \<^bold>\<open>What is proved.\<close>
  \<^item> Secrecy and order of messages: no nonce is used twice, no sealed frame is accepted twice or out of order, streams
    and chunks arrive unchanged, the tunnel passes frames through in order.
  \<^item> Admission: honest ends complete the handshake; a connection is published only for the holder of a key that was
    trusted or proved a pairing code, and, in every interleaving of handshakes, revocations and store operations, an
    open published connection belongs to a trusted device or the revocation that removed it is running; a pairing code
    works once; the link the daemon prints leads to this bridge and its code, and a phone
    that scans it in time is paired; a phone hears nothing before it is admitted, and first that it is.
  \<^item> The relay: limits in every reachable state, fair displacement, takeover only with the session's key, faithful
    forwarding.
  \<^item> The bridge as a gatekeeper: the checked path is the requested path, the token stays at the gateway's origin,
    uploads stay within the quota and are committed whole, pools and shells are bounded, nothing a phone sends widens
    trust.
  \<^item> State: one transaction at a time across stores and processes, atomic writes that say whether they took effect, revocations that last, a revocation end to end.
  \<^item> Service: \<open>up\<close> replaces the daemon or restores what was there, never two daemons, the wait for the new one ends,
    the control socket belongs to the daemon that serves, settings stick, the plist reads back.
  \<^item> Gateway, push and updates: ready means probed, alerts once and only to paired phones that want them, bounded
    release checks, confined downloads.

  Lemmas record where the code falls short of its intent: \<open>Pairing.hello_replay_gap\<close>,
  \<open>SupervisorSafety.stop_misses_starting_child\<close>, \<open>PushSafety.sound_leaks\<close>, \<open>PushSafety.online_round_skipped\<close>,
  \<open>PushAlerts.clip_exceeds\<close>, \<open>Terminals.resize_after_close_fails\<close>, \<open>AdminCommands.push_setup_outcome\<close>.

  \<^bold>\<open>Bounds and fuel.\<close> Loops with a constant bound in the source recurse on that constant (five attempts of \<open>bootstrap\<close>,
  50 and 150 polls of the service, three attempts to publish an admission, three questions about the transport). Parsers
  recurse on the length of what is left. \<open>parse_value\<close> has fuel twice the length of the text plus two, which its round
  trip shows to be enough. Loops over answers of the world (\<open>wait_running\<close>, \<open>wait_loop\<close>, \<open>await_reply\<close>) recurse on the list
  of answers and yield \<open>None\<close> when it ends first; \<open>daemon_wait_ends\<close> bounds the one that has a deadline.

  \<^bold>\<open>Not modelled.\<close> net/http, the WebSocket library, goroutine scheduling below the level of critical sections, contexts
  other than as answers, log lines and most printed text, flag parsing, the QR encoder, the parsing of PEM keys and the
  ES256 signature (parameters), the rest of selftest.go (printed checks over the modelled channel) and the
  test helpers.
\<close>

end
